(* ===== verification/Prelude.thy ===== *)
theory Prelude
  imports Main "HOL-Library.Word" "HOL-Library.Monad_Syntax"
begin

text \<open>
  Shared types, byte-level helpers and their automation.

  The program's unsigned integers are words of their width. Memory is a list of bytes; a
  C++ read or write through a pointer that would leave the memory is the value
  \<open>None\<close>, so undefined behaviour is never hidden behind a total HOL function. The
  machine is little-endian (x86-64, the platform the project builds for): a
  \<open>reinterpret_cast\<close> of an integer's address to bytes gives
  \<open>word_bytes\<close>.
\<close>

unbundle bit_operations_syntax

named_theorems byte_simps \<open>length, take, drop and split facts about byte sequences\<close>

type_synonym u8 = "8 word"
type_synonym u16 = "16 word"
type_synonym u32 = "32 word"
type_synonym u64 = "64 word"
type_synonym bytes = "u8 list"

section \<open>Little-endian numbers\<close>

fun le_of_nat :: "nat \<Rightarrow> nat \<Rightarrow> bytes" where
  "le_of_nat 0 k = []"
| "le_of_nat (Suc n) k = of_nat k # le_of_nat n (k div 256)"

fun le_to_nat :: "bytes \<Rightarrow> nat" where
  "le_to_nat [] = 0"
| "le_to_nat (b # bs) = unat b + 256 * le_to_nat bs"

definition word_bytes :: "'a::len word \<Rightarrow> bytes" where
  "word_bytes w = le_of_nat (LENGTH('a) div 8) (unat w)"

definition bytes_word :: "bytes \<Rightarrow> 'a::len word" where
  "bytes_word bs = of_nat (le_to_nat bs)"

lemma length_le_of_nat [simp, byte_simps]: "length (le_of_nat n k) = n"
  by (induction n arbitrary: k) auto

lemma length_word_bytes [simp, byte_simps]:
  "length (word_bytes (w :: 'a::len word)) = LENGTH('a) div 8"
  by (simp add: word_bytes_def)

lemma le_to_nat_of_nat: "le_to_nat (le_of_nat n k) = k mod 256 ^ n"
proof (induction n arbitrary: k)
  case 0
  then show ?case by simp
next
  case (Suc n)
  have "unat (of_nat k :: u8) = k mod 256"
    by (simp add: unat_of_nat)
  then show ?case
    by (simp add: Suc mod_mult2_eq)
qed

lemma bytes_word_word_bytes [simp]:
  assumes "8 dvd LENGTH('a)"
  shows "bytes_word (word_bytes (w :: 'a::len word)) = w"
proof -
  obtain k where k: "LENGTH('a) = 8 * k"
    using assms by (elim dvdE)
  have "(256 :: nat) ^ k = 2 ^ (8 * k)"
    by (simp add: power_mult)
  moreover have "unat w < 2 ^ LENGTH('a)"
    by simp
  ultimately show ?thesis
    using k by (simp add: bytes_word_def word_bytes_def le_to_nat_of_nat)
qed

section \<open>Writing into and reading from memory\<close>

text \<open>
  \<open>mem_write p bs m\<close> copies the bytes \<open>bs\<close> to offset \<open>p\<close> of the memory
  \<open>m\<close>, and is \<open>None\<close> when the copy would leave it. \<open>slice\<close> reads a half-open
  range.
\<close>

definition write_at :: "nat \<Rightarrow> 'a list \<Rightarrow> 'a list \<Rightarrow> 'a list" where
  "write_at p bs m = take p m @ bs @ drop (p + length bs) m"

definition mem_write :: "nat \<Rightarrow> 'a list \<Rightarrow> 'a list \<Rightarrow> 'a list option" where
  "mem_write p bs m = (if p + length bs \<le> length m then Some (write_at p bs m) else None)"

definition slice :: "nat \<Rightarrow> nat \<Rightarrow> 'a list \<Rightarrow> 'a list" where
  "slice lo hi m = take (hi - lo) (drop lo m)"

definition read_bytes :: "nat \<Rightarrow> 'a list \<Rightarrow> ('a list \<times> 'a list) option" where
  "read_bytes n d = (if n \<le> length d then Some (take n d, drop n d) else None)"

lemma length_write_at [simp, byte_simps]:
  "p + length bs \<le> length m \<Longrightarrow> length (write_at p bs m) = length m"
  by (simp add: write_at_def)

lemma write_at_Nil [simp]: "write_at p [] m = m"
  by (simp add: write_at_def)

lemma write_at_append:
  "p \<le> length m \<Longrightarrow>
    write_at (p + length bs) cs (write_at p bs m) = write_at p (bs @ cs) m"
  by (simp add: write_at_def min_def add.commute add.left_commute)

lemma length_slice [simp, byte_simps]:
  "hi \<le> length m \<Longrightarrow> length (slice lo hi m) = hi - lo"
  by (simp add: slice_def)

lemma slice_empty [simp]: "slice p p m = []"
  by (simp add: slice_def)

lemma slice_write_at:
  "p \<le> length m \<Longrightarrow> slice p (p + length bs) (write_at p bs m) = bs"
  by (simp add: slice_def write_at_def)

lemma slice_write_at_below:
  "hi \<le> p \<Longrightarrow> p + length bs \<le> length m \<Longrightarrow> slice lo hi (write_at p bs m) = slice lo hi m"
  by (auto simp: slice_def write_at_def drop_take min_def intro!: nth_equalityI)

lemma slice_write_at_above:
  "p + length bs \<le> lo \<Longrightarrow> p + length bs \<le> length m \<Longrightarrow>
    slice lo hi (write_at p bs m) = slice lo hi m"
  by (simp add: slice_def write_at_def)

lemma slice_join:
  assumes "a \<le> b" and "b \<le> c"
  shows "slice a b m @ slice b c m = slice a c m"
proof -
  have "c - a = (b - a) + (c - b)" and "drop (b - a) (drop a m) = drop b m"
    using assms by simp_all
  then show ?thesis
    unfolding slice_def by (simp only: take_add)
qed

lemma read_bytes_append [simp]:
  "length s = n \<Longrightarrow> read_bytes n (s @ r) = Some (s, r)"
  by (simp add: read_bytes_def)

lemma read_bytes_Some_length:
  "read_bytes n d = Some (s, r) \<Longrightarrow> length s = n \<and> d = s @ r"
  by (auto simp: read_bytes_def split: if_splits)

lemma mem_write_eq [simp]:
  "p + length bs \<le> length m \<Longrightarrow> mem_write p bs m = Some (write_at p bs m)"
  "length m < p + length bs \<Longrightarrow> mem_write p bs m = None"
  by (simp_all add: mem_write_def)

end
