(* ===== verification/Cacheable.thy ===== *)
theory Cacheable
  imports Prelude
begin

text \<open>
  The byte codec of the trace cache (\<open>core/trace_cache/cacheable.hpp\<close>).

  The templates \<open>get_size\<close>, \<open>store_value\<close> and \<open>parse_value\<close> dispatch on the
  decayed type of their argument with \<open>if constexpr\<close>. The type \<open>cval\<close> is
  that dispatch made explicit: one constructor for each argument type the samples use, and
  the functions below branch as the templates do. A \<open>double\<close> is its 64-bit pattern
  (the code only copies it); signed integers are their two's-complement words; a
  \<open>std::string_view\<close> is its bytes; a \<open>std::vector\<close> is its item size with the
  bytes of each item.

  A write is at an absolute offset of the memory the buffer pointer points into, so the pair
  (\<open>buffer\<close>, \<open>position\<close>) of the code is one offset here.
\<close>

section \<open>Values\<close>

datatype cval =
    VU8 u8
  | VU32 u32
  | VU64 u64
  | VI32 u32
  | VI64 u64
  | VF64 u64
  | VStr bytes
  | VVec nat "bytes list"

text \<open>
  What the C++ types guarantee: every item of a vector occupies its item size, and no object
  is larger than the address space, so a byte count fits in \<open>size_t\<close>.
\<close>

fun wf_cval :: "cval \<Rightarrow> bool" where
  "wf_cval (VStr s) = (length s < 2 ^ 64)"
| "wf_cval (VVec w items) =
     (0 < w \<and> list_all (\<lambda>b. length b = w) items \<and> length items * w < 2 ^ 64)"
| "wf_cval _ = True"

section \<open>Sizes\<close>

definition sizeof_size_t :: nat where
  "sizeof_size_t = 8"

fun get_size :: "cval \<Rightarrow> nat" where
  "get_size (VU8 v) = 1"
| "get_size (VU32 v) = 4"
| "get_size (VU64 v) = 8"
| "get_size (VI32 v) = 4"
| "get_size (VI64 v) = 8"
| "get_size (VF64 v) = 8"
| "get_size (VStr s) = (let item_size = 1; item_count = length s;
     total_size = item_count * item_size in total_size + sizeof_size_t)"
| "get_size (VVec w items) = (let item_size = w; item_count = length items;
     total_size = item_count * item_size in total_size + sizeof_size_t)"

text \<open>The variadic overload adds the sizes of its arguments.\<close>

fun get_sizes :: "cval list \<Rightarrow> nat" where
  "get_sizes [] = 0"
| "get_sizes (v # vs) = get_size v + get_sizes vs"

section \<open>Storing\<close>

definition store_container :: "nat \<Rightarrow> bytes \<Rightarrow> bytes \<Rightarrow> nat \<Rightarrow> (bytes \<times> nat) option" where
  "store_container total_size src mem pos = do {
     let header_size = sizeof_size_t;
     let data_size = total_size - header_size;
     mem \<leftarrow> mem_write pos (word_bytes (of_nat data_size :: u64)) mem;
     mem \<leftarrow> mem_write (pos + sizeof_size_t) (take data_size src) mem;
     Some (mem, pos + total_size) }"

definition store_scalar :: "bytes \<Rightarrow> bytes \<Rightarrow> nat \<Rightarrow> (bytes \<times> nat) option" where
  "store_scalar bs mem pos = do {
     mem \<leftarrow> mem_write pos bs mem;
     Some (mem, pos + length bs) }"

fun store_value :: "cval \<Rightarrow> bytes \<Rightarrow> nat \<Rightarrow> (bytes \<times> nat) option" where
  "store_value (VU8 v) mem pos = store_scalar (word_bytes v) mem pos"
| "store_value (VU32 v) mem pos = store_scalar (word_bytes v) mem pos"
| "store_value (VU64 v) mem pos = store_scalar (word_bytes v) mem pos"
| "store_value (VI32 v) mem pos = store_scalar (word_bytes v) mem pos"
| "store_value (VI64 v) mem pos = store_scalar (word_bytes v) mem pos"
| "store_value (VF64 v) mem pos = store_scalar (word_bytes v) mem pos"
| "store_value (VStr s) mem pos = store_container (get_size (VStr s)) s mem pos"
| "store_value (VVec w items) mem pos =
     store_container (get_size (VVec w items)) (concat items) mem pos"

text \<open>The variadic overload starts at position 0 of the buffer and folds over its values.\<close>

fun store_values :: "cval list \<Rightarrow> bytes \<Rightarrow> nat \<Rightarrow> (bytes \<times> nat) option" where
  "store_values [] mem pos = Some (mem, pos)"
| "store_values (v # vs) mem pos = do {
     (mem, pos) \<leftarrow> store_value v mem pos;
     store_values vs mem pos }"

section \<open>Parsing\<close>

text \<open>
  \<open>parse_value arg data_pos\<close> overwrites \<open>arg\<close> (whose constructor is its C++ type)
  from the bytes at \<open>data_pos\<close> and returns the advanced pointer. A vector argument is
  appended to, as \<open>std::back_inserter\<close> does. Reading past the memory is \<open>None\<close>.
\<close>

fun split_items :: "nat \<Rightarrow> nat \<Rightarrow> bytes \<Rightarrow> bytes list" where
  "split_items w 0 d = []"
| "split_items w (Suc n) d = take w d # split_items w n (drop w d)"

fun parse_value :: "cval \<Rightarrow> bytes \<Rightarrow> (cval \<times> bytes) option" where
  "parse_value (VU8 _) d = do { (b, d) \<leftarrow> read_bytes 1 d; Some (VU8 (bytes_word b), d) }"
| "parse_value (VU32 _) d = do { (b, d) \<leftarrow> read_bytes 4 d; Some (VU32 (bytes_word b), d) }"
| "parse_value (VU64 _) d = do { (b, d) \<leftarrow> read_bytes 8 d; Some (VU64 (bytes_word b), d) }"
| "parse_value (VI32 _) d = do { (b, d) \<leftarrow> read_bytes 4 d; Some (VI32 (bytes_word b), d) }"
| "parse_value (VI64 _) d = do { (b, d) \<leftarrow> read_bytes 8 d; Some (VI64 (bytes_word b), d) }"
| "parse_value (VF64 _) d = do { (b, d) \<leftarrow> read_bytes 8 d; Some (VF64 (bytes_word b), d) }"
| "parse_value (VStr _) d = do {
     (h, d) \<leftarrow> read_bytes sizeof_size_t d;
     let string_size = unat (bytes_word h :: u64);
     (s, d) \<leftarrow> read_bytes string_size d;
     Some (VStr s, d) }"
| "parse_value (VVec w arg) d = do {
     (h, d) \<leftarrow> read_bytes sizeof_size_t d;
     let total_size = unat (bytes_word h :: u64);
     (b, d) \<leftarrow> read_bytes total_size d;
     Some (VVec w (arg @ split_items w (total_size div w) b), d) }"

fun parse_values :: "cval list \<Rightarrow> bytes \<Rightarrow> (cval list \<times> bytes) option" where
  "parse_values [] d = Some ([], d)"
| "parse_values (a # as) d = do {
     (v, d) \<leftarrow> parse_value a d;
     (vs, d) \<leftarrow> parse_values as d;
     Some (v # vs, d) }"

text \<open>
  A value of a fresh (default-initialised) argument of the same type: what \<open>deserialize\<close>
  passes to \<open>parse_value\<close>.
\<close>

fun fresh :: "cval \<Rightarrow> cval" where
  "fresh (VU8 _) = VU8 0"
| "fresh (VU32 _) = VU32 0"
| "fresh (VU64 _) = VU64 0"
| "fresh (VI32 _) = VI32 0"
| "fresh (VI64 _) = VI64 0"
| "fresh (VF64 _) = VF64 0"
| "fresh (VStr _) = VStr []"
| "fresh (VVec w _) = VVec w []"

section \<open>The bytes of a value\<close>

text \<open>The abstract codec: the bytes a value denotes, and their parser's round trip.\<close>

fun encode :: "cval \<Rightarrow> bytes" where
  "encode (VU8 v) = word_bytes v"
| "encode (VU32 v) = word_bytes v"
| "encode (VU64 v) = word_bytes v"
| "encode (VI32 v) = word_bytes v"
| "encode (VI64 v) = word_bytes v"
| "encode (VF64 v) = word_bytes v"
| "encode (VStr s) = word_bytes (of_nat (length s) :: u64) @ s"
| "encode (VVec w items) = word_bytes (of_nat (length items * w) :: u64) @ concat items"

definition encodes :: "cval list \<Rightarrow> bytes" where
  "encodes vs = concat (map encode vs)"

lemma encodes_simps [simp]:
  "encodes [] = []" "encodes (v # vs) = encode v @ encodes vs"
  by (simp_all add: encodes_def)

lemma length_concat_items:
  "list_all (\<lambda>b. length b = w) items \<Longrightarrow> length (concat items) = length items * w"
  by (induction items) auto

lemma length_encode: "wf_cval v \<Longrightarrow> length (encode v) = get_size v"
  by (cases v) (auto simp: sizeof_size_t_def length_concat_items Let_def)

lemma length_encodes: "list_all wf_cval vs \<Longrightarrow> length (encodes vs) = get_sizes vs"
  by (induction vs) (auto simp: length_encode)

lemma store_scalar_eq:
  "pos + length bs \<le> length mem \<Longrightarrow>
    store_scalar bs mem pos = Some (write_at pos bs mem, pos + length bs)"
  by (simp add: store_scalar_def)

lemma store_container_eq:
  assumes "pos + length src + 8 \<le> length mem"
  shows "store_container (length src + 8) src mem pos =
    Some (write_at pos (word_bytes (of_nat (length src) :: u64) @ src) mem,
          pos + length src + 8)"
proof -
  let ?h = "word_bytes (of_nat (length src) :: u64)"
  have "write_at (pos + 8) src (write_at pos ?h mem) = write_at pos (?h @ src) mem"
    using write_at_append [of pos mem ?h src] assms by simp
  with assms show ?thesis
    by (simp add: store_container_def sizeof_size_t_def Let_def)
qed

text \<open>Storing a value in bounds writes its bytes and nothing else; out of bounds is an error.\<close>

lemma store_value_encode:
  assumes "wf_cval v" and "pos + get_size v \<le> length mem"
  shows "store_value v mem pos = Some (write_at pos (encode v) mem, pos + get_size v)"
  using assms
  by (cases v) (auto simp: store_scalar_eq sizeof_size_t_def Let_def store_container_eq
      add.assoc [symmetric] length_concat_items [symmetric])

lemma store_values_encodes:
  assumes "list_all wf_cval vs" and "pos + get_sizes vs \<le> length mem"
  shows "store_values vs mem pos = Some (write_at pos (encodes vs) mem, pos + get_sizes vs)"
  using assms
proof (induction vs arbitrary: mem pos)
  case Nil
  then show ?case by simp
next
  case (Cons v vs)
  have len: "length (encode v) = get_size v"
    using Cons.prems by (simp add: length_encode)
  have "store_value v mem pos = Some (write_at pos (encode v) mem, pos + get_size v)"
    using Cons.prems by (simp add: store_value_encode)
  moreover have "store_values vs (write_at pos (encode v) mem) (pos + get_size v) =
      Some (write_at (pos + get_size v) (encodes vs) (write_at pos (encode v) mem),
            pos + get_size v + get_sizes vs)"
    using Cons.prems len by (intro Cons.IH) (auto simp: add.assoc)
  moreover have "write_at (pos + get_size v) (encodes vs) (write_at pos (encode v) mem) =
      write_at pos (encode v @ encodes vs) mem"
    using write_at_append [of pos mem "encode v"] Cons.prems len by simp
  ultimately show ?case by (simp add: add.assoc)
qed

text \<open>A value that does not fit in the rest of the memory is not written.\<close>

lemma store_container_oob:
  "length mem < pos + length src + 8 \<Longrightarrow> store_container (length src + 8) src mem pos = None"
  by (cases "pos + 8 \<le> length mem")
    (simp_all add: store_container_def sizeof_size_t_def Let_def)

lemma store_value_oob:
  assumes "wf_cval v" and "length mem < pos + get_size v"
  shows "store_value v mem pos = None"
  using assms
  by (cases v) (auto simp: store_scalar_def sizeof_size_t_def Let_def store_container_oob
      add.assoc [symmetric] length_concat_items [symmetric])

lemma store_values_oob:
  assumes "list_all wf_cval vs" and "pos \<le> length mem" and "length mem < pos + get_sizes vs"
  shows "store_values vs mem pos = None"
  using assms
proof (induction vs arbitrary: mem pos)
  case Nil
  then show ?case by simp
next
  case (Cons v vs)
  show ?case
  proof (cases "pos + get_size v \<le> length mem")
    case True
    let ?mem' = "write_at pos (encode v) mem"
    have len: "length ?mem' = length mem"
      using True Cons.prems by (simp add: length_encode)
    have "store_values vs ?mem' (pos + get_size v) = None"
      using Cons.prems True len by (intro Cons.IH) (auto simp: add.assoc)
    then show ?thesis
      using True Cons.prems by (simp add: store_value_encode)
  next
    case False
    then show ?thesis
      using Cons.prems by (simp add: store_value_oob)
  qed
qed

lemma split_items_concat:
  "list_all (\<lambda>b. length b = w) items \<Longrightarrow> split_items w (length items) (concat items) = items"
  by (induction items) auto

lemma unat_of_nat_u64: "n < 2 ^ 64 \<Longrightarrow> unat (of_nat n :: u64) = n"
  by (simp add: unat_of_nat)

lemma unat_of_nat_mult_u64:
  "m * k < 18446744073709551616 \<Longrightarrow> unat (of_nat m * of_nat k :: u64) = m * k"
  using unat_of_nat_u64 [of "m * k"] by simp

lemma parse_value_encode:
  assumes "wf_cval v"
  shows "parse_value (fresh v) (encode v @ r) = Some (v, r)"
  using assms
  by (cases v) (auto simp: sizeof_size_t_def Let_def unat_of_nat_u64 split_items_concat
      unat_of_nat_mult_u64 length_concat_items)

lemma parse_values_encodes:
  "list_all wf_cval vs \<Longrightarrow> parse_values (map fresh vs) (encodes vs @ r) = Some (vs, r)"
  by (induction vs) (auto simp: parse_value_encode)

end
