(* ===== verification/Sample_Types.thy ===== *)
theory Sample_Types
  imports Cacheable
begin

text \<open>
  The ten sample types of \<open>core/trace_cache/sample_type.hpp\<close> with their
  \<open>serialize\<close>, \<open>deserialize\<close> and \<open>get_size\<close> specialisations, field by
  field and in the order the code lists them, and the contract of a cacheable type as the
  locale \<open>cacheable_type\<close>, interpreted on each of them.

  Field names carry a short prefix of their struct, since several structs share names.
  \<open>pmc_event_with_sample\<close> extends \<open>in_time_sample\<close>, as the C++ struct derives from
  it. \<open>std::string\<close> and \<open>std::vector<uint8_t>\<close> fields are their bytes.
\<close>

section \<open>Type identifiers\<close>

datatype type_identifier_t =
    in_time_sample_id
  | pmc_event_with_sample_id
  | region_id
  | kernel_dispatch_id
  | memory_copy_id
  | memory_alloc_id
  | amd_smi_sample_id
  | cpu_freq_sample_id
  | backtrace_region_sample_id
  | scratch_memory_id
  | fragmented_space_id

fun type_identifier_value :: "type_identifier_t \<Rightarrow> u32" where
  "type_identifier_value in_time_sample_id = 0x0000"
| "type_identifier_value pmc_event_with_sample_id = 0x0001"
| "type_identifier_value region_id = 0x0002"
| "type_identifier_value kernel_dispatch_id = 0x0003"
| "type_identifier_value memory_copy_id = 0x0004"
| "type_identifier_value memory_alloc_id = 0x0005"
| "type_identifier_value amd_smi_sample_id = 0x0006"
| "type_identifier_value cpu_freq_sample_id = 0x0007"
| "type_identifier_value backtrace_region_sample_id = 0x0008"
| "type_identifier_value scratch_memory_id = 0x0009"
| "type_identifier_value fragmented_space_id = 0xFFFF"

lemma type_identifier_value_inj: "type_identifier_value a = type_identifier_value b \<longleftrightarrow> a = b"
  by (cases a; cases b) simp_all

section \<open>Arguments of the variadic calls\<close>

text \<open>
  A \<open>std::vector<uint8_t>\<close> argument is a vector of one-byte items. The typed parsers are
  \<open>parse_value\<close> on a fresh argument of one type.
\<close>

definition vec8 :: "bytes \<Rightarrow> cval" where
  "vec8 bs = VVec 1 (map (\<lambda>b. [b]) bs)"

definition parse_u64 :: "bytes \<Rightarrow> (u64 \<times> bytes) option" where
  "parse_u64 d = (case parse_value (VU64 0) d of Some (VU64 v, d) \<Rightarrow> Some (v, d) | _ \<Rightarrow> None)"

definition parse_u32 :: "bytes \<Rightarrow> (u32 \<times> bytes) option" where
  "parse_u32 d = (case parse_value (VU32 0) d of Some (VU32 v, d) \<Rightarrow> Some (v, d) | _ \<Rightarrow> None)"

definition parse_u8 :: "bytes \<Rightarrow> (u8 \<times> bytes) option" where
  "parse_u8 d = (case parse_value (VU8 0) d of Some (VU8 v, d) \<Rightarrow> Some (v, d) | _ \<Rightarrow> None)"

definition parse_i32 :: "bytes \<Rightarrow> (u32 \<times> bytes) option" where
  "parse_i32 d = (case parse_value (VI32 0) d of Some (VI32 v, d) \<Rightarrow> Some (v, d) | _ \<Rightarrow> None)"

definition parse_i64 :: "bytes \<Rightarrow> (u64 \<times> bytes) option" where
  "parse_i64 d = (case parse_value (VI64 0) d of Some (VI64 v, d) \<Rightarrow> Some (v, d) | _ \<Rightarrow> None)"

definition parse_f64 :: "bytes \<Rightarrow> (u64 \<times> bytes) option" where
  "parse_f64 d = (case parse_value (VF64 0) d of Some (VF64 v, d) \<Rightarrow> Some (v, d) | _ \<Rightarrow> None)"

definition parse_str :: "bytes \<Rightarrow> (bytes \<times> bytes) option" where
  "parse_str d = (case parse_value (VStr []) d of Some (VStr v, d) \<Rightarrow> Some (v, d) | _ \<Rightarrow> None)"

definition parse_vec :: "bytes \<Rightarrow> (bytes \<times> bytes) option" where
  "parse_vec d = (case parse_value (VVec 1 []) d of
     Some (VVec w items, d) \<Rightarrow> Some (concat items, d) | _ \<Rightarrow> None)"

lemma wf_vec8 [simp]: "wf_cval (vec8 bs) \<longleftrightarrow> length bs < 2 ^ 64"
  by (simp add: vec8_def list.pred_map comp_def list_all_iff)

lemma concat_singletons [simp]: "concat (map (\<lambda>b. [b]) bs) = bs"
  by (induction bs) auto

lemma parse_encode [simp]:
  "parse_u64 (encode (VU64 w64) @ r) = Some (w64, r)"
  "parse_u32 (encode (VU32 w32) @ r) = Some (w32, r)"
  "parse_u8 (encode (VU8 w8) @ r) = Some (w8, r)"
  "parse_i32 (encode (VI32 w32) @ r) = Some (w32, r)"
  "parse_i64 (encode (VI64 w64) @ r) = Some (w64, r)"
  "parse_f64 (encode (VF64 w64) @ r) = Some (w64, r)"
  using parse_value_encode [of "VU64 w64" r] parse_value_encode [of "VU32 w32" r]
    parse_value_encode [of "VU8 w8" r] parse_value_encode [of "VI32 w32" r]
    parse_value_encode [of "VI64 w64" r] parse_value_encode [of "VF64 w64" r]
  by (simp_all add: parse_u64_def parse_u32_def parse_u8_def parse_i32_def parse_i64_def
      parse_f64_def)

lemma parse_encode_str [simp]:
  "length s < 2 ^ 64 \<Longrightarrow> parse_str (encode (VStr s) @ r) = Some (s, r)"
  using parse_value_encode [of "VStr s" r] by (simp add: parse_str_def)

lemma parse_encode_vec [simp]:
  "length s < 2 ^ 64 \<Longrightarrow> parse_vec (encode (vec8 s) @ r) = Some (s, r)"
proof -
  assume "length s < 2 ^ 64"
  then have "parse_value (fresh (vec8 s)) (encode (vec8 s) @ r) = Some (vec8 s, r)"
    by (intro parse_value_encode) simp
  moreover have "fresh (vec8 s) = VVec 1 []"
    by (simp add: vec8_def)
  ultimately have "parse_value (VVec 1 []) (encode (vec8 s) @ r) = Some (vec8 s, r)"
    by metis
  then show ?thesis
    by (simp only: parse_vec_def option.case prod.case vec8_def cval.case concat_singletons)
qed

section \<open>The contract of a cacheable type\<close>

text \<open>
  What \<open>buffer_storage::store\<close> and the type registry rely on: for an object that C++ can
  hold (\<open>ok\<close>), \<open>get_size\<close> is the number of bytes \<open>serialize\<close> writes, it writes
  exactly there, and \<open>deserialize\<close> reads the object back and leaves the rest.
\<close>

locale cacheable_type =
  fixes ok :: "'a \<Rightarrow> bool"
    and size_of :: "'a \<Rightarrow> nat"
    and serialize :: "bytes \<Rightarrow> nat \<Rightarrow> 'a \<Rightarrow> (bytes \<times> nat) option"
    and deserialize :: "bytes \<Rightarrow> ('a \<times> bytes) option"
    and payload :: "'a \<Rightarrow> bytes"
  assumes payload_size: "ok x \<Longrightarrow> length (payload x) = size_of x"
    and serialize_payload: "ok x \<Longrightarrow> base + size_of x \<le> length mem \<Longrightarrow>
      serialize mem base x = Some (write_at base (payload x) mem, base + size_of x)"
    and serialize_oob: "ok x \<Longrightarrow> base \<le> length mem \<Longrightarrow> length mem < base + size_of x \<Longrightarrow>
      serialize mem base x = None"
    and deserialize_payload: "ok x \<Longrightarrow> deserialize (payload x @ r) = Some (x, r)"
begin

lemma deserialize_exact: "ok x \<Longrightarrow> deserialize (payload x) = Some (x, [])"
  using deserialize_payload [of x "[]"] by simp

text \<open>Reading back what was just written, and no payload is a prefix of another.\<close>

lemma read_after_write:
  assumes "ok x" and "base + size_of x \<le> length mem" and "serialize mem base x = Some (mem', q)"
  shows "q = base + size_of x \<and> length mem' = length mem \<and>
    deserialize (slice base q mem') = Some (x, [])"
  using assms payload_size [of x] serialize_payload [of x base mem]
    slice_write_at [of base mem "payload x"] deserialize_exact [of x]
  by auto

lemma outside_unchanged:
  assumes "ok x" and "base + size_of x \<le> length mem" and "serialize mem base x = Some (mem', q)"
  shows "hi \<le> base \<Longrightarrow> slice lo hi mem' = slice lo hi mem"
    and "q \<le> lo \<Longrightarrow> slice lo hi mem' = slice lo hi mem"
  using assms payload_size [of x] serialize_payload [of x base mem]
  by (auto simp: slice_write_at_below slice_write_at_above)

lemma payload_prefix_free:
  assumes "ok x" and "ok y" and "payload x @ r = payload y @ s"
  shows "x = y \<and> r = s"
  using deserialize_payload [OF assms(1), of r, unfolded assms(3)]
    deserialize_payload [OF assms(2), of s] by simp

end

section \<open>The samples\<close>

subsection \<open>kernel dispatch sample\<close>

record kernel_dispatch_sample =
  kd_start_timestamp :: u64
  kd_end_timestamp :: u64
  kd_thread_id :: u64
  kd_agent_id_handle :: u64
  kd_kernel_id :: u64
  kd_dispatch_id :: u64
  kd_queue_id_handle :: u64
  kd_correlation_id_internal :: u64
  kd_correlation_id_ancestor :: u64
  kd_private_segment_size :: u32
  kd_group_segment_size :: u32
  kd_workgroup_size_x :: u32
  kd_workgroup_size_y :: u32
  kd_workgroup_size_z :: u32
  kd_grid_size_x :: u32
  kd_grid_size_y :: u32
  kd_grid_size_z :: u32
  kd_stream_handle :: u64

definition serialize_kernel_dispatch_sample :: "bytes \<Rightarrow> nat \<Rightarrow> kernel_dispatch_sample \<Rightarrow> (bytes \<times> nat) option" where
  "serialize_kernel_dispatch_sample buffer base item = store_values [
     VU64 (kd_start_timestamp item), VU64 (kd_end_timestamp item),
     VU64 (kd_thread_id item), VU64 (kd_agent_id_handle item),
     VU64 (kd_kernel_id item), VU64 (kd_dispatch_id item),
     VU64 (kd_queue_id_handle item), VU64 (kd_correlation_id_internal item),
     VU64 (kd_correlation_id_ancestor item), VU32 (kd_private_segment_size item),
     VU32 (kd_group_segment_size item), VU32 (kd_workgroup_size_x item),
     VU32 (kd_workgroup_size_y item), VU32 (kd_workgroup_size_z item),
     VU32 (kd_grid_size_x item), VU32 (kd_grid_size_y item),
     VU32 (kd_grid_size_z item), VU64 (kd_stream_handle item)] buffer base"

definition deserialize_kernel_dispatch_sample :: "bytes \<Rightarrow> (kernel_dispatch_sample \<times> bytes) option" where
  "deserialize_kernel_dispatch_sample buffer = do {
     (start_timestamp_v, buffer) \<leftarrow> parse_u64 buffer;
     (end_timestamp_v, buffer) \<leftarrow> parse_u64 buffer;
     (thread_id_v, buffer) \<leftarrow> parse_u64 buffer;
     (agent_id_handle_v, buffer) \<leftarrow> parse_u64 buffer;
     (kernel_id_v, buffer) \<leftarrow> parse_u64 buffer;
     (dispatch_id_v, buffer) \<leftarrow> parse_u64 buffer;
     (queue_id_handle_v, buffer) \<leftarrow> parse_u64 buffer;
     (correlation_id_internal_v, buffer) \<leftarrow> parse_u64 buffer;
     (correlation_id_ancestor_v, buffer) \<leftarrow> parse_u64 buffer;
     (private_segment_size_v, buffer) \<leftarrow> parse_u32 buffer;
     (group_segment_size_v, buffer) \<leftarrow> parse_u32 buffer;
     (workgroup_size_x_v, buffer) \<leftarrow> parse_u32 buffer;
     (workgroup_size_y_v, buffer) \<leftarrow> parse_u32 buffer;
     (workgroup_size_z_v, buffer) \<leftarrow> parse_u32 buffer;
     (grid_size_x_v, buffer) \<leftarrow> parse_u32 buffer;
     (grid_size_y_v, buffer) \<leftarrow> parse_u32 buffer;
     (grid_size_z_v, buffer) \<leftarrow> parse_u32 buffer;
     (stream_handle_v, buffer) \<leftarrow> parse_u64 buffer;
     Some (\<lparr>
       kd_start_timestamp = start_timestamp_v, kd_end_timestamp = end_timestamp_v,
       kd_thread_id = thread_id_v, kd_agent_id_handle = agent_id_handle_v,
       kd_kernel_id = kernel_id_v, kd_dispatch_id = dispatch_id_v,
       kd_queue_id_handle = queue_id_handle_v,
       kd_correlation_id_internal = correlation_id_internal_v,
       kd_correlation_id_ancestor = correlation_id_ancestor_v,
       kd_private_segment_size = private_segment_size_v,
       kd_group_segment_size = group_segment_size_v,
       kd_workgroup_size_x = workgroup_size_x_v,
       kd_workgroup_size_y = workgroup_size_y_v,
       kd_workgroup_size_z = workgroup_size_z_v, kd_grid_size_x = grid_size_x_v,
       kd_grid_size_y = grid_size_y_v, kd_grid_size_z = grid_size_z_v,
       kd_stream_handle = stream_handle_v\<rparr>, buffer) }"

definition get_size_kernel_dispatch_sample :: "kernel_dispatch_sample \<Rightarrow> nat" where
  "get_size_kernel_dispatch_sample item = get_sizes [
     VU64 (kd_start_timestamp item), VU64 (kd_end_timestamp item),
     VU64 (kd_thread_id item), VU64 (kd_agent_id_handle item),
     VU64 (kd_kernel_id item), VU64 (kd_dispatch_id item),
     VU64 (kd_queue_id_handle item), VU64 (kd_correlation_id_internal item),
     VU64 (kd_correlation_id_ancestor item), VU32 (kd_private_segment_size item),
     VU32 (kd_group_segment_size item), VU32 (kd_workgroup_size_x item),
     VU32 (kd_workgroup_size_y item), VU32 (kd_workgroup_size_z item),
     VU32 (kd_grid_size_x item), VU32 (kd_grid_size_y item),
     VU32 (kd_grid_size_z item), VU64 (kd_stream_handle item)]"

definition values_kernel_dispatch_sample :: "kernel_dispatch_sample \<Rightarrow> cval list" where
  "values_kernel_dispatch_sample item = [
     VU64 (kd_start_timestamp item), VU64 (kd_end_timestamp item),
     VU64 (kd_thread_id item), VU64 (kd_agent_id_handle item),
     VU64 (kd_kernel_id item), VU64 (kd_dispatch_id item),
     VU64 (kd_queue_id_handle item), VU64 (kd_correlation_id_internal item),
     VU64 (kd_correlation_id_ancestor item), VU32 (kd_private_segment_size item),
     VU32 (kd_group_segment_size item), VU32 (kd_workgroup_size_x item),
     VU32 (kd_workgroup_size_y item), VU32 (kd_workgroup_size_z item),
     VU32 (kd_grid_size_x item), VU32 (kd_grid_size_y item),
     VU32 (kd_grid_size_z item), VU64 (kd_stream_handle item)]"

subsection \<open>scratch memory sample\<close>

record scratch_memory_sample =
  sm_start_timestamp :: u64
  sm_end_timestamp :: u64
  sm_thread_id :: u64
  sm_agent_id_handle :: u64
  sm_queue_id_handle :: u64
  sm_kind :: u32
  sm_operation :: u32
  sm_flags :: u32
  sm_allocation_size :: u64
  sm_correlation_id_internal :: u64
  sm_correlation_id_ancestor :: u64
  sm_stream_handle :: u64

definition serialize_scratch_memory_sample :: "bytes \<Rightarrow> nat \<Rightarrow> scratch_memory_sample \<Rightarrow> (bytes \<times> nat) option" where
  "serialize_scratch_memory_sample buffer base item = store_values [
     VU64 (sm_start_timestamp item), VU64 (sm_end_timestamp item),
     VU64 (sm_thread_id item), VU64 (sm_agent_id_handle item),
     VU64 (sm_queue_id_handle item), VI32 (sm_kind item), VI32 (sm_operation item),
     VI32 (sm_flags item), VU64 (sm_allocation_size item),
     VU64 (sm_correlation_id_internal item), VU64 (sm_correlation_id_ancestor item),
     VU64 (sm_stream_handle item)] buffer base"

definition deserialize_scratch_memory_sample :: "bytes \<Rightarrow> (scratch_memory_sample \<times> bytes) option" where
  "deserialize_scratch_memory_sample buffer = do {
     (start_timestamp_v, buffer) \<leftarrow> parse_u64 buffer;
     (end_timestamp_v, buffer) \<leftarrow> parse_u64 buffer;
     (thread_id_v, buffer) \<leftarrow> parse_u64 buffer;
     (agent_id_handle_v, buffer) \<leftarrow> parse_u64 buffer;
     (queue_id_handle_v, buffer) \<leftarrow> parse_u64 buffer;
     (kind_v, buffer) \<leftarrow> parse_i32 buffer;
     (operation_v, buffer) \<leftarrow> parse_i32 buffer;
     (flags_v, buffer) \<leftarrow> parse_i32 buffer;
     (allocation_size_v, buffer) \<leftarrow> parse_u64 buffer;
     (correlation_id_internal_v, buffer) \<leftarrow> parse_u64 buffer;
     (correlation_id_ancestor_v, buffer) \<leftarrow> parse_u64 buffer;
     (stream_handle_v, buffer) \<leftarrow> parse_u64 buffer;
     Some (\<lparr>
       sm_start_timestamp = start_timestamp_v, sm_end_timestamp = end_timestamp_v,
       sm_thread_id = thread_id_v, sm_agent_id_handle = agent_id_handle_v,
       sm_queue_id_handle = queue_id_handle_v, sm_kind = kind_v,
       sm_operation = operation_v, sm_flags = flags_v,
       sm_allocation_size = allocation_size_v,
       sm_correlation_id_internal = correlation_id_internal_v,
       sm_correlation_id_ancestor = correlation_id_ancestor_v,
       sm_stream_handle = stream_handle_v\<rparr>, buffer) }"

definition get_size_scratch_memory_sample :: "scratch_memory_sample \<Rightarrow> nat" where
  "get_size_scratch_memory_sample item = get_sizes [
     VU64 (sm_start_timestamp item), VU64 (sm_end_timestamp item),
     VU64 (sm_thread_id item), VU64 (sm_agent_id_handle item),
     VU64 (sm_queue_id_handle item), VI32 (sm_kind item), VI32 (sm_operation item),
     VI32 (sm_flags item), VU64 (sm_allocation_size item),
     VU64 (sm_correlation_id_internal item), VU64 (sm_correlation_id_ancestor item),
     VU64 (sm_stream_handle item)]"

definition values_scratch_memory_sample :: "scratch_memory_sample \<Rightarrow> cval list" where
  "values_scratch_memory_sample item = [
     VU64 (sm_start_timestamp item), VU64 (sm_end_timestamp item),
     VU64 (sm_thread_id item), VU64 (sm_agent_id_handle item),
     VU64 (sm_queue_id_handle item), VI32 (sm_kind item), VI32 (sm_operation item),
     VI32 (sm_flags item), VU64 (sm_allocation_size item),
     VU64 (sm_correlation_id_internal item), VU64 (sm_correlation_id_ancestor item),
     VU64 (sm_stream_handle item)]"

subsection \<open>memory copy sample\<close>

record memory_copy_sample =
  mc_start_timestamp :: u64
  mc_end_timestamp :: u64
  mc_thread_id :: u64
  mc_dst_agent_id_handle :: u64
  mc_src_agent_id_handle :: u64
  mc_kind :: u32
  mc_operation :: u32
  mc_bytes :: u64
  mc_correlation_id_internal :: u64
  mc_correlation_id_ancestor :: u64
  mc_dst_address_value :: u64
  mc_src_address_value :: u64
  mc_stream_handle :: u64

definition serialize_memory_copy_sample :: "bytes \<Rightarrow> nat \<Rightarrow> memory_copy_sample \<Rightarrow> (bytes \<times> nat) option" where
  "serialize_memory_copy_sample buffer base item = store_values [
     VU64 (mc_start_timestamp item), VU64 (mc_end_timestamp item),
     VU64 (mc_thread_id item), VU64 (mc_dst_agent_id_handle item),
     VU64 (mc_src_agent_id_handle item), VI32 (mc_kind item), VI32 (mc_operation item),
     VU64 (mc_bytes item), VU64 (mc_correlation_id_internal item),
     VU64 (mc_correlation_id_ancestor item), VU64 (mc_dst_address_value item),
     VU64 (mc_src_address_value item), VU64 (mc_stream_handle item)] buffer base"

definition deserialize_memory_copy_sample :: "bytes \<Rightarrow> (memory_copy_sample \<times> bytes) option" where
  "deserialize_memory_copy_sample buffer = do {
     (start_timestamp_v, buffer) \<leftarrow> parse_u64 buffer;
     (end_timestamp_v, buffer) \<leftarrow> parse_u64 buffer;
     (thread_id_v, buffer) \<leftarrow> parse_u64 buffer;
     (dst_agent_id_handle_v, buffer) \<leftarrow> parse_u64 buffer;
     (src_agent_id_handle_v, buffer) \<leftarrow> parse_u64 buffer;
     (kind_v, buffer) \<leftarrow> parse_i32 buffer;
     (operation_v, buffer) \<leftarrow> parse_i32 buffer;
     (bytes_v, buffer) \<leftarrow> parse_u64 buffer;
     (correlation_id_internal_v, buffer) \<leftarrow> parse_u64 buffer;
     (correlation_id_ancestor_v, buffer) \<leftarrow> parse_u64 buffer;
     (dst_address_value_v, buffer) \<leftarrow> parse_u64 buffer;
     (src_address_value_v, buffer) \<leftarrow> parse_u64 buffer;
     (stream_handle_v, buffer) \<leftarrow> parse_u64 buffer;
     Some (\<lparr>
       mc_start_timestamp = start_timestamp_v, mc_end_timestamp = end_timestamp_v,
       mc_thread_id = thread_id_v, mc_dst_agent_id_handle = dst_agent_id_handle_v,
       mc_src_agent_id_handle = src_agent_id_handle_v, mc_kind = kind_v,
       mc_operation = operation_v, mc_bytes = bytes_v,
       mc_correlation_id_internal = correlation_id_internal_v,
       mc_correlation_id_ancestor = correlation_id_ancestor_v,
       mc_dst_address_value = dst_address_value_v,
       mc_src_address_value = src_address_value_v, mc_stream_handle = stream_handle_v\<rparr>, buffer) }"

definition get_size_memory_copy_sample :: "memory_copy_sample \<Rightarrow> nat" where
  "get_size_memory_copy_sample item = get_sizes [
     VU64 (mc_start_timestamp item), VU64 (mc_end_timestamp item),
     VU64 (mc_thread_id item), VU64 (mc_dst_agent_id_handle item),
     VU64 (mc_src_agent_id_handle item), VI32 (mc_kind item), VI32 (mc_operation item),
     VU64 (mc_bytes item), VU64 (mc_correlation_id_internal item),
     VU64 (mc_correlation_id_ancestor item), VU64 (mc_dst_address_value item),
     VU64 (mc_src_address_value item), VU64 (mc_stream_handle item)]"

definition values_memory_copy_sample :: "memory_copy_sample \<Rightarrow> cval list" where
  "values_memory_copy_sample item = [
     VU64 (mc_start_timestamp item), VU64 (mc_end_timestamp item),
     VU64 (mc_thread_id item), VU64 (mc_dst_agent_id_handle item),
     VU64 (mc_src_agent_id_handle item), VI32 (mc_kind item), VI32 (mc_operation item),
     VU64 (mc_bytes item), VU64 (mc_correlation_id_internal item),
     VU64 (mc_correlation_id_ancestor item), VU64 (mc_dst_address_value item),
     VU64 (mc_src_address_value item), VU64 (mc_stream_handle item)]"

subsection \<open>memory allocate sample\<close>

record memory_allocate_sample =
  ma_start_timestamp :: u64
  ma_end_timestamp :: u64
  ma_thread_id :: u64
  ma_agent_id_handle :: u64
  ma_kind :: u32
  ma_operation :: u32
  ma_allocation_size :: u64
  ma_correlation_id_internal :: u64
  ma_correlation_id_ancestor :: u64
  ma_address_value :: u64
  ma_stream_handle :: u64

definition serialize_memory_allocate_sample :: "bytes \<Rightarrow> nat \<Rightarrow> memory_allocate_sample \<Rightarrow> (bytes \<times> nat) option" where
  "serialize_memory_allocate_sample buffer base item = store_values [
     VU64 (ma_start_timestamp item), VU64 (ma_end_timestamp item),
     VU64 (ma_thread_id item), VU64 (ma_agent_id_handle item), VI32 (ma_kind item),
     VI32 (ma_operation item), VU64 (ma_allocation_size item),
     VU64 (ma_correlation_id_internal item), VU64 (ma_correlation_id_ancestor item),
     VU64 (ma_address_value item), VU64 (ma_stream_handle item)] buffer base"

definition deserialize_memory_allocate_sample :: "bytes \<Rightarrow> (memory_allocate_sample \<times> bytes) option" where
  "deserialize_memory_allocate_sample buffer = do {
     (start_timestamp_v, buffer) \<leftarrow> parse_u64 buffer;
     (end_timestamp_v, buffer) \<leftarrow> parse_u64 buffer;
     (thread_id_v, buffer) \<leftarrow> parse_u64 buffer;
     (agent_id_handle_v, buffer) \<leftarrow> parse_u64 buffer;
     (kind_v, buffer) \<leftarrow> parse_i32 buffer;
     (operation_v, buffer) \<leftarrow> parse_i32 buffer;
     (allocation_size_v, buffer) \<leftarrow> parse_u64 buffer;
     (correlation_id_internal_v, buffer) \<leftarrow> parse_u64 buffer;
     (correlation_id_ancestor_v, buffer) \<leftarrow> parse_u64 buffer;
     (address_value_v, buffer) \<leftarrow> parse_u64 buffer;
     (stream_handle_v, buffer) \<leftarrow> parse_u64 buffer;
     Some (\<lparr>
       ma_start_timestamp = start_timestamp_v, ma_end_timestamp = end_timestamp_v,
       ma_thread_id = thread_id_v, ma_agent_id_handle = agent_id_handle_v,
       ma_kind = kind_v, ma_operation = operation_v,
       ma_allocation_size = allocation_size_v,
       ma_correlation_id_internal = correlation_id_internal_v,
       ma_correlation_id_ancestor = correlation_id_ancestor_v,
       ma_address_value = address_value_v, ma_stream_handle = stream_handle_v\<rparr>, buffer) }"

definition get_size_memory_allocate_sample :: "memory_allocate_sample \<Rightarrow> nat" where
  "get_size_memory_allocate_sample item = get_sizes [
     VU64 (ma_start_timestamp item), VU64 (ma_end_timestamp item),
     VU64 (ma_thread_id item), VU64 (ma_agent_id_handle item), VI32 (ma_kind item),
     VI32 (ma_operation item), VU64 (ma_allocation_size item),
     VU64 (ma_correlation_id_internal item), VU64 (ma_correlation_id_ancestor item),
     VU64 (ma_address_value item), VU64 (ma_stream_handle item)]"

definition values_memory_allocate_sample :: "memory_allocate_sample \<Rightarrow> cval list" where
  "values_memory_allocate_sample item = [
     VU64 (ma_start_timestamp item), VU64 (ma_end_timestamp item),
     VU64 (ma_thread_id item), VU64 (ma_agent_id_handle item), VI32 (ma_kind item),
     VI32 (ma_operation item), VU64 (ma_allocation_size item),
     VU64 (ma_correlation_id_internal item), VU64 (ma_correlation_id_ancestor item),
     VU64 (ma_address_value item), VU64 (ma_stream_handle item)]"

subsection \<open>region sample\<close>

record region_sample =
  rs_thread_id :: u64
  rs_name :: bytes
  rs_correlation_id_internal :: u64
  rs_correlation_id_ancestor :: u64
  rs_start_timestamp :: u64
  rs_end_timestamp :: u64
  rs_call_stack :: bytes
  rs_args_str :: bytes
  rs_category :: bytes

definition serialize_region_sample :: "bytes \<Rightarrow> nat \<Rightarrow> region_sample \<Rightarrow> (bytes \<times> nat) option" where
  "serialize_region_sample buffer base item = store_values [
     VU64 (rs_thread_id item), VStr (rs_name item),
     VU64 (rs_correlation_id_internal item), VU64 (rs_correlation_id_ancestor item),
     VU64 (rs_start_timestamp item), VU64 (rs_end_timestamp item),
     VStr (rs_call_stack item), VStr (rs_args_str item), VStr (rs_category item)] buffer base"

definition deserialize_region_sample :: "bytes \<Rightarrow> (region_sample \<times> bytes) option" where
  "deserialize_region_sample buffer = do {
     (thread_id_v, buffer) \<leftarrow> parse_u64 buffer;
     (name_v, buffer) \<leftarrow> parse_str buffer;
     (correlation_id_internal_v, buffer) \<leftarrow> parse_u64 buffer;
     (correlation_id_ancestor_v, buffer) \<leftarrow> parse_u64 buffer;
     (start_timestamp_v, buffer) \<leftarrow> parse_u64 buffer;
     (end_timestamp_v, buffer) \<leftarrow> parse_u64 buffer;
     (call_stack_v, buffer) \<leftarrow> parse_str buffer;
     (args_str_v, buffer) \<leftarrow> parse_str buffer;
     (category_v, buffer) \<leftarrow> parse_str buffer;
     Some (\<lparr>
       rs_thread_id = thread_id_v, rs_name = name_v,
       rs_correlation_id_internal = correlation_id_internal_v,
       rs_correlation_id_ancestor = correlation_id_ancestor_v,
       rs_start_timestamp = start_timestamp_v, rs_end_timestamp = end_timestamp_v,
       rs_call_stack = call_stack_v, rs_args_str = args_str_v, rs_category = category_v\<rparr>, buffer) }"

definition get_size_region_sample :: "region_sample \<Rightarrow> nat" where
  "get_size_region_sample item = get_sizes [
     VU64 (rs_thread_id item), VStr (rs_name item),
     VU64 (rs_correlation_id_internal item), VU64 (rs_correlation_id_ancestor item),
     VU64 (rs_start_timestamp item), VU64 (rs_end_timestamp item),
     VStr (rs_call_stack item), VStr (rs_args_str item), VStr (rs_category item)]"

definition values_region_sample :: "region_sample \<Rightarrow> cval list" where
  "values_region_sample item = [
     VU64 (rs_thread_id item), VStr (rs_name item),
     VU64 (rs_correlation_id_internal item), VU64 (rs_correlation_id_ancestor item),
     VU64 (rs_start_timestamp item), VU64 (rs_end_timestamp item),
     VStr (rs_call_stack item), VStr (rs_args_str item), VStr (rs_category item)]"

subsection \<open>in time sample\<close>

record in_time_sample =
  its_category_enum_id :: u64
  its_track_name :: bytes
  its_timestamp_ns :: u64
  its_event_metadata :: bytes
  its_stack_id :: u64
  its_parent_stack_id :: u64
  its_correlation_id :: u64
  its_call_stack :: bytes
  its_line_info :: bytes

definition serialize_in_time_sample :: "bytes \<Rightarrow> nat \<Rightarrow> in_time_sample \<Rightarrow> (bytes \<times> nat) option" where
  "serialize_in_time_sample buffer base item = store_values [
     VU64 (its_category_enum_id item), VStr (its_track_name item),
     VU64 (its_timestamp_ns item), VStr (its_event_metadata item),
     VU64 (its_stack_id item), VU64 (its_parent_stack_id item),
     VU64 (its_correlation_id item), VStr (its_call_stack item),
     VStr (its_line_info item)] buffer base"

definition deserialize_in_time_sample :: "bytes \<Rightarrow> (in_time_sample \<times> bytes) option" where
  "deserialize_in_time_sample buffer = do {
     (category_enum_id_v, buffer) \<leftarrow> parse_u64 buffer;
     (track_name_v, buffer) \<leftarrow> parse_str buffer;
     (timestamp_ns_v, buffer) \<leftarrow> parse_u64 buffer;
     (event_metadata_v, buffer) \<leftarrow> parse_str buffer;
     (stack_id_v, buffer) \<leftarrow> parse_u64 buffer;
     (parent_stack_id_v, buffer) \<leftarrow> parse_u64 buffer;
     (correlation_id_v, buffer) \<leftarrow> parse_u64 buffer;
     (call_stack_v, buffer) \<leftarrow> parse_str buffer;
     (line_info_v, buffer) \<leftarrow> parse_str buffer;
     Some (\<lparr>
       its_category_enum_id = category_enum_id_v, its_track_name = track_name_v,
       its_timestamp_ns = timestamp_ns_v, its_event_metadata = event_metadata_v,
       its_stack_id = stack_id_v, its_parent_stack_id = parent_stack_id_v,
       its_correlation_id = correlation_id_v, its_call_stack = call_stack_v,
       its_line_info = line_info_v\<rparr>, buffer) }"

definition get_size_in_time_sample :: "in_time_sample \<Rightarrow> nat" where
  "get_size_in_time_sample item = get_sizes [
     VU64 (its_category_enum_id item), VStr (its_track_name item),
     VU64 (its_timestamp_ns item), VStr (its_event_metadata item),
     VU64 (its_stack_id item), VU64 (its_parent_stack_id item),
     VU64 (its_correlation_id item), VStr (its_call_stack item),
     VStr (its_line_info item)]"

definition values_in_time_sample :: "in_time_sample \<Rightarrow> cval list" where
  "values_in_time_sample item = [
     VU64 (its_category_enum_id item), VStr (its_track_name item),
     VU64 (its_timestamp_ns item), VStr (its_event_metadata item),
     VU64 (its_stack_id item), VU64 (its_parent_stack_id item),
     VU64 (its_correlation_id item), VStr (its_call_stack item),
     VStr (its_line_info item)]"

subsection \<open>pmc event with sample\<close>

record pmc_event_with_sample = in_time_sample +
  pmc_device_id :: u32
  pmc_device_type :: u8
  pmc_pmc_info_name :: bytes
  pmc_value :: u64

definition serialize_pmc_event_with_sample :: "bytes \<Rightarrow> nat \<Rightarrow> pmc_event_with_sample \<Rightarrow> (bytes \<times> nat) option" where
  "serialize_pmc_event_with_sample buffer base item = store_values [
     VU64 (its_category_enum_id item), VStr (its_track_name item),
     VU64 (its_timestamp_ns item), VStr (its_event_metadata item),
     VU64 (its_stack_id item), VU64 (its_parent_stack_id item),
     VU64 (its_correlation_id item), VStr (its_call_stack item),
     VStr (its_line_info item), VU32 (pmc_device_id item), VU8 (pmc_device_type item),
     VStr (pmc_pmc_info_name item), VF64 (pmc_value item)] buffer base"

definition deserialize_pmc_event_with_sample :: "bytes \<Rightarrow> (pmc_event_with_sample \<times> bytes) option" where
  "deserialize_pmc_event_with_sample buffer = do {
     (category_enum_id_v, buffer) \<leftarrow> parse_u64 buffer;
     (track_name_v, buffer) \<leftarrow> parse_str buffer;
     (timestamp_ns_v, buffer) \<leftarrow> parse_u64 buffer;
     (event_metadata_v, buffer) \<leftarrow> parse_str buffer;
     (stack_id_v, buffer) \<leftarrow> parse_u64 buffer;
     (parent_stack_id_v, buffer) \<leftarrow> parse_u64 buffer;
     (correlation_id_v, buffer) \<leftarrow> parse_u64 buffer;
     (call_stack_v, buffer) \<leftarrow> parse_str buffer;
     (line_info_v, buffer) \<leftarrow> parse_str buffer;
     (device_id_v, buffer) \<leftarrow> parse_u32 buffer;
     (device_type_v, buffer) \<leftarrow> parse_u8 buffer;
     (pmc_info_name_v, buffer) \<leftarrow> parse_str buffer;
     (value_v, buffer) \<leftarrow> parse_f64 buffer;
     Some (\<lparr>
       its_category_enum_id = category_enum_id_v, its_track_name = track_name_v,
       its_timestamp_ns = timestamp_ns_v, its_event_metadata = event_metadata_v,
       its_stack_id = stack_id_v, its_parent_stack_id = parent_stack_id_v,
       its_correlation_id = correlation_id_v, its_call_stack = call_stack_v,
       its_line_info = line_info_v, pmc_device_id = device_id_v,
       pmc_device_type = device_type_v, pmc_pmc_info_name = pmc_info_name_v,
       pmc_value = value_v\<rparr>, buffer) }"

definition get_size_pmc_event_with_sample :: "pmc_event_with_sample \<Rightarrow> nat" where
  "get_size_pmc_event_with_sample item = get_sizes [
     VU64 (its_category_enum_id item), VStr (its_track_name item),
     VU64 (its_timestamp_ns item), VStr (its_event_metadata item),
     VU64 (its_stack_id item), VU64 (its_parent_stack_id item),
     VU64 (its_correlation_id item), VStr (its_call_stack item),
     VStr (its_line_info item), VU32 (pmc_device_id item), VU8 (pmc_device_type item),
     VStr (pmc_pmc_info_name item), VF64 (pmc_value item)]"

definition values_pmc_event_with_sample :: "pmc_event_with_sample \<Rightarrow> cval list" where
  "values_pmc_event_with_sample item = [
     VU64 (its_category_enum_id item), VStr (its_track_name item),
     VU64 (its_timestamp_ns item), VStr (its_event_metadata item),
     VU64 (its_stack_id item), VU64 (its_parent_stack_id item),
     VU64 (its_correlation_id item), VStr (its_call_stack item),
     VStr (its_line_info item), VU32 (pmc_device_id item), VU8 (pmc_device_type item),
     VStr (pmc_pmc_info_name item), VF64 (pmc_value item)]"

subsection \<open>amd smi sample\<close>

record amd_smi_sample =
  smi_settings :: u64
  smi_device_id :: u32
  smi_timestamp :: u64
  smi_gfx_activity :: u32
  smi_umc_activity :: u32
  smi_mm_activity :: u32
  smi_power :: u32
  smi_temperature :: u64
  smi_mem_usage :: u64
  smi_gpu_activity :: bytes

definition serialize_amd_smi_sample :: "bytes \<Rightarrow> nat \<Rightarrow> amd_smi_sample \<Rightarrow> (bytes \<times> nat) option" where
  "serialize_amd_smi_sample buffer base item = store_values [
     VU64 (smi_settings item), VU32 (smi_device_id item), VU64 (smi_timestamp item),
     VU32 (smi_gfx_activity item), VU32 (smi_umc_activity item),
     VU32 (smi_mm_activity item), VU32 (smi_power item), VI64 (smi_temperature item),
     VU64 (smi_mem_usage item), vec8 (smi_gpu_activity item)] buffer base"

definition deserialize_amd_smi_sample :: "bytes \<Rightarrow> (amd_smi_sample \<times> bytes) option" where
  "deserialize_amd_smi_sample buffer = do {
     (settings_v, buffer) \<leftarrow> parse_u64 buffer;
     (device_id_v, buffer) \<leftarrow> parse_u32 buffer;
     (timestamp_v, buffer) \<leftarrow> parse_u64 buffer;
     (gfx_activity_v, buffer) \<leftarrow> parse_u32 buffer;
     (umc_activity_v, buffer) \<leftarrow> parse_u32 buffer;
     (mm_activity_v, buffer) \<leftarrow> parse_u32 buffer;
     (power_v, buffer) \<leftarrow> parse_u32 buffer;
     (temperature_v, buffer) \<leftarrow> parse_i64 buffer;
     (mem_usage_v, buffer) \<leftarrow> parse_u64 buffer;
     (gpu_activity_v, buffer) \<leftarrow> parse_vec buffer;
     Some (\<lparr>
       smi_settings = settings_v, smi_device_id = device_id_v,
       smi_timestamp = timestamp_v, smi_gfx_activity = gfx_activity_v,
       smi_umc_activity = umc_activity_v, smi_mm_activity = mm_activity_v,
       smi_power = power_v, smi_temperature = temperature_v,
       smi_mem_usage = mem_usage_v, smi_gpu_activity = gpu_activity_v\<rparr>, buffer) }"

definition get_size_amd_smi_sample :: "amd_smi_sample \<Rightarrow> nat" where
  "get_size_amd_smi_sample item = get_sizes [
     VU64 (smi_settings item), VU32 (smi_device_id item), VU64 (smi_timestamp item),
     VU32 (smi_gfx_activity item), VU32 (smi_umc_activity item),
     VU32 (smi_mm_activity item), VU32 (smi_power item), VI64 (smi_temperature item),
     VU64 (smi_mem_usage item), vec8 (smi_gpu_activity item)]"

definition values_amd_smi_sample :: "amd_smi_sample \<Rightarrow> cval list" where
  "values_amd_smi_sample item = [
     VU64 (smi_settings item), VU32 (smi_device_id item), VU64 (smi_timestamp item),
     VU32 (smi_gfx_activity item), VU32 (smi_umc_activity item),
     VU32 (smi_mm_activity item), VU32 (smi_power item), VI64 (smi_temperature item),
     VU64 (smi_mem_usage item), vec8 (smi_gpu_activity item)]"

subsection \<open>cpu freq sample\<close>

record cpu_freq_sample =
  cf_timestamp :: u64
  cf_page_rss :: u64
  cf_virt_mem_usage :: u64
  cf_peak_rss :: u64
  cf_context_switch_count :: u64
  cf_page_faults :: u64
  cf_user_mode_time :: u64
  cf_kernel_mode_time :: u64
  cf_freqs :: bytes

definition serialize_cpu_freq_sample :: "bytes \<Rightarrow> nat \<Rightarrow> cpu_freq_sample \<Rightarrow> (bytes \<times> nat) option" where
  "serialize_cpu_freq_sample buffer base item = store_values [
     VU64 (cf_timestamp item), VI64 (cf_page_rss item), VI64 (cf_virt_mem_usage item),
     VI64 (cf_peak_rss item), VI64 (cf_context_switch_count item),
     VI64 (cf_page_faults item), VI64 (cf_user_mode_time item),
     VI64 (cf_kernel_mode_time item), vec8 (cf_freqs item)] buffer base"

definition deserialize_cpu_freq_sample :: "bytes \<Rightarrow> (cpu_freq_sample \<times> bytes) option" where
  "deserialize_cpu_freq_sample buffer = do {
     (timestamp_v, buffer) \<leftarrow> parse_u64 buffer;
     (page_rss_v, buffer) \<leftarrow> parse_i64 buffer;
     (virt_mem_usage_v, buffer) \<leftarrow> parse_i64 buffer;
     (peak_rss_v, buffer) \<leftarrow> parse_i64 buffer;
     (context_switch_count_v, buffer) \<leftarrow> parse_i64 buffer;
     (page_faults_v, buffer) \<leftarrow> parse_i64 buffer;
     (user_mode_time_v, buffer) \<leftarrow> parse_i64 buffer;
     (kernel_mode_time_v, buffer) \<leftarrow> parse_i64 buffer;
     (freqs_v, buffer) \<leftarrow> parse_vec buffer;
     Some (\<lparr>
       cf_timestamp = timestamp_v, cf_page_rss = page_rss_v,
       cf_virt_mem_usage = virt_mem_usage_v, cf_peak_rss = peak_rss_v,
       cf_context_switch_count = context_switch_count_v,
       cf_page_faults = page_faults_v, cf_user_mode_time = user_mode_time_v,
       cf_kernel_mode_time = kernel_mode_time_v, cf_freqs = freqs_v\<rparr>, buffer) }"

definition get_size_cpu_freq_sample :: "cpu_freq_sample \<Rightarrow> nat" where
  "get_size_cpu_freq_sample item = get_sizes [
     VU64 (cf_timestamp item), VI64 (cf_page_rss item), VI64 (cf_virt_mem_usage item),
     VI64 (cf_peak_rss item), VI64 (cf_context_switch_count item),
     VI64 (cf_page_faults item), VI64 (cf_user_mode_time item),
     VI64 (cf_kernel_mode_time item), vec8 (cf_freqs item)]"

definition values_cpu_freq_sample :: "cpu_freq_sample \<Rightarrow> cval list" where
  "values_cpu_freq_sample item = [
     VU64 (cf_timestamp item), VI64 (cf_page_rss item), VI64 (cf_virt_mem_usage item),
     VI64 (cf_peak_rss item), VI64 (cf_context_switch_count item),
     VI64 (cf_page_faults item), VI64 (cf_user_mode_time item),
     VI64 (cf_kernel_mode_time item), vec8 (cf_freqs item)]"

subsection \<open>backtrace region sample\<close>

record backtrace_region_sample =
  brs_type :: u32
  brs_thread_id :: u64
  brs_track_name :: bytes
  brs_name :: bytes
  brs_start_timestamp :: u64
  brs_end_timestamp :: u64
  brs_category :: bytes
  brs_call_stack :: bytes
  brs_line_info :: bytes
  brs_extdata :: bytes

definition serialize_backtrace_region_sample :: "bytes \<Rightarrow> nat \<Rightarrow> backtrace_region_sample \<Rightarrow> (bytes \<times> nat) option" where
  "serialize_backtrace_region_sample buffer base item = store_values [
     VU32 (brs_type item), VU64 (brs_thread_id item), VStr (brs_track_name item),
     VStr (brs_name item), VU64 (brs_start_timestamp item),
     VU64 (brs_end_timestamp item), VStr (brs_category item),
     VStr (brs_call_stack item), VStr (brs_line_info item), VStr (brs_extdata item)] buffer base"

definition deserialize_backtrace_region_sample :: "bytes \<Rightarrow> (backtrace_region_sample \<times> bytes) option" where
  "deserialize_backtrace_region_sample buffer = do {
     (type_v, buffer) \<leftarrow> parse_u32 buffer;
     (thread_id_v, buffer) \<leftarrow> parse_u64 buffer;
     (track_name_v, buffer) \<leftarrow> parse_str buffer;
     (name_v, buffer) \<leftarrow> parse_str buffer;
     (start_timestamp_v, buffer) \<leftarrow> parse_u64 buffer;
     (end_timestamp_v, buffer) \<leftarrow> parse_u64 buffer;
     (category_v, buffer) \<leftarrow> parse_str buffer;
     (call_stack_v, buffer) \<leftarrow> parse_str buffer;
     (line_info_v, buffer) \<leftarrow> parse_str buffer;
     (extdata_v, buffer) \<leftarrow> parse_str buffer;
     Some (\<lparr>
       brs_type = type_v, brs_thread_id = thread_id_v, brs_track_name = track_name_v,
       brs_name = name_v, brs_start_timestamp = start_timestamp_v,
       brs_end_timestamp = end_timestamp_v, brs_category = category_v,
       brs_call_stack = call_stack_v, brs_line_info = line_info_v,
       brs_extdata = extdata_v\<rparr>, buffer) }"

definition get_size_backtrace_region_sample :: "backtrace_region_sample \<Rightarrow> nat" where
  "get_size_backtrace_region_sample item = get_sizes [
     VU32 (brs_type item), VU64 (brs_thread_id item), VStr (brs_track_name item),
     VStr (brs_name item), VU64 (brs_start_timestamp item),
     VU64 (brs_end_timestamp item), VStr (brs_category item),
     VStr (brs_call_stack item), VStr (brs_line_info item), VStr (brs_extdata item)]"

definition values_backtrace_region_sample :: "backtrace_region_sample \<Rightarrow> cval list" where
  "values_backtrace_region_sample item = [
     VU32 (brs_type item), VU64 (brs_thread_id item), VStr (brs_track_name item),
     VStr (brs_name item), VU64 (brs_start_timestamp item),
     VU64 (brs_end_timestamp item), VStr (brs_category item),
     VStr (brs_call_stack item), VStr (brs_line_info item), VStr (brs_extdata item)]"

section \<open>Every sample is a cacheable type\<close>

text \<open>
  The bytes of a sample are the encodings of its fields in order. The interpretation proves
  the contract from the code's three functions; its facts are used under the qualifier.
\<close>

lemma store_values_payload:
  assumes "list_all wf_cval vs" and "base + get_sizes vs \<le> length mem"
  shows "store_values vs mem base = Some (write_at base (encodes vs) mem, base + get_sizes vs)"
  using assms by (rule store_values_encodes)

interpretation kd: cacheable_type "\<lambda>x. list_all wf_cval (values_kernel_dispatch_sample x)"
  get_size_kernel_dispatch_sample serialize_kernel_dispatch_sample deserialize_kernel_dispatch_sample "\<lambda>x. encodes (values_kernel_dispatch_sample x)"
proof unfold_locales
  fix x :: kernel_dispatch_sample and base :: nat and mem r :: bytes
  assume ok: "list_all wf_cval (values_kernel_dispatch_sample x)"
  show "length (encodes (values_kernel_dispatch_sample x)) = get_size_kernel_dispatch_sample x"
    using length_encodes [OF ok] by (simp add: get_size_kernel_dispatch_sample_def values_kernel_dispatch_sample_def)
  show "deserialize_kernel_dispatch_sample (encodes (values_kernel_dispatch_sample x) @ r) = Some (x, r)"
    using ok by (cases x) (simp add: deserialize_kernel_dispatch_sample_def values_kernel_dispatch_sample_def
      del: encode.simps)
  show "serialize_kernel_dispatch_sample mem base x = None"
    if "base \<le> length mem" and "length mem < base + get_size_kernel_dispatch_sample x"
    using ok that store_values_oob [of "values_kernel_dispatch_sample x" base mem]
    by (simp add: serialize_kernel_dispatch_sample_def values_kernel_dispatch_sample_def get_size_kernel_dispatch_sample_def
      del: store_values.simps get_sizes.simps)
  assume "base + get_size_kernel_dispatch_sample x \<le> length mem"
  with ok show "serialize_kernel_dispatch_sample mem base x =
      Some (write_at base (encodes (values_kernel_dispatch_sample x)) mem, base + get_size_kernel_dispatch_sample x)"
    using store_values_payload [of "values_kernel_dispatch_sample x" base mem]
    by (simp add: serialize_kernel_dispatch_sample_def values_kernel_dispatch_sample_def get_size_kernel_dispatch_sample_def
      del: store_values.simps get_sizes.simps encodes_simps)
qed

interpretation sm: cacheable_type "\<lambda>x. list_all wf_cval (values_scratch_memory_sample x)"
  get_size_scratch_memory_sample serialize_scratch_memory_sample deserialize_scratch_memory_sample "\<lambda>x. encodes (values_scratch_memory_sample x)"
proof unfold_locales
  fix x :: scratch_memory_sample and base :: nat and mem r :: bytes
  assume ok: "list_all wf_cval (values_scratch_memory_sample x)"
  show "length (encodes (values_scratch_memory_sample x)) = get_size_scratch_memory_sample x"
    using length_encodes [OF ok] by (simp add: get_size_scratch_memory_sample_def values_scratch_memory_sample_def)
  show "deserialize_scratch_memory_sample (encodes (values_scratch_memory_sample x) @ r) = Some (x, r)"
    using ok by (cases x) (simp add: deserialize_scratch_memory_sample_def values_scratch_memory_sample_def
      del: encode.simps)
  show "serialize_scratch_memory_sample mem base x = None"
    if "base \<le> length mem" and "length mem < base + get_size_scratch_memory_sample x"
    using ok that store_values_oob [of "values_scratch_memory_sample x" base mem]
    by (simp add: serialize_scratch_memory_sample_def values_scratch_memory_sample_def get_size_scratch_memory_sample_def
      del: store_values.simps get_sizes.simps)
  assume "base + get_size_scratch_memory_sample x \<le> length mem"
  with ok show "serialize_scratch_memory_sample mem base x =
      Some (write_at base (encodes (values_scratch_memory_sample x)) mem, base + get_size_scratch_memory_sample x)"
    using store_values_payload [of "values_scratch_memory_sample x" base mem]
    by (simp add: serialize_scratch_memory_sample_def values_scratch_memory_sample_def get_size_scratch_memory_sample_def
      del: store_values.simps get_sizes.simps encodes_simps)
qed

interpretation mc: cacheable_type "\<lambda>x. list_all wf_cval (values_memory_copy_sample x)"
  get_size_memory_copy_sample serialize_memory_copy_sample deserialize_memory_copy_sample "\<lambda>x. encodes (values_memory_copy_sample x)"
proof unfold_locales
  fix x :: memory_copy_sample and base :: nat and mem r :: bytes
  assume ok: "list_all wf_cval (values_memory_copy_sample x)"
  show "length (encodes (values_memory_copy_sample x)) = get_size_memory_copy_sample x"
    using length_encodes [OF ok] by (simp add: get_size_memory_copy_sample_def values_memory_copy_sample_def)
  show "deserialize_memory_copy_sample (encodes (values_memory_copy_sample x) @ r) = Some (x, r)"
    using ok by (cases x) (simp add: deserialize_memory_copy_sample_def values_memory_copy_sample_def
      del: encode.simps)
  show "serialize_memory_copy_sample mem base x = None"
    if "base \<le> length mem" and "length mem < base + get_size_memory_copy_sample x"
    using ok that store_values_oob [of "values_memory_copy_sample x" base mem]
    by (simp add: serialize_memory_copy_sample_def values_memory_copy_sample_def get_size_memory_copy_sample_def
      del: store_values.simps get_sizes.simps)
  assume "base + get_size_memory_copy_sample x \<le> length mem"
  with ok show "serialize_memory_copy_sample mem base x =
      Some (write_at base (encodes (values_memory_copy_sample x)) mem, base + get_size_memory_copy_sample x)"
    using store_values_payload [of "values_memory_copy_sample x" base mem]
    by (simp add: serialize_memory_copy_sample_def values_memory_copy_sample_def get_size_memory_copy_sample_def
      del: store_values.simps get_sizes.simps encodes_simps)
qed

interpretation ma: cacheable_type "\<lambda>x. list_all wf_cval (values_memory_allocate_sample x)"
  get_size_memory_allocate_sample serialize_memory_allocate_sample deserialize_memory_allocate_sample "\<lambda>x. encodes (values_memory_allocate_sample x)"
proof unfold_locales
  fix x :: memory_allocate_sample and base :: nat and mem r :: bytes
  assume ok: "list_all wf_cval (values_memory_allocate_sample x)"
  show "length (encodes (values_memory_allocate_sample x)) = get_size_memory_allocate_sample x"
    using length_encodes [OF ok] by (simp add: get_size_memory_allocate_sample_def values_memory_allocate_sample_def)
  show "deserialize_memory_allocate_sample (encodes (values_memory_allocate_sample x) @ r) = Some (x, r)"
    using ok by (cases x) (simp add: deserialize_memory_allocate_sample_def values_memory_allocate_sample_def
      del: encode.simps)
  show "serialize_memory_allocate_sample mem base x = None"
    if "base \<le> length mem" and "length mem < base + get_size_memory_allocate_sample x"
    using ok that store_values_oob [of "values_memory_allocate_sample x" base mem]
    by (simp add: serialize_memory_allocate_sample_def values_memory_allocate_sample_def get_size_memory_allocate_sample_def
      del: store_values.simps get_sizes.simps)
  assume "base + get_size_memory_allocate_sample x \<le> length mem"
  with ok show "serialize_memory_allocate_sample mem base x =
      Some (write_at base (encodes (values_memory_allocate_sample x)) mem, base + get_size_memory_allocate_sample x)"
    using store_values_payload [of "values_memory_allocate_sample x" base mem]
    by (simp add: serialize_memory_allocate_sample_def values_memory_allocate_sample_def get_size_memory_allocate_sample_def
      del: store_values.simps get_sizes.simps encodes_simps)
qed

interpretation rs: cacheable_type "\<lambda>x. list_all wf_cval (values_region_sample x)"
  get_size_region_sample serialize_region_sample deserialize_region_sample "\<lambda>x. encodes (values_region_sample x)"
proof unfold_locales
  fix x :: region_sample and base :: nat and mem r :: bytes
  assume ok: "list_all wf_cval (values_region_sample x)"
  show "length (encodes (values_region_sample x)) = get_size_region_sample x"
    using length_encodes [OF ok] by (simp add: get_size_region_sample_def values_region_sample_def)
  show "deserialize_region_sample (encodes (values_region_sample x) @ r) = Some (x, r)"
    using ok by (cases x) (simp add: deserialize_region_sample_def values_region_sample_def
      del: encode.simps)
  show "serialize_region_sample mem base x = None"
    if "base \<le> length mem" and "length mem < base + get_size_region_sample x"
    using ok that store_values_oob [of "values_region_sample x" base mem]
    by (simp add: serialize_region_sample_def values_region_sample_def get_size_region_sample_def
      del: store_values.simps get_sizes.simps)
  assume "base + get_size_region_sample x \<le> length mem"
  with ok show "serialize_region_sample mem base x =
      Some (write_at base (encodes (values_region_sample x)) mem, base + get_size_region_sample x)"
    using store_values_payload [of "values_region_sample x" base mem]
    by (simp add: serialize_region_sample_def values_region_sample_def get_size_region_sample_def
      del: store_values.simps get_sizes.simps encodes_simps)
qed

interpretation its: cacheable_type "\<lambda>x. list_all wf_cval (values_in_time_sample x)"
  get_size_in_time_sample serialize_in_time_sample deserialize_in_time_sample "\<lambda>x. encodes (values_in_time_sample x)"
proof unfold_locales
  fix x :: in_time_sample and base :: nat and mem r :: bytes
  assume ok: "list_all wf_cval (values_in_time_sample x)"
  show "length (encodes (values_in_time_sample x)) = get_size_in_time_sample x"
    using length_encodes [OF ok] by (simp add: get_size_in_time_sample_def values_in_time_sample_def)
  show "deserialize_in_time_sample (encodes (values_in_time_sample x) @ r) = Some (x, r)"
    using ok by (cases x) (simp add: deserialize_in_time_sample_def values_in_time_sample_def
      del: encode.simps)
  show "serialize_in_time_sample mem base x = None"
    if "base \<le> length mem" and "length mem < base + get_size_in_time_sample x"
    using ok that store_values_oob [of "values_in_time_sample x" base mem]
    by (simp add: serialize_in_time_sample_def values_in_time_sample_def get_size_in_time_sample_def
      del: store_values.simps get_sizes.simps)
  assume "base + get_size_in_time_sample x \<le> length mem"
  with ok show "serialize_in_time_sample mem base x =
      Some (write_at base (encodes (values_in_time_sample x)) mem, base + get_size_in_time_sample x)"
    using store_values_payload [of "values_in_time_sample x" base mem]
    by (simp add: serialize_in_time_sample_def values_in_time_sample_def get_size_in_time_sample_def
      del: store_values.simps get_sizes.simps encodes_simps)
qed

interpretation pmc: cacheable_type "\<lambda>x. list_all wf_cval (values_pmc_event_with_sample x)"
  get_size_pmc_event_with_sample serialize_pmc_event_with_sample deserialize_pmc_event_with_sample "\<lambda>x. encodes (values_pmc_event_with_sample x)"
proof unfold_locales
  fix x :: pmc_event_with_sample and base :: nat and mem r :: bytes
  assume ok: "list_all wf_cval (values_pmc_event_with_sample x)"
  show "length (encodes (values_pmc_event_with_sample x)) = get_size_pmc_event_with_sample x"
    using length_encodes [OF ok] by (simp add: get_size_pmc_event_with_sample_def values_pmc_event_with_sample_def)
  show "deserialize_pmc_event_with_sample (encodes (values_pmc_event_with_sample x) @ r) = Some (x, r)"
    using ok by (cases x) (simp add: deserialize_pmc_event_with_sample_def values_pmc_event_with_sample_def
      del: encode.simps)
  show "serialize_pmc_event_with_sample mem base x = None"
    if "base \<le> length mem" and "length mem < base + get_size_pmc_event_with_sample x"
    using ok that store_values_oob [of "values_pmc_event_with_sample x" base mem]
    by (simp add: serialize_pmc_event_with_sample_def values_pmc_event_with_sample_def get_size_pmc_event_with_sample_def
      del: store_values.simps get_sizes.simps)
  assume "base + get_size_pmc_event_with_sample x \<le> length mem"
  with ok show "serialize_pmc_event_with_sample mem base x =
      Some (write_at base (encodes (values_pmc_event_with_sample x)) mem, base + get_size_pmc_event_with_sample x)"
    using store_values_payload [of "values_pmc_event_with_sample x" base mem]
    by (simp add: serialize_pmc_event_with_sample_def values_pmc_event_with_sample_def get_size_pmc_event_with_sample_def
      del: store_values.simps get_sizes.simps encodes_simps)
qed

interpretation smi: cacheable_type "\<lambda>x. list_all wf_cval (values_amd_smi_sample x)"
  get_size_amd_smi_sample serialize_amd_smi_sample deserialize_amd_smi_sample "\<lambda>x. encodes (values_amd_smi_sample x)"
proof unfold_locales
  fix x :: amd_smi_sample and base :: nat and mem r :: bytes
  assume ok: "list_all wf_cval (values_amd_smi_sample x)"
  show "length (encodes (values_amd_smi_sample x)) = get_size_amd_smi_sample x"
    using length_encodes [OF ok] by (simp add: get_size_amd_smi_sample_def values_amd_smi_sample_def)
  show "deserialize_amd_smi_sample (encodes (values_amd_smi_sample x) @ r) = Some (x, r)"
    using ok by (cases x) (simp add: deserialize_amd_smi_sample_def values_amd_smi_sample_def
      del: encode.simps)
  show "serialize_amd_smi_sample mem base x = None"
    if "base \<le> length mem" and "length mem < base + get_size_amd_smi_sample x"
    using ok that store_values_oob [of "values_amd_smi_sample x" base mem]
    by (simp add: serialize_amd_smi_sample_def values_amd_smi_sample_def get_size_amd_smi_sample_def
      del: store_values.simps get_sizes.simps)
  assume "base + get_size_amd_smi_sample x \<le> length mem"
  with ok show "serialize_amd_smi_sample mem base x =
      Some (write_at base (encodes (values_amd_smi_sample x)) mem, base + get_size_amd_smi_sample x)"
    using store_values_payload [of "values_amd_smi_sample x" base mem]
    by (simp add: serialize_amd_smi_sample_def values_amd_smi_sample_def get_size_amd_smi_sample_def
      del: store_values.simps get_sizes.simps encodes_simps)
qed

interpretation cf: cacheable_type "\<lambda>x. list_all wf_cval (values_cpu_freq_sample x)"
  get_size_cpu_freq_sample serialize_cpu_freq_sample deserialize_cpu_freq_sample "\<lambda>x. encodes (values_cpu_freq_sample x)"
proof unfold_locales
  fix x :: cpu_freq_sample and base :: nat and mem r :: bytes
  assume ok: "list_all wf_cval (values_cpu_freq_sample x)"
  show "length (encodes (values_cpu_freq_sample x)) = get_size_cpu_freq_sample x"
    using length_encodes [OF ok] by (simp add: get_size_cpu_freq_sample_def values_cpu_freq_sample_def)
  show "deserialize_cpu_freq_sample (encodes (values_cpu_freq_sample x) @ r) = Some (x, r)"
    using ok by (cases x) (simp add: deserialize_cpu_freq_sample_def values_cpu_freq_sample_def
      del: encode.simps)
  show "serialize_cpu_freq_sample mem base x = None"
    if "base \<le> length mem" and "length mem < base + get_size_cpu_freq_sample x"
    using ok that store_values_oob [of "values_cpu_freq_sample x" base mem]
    by (simp add: serialize_cpu_freq_sample_def values_cpu_freq_sample_def get_size_cpu_freq_sample_def
      del: store_values.simps get_sizes.simps)
  assume "base + get_size_cpu_freq_sample x \<le> length mem"
  with ok show "serialize_cpu_freq_sample mem base x =
      Some (write_at base (encodes (values_cpu_freq_sample x)) mem, base + get_size_cpu_freq_sample x)"
    using store_values_payload [of "values_cpu_freq_sample x" base mem]
    by (simp add: serialize_cpu_freq_sample_def values_cpu_freq_sample_def get_size_cpu_freq_sample_def
      del: store_values.simps get_sizes.simps encodes_simps)
qed

interpretation brs: cacheable_type "\<lambda>x. list_all wf_cval (values_backtrace_region_sample x)"
  get_size_backtrace_region_sample serialize_backtrace_region_sample deserialize_backtrace_region_sample "\<lambda>x. encodes (values_backtrace_region_sample x)"
proof unfold_locales
  fix x :: backtrace_region_sample and base :: nat and mem r :: bytes
  assume ok: "list_all wf_cval (values_backtrace_region_sample x)"
  show "length (encodes (values_backtrace_region_sample x)) = get_size_backtrace_region_sample x"
    using length_encodes [OF ok] by (simp add: get_size_backtrace_region_sample_def values_backtrace_region_sample_def)
  show "deserialize_backtrace_region_sample (encodes (values_backtrace_region_sample x) @ r) = Some (x, r)"
    using ok by (cases x) (simp add: deserialize_backtrace_region_sample_def values_backtrace_region_sample_def
      del: encode.simps)
  show "serialize_backtrace_region_sample mem base x = None"
    if "base \<le> length mem" and "length mem < base + get_size_backtrace_region_sample x"
    using ok that store_values_oob [of "values_backtrace_region_sample x" base mem]
    by (simp add: serialize_backtrace_region_sample_def values_backtrace_region_sample_def get_size_backtrace_region_sample_def
      del: store_values.simps get_sizes.simps)
  assume "base + get_size_backtrace_region_sample x \<le> length mem"
  with ok show "serialize_backtrace_region_sample mem base x =
      Some (write_at base (encodes (values_backtrace_region_sample x)) mem, base + get_size_backtrace_region_sample x)"
    using store_values_payload [of "values_backtrace_region_sample x" base mem]
    by (simp add: serialize_backtrace_region_sample_def values_backtrace_region_sample_def get_size_backtrace_region_sample_def
      del: store_values.simps get_sizes.simps encodes_simps)
qed

end
