(* ===== verification/Type_Registry.thy ===== *)
theory Type_Registry
  imports Sample_Types
begin

text \<open>
  The variant of all supported samples and the registry that maps a type identifier to its
  deserializer (\<open>core/trace_cache/type_registry.hpp\<close>), instantiated with the type list of
  \<open>storage_parser_t\<close> in \<open>core/trace_cache/cache_manager.hpp\<close>.
\<close>

section \<open>The variant\<close>

datatype sample =
    KernelDispatch kernel_dispatch_sample
  | MemoryCopy memory_copy_sample
  | MemoryAllocate memory_allocate_sample
  | Region region_sample
  | InTime in_time_sample
  | PmcEvent pmc_event_with_sample
  | AmdSmi amd_smi_sample
  | CpuFreq cpu_freq_sample
  | BacktraceRegion backtrace_region_sample
  | ScratchMemory scratch_memory_sample

text \<open>The \<open>type_identifier\<close> member of each sample type.\<close>

fun sample_type_identifier :: "sample \<Rightarrow> type_identifier_t" where
  "sample_type_identifier (KernelDispatch x) = kernel_dispatch_id"
| "sample_type_identifier (MemoryCopy x) = memory_copy_id"
| "sample_type_identifier (MemoryAllocate x) = memory_alloc_id"
| "sample_type_identifier (Region x) = region_id"
| "sample_type_identifier (InTime x) = in_time_sample_id"
| "sample_type_identifier (PmcEvent x) = pmc_event_with_sample_id"
| "sample_type_identifier (AmdSmi x) = amd_smi_sample_id"
| "sample_type_identifier (CpuFreq x) = cpu_freq_sample_id"
| "sample_type_identifier (BacktraceRegion x) = backtrace_region_sample_id"
| "sample_type_identifier (ScratchMemory x) = scratch_memory_id"

text \<open>Overload resolution of \<open>get_size\<close> and \<open>serialize\<close> in \<open>store\<close>.\<close>

fun sample_size :: "sample \<Rightarrow> nat" where
  "sample_size (KernelDispatch x) = get_size_kernel_dispatch_sample x"
| "sample_size (MemoryCopy x) = get_size_memory_copy_sample x"
| "sample_size (MemoryAllocate x) = get_size_memory_allocate_sample x"
| "sample_size (Region x) = get_size_region_sample x"
| "sample_size (InTime x) = get_size_in_time_sample x"
| "sample_size (PmcEvent x) = get_size_pmc_event_with_sample x"
| "sample_size (AmdSmi x) = get_size_amd_smi_sample x"
| "sample_size (CpuFreq x) = get_size_cpu_freq_sample x"
| "sample_size (BacktraceRegion x) = get_size_backtrace_region_sample x"
| "sample_size (ScratchMemory x) = get_size_scratch_memory_sample x"

fun sample_serialize :: "bytes \<Rightarrow> nat \<Rightarrow> sample \<Rightarrow> (bytes \<times> nat) option" where
  "sample_serialize mem base (KernelDispatch x) = serialize_kernel_dispatch_sample mem base x"
| "sample_serialize mem base (MemoryCopy x) = serialize_memory_copy_sample mem base x"
| "sample_serialize mem base (MemoryAllocate x) = serialize_memory_allocate_sample mem base x"
| "sample_serialize mem base (Region x) = serialize_region_sample mem base x"
| "sample_serialize mem base (InTime x) = serialize_in_time_sample mem base x"
| "sample_serialize mem base (PmcEvent x) = serialize_pmc_event_with_sample mem base x"
| "sample_serialize mem base (AmdSmi x) = serialize_amd_smi_sample mem base x"
| "sample_serialize mem base (CpuFreq x) = serialize_cpu_freq_sample mem base x"
| "sample_serialize mem base (BacktraceRegion x) = serialize_backtrace_region_sample mem base x"
| "sample_serialize mem base (ScratchMemory x) = serialize_scratch_memory_sample mem base x"

text \<open>The field values and the bytes of a sample, and what C++ guarantees of its strings.\<close>

fun sample_values :: "sample \<Rightarrow> cval list" where
  "sample_values (KernelDispatch x) = values_kernel_dispatch_sample x"
| "sample_values (MemoryCopy x) = values_memory_copy_sample x"
| "sample_values (MemoryAllocate x) = values_memory_allocate_sample x"
| "sample_values (Region x) = values_region_sample x"
| "sample_values (InTime x) = values_in_time_sample x"
| "sample_values (PmcEvent x) = values_pmc_event_with_sample x"
| "sample_values (AmdSmi x) = values_amd_smi_sample x"
| "sample_values (CpuFreq x) = values_cpu_freq_sample x"
| "sample_values (BacktraceRegion x) = values_backtrace_region_sample x"
| "sample_values (ScratchMemory x) = values_scratch_memory_sample x"

definition sample_ok :: "sample \<Rightarrow> bool" where
  "sample_ok s \<longleftrightarrow> list_all wf_cval (sample_values s)"

definition sample_payload :: "sample \<Rightarrow> bytes" where
  "sample_payload s = encodes (sample_values s)"

definition sample_id :: "sample \<Rightarrow> u32" where
  "sample_id s = type_identifier_value (sample_type_identifier s)"

section \<open>The registry\<close>

text \<open>
  \<open>deserializers\<close> is a \<open>std::map\<close> from identifiers to functions. \<open>get_type\<close>
  distinguishes an identifier without deserializer (\<open>std::nullopt\<close>) from a deserializer
  that reads past the sample's bytes, which the code does not guard against.
\<close>

datatype get_type_result =
    Unknown_type
  | Out_of_bounds_read
  | Value sample bytes

type_synonym type_registry = "u32 \<rightharpoonup> (bytes \<Rightarrow> (sample \<times> bytes) option)"

definition register_type ::
    "type_identifier_t \<Rightarrow> (bytes \<Rightarrow> ('a \<times> bytes) option) \<Rightarrow> ('a \<Rightarrow> sample) \<Rightarrow>
     type_registry \<Rightarrow> type_registry" where
  "register_type type_id deserialize variant deserializers =
     deserializers(type_identifier_value type_id \<mapsto>
       (\<lambda>data. map_option (\<lambda>(x, rest). (variant x, rest)) (deserialize data)))"

definition get_type :: "type_registry \<Rightarrow> u32 \<Rightarrow> bytes \<Rightarrow> get_type_result" where
  "get_type deserializers type_id data =
     (case deserializers type_id of
        Some f \<Rightarrow> (case f data of Some (s, rest) \<Rightarrow> Value s rest | None \<Rightarrow> Out_of_bounds_read)
      | None \<Rightarrow> Unknown_type)"

text \<open>The constructor registers the supported types in the order of the template list.\<close>

definition storage_parser_registry :: type_registry where
  "storage_parser_registry =
     register_type scratch_memory_id deserialize_scratch_memory_sample ScratchMemory (
     register_type backtrace_region_sample_id deserialize_backtrace_region_sample BacktraceRegion (
     register_type cpu_freq_sample_id deserialize_cpu_freq_sample CpuFreq (
     register_type amd_smi_sample_id deserialize_amd_smi_sample AmdSmi (
     register_type pmc_event_with_sample_id deserialize_pmc_event_with_sample PmcEvent (
     register_type in_time_sample_id deserialize_in_time_sample InTime (
     register_type region_id deserialize_region_sample Region (
     register_type memory_alloc_id deserialize_memory_allocate_sample MemoryAllocate (
     register_type memory_copy_id deserialize_memory_copy_sample MemoryCopy (
     register_type kernel_dispatch_id deserialize_kernel_dispatch_sample KernelDispatch (Map.empty))))))))))"

lemma get_type_registry:
  "get_type storage_parser_registry (type_identifier_value i) data =
    (if i = fragmented_space_id then Unknown_type else
     case (case i of
        kernel_dispatch_id \<Rightarrow> map_option (\<lambda>(x, rest). (KernelDispatch x, rest)) (deserialize_kernel_dispatch_sample data)
      | memory_copy_id \<Rightarrow> map_option (\<lambda>(x, rest). (MemoryCopy x, rest)) (deserialize_memory_copy_sample data)
      | memory_alloc_id \<Rightarrow> map_option (\<lambda>(x, rest). (MemoryAllocate x, rest)) (deserialize_memory_allocate_sample data)
      | region_id \<Rightarrow> map_option (\<lambda>(x, rest). (Region x, rest)) (deserialize_region_sample data)
      | in_time_sample_id \<Rightarrow> map_option (\<lambda>(x, rest). (InTime x, rest)) (deserialize_in_time_sample data)
      | pmc_event_with_sample_id \<Rightarrow> map_option (\<lambda>(x, rest). (PmcEvent x, rest)) (deserialize_pmc_event_with_sample data)
      | amd_smi_sample_id \<Rightarrow> map_option (\<lambda>(x, rest). (AmdSmi x, rest)) (deserialize_amd_smi_sample data)
      | cpu_freq_sample_id \<Rightarrow> map_option (\<lambda>(x, rest). (CpuFreq x, rest)) (deserialize_cpu_freq_sample data)
      | backtrace_region_sample_id \<Rightarrow> map_option (\<lambda>(x, rest). (BacktraceRegion x, rest)) (deserialize_backtrace_region_sample data)
      | scratch_memory_id \<Rightarrow> map_option (\<lambda>(x, rest). (ScratchMemory x, rest)) (deserialize_scratch_memory_sample data)
      | fragmented_space_id \<Rightarrow> None)
     of Some (s, rest) \<Rightarrow> Value s rest | None \<Rightarrow> Out_of_bounds_read)"
  by (cases i) (simp_all add: get_type_def storage_parser_registry_def register_type_def)

section \<open>The contract of the variant\<close>

lemma length_sample_payload: "sample_ok s \<Longrightarrow> length (sample_payload s) = sample_size s"
  by (cases s) (auto simp: sample_ok_def sample_payload_def intro: kd.payload_size mc.payload_size ma.payload_size rs.payload_size its.payload_size
      pmc.payload_size smi.payload_size cf.payload_size brs.payload_size sm.payload_size)

lemma sample_serialize_payload:
  "sample_ok s \<Longrightarrow> base + sample_size s \<le> length mem \<Longrightarrow>
    sample_serialize mem base s =
      Some (write_at base (sample_payload s) mem, base + sample_size s)"
  by (cases s) (auto simp: sample_ok_def sample_payload_def intro: kd.serialize_payload mc.serialize_payload ma.serialize_payload rs.serialize_payload
      its.serialize_payload pmc.serialize_payload smi.serialize_payload
      cf.serialize_payload brs.serialize_payload sm.serialize_payload)

lemma sample_serialize_oob:
  "sample_ok s \<Longrightarrow> base \<le> length mem \<Longrightarrow> length mem < base + sample_size s \<Longrightarrow>
    sample_serialize mem base s = None"
  by (cases s) (auto simp: sample_ok_def intro: kd.serialize_oob mc.serialize_oob ma.serialize_oob rs.serialize_oob its.serialize_oob
      pmc.serialize_oob smi.serialize_oob cf.serialize_oob brs.serialize_oob sm.serialize_oob)

text \<open>The registry finds the deserializer of a sample's own identifier, and it reads it back.\<close>

lemma get_type_payload:
  assumes "sample_ok s"
  shows "get_type storage_parser_registry (sample_id s) (sample_payload s @ r) = Value s r"
  using assms
  by (cases s) (simp_all add: sample_id_def sample_ok_def sample_payload_def get_type_registry
      kd.deserialize_payload mc.deserialize_payload ma.deserialize_payload rs.deserialize_payload
      its.deserialize_payload pmc.deserialize_payload smi.deserialize_payload
      cf.deserialize_payload brs.deserialize_payload sm.deserialize_payload
      del: type_identifier_value.simps)

lemma sample_id_not_fragmented: "sample_id s \<noteq> type_identifier_value fragmented_space_id"
  by (cases s) (simp_all add: sample_id_def)

text \<open>An identifier outside the enumeration has no deserializer.\<close>

lemma get_type_unknown:
  assumes "\<And>i. i \<noteq> fragmented_space_id \<Longrightarrow> t \<noteq> type_identifier_value i"
  shows "get_type storage_parser_registry t data = Unknown_type"
proof -
  have "t \<noteq> type_identifier_value kernel_dispatch_id" and
    "t \<noteq> type_identifier_value memory_copy_id" and
    "t \<noteq> type_identifier_value memory_alloc_id" and
    "t \<noteq> type_identifier_value region_id" and
    "t \<noteq> type_identifier_value in_time_sample_id" and
    "t \<noteq> type_identifier_value pmc_event_with_sample_id" and
    "t \<noteq> type_identifier_value amd_smi_sample_id" and
    "t \<noteq> type_identifier_value cpu_freq_sample_id" and
    "t \<noteq> type_identifier_value backtrace_region_sample_id" and
    "t \<noteq> type_identifier_value scratch_memory_id"
    by (intro assms; simp)+
  then show ?thesis
    by (simp add: get_type_def storage_parser_registry_def register_type_def)
qed

text \<open>Every sample takes at least one byte, so no record of the log is skipped as empty.\<close>

lemma sample_size_pos: "0 < sample_size s"
  by (cases s) (simp_all add: 
      get_size_kernel_dispatch_sample_def
      get_size_memory_copy_sample_def
      get_size_memory_allocate_sample_def
      get_size_region_sample_def
      get_size_in_time_sample_def
      get_size_pmc_event_with_sample_def
      get_size_amd_smi_sample_def
      get_size_cpu_freq_sample_def
      get_size_backtrace_region_sample_def
      get_size_scratch_memory_sample_def)

end
