(* ===== verification/Sample_Processor.thy ===== *)
theory Sample_Processor
  imports Type_Registry
begin

text \<open>
  The processing side of the trace cache (\<open>core/trace_cache/sample_processor.hpp\<close>): a
  processor of type \<open>T\<close> is erased to a view (an object and a table of functions), and a
  sample is dispatched by its identifier to every view in the order they were added.

  The object of a view is a value of type \<open>'st\<close>, which a handler returns updated. The
  parameter \<open>mem_alloc\<close> is the preprocessor condition
  \<open>ROCPROFILER_VERSION >= 600\<close>.
\<close>

datatype cache_error =
    Null_processing
  | Open_failed
  | Bad_read
  | Unsupported_sample_type
  | Memory_error

section \<open>Processors and their views\<close>

record 'st processor_t =
  handle :: "sample \<Rightarrow> 'st \<Rightarrow> 'st"
  prepare_for_processing :: "'st \<Rightarrow> 'st"
  finalize_processing :: "'st \<Rightarrow> 'st"

record 'st vtable_t =
  handle_kernel_dispatch :: "'st \<Rightarrow> kernel_dispatch_sample \<Rightarrow> 'st"
  handle_scratch_memory :: "'st \<Rightarrow> scratch_memory_sample \<Rightarrow> 'st"
  handle_memory_copy :: "'st \<Rightarrow> memory_copy_sample \<Rightarrow> 'st"
  handle_memory_allocate :: "'st \<Rightarrow> memory_allocate_sample \<Rightarrow> 'st"
  handle_region :: "'st \<Rightarrow> region_sample \<Rightarrow> 'st"
  handle_in_time_sample :: "'st \<Rightarrow> in_time_sample \<Rightarrow> 'st"
  handle_pmc_event :: "'st \<Rightarrow> pmc_event_with_sample \<Rightarrow> 'st"
  handle_amd_smi_sample :: "'st \<Rightarrow> amd_smi_sample \<Rightarrow> 'st"
  handle_cpu_freq_sample :: "'st \<Rightarrow> cpu_freq_sample \<Rightarrow> 'st"
  handle_backtrace_region :: "'st \<Rightarrow> backtrace_region_sample \<Rightarrow> 'st"
  vt_prepare_for_processing :: "'st \<Rightarrow> 'st"
  vt_finalize_processing :: "'st \<Rightarrow> 'st"

record 'st processor_view_t =
  m_object :: 'st
  m_vtable :: "'st vtable_t"

definition get_vtable_for_type :: "'st processor_t \<Rightarrow> 'st vtable_t" where
  "get_vtable_for_type T = \<lparr>
     handle_kernel_dispatch = (\<lambda>obj s. handle T (KernelDispatch s) obj),
     handle_scratch_memory = (\<lambda>obj s. handle T (ScratchMemory s) obj),
     handle_memory_copy = (\<lambda>obj s. handle T (MemoryCopy s) obj),
     handle_memory_allocate = (\<lambda>obj s. handle T (MemoryAllocate s) obj),
     handle_region = (\<lambda>obj s. handle T (Region s) obj),
     handle_in_time_sample = (\<lambda>obj s. handle T (InTime s) obj),
     handle_pmc_event = (\<lambda>obj s. handle T (PmcEvent s) obj),
     handle_amd_smi_sample = (\<lambda>obj s. handle T (AmdSmi s) obj),
     handle_cpu_freq_sample = (\<lambda>obj s. handle T (CpuFreq s) obj),
     handle_backtrace_region = (\<lambda>obj s. handle T (BacktraceRegion s) obj),
     vt_prepare_for_processing = (\<lambda>obj. prepare_for_processing T obj),
     vt_finalize_processing = (\<lambda>obj. finalize_processing T obj)\<rparr>"

definition processor_view :: "'st processor_t \<Rightarrow> 'st \<Rightarrow> 'st processor_view_t" where
  "processor_view T t = \<lparr>m_object = t, m_vtable = get_vtable_for_type T\<rparr>"

fun view_handle :: "sample \<Rightarrow> 'st processor_view_t \<Rightarrow> 'st processor_view_t" where
  "view_handle (KernelDispatch s) v =
     v\<lparr>m_object := handle_kernel_dispatch (m_vtable v) (m_object v) s\<rparr>"
| "view_handle (ScratchMemory s) v =
     v\<lparr>m_object := handle_scratch_memory (m_vtable v) (m_object v) s\<rparr>"
| "view_handle (MemoryCopy s) v =
     v\<lparr>m_object := handle_memory_copy (m_vtable v) (m_object v) s\<rparr>"
| "view_handle (MemoryAllocate s) v =
     v\<lparr>m_object := handle_memory_allocate (m_vtable v) (m_object v) s\<rparr>"
| "view_handle (Region s) v =
     v\<lparr>m_object := handle_region (m_vtable v) (m_object v) s\<rparr>"
| "view_handle (InTime s) v =
     v\<lparr>m_object := handle_in_time_sample (m_vtable v) (m_object v) s\<rparr>"
| "view_handle (PmcEvent s) v =
     v\<lparr>m_object := handle_pmc_event (m_vtable v) (m_object v) s\<rparr>"
| "view_handle (AmdSmi s) v =
     v\<lparr>m_object := handle_amd_smi_sample (m_vtable v) (m_object v) s\<rparr>"
| "view_handle (CpuFreq s) v =
     v\<lparr>m_object := handle_cpu_freq_sample (m_vtable v) (m_object v) s\<rparr>"
| "view_handle (BacktraceRegion s) v =
     v\<lparr>m_object := handle_backtrace_region (m_vtable v) (m_object v) s\<rparr>"

definition view_prepare :: "'st processor_view_t \<Rightarrow> 'st processor_view_t" where
  "view_prepare v = v\<lparr>m_object := vt_prepare_for_processing (m_vtable v) (m_object v)\<rparr>"

definition view_finalize :: "'st processor_view_t \<Rightarrow> 'st processor_view_t" where
  "view_finalize v = v\<lparr>m_object := vt_finalize_processing (m_vtable v) (m_object v)\<rparr>"

section \<open>The sample processor\<close>

record 'st sample_processor_t =
  m_processor_view_list :: "'st processor_view_t list"

definition empty_sample_processor :: "'st sample_processor_t" where
  "empty_sample_processor = \<lparr>m_processor_view_list = []\<rparr>"

definition clear_handlers :: "'st sample_processor_t \<Rightarrow> 'st sample_processor_t" where
  "clear_handlers p = p\<lparr>m_processor_view_list := []\<rparr>"

definition add_handler ::
    "'st processor_t \<Rightarrow> 'st \<Rightarrow> 'st sample_processor_t \<Rightarrow> 'st sample_processor_t" where
  "add_handler T handler p =
     p\<lparr>m_processor_view_list := m_processor_view_list p @ [processor_view T handler]\<rparr>"

definition handle_sample :: "sample \<Rightarrow> 'st sample_processor_t \<Rightarrow> 'st sample_processor_t" where
  "handle_sample s p =
     p\<lparr>m_processor_view_list := map (view_handle s) (m_processor_view_list p)\<rparr>"

definition prepare_all :: "'st sample_processor_t \<Rightarrow> 'st sample_processor_t" where
  "prepare_all p = p\<lparr>m_processor_view_list := map view_prepare (m_processor_view_list p)\<rparr>"

definition finalize_all :: "'st sample_processor_t \<Rightarrow> 'st sample_processor_t" where
  "finalize_all p = p\<lparr>m_processor_view_list := map view_finalize (m_processor_view_list p)\<rparr>"

definition is_empty :: "'st sample_processor_t \<Rightarrow> bool" where
  "is_empty p = (m_processor_view_list p = [])"

text \<open>
  The \<open>switch\<close> casts the base reference to the type of the identifier. The cast is valid
  only when the object has that type: a mismatch is undefined behaviour
  (\<open>Memory_error\<close>), an identifier with no case throws.
\<close>

definition execute_sample_processing ::
    "bool \<Rightarrow> u32 \<Rightarrow> sample \<Rightarrow> 'st sample_processor_t \<Rightarrow>
     cache_error option \<times> 'st sample_processor_t" where
  "execute_sample_processing mem_alloc type_identifier s p =
     (let cast_and_handle = (\<lambda>i. if sample_type_identifier s = i
                                 then (None, handle_sample s p) else (Some Memory_error, p))
      in if type_identifier = type_identifier_value region_id then cast_and_handle region_id
      else if type_identifier = type_identifier_value kernel_dispatch_id
        then cast_and_handle kernel_dispatch_id
      else if type_identifier = type_identifier_value scratch_memory_id
        then cast_and_handle scratch_memory_id
      else if type_identifier = type_identifier_value memory_copy_id
        then cast_and_handle memory_copy_id
      else if mem_alloc \<and> type_identifier = type_identifier_value memory_alloc_id
        then cast_and_handle memory_alloc_id
      else if type_identifier = type_identifier_value in_time_sample_id
        then cast_and_handle in_time_sample_id
      else if type_identifier = type_identifier_value pmc_event_with_sample_id
        then cast_and_handle pmc_event_with_sample_id
      else if type_identifier = type_identifier_value amd_smi_sample_id
        then cast_and_handle amd_smi_sample_id
      else if type_identifier = type_identifier_value cpu_freq_sample_id
        then cast_and_handle cpu_freq_sample_id
      else if type_identifier = type_identifier_value backtrace_region_sample_id
        then cast_and_handle backtrace_region_sample_id
      else (Some Unsupported_sample_type, p))"

section \<open>Type erasure does not change what runs\<close>

lemma view_handle_erased:
  "view_handle s (processor_view T t) = processor_view T (handle T s t)"
  by (cases s) (simp_all add: processor_view_def get_vtable_for_type_def)

lemma view_prepare_erased:
  "view_prepare (processor_view T t) = processor_view T (prepare_for_processing T t)"
  by (simp add: processor_view_def get_vtable_for_type_def view_prepare_def)

lemma view_finalize_erased:
  "view_finalize (processor_view T t) = processor_view T (finalize_processing T t)"
  by (simp add: processor_view_def get_vtable_for_type_def view_finalize_def)

text \<open>A processor built by adding handlers, as a list of (type, object) pairs.\<close>

definition processor_of :: "('st processor_t \<times> 'st) list \<Rightarrow> 'st sample_processor_t" where
  "processor_of hs = fold (\<lambda>(T, t). add_handler T t) hs empty_sample_processor"

lemma fold_add_handler:
  "m_processor_view_list (fold (\<lambda>(T, t). add_handler T t) hs p) =
    m_processor_view_list p @ map (\<lambda>(T, t). processor_view T t) hs"
  by (induction hs arbitrary: p) (auto simp: add_handler_def)

lemma views_processor_of:
  "m_processor_view_list (processor_of hs) = map (\<lambda>(T, t). processor_view T t) hs"
  by (simp add: processor_of_def fold_add_handler empty_sample_processor_def)

lemma processor_eqI:
  "m_processor_view_list p = m_processor_view_list q \<Longrightarrow> (p :: 'st sample_processor_t) = q"
  by (cases p; cases q) simp

lemma handle_sample_processor_of:
  "handle_sample s (processor_of hs) = processor_of (map (\<lambda>(T, t). (T, handle T s t)) hs)"
  by (rule processor_eqI) (simp add: handle_sample_def views_processor_of view_handle_erased
      split_def comp_def)

lemma prepare_all_processor_of:
  "prepare_all (processor_of hs) =
    processor_of (map (\<lambda>(T, t). (T, prepare_for_processing T t)) hs)"
  by (rule processor_eqI) (simp add: prepare_all_def views_processor_of view_prepare_erased
      split_def comp_def)

lemma finalize_all_processor_of:
  "finalize_all (processor_of hs) =
    processor_of (map (\<lambda>(T, t). (T, finalize_processing T t)) hs)"
  by (rule processor_eqI) (simp add: finalize_all_def views_processor_of view_finalize_erased
      split_def comp_def)

text \<open>A sample under its own identifier reaches every handler, once, unless compiled out.\<close>

lemma execute_own_id:
  "execute_sample_processing mem_alloc (sample_id s) s p =
    (if mem_alloc \<or> sample_type_identifier s \<noteq> memory_alloc_id
     then (None, handle_sample s p) else (Some Unsupported_sample_type, p))"
  by (cases s) (simp_all add: execute_sample_processing_def sample_id_def)

end
