(* ===== verification/Storage_Parser.thy ===== *)
theory Storage_Parser
  imports Sample_Processor
begin

text \<open>
  Reading a cache file back (\<open>core/trace_cache/storage_parser.hpp\<close>).

  The stream is the bytes not yet read. \<open>ifs.read\<close> of \<open>n\<close> bytes with fewer left sets
  the end-of-file and fail flags: for a header the loop then ends (a truncated header is
  dropped silently), for a payload the parser throws. The processing object is a parameter
  \<open>process\<close> with its state, as the template parameter \<open>TypeProcessing\<close> is; it may
  throw, which ends the load with the state reached so far.
\<close>

definition header_size :: nat where
  "header_size = 4 + sizeof_size_t"

text \<open>The packed \<open>sample_header\<close>: the identifier, then the payload size.\<close>

definition parse_header :: "bytes \<Rightarrow> u32 \<times> u64" where
  "parse_header bs = (bytes_word (take 4 bs), bytes_word (take 8 (drop 4 bs)))"

function load_loop ::
    "type_registry \<Rightarrow> (u32 \<Rightarrow> sample \<Rightarrow> 'p \<Rightarrow> cache_error option \<times> 'p) \<Rightarrow> bytes \<Rightarrow> 'p \<Rightarrow>
     cache_error option \<times> 'p" where
  "load_loop m_registry process ifs st =
     (if length ifs < header_size then (None, st)
      else let (htype, hsize) = parse_header (take header_size ifs);
               sample_size = unat hsize;
               ifs = drop header_size ifs
        in if sample_size = 0 then load_loop m_registry process ifs st
        else if length ifs < sample_size then (Some Bad_read, st)
        else let sample = take sample_size ifs; ifs = drop sample_size ifs
          in if htype = type_identifier_value fragmented_space_id
            then load_loop m_registry process ifs st
            else (case get_type m_registry htype sample of
                Out_of_bounds_read \<Rightarrow> (Some Memory_error, st)
              | Unknown_type \<Rightarrow> load_loop m_registry process ifs st
              | Value value rest \<Rightarrow>
                  (case process htype value st of
                     (Some e, st) \<Rightarrow> (Some e, st)
                   | (None, st) \<Rightarrow> load_loop m_registry process ifs st)))"
  by pat_completeness auto
termination
  by (relation "measure (\<lambda>(_, _, ifs, _). length ifs)")
    (auto simp: header_size_def sizeof_size_t_def)

declare load_loop.simps [simp del]

text \<open>
  \<open>load\<close> is given the file's contents, or \<open>None\<close> when it cannot be opened, and the
  processing object, or \<open>None\<close> for a null pointer.
\<close>

definition load ::
    "type_registry \<Rightarrow> (u32 \<Rightarrow> sample \<Rightarrow> 'p \<Rightarrow> cache_error option \<times> 'p) \<Rightarrow> bytes option \<Rightarrow>
     'p option \<Rightarrow> cache_error option \<times> 'p option" where
  "load m_registry process file type_processing =
     (case type_processing of
        None \<Rightarrow> (Some Null_processing, None)
      | Some st \<Rightarrow> (case file of
            None \<Rightarrow> (Some Open_failed, Some st)
          | Some ifs \<Rightarrow> (let (e, st') = load_loop m_registry process ifs st in (e, Some st'))))"

section \<open>Files as sequences of entries\<close>

text \<open>
  What the writer puts into a file: records, and gaps that \<open>fragment_memory\<close> leaves at the
  end of the buffer. A gap of \<open>n\<close> bytes follows its header and is filled with 255.
\<close>

datatype entry = Record sample | Gap nat

definition header_bytes :: "u32 \<Rightarrow> nat \<Rightarrow> bytes" where
  "header_bytes t n = word_bytes t @ word_bytes (of_nat n :: u64)"

fun entry_bytes :: "entry \<Rightarrow> bytes" where
  "entry_bytes (Record s) = header_bytes (sample_id s) (sample_size s) @ sample_payload s"
| "entry_bytes (Gap n) =
     header_bytes (type_identifier_value fragmented_space_id) n @ replicate n 255"

definition entries_bytes :: "entry list \<Rightarrow> bytes" where
  "entries_bytes es = concat (map entry_bytes es)"

fun entry_ok :: "entry \<Rightarrow> bool" where
  "entry_ok (Record s) = (sample_ok s \<and> sample_size s < 2 ^ 64)"
| "entry_ok (Gap n) = (n < 2 ^ 64)"

fun records :: "entry list \<Rightarrow> sample list" where
  "records [] = []"
| "records (Record s # es) = s # records es"
| "records (Gap n # es) = records es"

text \<open>The reference: feed the samples to the processing object until it throws.\<close>

fun process_all ::
    "(u32 \<Rightarrow> sample \<Rightarrow> 'p \<Rightarrow> cache_error option \<times> 'p) \<Rightarrow> sample list \<Rightarrow> 'p \<Rightarrow>
     cache_error option \<times> 'p" where
  "process_all process [] st = (None, st)"
| "process_all process (s # ss) st =
     (case process (sample_id s) s st of
        (Some e, st) \<Rightarrow> (Some e, st)
      | (None, st) \<Rightarrow> process_all process ss st)"

lemma entries_bytes_simps [simp]:
  "entries_bytes [] = []"
  "entries_bytes (e # es) = entry_bytes e @ entries_bytes es"
  "entries_bytes (es @ fs) = entries_bytes es @ entries_bytes fs"
  by (simp_all add: entries_bytes_def)

lemma records_append [simp]: "records (es @ fs) = records es @ records fs"
  by (induction es rule: records.induct) auto

lemma length_header_bytes [simp]: "length (header_bytes t n) = header_size"
  by (simp add: header_bytes_def header_size_def sizeof_size_t_def)

lemma parse_header_bytes:
  "n < 2 ^ 64 \<Longrightarrow> parse_header (header_bytes t n) = (t, of_nat n)"
  by (simp add: parse_header_def header_bytes_def)

text \<open>One entry at the front of the stream is consumed whole.\<close>

lemma load_loop_entry:
  assumes n: "length d = n" "n < 2 ^ 64"
  shows "load_loop reg process (header_bytes t n @ d @ ifs) st =
    (if n = 0 \<or> t = type_identifier_value fragmented_space_id
     then load_loop reg process ifs st
     else (case get_type reg t d of
         Out_of_bounds_read \<Rightarrow> (Some Memory_error, st)
       | Unknown_type \<Rightarrow> load_loop reg process ifs st
       | Value value rest \<Rightarrow>
           (case process t value st of
              (Some e, st) \<Rightarrow> (Some e, st)
            | (None, st) \<Rightarrow> load_loop reg process ifs st)))"
proof -
  have len: "\<not> length (header_bytes t n @ d @ ifs) < header_size"
    by simp
  have tk: "take header_size (header_bytes t n @ d @ ifs) = header_bytes t n"
    and dr: "drop header_size (header_bytes t n @ d @ ifs) = d @ ifs"
    by simp_all
  have u: "unat (of_nat n :: u64) = n"
    using n(2) by (rule unat_of_nat_u64)
  show ?thesis
    by (subst load_loop.simps)
      (simp only: len if_False tk dr parse_header_bytes [OF n(2)] Let_def prod.case u,
       use n(1) in \<open>auto simp: Let_def split: get_type_result.split option.split prod.split\<close>)
qed

lemma load_loop_entries:
  assumes "list_all entry_ok es"
  shows "load_loop storage_parser_registry process (entries_bytes es) st =
    process_all process (records es) st"
  using assms
proof (induction es arbitrary: st)
  case Nil
  then show ?case
    by (subst load_loop.simps) (simp add: header_size_def sizeof_size_t_def)
next
  case (Cons e es)
  show ?case
  proof (cases e)
    case (Record s)
    have ok: "sample_ok s" "sample_size s < 2 ^ 64"
      using Cons.prems Record by simp_all
    have "get_type storage_parser_registry (sample_id s) (sample_payload s) = Value s []"
      using get_type_payload [OF ok(1), of "[]"] by simp
    with Cons ok Record show ?thesis
      using sample_size_pos [of s]
      by (simp add: load_loop_entry length_sample_payload sample_id_not_fragmented
          del: type_identifier_value.simps split: option.split prod.split)
  next
    case (Gap n)
    with Cons show ?thesis
      by (simp add: load_loop_entry del: type_identifier_value.simps)
  qed
qed

end
