(* ===== verification/Buffer_Storage.thy ===== *)
theory Buffer_Storage
  imports Storage_Parser
begin

text \<open>
  The ring buffer of the trace cache (\<open>core/trace_cache/buffer_storage.hpp\<close>).

  The state is the code's: head, tail, the byte array, and the bytes already written to the
  output stream. The capacity and the flush threshold, \<open>constexpr\<close> in the code, are a
  configuration so that small instances can be evaluated; \<open>rocprofsys_cfg\<close> holds the
  code's values. Each operation is one critical section; the interleaving of operations is
  a list of them (\<open>run\<close>). The serialisation after \<open>reserve_memory_space\<close> is outside
  the lock in the code; here a \<open>store\<close> is one step, and the interleaved steps are in
  the theory of reservations.
\<close>

record cache_cfg =
  buffer_size :: nat
  flush_threshold :: nat

definition MByte :: nat where
  "MByte = 1024 * 1024"

definition rocprofsys_cfg :: cache_cfg where
  "rocprofsys_cfg = \<lparr>buffer_size = 100 * MByte, flush_threshold = 80 * MByte\<rparr>"

record buffer_storage =
  m_head :: nat
  m_tail :: nat
  m_buffer :: bytes
  ofs :: bytes

definition init_buffer_storage :: "cache_cfg \<Rightarrow> buffer_storage" where
  "init_buffer_storage cfg =
     \<lparr>m_head = 0, m_tail = 0, m_buffer = replicate (buffer_size cfg) 0, ofs = []\<rparr>"

section \<open>Operations\<close>

text \<open>
  \<open>memset\<close> to 255 up to the end of the buffer, then the identifier and the remaining
  size over the first bytes of the gap.
\<close>

definition fragment_memory :: "cache_cfg \<Rightarrow> buffer_storage \<Rightarrow> buffer_storage option" where
  "fragment_memory cfg s = do {
     data \<leftarrow> mem_write (m_head s) (replicate (buffer_size cfg - m_head s) 255) (m_buffer s);
     data \<leftarrow> mem_write (m_head s)
       (word_bytes (type_identifier_value fragmented_space_id)) data;
     let remaining_bytes = buffer_size cfg - m_head s - header_size;
     data \<leftarrow> mem_write (m_head s + 4) (word_bytes (of_nat remaining_bytes :: u64)) data;
     Some (s\<lparr>m_buffer := data, m_head := 0\<rparr>) }"

definition reserve_memory_space ::
    "cache_cfg \<Rightarrow> nat \<Rightarrow> buffer_storage \<Rightarrow> (nat \<times> buffer_storage) option" where
  "reserve_memory_space cfg number_of_bytes s = do {
     s \<leftarrow> (if m_head s + number_of_bytes + header_size > buffer_size cfg
          then fragment_memory cfg s else Some s);
     let size = m_head s;
     Some (size, s\<lparr>m_head := m_head s + number_of_bytes\<rparr>) }"

definition store :: "cache_cfg \<Rightarrow> sample \<Rightarrow> buffer_storage \<Rightarrow> buffer_storage option" where
  "store cfg value s = do {
     let sample_size = sample_size value;
     let bytes_to_reserve = header_size + sample_size;
     (buf, s) \<leftarrow> reserve_memory_space cfg bytes_to_reserve s;
     (mem, position) \<leftarrow> store_value (VU32 (sample_id value)) (m_buffer s) buf;
     (mem, position) \<leftarrow> store_value (VU64 (of_nat sample_size)) mem position;
     (mem, position) \<leftarrow> sample_serialize mem position value;
     Some (s\<lparr>m_buffer := mem\<rparr>) }"

definition flush :: "cache_cfg \<Rightarrow> bool \<Rightarrow> buffer_storage \<Rightarrow> buffer_storage" where
  "flush cfg force s =
     (let head = m_head s; tail = m_tail s
      in if head = tail then s
      else let used_space = (if m_head s > m_tail s then m_head s - m_tail s
                             else buffer_size cfg - m_tail s + m_head s)
        in if \<not> force \<and> used_space < flush_threshold cfg then s
        else let s = s\<lparr>m_tail := m_head s\<rparr>
          in if head > tail
            then s\<lparr>ofs := ofs s @ slice tail head (m_buffer s)\<rparr>
            else s\<lparr>ofs := ofs s @ slice tail (buffer_size cfg) (m_buffer s)
                           @ slice 0 head (m_buffer s)\<rparr>)"

section \<open>Invariant and abstraction\<close>

text \<open>
  After every operation a fragment header still fits behind the head, which is what makes
  \<open>buffer_size - m_head - header_size\<close> in \<open>fragment_memory\<close> not wrap.
\<close>

definition buffer_inv :: "cache_cfg \<Rightarrow> buffer_storage \<Rightarrow> bool" where
  "buffer_inv cfg s \<longleftrightarrow> length (m_buffer s) = buffer_size cfg \<and>
     m_head s + header_size \<le> buffer_size cfg \<and> m_tail s + header_size \<le> buffer_size cfg \<and>
     buffer_size cfg < 2 ^ 64"

text \<open>The bytes between tail and head, in the order \<open>flush\<close> writes them, and the log.\<close>

definition pending :: "cache_cfg \<Rightarrow> buffer_storage \<Rightarrow> bytes" where
  "pending cfg s =
     (if m_tail s \<le> m_head s then slice (m_tail s) (m_head s) (m_buffer s)
      else slice (m_tail s) (buffer_size cfg) (m_buffer s) @ slice 0 (m_head s) (m_buffer s))"

definition log_of :: "cache_cfg \<Rightarrow> buffer_storage \<Rightarrow> bytes" where
  "log_of cfg s = ofs s @ pending cfg s"

text \<open>
  The code never compares a reservation with the tail. It is safe exactly when the record
  fits the buffer and does not reach unflushed bytes; \<open>fits\<close> says so.
\<close>

definition needs_fragment :: "cache_cfg \<Rightarrow> nat \<Rightarrow> buffer_storage \<Rightarrow> bool" where
  "needs_fragment cfg n s \<longleftrightarrow> m_head s + n + header_size > buffer_size cfg"

definition fits :: "cache_cfg \<Rightarrow> nat \<Rightarrow> buffer_storage \<Rightarrow> bool" where
  "fits cfg n s \<longleftrightarrow>
     (if needs_fragment cfg n s
      then m_tail s \<le> m_head s \<and> n < m_tail s
      else m_tail s \<le> m_head s \<or> m_head s + n < m_tail s)"

definition stored_entries :: "cache_cfg \<Rightarrow> sample \<Rightarrow> buffer_storage \<Rightarrow> entry list" where
  "stored_entries cfg v s =
     (if needs_fragment cfg (header_size + sample_size v) s
      then [Gap (buffer_size cfg - m_head s - header_size)] else []) @ [Record v]"

section \<open>The operations on memory\<close>

lemma word_bytes_header:
  "length (word_bytes (t :: u32)) = 4" "length (word_bytes (w :: u64)) = 8"
  by simp_all

lemma header_size_eq: "header_size = 12"
  by (simp add: header_size_def sizeof_size_t_def)

lemma take_drop_replicate_write:
  assumes "p + n = length m" and "length h \<le> n"
  shows "write_at p h (write_at p (replicate n x) m) =
    take p m @ h @ replicate (n - length h) x"
  using assms by (simp add: write_at_def)

lemma fragment_memory_eq:
  assumes "buffer_inv cfg s"
  shows "fragment_memory cfg s = Some (s\<lparr>m_head := 0,
    m_buffer := take (m_head s) (m_buffer s) @
      entry_bytes (Gap (buffer_size cfg - m_head s - header_size))\<rparr>)"
proof -
  let ?p = "m_head s" and ?m = "m_buffer s" and ?n = "buffer_size cfg - m_head s"
  let ?t = "word_bytes (type_identifier_value fragmented_space_id)"
  let ?r = "word_bytes (of_nat (?n - header_size) :: u64)"
  have len: "length ?m = buffer_size cfg" and room: "?p + 12 \<le> buffer_size cfg"
    using assms by (simp_all add: buffer_inv_def header_size_eq)
  let ?m1 = "write_at ?p (replicate ?n 255) ?m"
  have l1: "length ?m1 = buffer_size cfg" and l2: "length (write_at ?p ?t ?m1) = buffer_size cfg"
    using len room by simp_all
  have "write_at (?p + 4) ?r (write_at ?p ?t ?m1) = write_at ?p (?t @ ?r) ?m1"
    using write_at_append [of ?p ?m1 ?t ?r] l1 room by simp
  also have "\<dots> = take ?p ?m @ (?t @ ?r) @ replicate (?n - 12) 255"
    using take_drop_replicate_write [of ?p ?n ?m "?t @ ?r" 255] len room by simp
  finally show ?thesis
    using len room l1 l2
    by (simp add: fragment_memory_def Let_def header_bytes_def header_size_eq
        del: type_identifier_value.simps)
qed

lemma store_value_header:
  assumes "base + header_size \<le> length mem"
  shows "store_value (VU32 t) mem base =
      Some (write_at base (word_bytes t) mem, base + 4)"
    and "store_value (VU64 w) (write_at base (word_bytes t) mem) (base + 4) =
      Some (write_at base (word_bytes t @ word_bytes w) mem, base + header_size)"
proof -
  show "store_value (VU32 t) mem base =
      Some (write_at base (word_bytes t) mem, base + 4)"
    using assms by (simp add: store_scalar_eq header_size_eq)
  show "store_value (VU64 w) (write_at base (word_bytes t) mem) (base + 4) =
      Some (write_at base (word_bytes t @ word_bytes w) mem, base + header_size)"
    using assms write_at_append [of base mem "word_bytes t" "word_bytes w"]
    by (simp add: store_scalar_eq header_size_eq)
qed

lemma store_writes_record:
  assumes ok: "sample_ok v"
    and reserved: "reserve_memory_space cfg (header_size + sample_size v) s = Some (base, s')"
    and room: "base + header_size + sample_size v \<le> length (m_buffer s')"
  shows "store cfg v s = Some (s'\<lparr>m_buffer :=
    write_at base (entry_bytes (Record v)) (m_buffer s')\<rparr>)"
proof -
  let ?h = "header_bytes (sample_id v) (sample_size v)"
  have "sample_serialize (write_at base ?h (m_buffer s')) (base + header_size) v =
      Some (write_at (base + header_size) (sample_payload v) (write_at base ?h (m_buffer s')),
        base + header_size + sample_size v)"
    using ok room by (intro sample_serialize_payload) simp_all
  moreover have "write_at (base + header_size) (sample_payload v)
        (write_at base ?h (m_buffer s')) = write_at base (?h @ sample_payload v) (m_buffer s')"
    using write_at_append [of base "m_buffer s'" ?h "sample_payload v"] room by simp
  ultimately show ?thesis
    using room reserved store_value_header(1) [of base "m_buffer s'" "sample_id v"]
      store_value_header(2) [of base "m_buffer s'" "of_nat (sample_size v)" "sample_id v"]
    by (simp add: store_def Let_def header_bytes_def)
qed

section \<open>Refinement: the ring buffer is an append-only log\<close>

lemma pending_no_wrap:
  assumes "buffer_inv cfg s" and "m_head s + length d + header_size \<le> buffer_size cfg"
    and "m_tail s \<le> m_head s \<or> m_head s + length d < m_tail s"
  shows "pending cfg (s\<lparr>m_head := m_head s + length d,
      m_buffer := write_at (m_head s) d (m_buffer s)\<rparr>) = pending cfg s @ d"
proof -
  let ?m = "m_buffer s" and ?m' = "write_at (m_head s) d (m_buffer s)"
  have room: "m_head s + length d \<le> length ?m" and len: "length ?m = buffer_size cfg"
    using assms by (simp_all add: buffer_inv_def)
  have new: "slice (m_head s) (m_head s + length d) ?m' = d"
    using room by (simp add: slice_write_at)
  have below: "slice lo (m_head s) ?m' = slice lo (m_head s) ?m" for lo
    using room by (intro slice_write_at_below) simp_all
  have to_head: "slice lo (m_head s + length d) ?m' = slice lo (m_head s) ?m @ d"
    if "lo \<le> m_head s" for lo
    using slice_join [of lo "m_head s" "m_head s + length d" ?m'] that new below [of lo] by simp
  show ?thesis
  proof (cases "m_tail s \<le> m_head s")
    case True
    then show ?thesis
      using to_head [of "m_tail s"] by (simp add: pending_def)
  next
    case False
    then have "m_head s + length d < m_tail s"
      using assms(3) by simp
    then have "slice (m_tail s) (buffer_size cfg) ?m' = slice (m_tail s) (buffer_size cfg) ?m"
      using room by (intro slice_write_at_above) simp_all
    with False \<open>m_head s + length d < m_tail s\<close> show ?thesis
      using to_head [of 0] by (simp add: pending_def)
  qed
qed

lemma pending_fragment:
  assumes "buffer_inv cfg s" and "m_tail s \<le> m_head s" and "0 < m_tail s"
    and "fragment_memory cfg s = Some s'"
  shows "pending cfg s' = pending cfg s @
      entry_bytes (Gap (buffer_size cfg - m_head s - header_size))"
    and "buffer_inv cfg s'" and "m_head s' = 0" and "m_tail s' = m_tail s" and "ofs s' = ofs s"
proof -
  let ?g = "entry_bytes (Gap (buffer_size cfg - m_head s - header_size))"
  have len: "length (m_buffer s) = buffer_size cfg"
    and room: "m_head s + header_size \<le> buffer_size cfg"
    using assms(1) by (simp_all add: buffer_inv_def)
  have s': "s' = s\<lparr>m_head := 0, m_buffer := take (m_head s) (m_buffer s) @ ?g\<rparr>"
    using assms(4) fragment_memory_eq [OF assms(1)] by simp
  have "length ?g = buffer_size cfg - m_head s"
    using room by simp
  then have "slice (m_tail s) (buffer_size cfg) (take (m_head s) (m_buffer s) @ ?g) =
      slice (m_tail s) (m_head s) (m_buffer s) @ ?g"
    using len room assms(2) by (simp add: slice_def drop_take min_def
        del: entry_bytes.simps length_append)
  with s' assms(2,3) show "pending cfg s' = pending cfg s @ ?g"
    by (simp add: pending_def del: entry_bytes.simps)
  show "buffer_inv cfg s'" and "m_head s' = 0" and "m_tail s' = m_tail s" and "ofs s' = ofs s"
    using s' assms(1) len room \<open>length ?g = buffer_size cfg - m_head s\<close>
    by (simp_all add: buffer_inv_def del: entry_bytes.simps)
qed

lemma length_record_bytes:
  "sample_ok v \<Longrightarrow> length (entry_bytes (Record v)) = header_size + sample_size v"
  by (simp add: length_sample_payload)

lemma fits_room:
  assumes "buffer_inv cfg s" and "fits cfg n s"
  shows "needs_fragment cfg n s \<Longrightarrow> m_tail s \<le> m_head s \<and> n + header_size < buffer_size cfg \<and> 0 < m_tail s"
  using assms by (auto simp: fits_def buffer_inv_def)

lemma fits_small:
  assumes "buffer_inv cfg s" and "fits cfg n s"
  shows "n \<le> buffer_size cfg"
proof (cases "needs_fragment cfg n s")
  case True
  with fits_room [OF assms] show ?thesis by simp
next
  case False
  then show ?thesis by (simp add: needs_fragment_def)
qed

text \<open>
  Without fragmentation, and then in general: a store that fits succeeds, keeps the invariant
  and appends its entries to the log.
\<close>

lemma store_in_place:
  assumes ok: "sample_ok v" and inv: "buffer_inv cfg s"
    and nofrag: "\<not> needs_fragment cfg (header_size + sample_size v) s"
    and free: "m_tail s \<le> m_head s \<or> m_head s + (header_size + sample_size v) < m_tail s"
  shows "\<exists>s'. store cfg v s = Some s' \<and> buffer_inv cfg s' \<and> ofs s' = ofs s \<and>
    m_tail s' = m_tail s \<and> m_head s' = m_head s + (header_size + sample_size v) \<and>
    pending cfg s' = pending cfg s @ entry_bytes (Record v)"
proof -
  let ?n = "header_size + sample_size v"
  let ?s1 = "s\<lparr>m_head := m_head s + ?n\<rparr>"
  let ?s' = "?s1\<lparr>m_buffer := write_at (m_head s) (entry_bytes (Record v)) (m_buffer s)\<rparr>"
  have room: "m_head s + ?n + header_size \<le> buffer_size cfg"
    using nofrag by (simp add: needs_fragment_def)
  have reserved: "reserve_memory_space cfg ?n s = Some (m_head s, ?s1)"
    using room by (simp add: reserve_memory_space_def)
  have len: "length (m_buffer s) = buffer_size cfg"
    using inv by (simp add: buffer_inv_def)
  have "store cfg v s = Some ?s'"
    using store_writes_record [OF ok reserved] len room by (simp del: entry_bytes.simps)
  moreover have "pending cfg ?s' = pending cfg s @ entry_bytes (Record v)"
    using pending_no_wrap [OF inv, of "entry_bytes (Record v)"] length_record_bytes [OF ok]
      room free by (simp del: entry_bytes.simps)
  moreover have "buffer_inv cfg ?s'"
    using inv room length_record_bytes [OF ok]
    by (simp add: buffer_inv_def del: entry_bytes.simps)
  ultimately show ?thesis
    by (intro exI [of _ ?s']) simp
qed

lemma reserve_after_fragment:
  assumes "fragment_memory cfg s = Some s1" and "needs_fragment cfg n s"
    and "\<not> needs_fragment cfg n s1"
  shows "reserve_memory_space cfg n s = reserve_memory_space cfg n s1"
  using assms by (simp add: reserve_memory_space_def needs_fragment_def)

lemma store_after_fragment:
  assumes "fragment_memory cfg s = Some s1"
    and "needs_fragment cfg (header_size + sample_size v) s"
    and "\<not> needs_fragment cfg (header_size + sample_size v) s1"
  shows "store cfg v s = store cfg v s1"
  using reserve_after_fragment [OF assms] by (simp add: store_def Let_def)

lemma store_log:
  assumes ok: "sample_ok v" and inv: "buffer_inv cfg s"
    and fit: "fits cfg (header_size + sample_size v) s"
  shows "\<exists>s'. store cfg v s = Some s' \<and> buffer_inv cfg s' \<and> m_tail s' = m_tail s \<and>
    m_head s' = (if needs_fragment cfg (header_size + sample_size v) s then 0 else m_head s) +
      (header_size + sample_size v) \<and>
    log_of cfg s' = log_of cfg s @ entries_bytes (stored_entries cfg v s)"
proof (cases "needs_fragment cfg (header_size + sample_size v) s")
  case False
  then have "m_tail s \<le> m_head s \<or> m_head s + (header_size + sample_size v) < m_tail s"
    using fit by (simp add: fits_def)
  from store_in_place [OF ok inv False this] False show ?thesis
    by (auto simp: log_of_def stored_entries_def simp del: entry_bytes.simps)
next
  case True
  note room = fits_room [OF inv fit True]
  then have tl: "m_tail s \<le> m_head s" and pos: "0 < m_tail s" by simp_all
  obtain s1 where s1: "fragment_memory cfg s = Some s1"
    using fragment_memory_eq [OF inv] by blast
  note frag = pending_fragment [OF inv tl pos s1]
  have nofrag: "\<not> needs_fragment cfg (header_size + sample_size v) s1"
    using room frag(3) by (simp add: needs_fragment_def)
  have free: "m_tail s1 \<le> m_head s1 \<or> m_head s1 + (header_size + sample_size v) < m_tail s1"
    using fit True frag(3,4) by (simp add: fits_def)
  from store_in_place [OF ok frag(2) nofrag free] frag(1,3-5) True
  show ?thesis
    by (auto simp: store_after_fragment [OF s1 True nofrag] log_of_def stored_entries_def
        simp del: entry_bytes.simps)
qed

text \<open>Flushing moves pending bytes to the stream: the log is unchanged.\<close>

lemma flush_log:
  assumes "buffer_inv cfg s"
  shows "buffer_inv cfg (flush cfg force s) \<and> log_of cfg (flush cfg force s) = log_of cfg s"
  using assms
  by (auto simp: flush_def Let_def log_of_def pending_def buffer_inv_def)

lemma flush_force_pending: "pending cfg (flush cfg True s) = []"
  by (auto simp: flush_def Let_def pending_def)

lemma flush_force_ofs:
  assumes "buffer_inv cfg s"
  shows "ofs (flush cfg True s) = log_of cfg s"
  using flush_log [OF assms, of True] flush_force_pending [of cfg s] by (simp add: log_of_def)

section \<open>Runs\<close>

datatype buffer_op = Store sample | Flush bool

fun run :: "cache_cfg \<Rightarrow> buffer_op list \<Rightarrow> buffer_storage \<Rightarrow> buffer_storage option" where
  "run cfg [] s = Some s"
| "run cfg (Store v # ops) s = do { s \<leftarrow> store cfg v s; run cfg ops s }"
| "run cfg (Flush force # ops) s = run cfg ops (flush cfg force s)"

text \<open>The entries a run writes, and that each of its stores fits where it happens.\<close>

fun run_fits :: "cache_cfg \<Rightarrow> buffer_op list \<Rightarrow> buffer_storage \<Rightarrow> bool" where
  "run_fits cfg [] s = True"
| "run_fits cfg (Store v # ops) s =
     (sample_ok v \<and> fits cfg (header_size + sample_size v) s \<and>
      (case store cfg v s of None \<Rightarrow> False | Some s' \<Rightarrow> run_fits cfg ops s'))"
| "run_fits cfg (Flush force # ops) s = run_fits cfg ops (flush cfg force s)"

text \<open>
  Whether every store of a run fits depends only on the two cursors, so it is decided without
  the buffer's contents.
\<close>

fun cursors_fit :: "cache_cfg \<Rightarrow> buffer_op list \<Rightarrow> nat \<Rightarrow> nat \<Rightarrow> bool" where
  "cursors_fit cfg [] head tail = True"
| "cursors_fit cfg (Store v # ops) head tail =
     (let n = header_size + sample_size v in sample_ok v \<and>
      (if head + n + header_size > buffer_size cfg
       then tail \<le> head \<and> n < tail \<and> cursors_fit cfg ops n tail
       else (tail \<le> head \<or> head + n < tail) \<and> cursors_fit cfg ops (head + n) tail))"
| "cursors_fit cfg (Flush force # ops) head tail =
     (let used = (if head > tail then head - tail else buffer_size cfg - tail + head)
      in if head = tail \<or> (\<not> force \<and> used < flush_threshold cfg)
         then cursors_fit cfg ops head tail else cursors_fit cfg ops head head)"

lemma flush_cursors:
  "m_head (flush cfg force s) = m_head s"
  "m_tail (flush cfg force s) =
    (let used = (if m_head s > m_tail s then m_head s - m_tail s
                 else buffer_size cfg - m_tail s + m_head s)
     in if m_head s = m_tail s \<or> (\<not> force \<and> used < flush_threshold cfg) then m_tail s else m_head s)"
  by (simp_all add: flush_def Let_def)

lemma cursors_fit_run_fits:
  assumes "buffer_inv cfg s" and "cursors_fit cfg ops (m_head s) (m_tail s)"
  shows "run_fits cfg ops s"
  using assms
proof (induction cfg ops s rule: run.induct)
  case (1 cfg s)
  then show ?case by simp
next
  case (2 cfg v ops s)
  have ok: "sample_ok v" and fit: "fits cfg (header_size + sample_size v) s"
    using "2.prems"(2) by (auto simp: fits_def needs_fragment_def Let_def split: if_splits)
  obtain s1 where s1: "store cfg v s = Some s1" "buffer_inv cfg s1" "m_tail s1 = m_tail s"
      "m_head s1 = (if needs_fragment cfg (header_size + sample_size v) s then 0 else m_head s) +
        (header_size + sample_size v)"
    using store_log [OF ok "2.prems"(1) fit] by blast
  have "cursors_fit cfg ops (m_head s1) (m_tail s1)"
    using "2.prems"(2) s1(3,4) by (auto simp: needs_fragment_def Let_def split: if_splits)
  with "2.IH" [OF s1(1,2)] ok fit s1(1) show ?case by simp
next
  case (3 cfg force ops s)
  have "cursors_fit cfg ops (m_head (flush cfg force s)) (m_tail (flush cfg force s))"
    using "3.prems"(2) by (auto simp: flush_cursors Let_def split: if_splits)
  with "3.IH" flush_log [OF "3.prems"(1)] show ?case by simp
qed

fun stored :: "buffer_op list \<Rightarrow> sample list" where
  "stored [] = []"
| "stored (Store v # ops) = v # stored ops"
| "stored (Flush force # ops) = stored ops"

lemma entry_ok_stored_entries:
  assumes "sample_ok v" and "buffer_inv cfg s" and "fits cfg (header_size + sample_size v) s"
  shows "list_all entry_ok (stored_entries cfg v s)"
proof -
  have "sample_size v < buffer_size cfg"
    using fits_small [OF assms(2,3)] by (simp add: header_size_eq)
  moreover have "buffer_size cfg < 2 ^ 64"
    using assms(2) by (simp add: buffer_inv_def)
  ultimately show ?thesis
    using assms(1) by (auto simp: stored_entries_def)
qed

lemma run_log:
  assumes "buffer_inv cfg s" and "run_fits cfg ops s"
  shows "\<exists>s' es. run cfg ops s = Some s' \<and> buffer_inv cfg s' \<and> list_all entry_ok es \<and>
    log_of cfg s' = log_of cfg s @ entries_bytes es \<and> records es = stored ops"
  using assms
proof (induction cfg ops s rule: run.induct)
  case (1 cfg s)
  then show ?case by (intro exI [of _ s] exI [of _ "[]"]) simp
next
  case (2 cfg v ops s)
  have ok: "sample_ok v" and fit: "fits cfg (header_size + sample_size v) s"
    using "2.prems" by simp_all
  obtain s1 where s1: "store cfg v s = Some s1" "buffer_inv cfg s1"
      "log_of cfg s1 = log_of cfg s @ entries_bytes (stored_entries cfg v s)"
    using store_log [OF ok "2.prems"(1) fit] by blast
  then have "run_fits cfg ops s1"
    using "2.prems"(2) by simp
  from "2.IH" [OF s1(1,2) this] obtain s' es where
      "run cfg ops s1 = Some s'" "buffer_inv cfg s'" "list_all entry_ok es"
      "log_of cfg s' = log_of cfg s1 @ entries_bytes es" "records es = stored ops"
    by blast
  with s1 ok show ?case
    using entry_ok_stored_entries [OF ok "2.prems"(1) fit]
    by (intro exI [of _ s'] exI [of _ "stored_entries cfg v s @ es"])
      (simp add: stored_entries_def)
next
  case (3 cfg force ops s)
  with flush_log [OF "3.prems"(1), of force] show ?case by simp
qed

end
