(* ===== verification/Trace_Cache.thy ===== *)
theory Trace_Cache
  imports Buffer_Storage
begin

text \<open>
  The trace cache end to end: what is stored in the ring buffer, flushed to the cache file
  and loaded again, and the two ways the ring buffer loses data.
\<close>

section \<open>From store to load\<close>

definition cfg_ok :: "cache_cfg \<Rightarrow> bool" where
  "cfg_ok cfg \<longleftrightarrow> header_size \<le> buffer_size cfg \<and> buffer_size cfg < 2 ^ 64"

lemma rocprofsys_cfg_ok: "cfg_ok rocprofsys_cfg"
  by (simp add: cfg_ok_def rocprofsys_cfg_def MByte_def header_size_eq)

lemma buffer_inv_init: "cfg_ok cfg \<Longrightarrow> buffer_inv cfg (init_buffer_storage cfg)"
  by (simp add: cfg_ok_def buffer_inv_def init_buffer_storage_def)

lemma log_of_init [simp]: "log_of cfg (init_buffer_storage cfg) = []"
  by (simp add: log_of_def pending_def init_buffer_storage_def)

lemma load_entries:
  "list_all entry_ok es \<Longrightarrow>
    load storage_parser_registry process (Some (entries_bytes es)) (Some st) =
      (let (e, st') = process_all process (records es) st in (e, Some st'))"
  by (simp add: load_def load_loop_entries)

lemma process_all_handlers:
  "process_all (execute_sample_processing True) ss (processor_of hs) =
    (None, processor_of (map (\<lambda>(T, t). (T, fold (handle T) ss t)) hs))"
proof (induction ss arbitrary: hs)
  case Nil
  then show ?case by simp
next
  case (Cons s ss)
  then show ?case
    by (simp add: execute_own_id handle_sample_processor_of split_def comp_def)
qed

text \<open>What a run from the empty buffer leaves in the file after the last flush.\<close>

lemma run_from_init:
  assumes "cfg_ok cfg" and "cursors_fit cfg ops 0 0"
  shows "\<exists>s es. run cfg ops (init_buffer_storage cfg) = Some s \<and> list_all entry_ok es \<and>
    ofs (flush cfg True s) = entries_bytes es \<and> records es = stored ops"
proof -
  note inv = buffer_inv_init [OF assms(1)]
  have fits: "run_fits cfg ops (init_buffer_storage cfg)"
    using assms(2) by (intro cursors_fit_run_fits [OF inv]) (simp add: init_buffer_storage_def)
  show ?thesis
    using run_log [OF inv fits] by (auto simp: flush_force_ofs)
qed

text \<open>
  C1. A run of stores and flushes of any length on the empty ring buffer, each store within
  the free space, succeeds; and loading the file written after the final forced flush feeds
  exactly the stored samples, in the order they were stored, to the processing object,
  stopping where it throws. Fragments at the end of the buffer are invisible.
\<close>

theorem trace_cache_roundtrip:
  assumes "cfg_ok cfg" and "cursors_fit cfg ops 0 0"
  shows "\<exists>s. run cfg ops (init_buffer_storage cfg) = Some s \<and>
    load storage_parser_registry process (Some (ofs (flush cfg True s))) (Some st) =
      (let (e, st') = process_all process (stored ops) st in (e, Some st'))"
proof -
  obtain s es where s: "run cfg ops (init_buffer_storage cfg) = Some s"
      and es: "list_all entry_ok es" "ofs (flush cfg True s) = entries_bytes es"
        "records es = stored ops"
    using run_from_init [OF assms] by blast
  then show ?thesis
    using load_entries [OF es(1)] by simp
qed

text \<open>A small configuration and samples, where the run wraps around the buffer.\<close>

definition small_cfg :: cache_cfg where
  "small_cfg = \<lparr>buffer_size = 200, flush_threshold = 150\<rparr>"

definition small_sample :: "u64 \<Rightarrow> sample" where
  "small_sample n = CpuFreq \<lparr>cf_timestamp = n, cf_page_rss = 1, cf_virt_mem_usage = 2,
     cf_peak_rss = 3, cf_context_switch_count = 4, cf_page_faults = 5, cf_user_mode_time = 6,
     cf_kernel_mode_time = 7, cf_freqs = [8, 9]\<rparr>"

definition small_ops :: "buffer_op list" where
  "small_ops = [Store (small_sample 1), Flush False, Flush True, Store (small_sample 2),
     Flush True, Store (small_sample 3), Flush False]"

lemma small_sample_simps [simp]:
  "sample_ok (small_sample n)" "sample_size (small_sample n) = 74"
  by (simp_all add: small_sample_def sample_ok_def values_cpu_freq_sample_def
      get_size_cpu_freq_sample_def vec8_def sizeof_size_t_def)

lemma small_cursors_fit: "cursors_fit small_cfg small_ops 0 0"
  by (simp add: small_ops_def small_cfg_def header_size_eq Let_def)

theorem trace_cache_roundtrip_witness:
  "\<exists>s. run small_cfg small_ops (init_buffer_storage small_cfg) = Some s \<and>
    load storage_parser_registry (\<lambda>i v vs. (None, vs @ [v]))
      (Some (ofs (flush small_cfg True s))) (Some []) =
    (None, Some [small_sample 1, small_sample 2, small_sample 3])"
proof -
  have "cfg_ok small_cfg"
    by (simp add: cfg_ok_def small_cfg_def header_size_eq)
  from trace_cache_roundtrip [OF this small_cursors_fit, of "\<lambda>i v vs. (None, vs @ [v])" "[]"]
  show ?thesis
    by (simp add: small_ops_def)
qed

text \<open>
  With the real sample processor as the processing object, every registered handler is
  called exactly once for every stored sample, in store order, and no error is raised
  (for \<open>ROCPROFILER_VERSION >= 600\<close>).
\<close>

theorem trace_cache_handlers:
  assumes "cfg_ok cfg" and "cursors_fit cfg ops 0 0"
  shows "\<exists>s. run cfg ops (init_buffer_storage cfg) = Some s \<and>
    load storage_parser_registry (execute_sample_processing True)
        (Some (ofs (flush cfg True s))) (Some (processor_of hs)) =
      (None, Some (processor_of (map (\<lambda>(T, t). (T, fold (handle T) (stored ops) t)) hs)))"
proof -
  obtain s es where s: "run cfg ops (init_buffer_storage cfg) = Some s"
      and es: "list_all entry_ok es" "ofs (flush cfg True s) = entries_bytes es"
        "records es = stored ops"
    using run_from_init [OF assms] by blast
  then show ?thesis
    using load_entries [OF es(1), of "execute_sample_processing True" "processor_of hs"]
    by (simp add: process_all_handlers)
qed

definition collecting_processor :: "sample list processor_t" where
  "collecting_processor = \<lparr>handle = (\<lambda>s st. st @ [s]),
     prepare_for_processing = id, finalize_processing = id\<rparr>"

theorem trace_cache_handlers_witness:
  "\<exists>s. run small_cfg small_ops (init_buffer_storage small_cfg) = Some s \<and>
    load storage_parser_registry (execute_sample_processing True)
        (Some (ofs (flush small_cfg True s))) (Some (processor_of [(collecting_processor, [])])) =
      (None, Some (processor_of [(collecting_processor,
        [small_sample 1, small_sample 2, small_sample 3])]))"
proof -
  have "cfg_ok small_cfg"
    by (simp add: cfg_ok_def small_cfg_def header_size_eq)
  from trace_cache_handlers [OF this small_cursors_fit, of "[(collecting_processor, [])]"]
  show ?thesis
    by (simp add: small_ops_def collecting_processor_def)
qed

section \<open>Where the ring buffer loses data\<close>

text \<open>
  C2. The reservation does not compare the head with the tail. When the buffer fills before
  its first flush (tail 0), the store that wraps around succeeds, but everything stored so
  far is dropped: only the new record is still pending.
\<close>

theorem overrun_drops_pending:
  assumes inv: "buffer_inv cfg s" and ok: "sample_ok v" and tail: "m_tail s = 0"
    and wrap: "needs_fragment cfg (header_size + sample_size v) s"
    and small: "header_size + sample_size v + header_size \<le> buffer_size cfg"
  shows "\<exists>s'. store cfg v s = Some s' \<and> buffer_inv cfg s' \<and>
    log_of cfg s' = ofs s @ entry_bytes (Record v)"
proof -
  obtain s1 where s1: "fragment_memory cfg s = Some s1"
    using fragment_memory_eq [OF inv] by blast
  then have heads: "m_head s1 = 0" "m_tail s1 = 0" "ofs s1 = ofs s"
      "length (m_buffer s1) = buffer_size cfg"
    using fragment_memory_eq [OF inv] tail inv by (auto simp: buffer_inv_def)
  with inv have inv1: "buffer_inv cfg s1"
    by (simp add: buffer_inv_def)
  have nofrag: "\<not> needs_fragment cfg (header_size + sample_size v) s1"
    using small heads by (simp add: needs_fragment_def)
  have "pending cfg s1 = []"
    using heads by (simp add: pending_def)
  with store_in_place [OF ok inv1 nofrag] heads show ?thesis
    by (auto simp: store_after_fragment [OF s1 wrap nofrag] log_of_def
        simp del: entry_bytes.simps)
qed

definition full_state :: buffer_storage where
  "full_state = \<lparr>m_head = 172, m_tail = 0, m_buffer = replicate 200 0, ofs = []\<rparr>"

theorem overrun_drops_pending_witness:
  "\<exists>s'. store small_cfg (small_sample 3) full_state = Some s' \<and>
    log_of small_cfg full_state = replicate 172 0 \<and>
    log_of small_cfg s' = entry_bytes (Record (small_sample 3))"
proof -
  have "buffer_inv small_cfg full_state"
    and "needs_fragment small_cfg (header_size + sample_size (small_sample 3)) full_state"
    and "header_size + sample_size (small_sample 3) + header_size \<le> buffer_size small_cfg"
    and "m_tail full_state = 0"
    by (simp_all add: buffer_inv_def full_state_def small_cfg_def header_size_eq
        needs_fragment_def)
  with overrun_drops_pending [of small_cfg full_state "small_sample 3"]
  obtain s' where "store small_cfg (small_sample 3) full_state = Some s'"
      "log_of small_cfg s' = ofs full_state @ entry_bytes (Record (small_sample 3))"
    by auto
  moreover have "ofs full_state = []" "log_of small_cfg full_state = replicate 172 0"
    by (simp_all add: full_state_def log_of_def pending_def slice_def)
  ultimately show ?thesis by (auto simp del: entry_bytes.simps)
qed

text \<open>
  Nothing bounds a record by the buffer: a sample whose record is larger than the whole
  buffer is serialised past the end of the array (the model's out-of-bounds write).
\<close>

theorem oversized_store_out_of_bounds:
  assumes inv: "buffer_inv cfg s" and ok: "sample_ok v"
    and big: "buffer_size cfg < header_size + sample_size v"
  shows "store cfg v s = None"
proof -
  obtain s1 where s1: "fragment_memory cfg s = Some s1"
    using fragment_memory_eq [OF inv] by blast
  then have heads: "m_head s1 = 0" "length (m_buffer s1) = buffer_size cfg"
    using fragment_memory_eq [OF inv] inv by (auto simp: buffer_inv_def)
  have room: "header_size \<le> buffer_size cfg"
    using inv by (simp add: buffer_inv_def)
  let ?n = "header_size + sample_size v"
  have "reserve_memory_space cfg ?n s = Some (0, s1\<lparr>m_head := ?n\<rparr>)"
    using s1 big heads by (simp add: reserve_memory_space_def)
  moreover have "sample_serialize mem header_size v = None"
    if "length mem = buffer_size cfg" for mem
    using that big room ok by (intro sample_serialize_oob) simp_all
  ultimately show ?thesis
    using store_value_header(1) [of 0 "m_buffer s1" "sample_id v"]
      store_value_header(2) [of 0 "m_buffer s1" "of_nat (sample_size v)" "sample_id v"]
      heads room
    by (simp add: store_def Let_def header_size_eq)
qed

theorem oversized_store_out_of_bounds_witness:
  "store \<lparr>buffer_size = 64, flush_threshold = 32\<rparr> (small_sample 1)
    (init_buffer_storage \<lparr>buffer_size = 64, flush_threshold = 32\<rparr>) = None"
proof -
  let ?cfg = "\<lparr>buffer_size = 64, flush_threshold = 32\<rparr>"
  have "buffer_inv ?cfg (init_buffer_storage ?cfg)"
    by (intro buffer_inv_init) (simp add: cfg_ok_def header_size_eq)
  from oversized_store_out_of_bounds [OF this, of "small_sample 1"] show ?thesis
    by (simp add: header_size_eq)
qed

text \<open>
  C3. Every sample type: serialising a sample into memory with room for its \<open>get_size\<close>
  bytes writes exactly those bytes, changes none outside them, and the registry's
  deserializer for its identifier reads the same sample back from them.
\<close>

theorem sample_codec_roundtrip:
  assumes "sample_ok s" and "base + sample_size s \<le> length mem"
  shows "\<exists>mem'. sample_serialize mem base s = Some (mem', base + sample_size s) \<and>
    length mem' = length mem \<and> take base mem' = take base mem \<and>
    drop (base + sample_size s) mem' = drop (base + sample_size s) mem \<and>
    get_type storage_parser_registry (sample_id s) (drop base mem') =
      Value s (drop (base + sample_size s) mem)"
  using assms get_type_payload [OF assms(1), of "drop (base + sample_size s) mem"]
  by (simp add: sample_serialize_payload length_sample_payload write_at_def)

theorem sample_codec_roundtrip_witness:
  "\<exists>mem'. sample_serialize (replicate 100 0) 10 (small_sample 1) = Some (mem', 84) \<and>
    get_type storage_parser_registry (sample_id (small_sample 1)) (drop 10 mem') =
      Value (small_sample 1) (replicate 16 0)"
  using sample_codec_roundtrip [of "small_sample 1" 10 "replicate 100 0"] by auto

end
