(* ===== verification/Flush_Worker.thy ===== *)
theory Flush_Worker
  imports Trace_Cache
begin

text \<open>
  The flush worker of the trace cache (\<open>core/trace_cache/buffer_storage.cpp\<close>) and the
  \<open>start\<close>, \<open>shutdown\<close> and \<open>store\<close> guards of \<open>buffer_storage.hpp\<close>, as a step
  relation over three parties: the worker thread, the thread that calls \<open>stop\<close>, and the
  clients that store.

  Program counters name the points between which another thread can run. A condition
  variable is its set of waiters (here at most the stopping thread): \<open>notify_one\<close> wakes a
  thread that is blocked and does nothing otherwise. The waiting thread tests its predicate
  and blocks in two steps, because the notifier does not hold the mutex of the wait. The
  parameter \<open>spurious\<close> says whether a blocked thread may wake without a notification,
  which C++ permits and does not promise. A client tests \<open>is_running\<close> and stores in two
  steps, as \<open>store\<close> does.
\<close>

datatype worker_pc =
    W_none      \<comment> \<open>no thread\<close>
  | W_test      \<comment> \<open>before the loop test\<close>
  | W_flush     \<comment> \<open>before the flush of the loop body\<close>
  | W_wait      \<comment> \<open>in the timed wait on \<open>is_running_condition\<close>\<close>
  | W_final     \<comment> \<open>before the forced flush\<close>
  | W_close     \<comment> \<open>before closing the stream\<close>
  | W_exit      \<comment> \<open>before setting \<open>exit_finished\<close>\<close>
  | W_notify    \<comment> \<open>before \<open>notify_one\<close>\<close>
  | W_done      \<comment> \<open>returned, joinable\<close>

datatype main_pc =
    M_idle      \<comment> \<open>outside \<open>stop\<close>\<close>
  | M_test      \<comment> \<open>before testing the predicate of the wait\<close>
  | M_enter     \<comment> \<open>predicate was false, not yet waiting\<close>
  | M_blocked   \<comment> \<open>waiting on \<open>exit_finished_condition\<close>\<close>
  | M_join      \<comment> \<open>before the join\<close>
  | M_returned  \<comment> \<open>\<open>stop\<close> has returned\<close>

record worker_state =
  wpc :: worker_pc
  mpc :: main_pc
  is_running :: bool
  exit_finished :: bool
  origin_pid :: int
  flushing_thread :: bool
  ofs_open :: bool
  inflight :: "sample list"
  buf :: buffer_storage

datatype worker_error = Already_running | Open_error | Not_running

definition new_worker :: "buffer_storage \<Rightarrow> worker_state" where
  "new_worker b = \<lparr>wpc = W_none, mpc = M_idle, is_running = False, exit_finished = False,
     origin_pid = 0, flushing_thread = False, ofs_open = False, inflight = [], buf = b\<rparr>"

section \<open>Calls\<close>

text \<open>
  \<open>flush_worker_t::start\<close>; \<open>can_open\<close> is what opening the file for writing answers. A
  new stream truncates the file.
\<close>

definition worker_start ::
    "bool \<Rightarrow> int \<Rightarrow> worker_state \<Rightarrow> worker_error + worker_state" where
  "worker_start can_open current_pid s =
     (if is_running s then Inl Already_running
      else if \<not> can_open then Inl Open_error
      else Inr (s\<lparr>ofs_open := True, buf := (buf s)\<lparr>ofs := []\<rparr>, origin_pid := current_pid,
        is_running := True, flushing_thread := True, wpc := W_test, mpc := M_idle\<rparr>))"

text \<open>\<open>buffer_storage::start\<close> returns silently when running.\<close>

definition storage_start ::
    "bool \<Rightarrow> int \<Rightarrow> worker_state \<Rightarrow> worker_error + worker_state" where
  "storage_start can_open current_pid s =
     (if is_running s then Inr s else worker_start can_open current_pid s)"

text \<open>
  \<open>flush_worker_t::stop\<close> up to its wait: with a thread and a running worker it clears the
  flag and, in the process that started the thread, goes on to wait; otherwise it returns.
\<close>

definition worker_stop_begin :: "int \<Rightarrow> worker_state \<Rightarrow> worker_state" where
  "worker_stop_begin current_pid s =
     (if flushing_thread s \<and> is_running s
      then (let s = s\<lparr>is_running := False\<rparr>;
                thread_is_created_in_this_process = (current_pid = origin_pid s)
        in if \<not> thread_is_created_in_this_process then s\<lparr>mpc := M_returned\<rparr>
           else s\<lparr>mpc := M_test\<rparr>)
      else s\<lparr>mpc := M_returned\<rparr>)"

definition storage_shutdown_begin :: "int \<Rightarrow> worker_state \<Rightarrow> worker_state" where
  "storage_shutdown_begin current_pid s =
     (if \<not> is_running s then s\<lparr>mpc := M_returned\<rparr> else worker_stop_begin current_pid s)"

text \<open>The guard of \<open>buffer_storage::store\<close>.\<close>

definition store_guard :: "sample \<Rightarrow> worker_state \<Rightarrow> worker_error + worker_state" where
  "store_guard v s =
     (if \<not> is_running s then Inl Not_running else Inr (s\<lparr>inflight := v # inflight s\<rparr>))"

section \<open>Steps\<close>

inductive worker_step :: "cache_cfg \<Rightarrow> bool \<Rightarrow> worker_state \<Rightarrow> worker_state \<Rightarrow> bool"
  for cfg :: cache_cfg and spurious :: bool where
  loop_enter: "wpc s = W_test \<Longrightarrow> is_running s \<Longrightarrow> worker_step cfg spurious s (s\<lparr>wpc := W_flush\<rparr>)"
| loop_exit: "wpc s = W_test \<Longrightarrow> \<not> is_running s \<Longrightarrow>
    worker_step cfg spurious s (s\<lparr>wpc := W_final\<rparr>)"
| loop_flush: "wpc s = W_flush \<Longrightarrow>
    worker_step cfg spurious s (s\<lparr>buf := flush cfg False (buf s), wpc := W_wait\<rparr>)"
| loop_wake: "wpc s = W_wait \<Longrightarrow> worker_step cfg spurious s (s\<lparr>wpc := W_test\<rparr>)"
| final_flush: "wpc s = W_final \<Longrightarrow>
    worker_step cfg spurious s (s\<lparr>buf := flush cfg True (buf s), wpc := W_close\<rparr>)"
| close: "wpc s = W_close \<Longrightarrow> worker_step cfg spurious s (s\<lparr>ofs_open := False, wpc := W_exit\<rparr>)"
| set_exit: "wpc s = W_exit \<Longrightarrow>
    worker_step cfg spurious s (s\<lparr>exit_finished := True, wpc := W_notify\<rparr>)"
| notify: "wpc s = W_notify \<Longrightarrow> worker_step cfg spurious s
    (s\<lparr>mpc := (if mpc s = M_blocked then M_test else mpc s), wpc := W_done\<rparr>)"
| stop_call: "mpc s = M_idle \<Longrightarrow>
    worker_step cfg spurious s (storage_shutdown_begin current_pid s)"
| wait_done: "mpc s = M_test \<Longrightarrow> exit_finished s \<Longrightarrow>
    worker_step cfg spurious s (s\<lparr>mpc := M_join\<rparr>)"
| wait_enter: "mpc s = M_test \<Longrightarrow> \<not> exit_finished s \<Longrightarrow>
    worker_step cfg spurious s (s\<lparr>mpc := M_enter\<rparr>)"
| wait_block: "mpc s = M_enter \<Longrightarrow> worker_step cfg spurious s (s\<lparr>mpc := M_blocked\<rparr>)"
| wait_spurious: "spurious \<Longrightarrow> mpc s = M_blocked \<Longrightarrow>
    worker_step cfg spurious s (s\<lparr>mpc := M_test\<rparr>)"
| join: "mpc s = M_join \<Longrightarrow> wpc s = W_done \<Longrightarrow>
    worker_step cfg spurious s (s\<lparr>flushing_thread := False, wpc := W_none, mpc := M_returned\<rparr>)"
| client_test: "store_guard v s = Inr s' \<Longrightarrow> worker_step cfg spurious s s'"
| client_store: "v \<in> set (inflight s) \<Longrightarrow> store cfg v (buf s) = Some b \<Longrightarrow>
    worker_step cfg spurious s (s\<lparr>buf := b, inflight := remove1 v (inflight s)\<rparr>)"

inductive_cases worker_stepE: "worker_step cfg spurious s s'"

inductive worker_reach ::
    "cache_cfg \<Rightarrow> bool \<Rightarrow> worker_state \<Rightarrow> worker_state \<Rightarrow> bool"
  for cfg :: cache_cfg and spurious :: bool and s :: worker_state where
  reach_refl: "worker_reach cfg spurious s s"
| reach_step: "worker_reach cfg spurious s t \<Longrightarrow> worker_step cfg spurious t u \<Longrightarrow>
    worker_reach cfg spurious s u"

lemma worker_reach_trans:
  "worker_reach cfg sp t u \<Longrightarrow> worker_reach cfg sp s t \<Longrightarrow> worker_reach cfg sp s u"
  by (induction rule: worker_reach.induct) (auto intro: worker_reach.intros)

section \<open>A quiet shutdown loses nothing\<close>

text \<open>
  From a state where \<open>stop\<close> has cleared the flag and no client is between its test and its
  store: the log of the buffer never changes, and once the final flush is done nothing is
  pending. The invariant lists what each program counter has established.
\<close>

definition stopped_quiet :: "worker_state \<Rightarrow> bool" where
  "stopped_quiet s \<longleftrightarrow> \<not> is_running s \<and> inflight s = [] \<and> flushing_thread s \<and>
     \<not> exit_finished s \<and> mpc s = M_test \<and> wpc s \<in> {W_test, W_flush, W_wait}"

fun after_final :: "worker_pc \<Rightarrow> bool" where
  "after_final W_close = True"
| "after_final W_exit = True"
| "after_final W_notify = True"
| "after_final W_done = True"
| "after_final W_none = True"
| "after_final _ = False"

fun after_close :: "worker_pc \<Rightarrow> bool" where
  "after_close W_exit = True"
| "after_close W_notify = True"
| "after_close W_done = True"
| "after_close W_none = True"
| "after_close _ = False"

fun after_exit :: "worker_pc \<Rightarrow> bool" where
  "after_exit W_notify = True"
| "after_exit W_done = True"
| "after_exit W_none = True"
| "after_exit _ = False"

definition shutdown_inv :: "cache_cfg \<Rightarrow> bytes \<Rightarrow> worker_state \<Rightarrow> bool" where
  "shutdown_inv cfg lg s \<longleftrightarrow> \<not> is_running s \<and> inflight s = [] \<and> buffer_inv cfg (buf s) \<and>
     log_of cfg (buf s) = lg \<and> mpc s \<noteq> M_idle \<and>
     (after_final (wpc s) \<longrightarrow> pending cfg (buf s) = []) \<and>
     (after_close (wpc s) \<longrightarrow> \<not> ofs_open s) \<and>
     (exit_finished s \<longrightarrow> after_exit (wpc s)) \<and>
     (mpc s = M_join \<longrightarrow> exit_finished s) \<and>
     (mpc s = M_returned \<longrightarrow> wpc s = W_none)"

lemma shutdown_inv_step:
  assumes "worker_step cfg sp s t" and "shutdown_inv cfg lg s"
  shows "shutdown_inv cfg lg t"
  using assms
  by (cases rule: worker_step.cases)
    ((simp_all add: shutdown_inv_def flush_log flush_force_pending store_guard_def
        split: if_splits), (blast+)?)

lemma shutdown_inv_reach:
  "worker_reach cfg sp s t \<Longrightarrow> shutdown_inv cfg lg s \<Longrightarrow> shutdown_inv cfg lg t"
  by (induction rule: worker_reach.induct) (auto intro: shutdown_inv_step)

lemma stopped_quiet_inv:
  assumes "stopped_quiet s" and "buffer_inv cfg (buf s)"
  shows "shutdown_inv cfg (log_of cfg (buf s)) s"
proof -
  have "\<not> after_final (wpc s) \<and> \<not> after_close (wpc s)"
    using assms(1) by (cases "wpc s") (simp_all add: stopped_quiet_def)
  with assms show ?thesis
    by (simp add: stopped_quiet_def shutdown_inv_def)
qed

lemma shutdown_inv_returned:
  assumes "shutdown_inv cfg lg t" and "mpc t = M_returned"
  shows "ofs (buf t) = lg \<and> \<not> ofs_open t \<and> wpc t = W_none"
proof -
  have "wpc t = W_none" and "log_of cfg (buf t) = lg"
    using assms by (simp_all add: shutdown_inv_def)
  moreover from this have "pending cfg (buf t) = []" and "\<not> ofs_open t"
    using assms by (simp_all add: shutdown_inv_def)
  ultimately show ?thesis
    by (simp add: log_of_def)
qed

text \<open>
  C4. When the process that started the worker stops it and no store is under way, the file
  holds the whole log once \<open>stop\<close> returns: everything stored was flushed, the stream is
  closed and the worker is joined, whatever the interleaving and wake-ups.
\<close>

theorem stop_flushes_everything:
  assumes "stopped_quiet s" and "buffer_inv cfg (buf s)"
    and "worker_reach cfg spurious s t" and "mpc t = M_returned"
  shows "ofs (buf t) = log_of cfg (buf s) \<and> \<not> ofs_open t \<and> wpc t = W_none"
proof -
  have "shutdown_inv cfg (log_of cfg (buf s)) t"
    using assms(3) stopped_quiet_inv [OF assms(1,2)] by (rule shutdown_inv_reach)
  then show ?thesis
    using assms(4) by (rule shutdown_inv_returned)
qed

section \<open>Concrete interleavings\<close>

text \<open>
  The states of a run in which \<open>stop\<close> has been called, by the two program counters and the
  stores under way, and the started worker before.
\<close>

definition started_worker :: "buffer_storage \<Rightarrow> worker_state" where
  "started_worker b = (new_worker b)\<lparr>wpc := W_test, is_running := True,
     flushing_thread := True, ofs_open := True, origin_pid := 7\<rparr>"

definition worker_at ::
    "cache_cfg \<Rightarrow> buffer_storage \<Rightarrow> sample list \<Rightarrow> worker_pc \<Rightarrow> main_pc \<Rightarrow> worker_state" where
  "worker_at cfg b vs w m = (new_worker b)\<lparr>wpc := w, mpc := m, origin_pid := 7,
     inflight := vs, exit_finished := after_exit w, ofs_open := \<not> after_close w,
     flushing_thread := (w \<noteq> W_none), buf := (if after_final w then flush cfg True b else b)\<rparr>"

lemmas worker_at_simps = worker_at_def started_worker_def new_worker_def

lemma started_worker_start:
  "worker_start True 7 (new_worker b) = Inr (started_worker (b\<lparr>ofs := []\<rparr>))"
  by (simp add: worker_start_def worker_at_simps)

lemma stop_started:
  "worker_step cfg sp ((started_worker b)\<lparr>inflight := vs\<rparr>) (worker_at cfg b vs W_test M_test)"
proof -
  have "storage_shutdown_begin 7 ((started_worker b)\<lparr>inflight := vs\<rparr>) =
      worker_at cfg b vs W_test M_test"
    by (simp add: storage_shutdown_begin_def worker_stop_begin_def worker_at_simps Let_def)
  then show ?thesis
    using stop_call [of "(started_worker b)\<lparr>inflight := vs\<rparr>" cfg sp 7]
    by (simp add: worker_at_simps)
qed

lemma worker_at_steps:
  "worker_step cfg sp (worker_at cfg b vs W_test m) (worker_at cfg b vs W_final m)"
  "worker_step cfg sp (worker_at cfg b vs W_final m) (worker_at cfg b vs W_close m)"
  "worker_step cfg sp (worker_at cfg b vs W_close m) (worker_at cfg b vs W_exit m)"
  "worker_step cfg sp (worker_at cfg b vs W_exit m) (worker_at cfg b vs W_notify m)"
  using loop_exit [of "worker_at cfg b vs W_test m" cfg sp]
    final_flush [of "worker_at cfg b vs W_final m" cfg sp]
    close [of "worker_at cfg b vs W_close m" cfg sp]
    set_exit [of "worker_at cfg b vs W_exit m" cfg sp]
  by (simp_all add: worker_at_simps)

lemma worker_at_notify:
  "m \<noteq> M_blocked \<Longrightarrow>
    worker_step cfg sp (worker_at cfg b vs W_notify m) (worker_at cfg b vs W_done m)"
  using notify [of "worker_at cfg b vs W_notify m" cfg sp] by (simp add: worker_at_simps)

lemma worker_at_stop_steps:
  "\<not> after_exit w \<Longrightarrow>
    worker_step cfg sp (worker_at cfg b vs w M_test) (worker_at cfg b vs w M_enter)"
  "worker_step cfg sp (worker_at cfg b vs w M_enter) (worker_at cfg b vs w M_blocked)"
  "worker_step cfg sp (worker_at cfg b vs W_done M_test) (worker_at cfg b vs W_done M_join)"
  "worker_step cfg sp (worker_at cfg b vs W_done M_join) (worker_at cfg b vs W_none M_returned)"
  using wait_enter [of "worker_at cfg b vs w M_test" cfg sp]
    wait_block [of "worker_at cfg b vs w M_enter" cfg sp]
    wait_done [of "worker_at cfg b vs W_done M_test" cfg sp]
    join [of "worker_at cfg b vs W_done M_join" cfg sp]
  by (simp_all add: worker_at_simps)

text \<open>The worker runs to its end while the stopping thread stays where it is.\<close>

lemma worker_finishes:
  assumes "m \<noteq> M_blocked"
  shows "worker_reach cfg sp (worker_at cfg b vs W_test m) (worker_at cfg b vs W_done m)"
  by (rule reach_step [OF reach_step [OF reach_step [OF reach_step [OF reach_step
        [OF reach_refl]]]]]) (rule worker_at_steps worker_at_notify [OF assms])+

lemma stop_returns:
  "worker_reach cfg sp (worker_at cfg b vs W_test M_test) (worker_at cfg b vs W_none M_returned)"
  by (rule reach_step [OF reach_step [OF worker_finishes]])
    (simp, rule worker_at_stop_steps(3), rule worker_at_stop_steps(4))

theorem stop_flushes_everything_witness:
  "ofs (flush small_cfg True (full_state\<lparr>m_head := 100\<rparr>)) =
    log_of small_cfg (full_state\<lparr>m_head := 100\<rparr>)"
proof -
  let ?b = "full_state\<lparr>m_head := 100\<rparr>"
  have inv: "buffer_inv small_cfg ?b"
    by (simp add: buffer_inv_def full_state_def small_cfg_def header_size_eq)
  have quiet: "stopped_quiet (worker_at small_cfg ?b [] W_test M_test)"
    by (simp add: stopped_quiet_def worker_at_simps)
  from stop_flushes_everything [OF quiet, of small_cfg False "worker_at small_cfg ?b [] W_none M_returned"]
  show ?thesis
    using inv stop_returns [of small_cfg False ?b "[]"] by (simp add: worker_at_simps)
qed

section \<open>A lost notification\<close>

lemma blocked_stuck:
  "\<not> worker_step cfg False (worker_at cfg b [] W_done M_blocked) t"
  by (auto simp: worker_at_simps store_guard_def elim!: worker_stepE)

text \<open>
  C5. \<open>stop\<close> waits on \<open>exit_finished_condition\<close> with a mutex of its own, which the worker
  does not hold when it sets the flag and notifies. So from a started worker there is an
  interleaving in which the notification comes between the test of the predicate and the
  wait: without a spurious wake-up \<open>stop\<close> then blocks forever, in a state no step leaves,
  although the worker has finished.
\<close>

theorem stop_lost_notification:
  "\<exists>s0 t. worker_start True 7 (new_worker b) = Inr s0 \<and> worker_reach cfg False s0 t \<and>
    wpc t = W_done \<and> mpc t = M_blocked \<and> {u. worker_step cfg False t u} = {}"
proof -
  let ?b = "b\<lparr>ofs := []\<rparr>"
  have "worker_step cfg False (started_worker ?b) (worker_at cfg ?b [] W_test M_test)"
    using stop_started [where b = ?b and vs = "[]" and cfg = cfg and sp = False] by (simp add: worker_at_simps)
  then have "worker_reach cfg False (started_worker ?b) (worker_at cfg ?b [] W_test M_enter)"
    by (rule reach_step [OF reach_step [OF reach_refl]]) (rule worker_at_stop_steps(1), simp)
  then have "worker_reach cfg False (started_worker ?b) (worker_at cfg ?b [] W_done M_enter)"
    by (rule worker_reach_trans [OF worker_finishes, rotated]) simp
  then have "worker_reach cfg False (started_worker ?b) (worker_at cfg ?b [] W_done M_blocked)"
    by (rule reach_step) (rule worker_at_stop_steps(2))
  then show ?thesis
    using blocked_stuck [of cfg ?b] started_worker_start [of b]
    by (intro exI [of _ "started_worker ?b"] exI [of _ "worker_at cfg ?b [] W_done M_blocked"])
      (auto simp: worker_at_def)
qed

text \<open>
  A client that passed the \<open>is_running\<close> test before \<open>stop\<close> cleared the flag can store
  after the final flush: \<open>stop\<close> has returned, the file is closed, and the record is in the
  buffer only.
\<close>

theorem late_store_lost:
  assumes "cfg_ok cfg" and "sample_ok v"
    and "header_size + sample_size v + header_size \<le> buffer_size cfg"
  shows "\<exists>t. worker_reach cfg False (started_worker (init_buffer_storage cfg)) t \<and>
    mpc t = M_returned \<and> \<not> ofs_open t \<and> ofs (buf t) = [] \<and>
    pending cfg (buf t) = entry_bytes (Record v)"
proof -
  let ?b = "init_buffer_storage cfg"
  let ?e = "worker_at cfg ?b [v] W_none M_returned"
  have nofrag: "\<not> needs_fragment cfg (header_size + sample_size v) ?b"
    using assms(3) by (simp add: needs_fragment_def init_buffer_storage_def)
  obtain b' where b': "store cfg v ?b = Some b'" "ofs b' = []"
      "pending cfg b' = entry_bytes (Record v)"
    using store_in_place [OF assms(2) buffer_inv_init [OF assms(1)] nofrag]
    by (auto simp: init_buffer_storage_def pending_def simp del: entry_bytes.simps)
  have "flush cfg True ?b = ?b"
    by (simp add: flush_def init_buffer_storage_def Let_def)
  then have store: "worker_step cfg False ?e (?e\<lparr>buf := b', inflight := []\<rparr>)"
    using client_store [of v ?e cfg b' False] b'(1) by (simp add: worker_at_def new_worker_def)
  have "worker_step cfg False (started_worker ?b) ((started_worker ?b)\<lparr>inflight := [v]\<rparr>)"
    by (rule client_test [of v]) (simp add: store_guard_def started_worker_def new_worker_def)
  then have "worker_reach cfg False (started_worker ?b) (worker_at cfg ?b [v] W_test M_test)"
    by (rule reach_step [OF reach_step [OF reach_refl]]) (rule stop_started)
  then have "worker_reach cfg False (started_worker ?b) ?e"
    by (rule worker_reach_trans [OF stop_returns])
  then have "worker_reach cfg False (started_worker ?b) (?e\<lparr>buf := b', inflight := []\<rparr>)"
    using store by (rule reach_step)
  then show ?thesis
    using b' by (intro exI [of _ "?e\<lparr>buf := b', inflight := []\<rparr>"])
      (simp add: worker_at_def del: entry_bytes.simps)
qed

theorem late_store_lost_witness:
  "\<exists>t. worker_reach small_cfg False (started_worker (init_buffer_storage small_cfg)) t \<and>
    mpc t = M_returned \<and> ofs (buf t) = [] \<and>
    pending small_cfg (buf t) = entry_bytes (Record (small_sample 1))"
proof -
  have "cfg_ok small_cfg"
    and "header_size + sample_size (small_sample 1) + header_size \<le> buffer_size small_cfg"
    by (simp_all add: cfg_ok_def small_cfg_def header_size_eq)
  with late_store_lost [of small_cfg "small_sample 1"] show ?thesis
    by (auto simp del: entry_bytes.simps)
qed

end
