(* ===== verification/Md5.thy ===== *)
theory Md5
  imports Prelude
begin

text \<open>
  The MD5 digest of \<open>common/md5sum.hpp\<close>: the block transform, the streaming
  \<open>update\<close>, \<open>finalize\<close> and the hexadecimal forms, at the code's widths.

  The code's lengths are \<open>uint32_t\<close>: sums wrap, and an index past the end of the caller's
  input (undefined behaviour in the code) is \<open>None\<close>. The reference is RFC 1321: the padded
  message, cut into 64-byte blocks, folded through the compression function in its
  table-driven form.
\<close>

section \<open>Basic functions\<close>

definition S11 :: nat where "S11 = 7"
definition S12 :: nat where "S12 = 12"
definition S13 :: nat where "S13 = 17"
definition S14 :: nat where "S14 = 22"
definition S21 :: nat where "S21 = 5"
definition S22 :: nat where "S22 = 9"
definition S23 :: nat where "S23 = 14"
definition S24 :: nat where "S24 = 20"
definition S31 :: nat where "S31 = 4"
definition S32 :: nat where "S32 = 11"
definition S33 :: nat where "S33 = 16"
definition S34 :: nat where "S34 = 23"
definition S41 :: nat where "S41 = 6"
definition S42 :: nat where "S42 = 10"
definition S43 :: nat where "S43 = 15"
definition S44 :: nat where "S44 = 21"

lemmas shift_defs = S11_def S12_def S13_def S14_def S21_def S22_def S23_def S24_def
  S31_def S32_def S33_def S34_def S41_def S42_def S43_def S44_def

definition md5_F :: "u32 \<Rightarrow> u32 \<Rightarrow> u32 \<Rightarrow> u32" where
  "md5_F x y z = (x AND y) OR (NOT x AND z)"

definition md5_G :: "u32 \<Rightarrow> u32 \<Rightarrow> u32 \<Rightarrow> u32" where
  "md5_G x y z = (x AND z) OR (y AND NOT z)"

definition md5_H :: "u32 \<Rightarrow> u32 \<Rightarrow> u32 \<Rightarrow> u32" where
  "md5_H x y z = x XOR y XOR z"

definition md5_I :: "u32 \<Rightarrow> u32 \<Rightarrow> u32 \<Rightarrow> u32" where
  "md5_I x y z = y XOR (x OR NOT z)"

definition rotate_left :: "u32 \<Rightarrow> nat \<Rightarrow> u32" where
  "rotate_left x n = push_bit n x OR drop_bit (32 - n) x"

definition md5_FF :: "u32 \<Rightarrow> u32 \<Rightarrow> u32 \<Rightarrow> u32 \<Rightarrow> u32 \<Rightarrow> nat \<Rightarrow> u32 \<Rightarrow> u32" where
  "md5_FF a b c d x s ac = rotate_left (a + md5_F b c d + x + ac) s + b"

definition md5_GG :: "u32 \<Rightarrow> u32 \<Rightarrow> u32 \<Rightarrow> u32 \<Rightarrow> u32 \<Rightarrow> nat \<Rightarrow> u32 \<Rightarrow> u32" where
  "md5_GG a b c d x s ac = rotate_left (a + md5_G b c d + x + ac) s + b"

definition md5_HH :: "u32 \<Rightarrow> u32 \<Rightarrow> u32 \<Rightarrow> u32 \<Rightarrow> u32 \<Rightarrow> nat \<Rightarrow> u32 \<Rightarrow> u32" where
  "md5_HH a b c d x s ac = rotate_left (a + md5_H b c d + x + ac) s + b"

definition md5_II :: "u32 \<Rightarrow> u32 \<Rightarrow> u32 \<Rightarrow> u32 \<Rightarrow> u32 \<Rightarrow> nat \<Rightarrow> u32 \<Rightarrow> u32" where
  "md5_II a b c d x s ac = rotate_left (a + md5_I b c d + x + ac) s + b"

section \<open>Words and bytes\<close>

text \<open>\<open>decode\<close> and \<open>encode\<close> shift bytes in and out, as the code writes it.\<close>

fun md5_decode :: "bytes \<Rightarrow> u32 list" where
  "md5_decode (b0 # b1 # b2 # b3 # bs) =
     (ucast b0 OR push_bit 8 (ucast b1) OR push_bit 16 (ucast b2) OR push_bit 24 (ucast b3)) #
     md5_decode bs"
| "md5_decode _ = []"

fun md5_encode :: "u32 list \<Rightarrow> bytes" where
  "md5_encode [] = []"
| "md5_encode (w # ws) =
     ucast (w AND 0xff) # ucast (drop_bit 8 w AND 0xff) # ucast (drop_bit 16 w AND 0xff) #
     ucast (drop_bit 24 w AND 0xff) # md5_encode ws"

section \<open>The block transform\<close>

type_synonym md5_state = "u32 \<times> u32 \<times> u32 \<times> u32"

definition md5_rounds :: "u32 list \<Rightarrow> md5_state \<Rightarrow> md5_state" where
  "md5_rounds x = (\<lambda>(a, b, c, d).
     (let
          a = md5_FF a b c d (x ! 0) S11 0xd76aa478;
          d = md5_FF d a b c (x ! 1) S12 0xe8c7b756;
          c = md5_FF c d a b (x ! 2) S13 0x242070db;
          b = md5_FF b c d a (x ! 3) S14 0xc1bdceee;
          a = md5_FF a b c d (x ! 4) S11 0xf57c0faf;
          d = md5_FF d a b c (x ! 5) S12 0x4787c62a;
          c = md5_FF c d a b (x ! 6) S13 0xa8304613;
          b = md5_FF b c d a (x ! 7) S14 0xfd469501;
          a = md5_FF a b c d (x ! 8) S11 0x698098d8;
          d = md5_FF d a b c (x ! 9) S12 0x8b44f7af;
          c = md5_FF c d a b (x ! 10) S13 0xffff5bb1;
          b = md5_FF b c d a (x ! 11) S14 0x895cd7be;
          a = md5_FF a b c d (x ! 12) S11 0x6b901122;
          d = md5_FF d a b c (x ! 13) S12 0xfd987193;
          c = md5_FF c d a b (x ! 14) S13 0xa679438e;
          b = md5_FF b c d a (x ! 15) S14 0x49b40821;
          a = md5_GG a b c d (x ! 1) S21 0xf61e2562;
          d = md5_GG d a b c (x ! 6) S22 0xc040b340;
          c = md5_GG c d a b (x ! 11) S23 0x265e5a51;
          b = md5_GG b c d a (x ! 0) S24 0xe9b6c7aa;
          a = md5_GG a b c d (x ! 5) S21 0xd62f105d;
          d = md5_GG d a b c (x ! 10) S22 0x2441453;
          c = md5_GG c d a b (x ! 15) S23 0xd8a1e681;
          b = md5_GG b c d a (x ! 4) S24 0xe7d3fbc8;
          a = md5_GG a b c d (x ! 9) S21 0x21e1cde6;
          d = md5_GG d a b c (x ! 14) S22 0xc33707d6;
          c = md5_GG c d a b (x ! 3) S23 0xf4d50d87;
          b = md5_GG b c d a (x ! 8) S24 0x455a14ed;
          a = md5_GG a b c d (x ! 13) S21 0xa9e3e905;
          d = md5_GG d a b c (x ! 2) S22 0xfcefa3f8;
          c = md5_GG c d a b (x ! 7) S23 0x676f02d9;
          b = md5_GG b c d a (x ! 12) S24 0x8d2a4c8a;
          a = md5_HH a b c d (x ! 5) S31 0xfffa3942;
          d = md5_HH d a b c (x ! 8) S32 0x8771f681;
          c = md5_HH c d a b (x ! 11) S33 0x6d9d6122;
          b = md5_HH b c d a (x ! 14) S34 0xfde5380c;
          a = md5_HH a b c d (x ! 1) S31 0xa4beea44;
          d = md5_HH d a b c (x ! 4) S32 0x4bdecfa9;
          c = md5_HH c d a b (x ! 7) S33 0xf6bb4b60;
          b = md5_HH b c d a (x ! 10) S34 0xbebfbc70;
          a = md5_HH a b c d (x ! 13) S31 0x289b7ec6;
          d = md5_HH d a b c (x ! 0) S32 0xeaa127fa;
          c = md5_HH c d a b (x ! 3) S33 0xd4ef3085;
          b = md5_HH b c d a (x ! 6) S34 0x4881d05;
          a = md5_HH a b c d (x ! 9) S31 0xd9d4d039;
          d = md5_HH d a b c (x ! 12) S32 0xe6db99e5;
          c = md5_HH c d a b (x ! 15) S33 0x1fa27cf8;
          b = md5_HH b c d a (x ! 2) S34 0xc4ac5665;
          a = md5_II a b c d (x ! 0) S41 0xf4292244;
          d = md5_II d a b c (x ! 7) S42 0x432aff97;
          c = md5_II c d a b (x ! 14) S43 0xab9423a7;
          b = md5_II b c d a (x ! 5) S44 0xfc93a039;
          a = md5_II a b c d (x ! 12) S41 0x655b59c3;
          d = md5_II d a b c (x ! 3) S42 0x8f0ccc92;
          c = md5_II c d a b (x ! 10) S43 0xffeff47d;
          b = md5_II b c d a (x ! 1) S44 0x85845dd1;
          a = md5_II a b c d (x ! 8) S41 0x6fa87e4f;
          d = md5_II d a b c (x ! 15) S42 0xfe2ce6e0;
          c = md5_II c d a b (x ! 6) S43 0xa3014314;
          b = md5_II b c d a (x ! 13) S44 0x4e0811a1;
          a = md5_II a b c d (x ! 4) S41 0xf7537e82;
          d = md5_II d a b c (x ! 11) S42 0xbd3af235;
          c = md5_II c d a b (x ! 2) S43 0x2ad7d2bb;
          b = md5_II b c d a (x ! 9) S44 0xeb86d391
      in (a, b, c, d)))"

definition transform :: "md5_state \<Rightarrow> bytes \<Rightarrow> md5_state" where
  "transform state block =
     (let x = md5_decode block;
          (a, b, c, d) = md5_rounds x state;
          (s0, s1, s2, s3) = state
      in (s0 + a, s1 + b, s2 + c, s3 + d))"

section \<open>The streaming context\<close>

record md5sum =
  finalized :: bool
  count :: "u32 \<times> u32"
  buffer :: bytes
  md5_st :: md5_state
  digest :: bytes

definition md5_init_state :: md5_state where
  "md5_init_state = (0x67452301, 0xefcdab89, 0x98badcfe, 0x10325476)"

definition new_md5sum :: md5sum where
  "new_md5sum = \<lparr>finalized = False, count = (0, 0), buffer = replicate 64 0,
     md5_st = md5_init_state, digest = replicate 16 0\<rparr>"

text \<open>
  The loop over whole blocks. The guard \<open>i + blocksize <= length\<close> is on \<open>uint32_t\<close>, so
  its sum wraps: a block that is not all inside the input is a read past its end, and an index
  that wraps starts again from the front, for ever. Both are \<open>None\<close>.
\<close>

function md5_loop :: "md5_state \<Rightarrow> bytes \<Rightarrow> nat \<Rightarrow> u32 \<Rightarrow> (md5_state \<times> nat) option" where
  "md5_loop st input i len =
     (if (i + 64) mod 2 ^ 32 \<le> unat len
      then if i + 64 \<le> length input \<and> i + 64 < 2 ^ 32
        then md5_loop (transform st (take 64 (drop i input))) input (i + 64) len
        else None
      else Some (st, i))"
  by pat_completeness auto
termination
  by (relation "measure (\<lambda>(st, input, i, len). length input - i)") auto

declare md5_loop.simps [simp del]

definition update_count :: "u32 \<times> u32 \<Rightarrow> u32 \<Rightarrow> u32 \<times> u32" where
  "update_count cnt len =
     (let (lo, hi) = cnt;
          lo = lo + push_bit 3 len;
          hi = (if lo < push_bit 3 len then hi + 1 else hi)
      in (lo, hi + drop_bit 29 len))"

definition update :: "bytes \<Rightarrow> u32 \<Rightarrow> md5sum \<Rightarrow> md5sum option" where
  "update input len m =
     (let index = unat (fst (count m) div 8 mod 64);
          m = m\<lparr>count := update_count (count m) len\<rparr>;
          firstpart = 64 - index
      in if unat len \<ge> firstpart then do {
           (fst_bytes, _) \<leftarrow> read_bytes firstpart input;
           buf \<leftarrow> mem_write index fst_bytes (buffer m);
           (st, i) \<leftarrow> md5_loop (transform (md5_st m) buf) input firstpart len;
           (rest, _) \<leftarrow> read_bytes (unat len - i) (drop i input);
           buf \<leftarrow> mem_write 0 rest buf;
           Some (m\<lparr>md5_st := st, buffer := buf\<rparr>) }
         else do {
           (rest, _) \<leftarrow> read_bytes (unat len) input;
           buf \<leftarrow> mem_write index rest (buffer m);
           Some (m\<lparr>buffer := buf\<rparr>) })"

text \<open>The \<open>std::string_view\<close> overload narrows the length to 32 bits.\<close>

definition update_view :: "bytes \<Rightarrow> md5sum \<Rightarrow> md5sum option" where
  "update_view inp m = update inp (of_nat (length inp)) m"

text \<open>The overload for an arithmetic value hashes its object representation.\<close>

definition update_arith :: "'a::len word \<Rightarrow> md5sum \<Rightarrow> md5sum option" where
  "update_arith inp m = update (word_bytes inp) (of_nat (LENGTH('a) div 8)) m"

definition padding :: bytes where
  "padding = 0x80 # replicate 63 0"

definition finalize :: "md5sum \<Rightarrow> md5sum option" where
  "finalize m =
     (if finalized m then Some m else do {
        let bits = md5_encode [fst (count m), snd (count m)];
        let index = fst (count m) div 8 mod 64;
        let padLen = (if index < 56 then 56 - index else 120 - index);
        m \<leftarrow> update padding padLen m;
        m \<leftarrow> update bits 8 m;
        let (s0, s1, s2, s3) = md5_st m;
        Some (m\<lparr>digest := md5_encode [s0, s1, s2, s3],
          buffer := replicate 64 0, count := (0, 0), finalized := True\<rparr>) })"

section \<open>Text forms\<close>

definition hex_digit :: "nat \<Rightarrow> char" where
  "hex_digit n = ''0123456789abcdef'' ! n"

text \<open>\<open>%02x\<close>, and \<open>std::hex\<close> with width 2 and fill \<open>0\<close>, of a byte.\<close>

definition hex2 :: "u8 \<Rightarrow> string" where
  "hex2 b = [hex_digit (unat b div 16), hex_digit (unat b mod 16)]"

definition hexdigest :: "md5sum \<Rightarrow> string" where
  "hexdigest m = (if \<not> finalized m then '''' else concat (map hex2 (digest m)))"

definition hexliteral :: "md5sum \<Rightarrow> string" where
  "hexliteral m = (if \<not> finalized m then ''''
     else ''X'' @ [CHR 0x27] @ concat (map hex2 (digest m)) @ [CHR 0x27])"

text \<open>
  The variadic constructor updates with each argument and finalizes; \<open>compute_md5sum\<close> of a
  string finalizes again and prints.
\<close>

fun update_all :: "bytes list \<Rightarrow> md5sum \<Rightarrow> md5sum option" where
  "update_all [] m = Some m"
| "update_all (inp # inps) m = do { m \<leftarrow> update_view inp m; update_all inps m }"

definition md5sum_of :: "bytes list \<Rightarrow> md5sum option" where
  "md5sum_of args = do { m \<leftarrow> update_all args new_md5sum; finalize m }"

definition compute_md5sum :: "bytes \<Rightarrow> string option" where
  "compute_md5sum inp = do { m \<leftarrow> md5sum_of [inp]; m \<leftarrow> finalize m; Some (hexdigest m) }"

section \<open>The reference: RFC 1321\<close>

definition rfc_T :: "u32 list" where
  "rfc_T = [
     0xd76aa478, 0xe8c7b756, 0x242070db, 0xc1bdceee, 0xf57c0faf, 0x4787c62a,
     0xa8304613, 0xfd469501, 0x698098d8, 0x8b44f7af, 0xffff5bb1, 0x895cd7be,
     0x6b901122, 0xfd987193, 0xa679438e, 0x49b40821, 0xf61e2562, 0xc040b340,
     0x265e5a51, 0xe9b6c7aa, 0xd62f105d, 0x2441453, 0xd8a1e681, 0xe7d3fbc8, 0x21e1cde6,
     0xc33707d6, 0xf4d50d87, 0x455a14ed, 0xa9e3e905, 0xfcefa3f8, 0x676f02d9,
     0x8d2a4c8a, 0xfffa3942, 0x8771f681, 0x6d9d6122, 0xfde5380c, 0xa4beea44,
     0x4bdecfa9, 0xf6bb4b60, 0xbebfbc70, 0x289b7ec6, 0xeaa127fa, 0xd4ef3085, 0x4881d05,
     0xd9d4d039, 0xe6db99e5, 0x1fa27cf8, 0xc4ac5665, 0xf4292244, 0x432aff97,
     0xab9423a7, 0xfc93a039, 0x655b59c3, 0x8f0ccc92, 0xffeff47d, 0x85845dd1,
     0x6fa87e4f, 0xfe2ce6e0, 0xa3014314, 0x4e0811a1, 0xf7537e82, 0xbd3af235,
     0x2ad7d2bb, 0xeb86d391]"

definition rfc_s :: "nat list" where
  "rfc_s = [7, 12, 17, 22, 5, 9, 14, 20, 4, 11, 16, 23, 6, 10, 15, 21]"

definition rfc_f :: "nat \<Rightarrow> u32 \<Rightarrow> u32 \<Rightarrow> u32 \<Rightarrow> u32" where
  "rfc_f i b c d =
     (if i < 16 then (b AND c) OR (NOT b AND d)
      else if i < 32 then (b AND d) OR (c AND NOT d)
      else if i < 48 then b XOR c XOR d
      else c XOR (b OR NOT d))"

definition rfc_k :: "nat \<Rightarrow> nat" where
  "rfc_k i = (if i < 16 then i else if i < 32 then (5 * i + 1) mod 16
     else if i < 48 then (3 * i + 5) mod 16 else 7 * i mod 16)"

definition rfc_step :: "u32 list \<Rightarrow> nat \<Rightarrow> md5_state \<Rightarrow> md5_state" where
  "rfc_step x i = (\<lambda>(a, b, c, d).
     (d, b + rotate_left (a + rfc_f i b c d + x ! rfc_k i + rfc_T ! i)
            (rfc_s ! (4 * (i div 16) + i mod 4)), b, c))"

definition rfc_compress :: "md5_state \<Rightarrow> bytes \<Rightarrow> md5_state" where
  "rfc_compress st block =
     (let (a, b, c, d) = fold (rfc_step (md5_decode block)) [0..<64] st; (s0, s1, s2, s3) = st
      in (s0 + a, s1 + b, s2 + c, s3 + d))"

function rfc_blocks :: "md5_state \<Rightarrow> bytes \<Rightarrow> md5_state" where
  "rfc_blocks st bs =
     (if length bs < 64 then st else rfc_blocks (rfc_compress st (take 64 bs)) (drop 64 bs))"
  by pat_completeness auto
termination
  by (relation "measure (\<lambda>(st, bs). length bs)") auto

declare rfc_blocks.simps [simp del]

definition rfc_pad :: "bytes \<Rightarrow> bytes" where
  "rfc_pad msg = (let r = length msg mod 64; n = (if r < 56 then 56 - r else 120 - r)
     in msg @ 0x80 # replicate (n - 1) 0 @ word_bytes (of_nat (8 * length msg) :: u64))"

definition rfc_md5 :: "bytes \<Rightarrow> bytes" where
  "rfc_md5 msg = (let (a, b, c, d) = rfc_blocks md5_init_state (rfc_pad msg)
     in word_bytes a @ word_bytes b @ word_bytes c @ word_bytes d)"


section \<open>The block transform is the compression function of the RFC\<close>

text \<open>
  The code's 64 assignments are sixteen groups of four; a group is the four table-driven
  steps that start at a multiple of four.
\<close>

definition md5_quad ::
  "(u32 \<Rightarrow> u32 \<Rightarrow> u32 \<Rightarrow> u32 \<Rightarrow> u32 \<Rightarrow> nat \<Rightarrow> u32 \<Rightarrow> u32) \<Rightarrow> u32 list \<Rightarrow> nat list \<Rightarrow> nat list \<Rightarrow>
   u32 list \<Rightarrow> md5_state \<Rightarrow> md5_state" where
  "md5_quad op x ks ss ts = (\<lambda>(a, b, c, d).
     (let a = op a b c d (x ! (ks ! 0)) (ss ! 0) (ts ! 0);
          d = op d a b c (x ! (ks ! 1)) (ss ! 1) (ts ! 1);
          c = op c d a b (x ! (ks ! 2)) (ss ! 2) (ts ! 2);
          b = op b c d a (x ! (ks ! 3)) (ss ! 3) (ts ! 3)
      in (a, b, c, d)))"

lemma md5_quad_Let: "md5_quad op x ks ss ts (Let e f) = Let e (\<lambda>v. md5_quad op x ks ss ts (f v))"
  by (simp add: Let_def)

lemma md5_quad_tuple:
  "md5_quad op x [k0, k1, k2, k3] [s0, s1, s2, s3] [t0, t1, t2, t3] (a, b, c, d) =
     (let a = op a b c d (x ! k0) s0 t0; d = op d a b c (x ! k1) s1 t1;
          c = op c d a b (x ! k2) s2 t2; b = op b c d a (x ! k3) s3 t3
      in (a, b, c, d))"
  by (simp add: md5_quad_def numeral_3_eq_3)

definition rfc_op :: "nat \<Rightarrow> u32 \<Rightarrow> u32 \<Rightarrow> u32 \<Rightarrow> u32 \<Rightarrow> u32 \<Rightarrow> nat \<Rightarrow> u32 \<Rightarrow> u32" where
  "rfc_op i a b c d x s t = rotate_left (a + rfc_f i b c d + x + t) s + b"

definition rfc_shift :: "nat \<Rightarrow> nat" where
  "rfc_shift i = rfc_s ! (4 * (i div 16) + i mod 4)"

lemma rfc_op_round:
  "i < 16 \<Longrightarrow> rfc_op i = md5_FF"
  "16 \<le> i \<Longrightarrow> i < 32 \<Longrightarrow> rfc_op i = md5_GG"
  "32 \<le> i \<Longrightarrow> i < 48 \<Longrightarrow> rfc_op i = md5_HH"
  "48 \<le> i \<Longrightarrow> rfc_op i = md5_II"
  by (auto simp: rfc_op_def rfc_f_def md5_FF_def md5_GG_def md5_HH_def md5_II_def
      md5_F_def md5_G_def md5_H_def md5_I_def fun_eq_iff)

lemma rfc_step_op:
  "rfc_step x i (a, b, c, d) =
     (d, rfc_op i a b c d (x ! rfc_k i) (rfc_shift i) (rfc_T ! i), b, c)"
  by (simp add: rfc_step_def rfc_op_def add.commute rfc_shift_def)

lemma rfc_steps_quad:
  assumes "op = rfc_op i" and "op = rfc_op j" and "op = rfc_op k"
    and "op = rfc_op l"
  shows "fold (rfc_step x) [i, j, k, l] st =
    md5_quad op x (map rfc_k [i, j, k, l])
      (map rfc_shift [i, j, k, l])
      (map ((!) rfc_T) [i, j, k, l]) st"
proof (cases st)
  case (fields a b c d)
  show ?thesis
    unfolding fields list.map md5_quad_tuple Let_def fold_simps rfc_step_op assms(1)[symmetric]
      assms(2)[symmetric] assms(3)[symmetric] assms(4)[symmetric] by (rule refl)
qed

lemma rfc_quads:
  "fold (rfc_step x) [0, 1, 2, 3] st = md5_quad md5_FF x (map rfc_k [0, 1, 2, 3])
      (map rfc_shift [0, 1, 2, 3]) (map ((!) rfc_T) [0, 1, 2, 3]) st"
  "fold (rfc_step x) [4, 5, 6, 7] st = md5_quad md5_FF x (map rfc_k [4, 5, 6, 7])
      (map rfc_shift [4, 5, 6, 7]) (map ((!) rfc_T) [4, 5, 6, 7]) st"
  "fold (rfc_step x) [8, 9, 10, 11] st = md5_quad md5_FF x (map rfc_k [8, 9, 10, 11])
      (map rfc_shift [8, 9, 10, 11]) (map ((!) rfc_T) [8, 9, 10, 11]) st"
  "fold (rfc_step x) [12, 13, 14, 15] st = md5_quad md5_FF x (map rfc_k [12, 13, 14, 15])
      (map rfc_shift [12, 13, 14, 15]) (map ((!) rfc_T) [12, 13, 14, 15]) st"
  "fold (rfc_step x) [16, 17, 18, 19] st = md5_quad md5_GG x (map rfc_k [16, 17, 18, 19])
      (map rfc_shift [16, 17, 18, 19]) (map ((!) rfc_T) [16, 17, 18, 19]) st"
  "fold (rfc_step x) [20, 21, 22, 23] st = md5_quad md5_GG x (map rfc_k [20, 21, 22, 23])
      (map rfc_shift [20, 21, 22, 23]) (map ((!) rfc_T) [20, 21, 22, 23]) st"
  "fold (rfc_step x) [24, 25, 26, 27] st = md5_quad md5_GG x (map rfc_k [24, 25, 26, 27])
      (map rfc_shift [24, 25, 26, 27]) (map ((!) rfc_T) [24, 25, 26, 27]) st"
  "fold (rfc_step x) [28, 29, 30, 31] st = md5_quad md5_GG x (map rfc_k [28, 29, 30, 31])
      (map rfc_shift [28, 29, 30, 31]) (map ((!) rfc_T) [28, 29, 30, 31]) st"
  "fold (rfc_step x) [32, 33, 34, 35] st = md5_quad md5_HH x (map rfc_k [32, 33, 34, 35])
      (map rfc_shift [32, 33, 34, 35]) (map ((!) rfc_T) [32, 33, 34, 35]) st"
  "fold (rfc_step x) [36, 37, 38, 39] st = md5_quad md5_HH x (map rfc_k [36, 37, 38, 39])
      (map rfc_shift [36, 37, 38, 39]) (map ((!) rfc_T) [36, 37, 38, 39]) st"
  "fold (rfc_step x) [40, 41, 42, 43] st = md5_quad md5_HH x (map rfc_k [40, 41, 42, 43])
      (map rfc_shift [40, 41, 42, 43]) (map ((!) rfc_T) [40, 41, 42, 43]) st"
  "fold (rfc_step x) [44, 45, 46, 47] st = md5_quad md5_HH x (map rfc_k [44, 45, 46, 47])
      (map rfc_shift [44, 45, 46, 47]) (map ((!) rfc_T) [44, 45, 46, 47]) st"
  "fold (rfc_step x) [48, 49, 50, 51] st = md5_quad md5_II x (map rfc_k [48, 49, 50, 51])
      (map rfc_shift [48, 49, 50, 51]) (map ((!) rfc_T) [48, 49, 50, 51]) st"
  "fold (rfc_step x) [52, 53, 54, 55] st = md5_quad md5_II x (map rfc_k [52, 53, 54, 55])
      (map rfc_shift [52, 53, 54, 55]) (map ((!) rfc_T) [52, 53, 54, 55]) st"
  "fold (rfc_step x) [56, 57, 58, 59] st = md5_quad md5_II x (map rfc_k [56, 57, 58, 59])
      (map rfc_shift [56, 57, 58, 59]) (map ((!) rfc_T) [56, 57, 58, 59]) st"
  "fold (rfc_step x) [60, 61, 62, 63] st = md5_quad md5_II x (map rfc_k [60, 61, 62, 63])
      (map rfc_shift [60, 61, 62, 63]) (map ((!) rfc_T) [60, 61, 62, 63]) st"
  by (rule rfc_steps_quad; simp add: rfc_op_round)+

lemma md5_rounds_quads:
  "md5_rounds x st =
    (md5_quad md5_II x [4, 11, 2, 9] [S41, S42, S43, S44]
      [0xf7537e82, 0xbd3af235, 0x2ad7d2bb, 0xeb86d391]
    (md5_quad md5_II x [8, 15, 6, 13] [S41, S42, S43, S44]
      [0x6fa87e4f, 0xfe2ce6e0, 0xa3014314, 0x4e0811a1]
    (md5_quad md5_II x [12, 3, 10, 1] [S41, S42, S43, S44]
      [0x655b59c3, 0x8f0ccc92, 0xffeff47d, 0x85845dd1]
    (md5_quad md5_II x [0, 7, 14, 5] [S41, S42, S43, S44]
      [0xf4292244, 0x432aff97, 0xab9423a7, 0xfc93a039]
    (md5_quad md5_HH x [9, 12, 15, 2] [S31, S32, S33, S34]
      [0xd9d4d039, 0xe6db99e5, 0x1fa27cf8, 0xc4ac5665]
    (md5_quad md5_HH x [13, 0, 3, 6] [S31, S32, S33, S34]
      [0x289b7ec6, 0xeaa127fa, 0xd4ef3085, 0x4881d05]
    (md5_quad md5_HH x [1, 4, 7, 10] [S31, S32, S33, S34]
      [0xa4beea44, 0x4bdecfa9, 0xf6bb4b60, 0xbebfbc70]
    (md5_quad md5_HH x [5, 8, 11, 14] [S31, S32, S33, S34]
      [0xfffa3942, 0x8771f681, 0x6d9d6122, 0xfde5380c]
    (md5_quad md5_GG x [13, 2, 7, 12] [S21, S22, S23, S24]
      [0xa9e3e905, 0xfcefa3f8, 0x676f02d9, 0x8d2a4c8a]
    (md5_quad md5_GG x [9, 14, 3, 8] [S21, S22, S23, S24]
      [0x21e1cde6, 0xc33707d6, 0xf4d50d87, 0x455a14ed]
    (md5_quad md5_GG x [5, 10, 15, 4] [S21, S22, S23, S24]
      [0xd62f105d, 0x2441453, 0xd8a1e681, 0xe7d3fbc8]
    (md5_quad md5_GG x [1, 6, 11, 0] [S21, S22, S23, S24]
      [0xf61e2562, 0xc040b340, 0x265e5a51, 0xe9b6c7aa]
    (md5_quad md5_FF x [12, 13, 14, 15] [S11, S12, S13, S14]
      [0x6b901122, 0xfd987193, 0xa679438e, 0x49b40821]
    (md5_quad md5_FF x [8, 9, 10, 11] [S11, S12, S13, S14]
      [0x698098d8, 0x8b44f7af, 0xffff5bb1, 0x895cd7be]
    (md5_quad md5_FF x [4, 5, 6, 7] [S11, S12, S13, S14]
      [0xf57c0faf, 0x4787c62a, 0xa8304613, 0xfd469501]
    (md5_quad md5_FF x [0, 1, 2, 3] [S11, S12, S13, S14]
      [0xd76aa478, 0xe8c7b756, 0x242070db, 0xc1bdceee]
    st))))))))))))))))"
proof (cases st)
  case (fields a b c d)
  show ?thesis
    unfolding fields md5_rounds_def prod.case
    by (simp only: md5_quad_tuple md5_quad_Let)
qed

lemma upt_64:
  "[0..<64] = [0, 1, 2, 3] @ [4, 5, 6, 7] @ [8, 9, 10, 11] @ [12, 13, 14, 15] @ [16, 17, 18, 19] @ [20, 21, 22, 23] @ [24, 25, 26, 27] @ [28, 29, 30, 31] @ [32, 33, 34, 35] @ [36, 37, 38, 39] @ [40, 41, 42, 43] @ [44, 45, 46, 47] @ [48, 49, 50, 51] @ [52, 53, 54, 55] @ [56, 57, 58, 59] @ [60, 61, 62, 63]"
  by (simp add: upt_rec)

lemma rfc_fold_quads:
  "fold (rfc_step x) [0..<64] st =
    fold (rfc_step x) [60, 61, 62, 63] (
    fold (rfc_step x) [56, 57, 58, 59] (
    fold (rfc_step x) [52, 53, 54, 55] (
    fold (rfc_step x) [48, 49, 50, 51] (
    fold (rfc_step x) [44, 45, 46, 47] (
    fold (rfc_step x) [40, 41, 42, 43] (
    fold (rfc_step x) [36, 37, 38, 39] (
    fold (rfc_step x) [32, 33, 34, 35] (
    fold (rfc_step x) [28, 29, 30, 31] (
    fold (rfc_step x) [24, 25, 26, 27] (
    fold (rfc_step x) [20, 21, 22, 23] (
    fold (rfc_step x) [16, 17, 18, 19] (
    fold (rfc_step x) [12, 13, 14, 15] (
    fold (rfc_step x) [8, 9, 10, 11] (
    fold (rfc_step x) [4, 5, 6, 7] (
    fold (rfc_step x) [0, 1, 2, 3] (
    st))))))))))))))))"
  by (simp only: upt_64 fold_append comp_apply)


lemma md5_rounds_rfc: "md5_rounds x st = fold (rfc_step x) [0..<64] st"
  unfolding md5_rounds_quads rfc_fold_quads shift_defs rfc_quads list.map
  by (simp add: rfc_k_def rfc_shift_def rfc_s_def rfc_T_def)

lemma transform_rfc: "transform st block = rfc_compress st block"
  by (simp add: transform_def rfc_compress_def md5_rounds_rfc)

section \<open>Encoding\<close>

lemma le_of_nat_mod: "le_of_nat n (k mod 256 ^ n) = le_of_nat n k"
proof (induction n arbitrary: k)
  case (Suc n)
  have "k mod 256 ^ Suc n = k mod 256 + 256 * (k div 256 mod 256 ^ n)"
    by (simp add: mod_mult2_eq)
  moreover have "(of_nat (k mod 256 + 256 * (k div 256 mod 256 ^ n)) :: u8) = of_nat k"
    by (simp only: word_unat_eq_iff unat_of_nat) simp
  moreover have "(k mod 256 + 256 * (k div 256 mod 256 ^ n)) div 256 = k div 256 mod 256 ^ n"
    by simp
  ultimately show ?case
    using Suc [of "k div 256"] by (simp only: le_of_nat.simps)
qed simp

lemma le_of_nat_add: "le_of_nat (m + n) k = le_of_nat m k @ le_of_nat n (k div 256 ^ m)"
  by (induction m arbitrary: k) (auto simp: div_mult2_eq)

lemma byte_mask: "(0xff :: u32) = mask 8"
  by (simp add: mask_eq_exp_minus_1)

lemma ucast_drop_bit_byte:
  "(ucast (drop_bit n (w :: u32) AND 0xff) :: u8) = of_nat (unat w div 2 ^ n)"
proof -
  have "(ucast (drop_bit n w AND 0xff) :: u8) = ucast (drop_bit n w)"
    by (rule bit_word_eqI) (auto simp: byte_mask bit_simps)
  also have "\<dots> = of_nat (unat (drop_bit n w))"
    by simp
  also have "unat (drop_bit n w) = unat w div 2 ^ n"
    by (simp only: unat_drop_bit_eq) (simp only: drop_bit_eq_div)
  finally show ?thesis .
qed

lemma le_of_nat_4:
  "le_of_nat 4 k = [of_nat k, of_nat (k div 2 ^ 8), of_nat (k div 2 ^ 16), of_nat (k div 2 ^ 24)]"
proof -
  have "(4 :: nat) = Suc (Suc (Suc (Suc 0)))"
    by simp
  then show ?thesis
    by (simp only: le_of_nat.simps) (simp add: div_mult2_eq [symmetric])
qed

lemma md5_encode_word: "md5_encode (w # ws) = word_bytes w @ md5_encode ws"
  using ucast_drop_bit_byte [of 0 w]
  by (simp add: word_bytes_def ucast_drop_bit_byte le_of_nat_4)

lemma length_md5_encode [simp]: "length (md5_encode ws) = 4 * length ws"
  by (induction ws) auto

lemma word_of_bytes:
  "(ucast (ucast (w AND 0xff) :: u8) :: u32) OR
     push_bit 8 (ucast (ucast (drop_bit 8 w AND 0xff) :: u8)) OR
     push_bit 16 (ucast (ucast (drop_bit 16 w AND 0xff) :: u8)) OR
     push_bit 24 (ucast (ucast (drop_bit 24 w AND 0xff) :: u8)) = (w :: u32)"
proof (rule bit_word_eqI)
  fix n
  assume "n < LENGTH(32)"
  then have "n < 8 \<or> (8 \<le> n \<and> n < 16) \<or> (16 \<le> n \<and> n < 24) \<or> (24 \<le> n \<and> n < 32)"
    by auto
  then show "bit ((ucast (ucast (w AND 0xff) :: u8) :: u32) OR
     push_bit 8 (ucast (ucast (drop_bit 8 w AND 0xff) :: u8)) OR
     push_bit 16 (ucast (ucast (drop_bit 16 w AND 0xff) :: u8)) OR
     push_bit 24 (ucast (ucast (drop_bit 24 w AND 0xff) :: u8))) n = bit w n"
    by (elim disjE) (auto simp: byte_mask bit_simps)
qed

lemma md5_encode_decode: "md5_decode (md5_encode ws) = ws"
  by (induction ws) (simp_all only: md5_encode.simps md5_decode.simps word_of_bytes)

section \<open>The blocks of a message\<close>

lemma rfc_blocks_short [simp]: "length bs < 64 \<Longrightarrow> rfc_blocks st bs = st"
  by (simp add: rfc_blocks.simps)

lemma rfc_blocks_step:
  "64 \<le> length bs \<Longrightarrow> rfc_blocks st bs = rfc_blocks (rfc_compress st (take 64 bs)) (drop 64 bs)"
  by (subst rfc_blocks.simps) simp

lemma rfc_blocks_block: "length b = 64 \<Longrightarrow> rfc_blocks st (b @ bs) = rfc_blocks (rfc_compress st b) bs"
  by (simp add: rfc_blocks_step)

definition md5_tail :: "bytes \<Rightarrow> bytes" where
  "md5_tail bs = drop (64 * (length bs div 64)) bs"

lemma length_md5_tail [simp]: "length (md5_tail bs) = length bs mod 64"
  by (simp add: md5_tail_def minus_mult_div_eq_mod)

lemma md5_tail_short [simp]: "length bs < 64 \<Longrightarrow> md5_tail bs = bs"
  by (simp add: md5_tail_def)

lemma md5_tail_step: "64 \<le> length bs \<Longrightarrow> md5_tail (drop 64 bs) = md5_tail bs"
proof -
  assume "64 \<le> length bs"
  then have "length bs div 64 = Suc ((length bs - 64) div 64)"
    by (simp add: le_div_geq)
  then show ?thesis
    by (simp add: md5_tail_def add.commute)
qed

lemma rfc_blocks_append: "rfc_blocks st (a @ b) = rfc_blocks (rfc_blocks st a) (md5_tail a @ b)"
proof (induction st a rule: rfc_blocks.induct)
  case (1 st bs)
  show ?case
  proof (cases "length bs < 64")
    case False
    then have "rfc_blocks st (bs @ b) = rfc_blocks (rfc_compress st (take 64 bs)) (drop 64 bs @ b)"
      by (simp add: rfc_blocks_step)
    also have "\<dots> = rfc_blocks (rfc_blocks st bs) (md5_tail bs @ b)"
      using 1 False by (simp add: md5_tail_step rfc_blocks_step [of bs st])
    finally show ?thesis .
  qed simp
qed

lemma md5_tail_append: "md5_tail (a @ b) = md5_tail (md5_tail a @ b)"
proof (induction "length a" arbitrary: a rule: less_induct)
  case less
  show ?case
  proof (cases "length a < 64")
    case False
    then have "md5_tail (a @ b) = md5_tail (drop 64 a @ b)"
      using md5_tail_step [of "a @ b"] by simp
    also have "\<dots> = md5_tail (md5_tail a @ b)"
      using less [of "drop 64 a"] False by (simp add: md5_tail_step)
    finally show ?thesis .
  qed simp
qed

section \<open>Streaming\<close>

text \<open>
  The 64-bit bit counter, and what the context keeps after the bytes \<open>msg\<close>: the state is
  the fold over the whole blocks, the front of the buffer is the incomplete one.
\<close>

definition bit_count :: "u32 \<times> u32 \<Rightarrow> nat" where
  "bit_count cnt = unat (fst cnt) + 2 ^ 32 * unat (snd cnt)"

definition md5_inv :: "md5sum \<Rightarrow> bytes \<Rightarrow> bool" where
  "md5_inv m msg \<longleftrightarrow> \<not> finalized m \<and> length (buffer m) = 64 \<and>
     bit_count (count m) = 8 * length msg mod 2 ^ 64 \<and>
     md5_st m = rfc_blocks md5_init_state msg \<and>
     take (length msg mod 64) (buffer m) = md5_tail msg"

lemma md5_inv_new: "md5_inv new_md5sum []"
  by (simp add: md5_inv_def new_md5sum_def bit_count_def md5_tail_def)

lemma unat_shift3: "unat (push_bit 3 (n :: u32)) = 8 * unat n mod 2 ^ 32"
  by (simp add: push_bit_eq_mult unat_word_ariths mult.commute)

lemma mod_mult_split: "(a :: nat) < b \<Longrightarrow> (a + b * q) mod (b * c) = a + b * (q mod c)"
  by (simp add: mod_mult2_eq)

lemma carry_arith:
  fixes l h n :: nat
  assumes "l < 2 ^ 32" and "h < 2 ^ 32" and "n < 2 ^ 32"
  defines "l' \<equiv> (l + 8 * n mod 2 ^ 32) mod 2 ^ 32"
  defines "c \<equiv> (if l' < 8 * n mod 2 ^ 32 then 1 else 0)"
  shows "l' + 2 ^ 32 * ((h + c + n div 2 ^ 29) mod 2 ^ 32) = (l + 2 ^ 32 * h + 8 * n) mod 2 ^ 64"
proof -
  define q r where "q = n div 2 ^ 29" and "r = n mod 2 ^ 29"
  have n: "n = q * 2 ^ 29 + r" and r: "r < 2 ^ 29"
    by (simp_all add: q_def r_def)
  have m: "8 * n mod 2 ^ 32 = 8 * r"
    using r by (simp add: n algebra_simps)
  have l': "l' + 2 ^ 32 * c = l + 8 * r"
    using assms(1) r unfolding l'_def c_def m
    by (cases "l + 8 * r < 2 ^ 32") (auto simp: mod_if)
  have eq: "l + 2 ^ 32 * h + 8 * n = l' + 2 ^ 32 * (h + c + q)"
    using l' by (simp add: n algebra_simps)
  have "l' < 2 ^ 32" and p: "(2 :: nat) ^ 64 = 2 ^ 32 * 2 ^ 32"
    by (simp_all add: l'_def)
  then show ?thesis
    unfolding eq p q_def [symmetric] by (simp only: mod_mult_split)
qed

lemma unat_u32_less: "unat (w :: u32) < 2 ^ 32"
  using unsigned_less [of w] by simp

lemma update_count_bits: "bit_count (update_count cnt n) = (bit_count cnt + 8 * unat n) mod 2 ^ 64"
proof -
  obtain lo hi where cnt: "cnt = (lo, hi)"
    by (cases cnt)
  define c :: nat where "c = (if (unat lo + 8 * unat n mod 2 ^ 32) mod 2 ^ 32 < 8 * unat n mod 2 ^ 32
    then 1 else 0)"
  have lo: "unat (lo + push_bit 3 n) = (unat lo + 8 * unat n mod 2 ^ 32) mod 2 ^ 32"
    by (simp add: unat_word_ariths unat_shift3)
  have "unat (drop_bit 29 n) = unat n div 2 ^ 29"
    by (simp only: unat_drop_bit_eq) (simp only: drop_bit_eq_div)
  then have "unat (snd (update_count cnt n)) = (unat hi + c + unat n div 2 ^ 29) mod 2 ^ 32"
    unfolding update_count_def cnt Let_def prod.case snd_conv word_less_nat_alt lo unat_shift3 c_def
    by (simp add: unat_word_ariths mod_simps)
  moreover have "fst (update_count cnt n) = lo + push_bit 3 n"
    by (simp add: update_count_def cnt Let_def)
  ultimately show ?thesis
    using carry_arith [OF unat_u32_less unat_u32_less unat_u32_less, of lo n hi]
    by (simp only: bit_count_def lo c_def cnt fst_conv snd_conv)
qed

lemma md5_index:
  assumes "bit_count (count m) = 8 * k mod 2 ^ 64"
  shows "unat (fst (count m) div 8 mod 64) = k mod 64"
proof -
  have "unat (fst (count m)) = bit_count (count m) mod 2 ^ 32"
    using unat_u32_less [of "fst (count m)"] by (simp add: bit_count_def)
  also have "\<dots> = 8 * k mod 2 ^ 32"
    using assms by (simp add: mod_mod_cancel)
  also have "\<dots> = 8 * (k mod 2 ^ 29)"
    by (simp add: mult_mod_right)
  finally have "unat (fst (count m)) div 8 mod 64 = k mod 2 ^ 29 mod 64"
    by simp
  then show ?thesis
    by (simp add: unat_div unat_mod mod_mod_cancel)
qed

lemma md5_loop_blocks:
  assumes "i \<le> unat len" and "unat len \<le> length input" and "unat len < 2 ^ 32 - 64"
  shows "md5_loop st input i len =
    Some (rfc_blocks st (slice i (unat len) input), i + 64 * ((unat len - i) div 64))"
  using assms
proof (induction st input i len rule: md5_loop.induct)
  case (1 st input i len)
  have wrap: "(i + 64) mod 2 ^ 32 = i + 64"
    using 1(2-4) by (intro mod_less) simp
  show ?case
  proof (cases "i + 64 \<le> unat len")
    case True
    have *: "take 64 (slice i (unat len) input) = take 64 (drop i input)"
      "drop 64 (slice i (unat len) input) = slice (i + 64) (unat len) input"
      using True by (simp_all add: slice_def drop_take min_def add.commute [of i])
    have "(unat len - i) div 64 = Suc ((unat len - (i + 64)) div 64)"
      using True by (subst le_div_geq) auto
    moreover have "md5_loop st input i len =
        md5_loop (transform st (take 64 (drop i input))) input (i + 64) len"
      using 1(3-4) True by (subst md5_loop.simps) (simp only: wrap, simp)
    moreover have "64 \<le> length (slice i (unat len) input)"
      using 1(3-4) True by (simp add: slice_def)
    ultimately show ?thesis
      using 1(1) [unfolded wrap] 1(3-4) True by (simp add: transform_rfc rfc_blocks_step *)
  next
    case False
    then show ?thesis
      using 1(2-4) by (subst md5_loop.simps) (simp only: wrap if_False, simp add: slice_def)
  qed
qed

lemma take_write_at: "p \<le> length m \<Longrightarrow> take (p + length bs) (write_at p bs m) = take p m @ bs"
  by (simp add: write_at_def)

lemma md5_tail_slice:
  assumes "n \<le> length input"
  shows "md5_tail (slice f n input) =
    take (n - (f + 64 * ((n - f) div 64))) (drop (f + 64 * ((n - f) div 64)) input)"
proof -
  have "length (slice f n input) = n - f"
    using assms by simp
  then show ?thesis
    unfolding md5_tail_def by (simp add: slice_def drop_take add.commute)
qed

lemma md5_inv_updI:
  "\<not> finalized m \<Longrightarrow> length b = 64 \<Longrightarrow> bit_count c = 8 * length msg mod 2 ^ 64 \<Longrightarrow>
   s = rfc_blocks md5_init_state msg \<Longrightarrow> take (length msg mod 64) b = md5_tail msg \<Longrightarrow>
   md5_inv (m\<lparr>count := c, md5_st := s, buffer := b\<rparr>) msg"
  by (simp add: md5_inv_def)

lemma write_at_front:
  assumes "length r = k" and "k < 64" and "length b = 64"
  shows "length (write_at 0 r b) = 64" and "take k (write_at 0 r b) = r" and "length r \<le> 64"
  using assms by (simp_all add: write_at_def)

lemma md5_inv_update:
  assumes inv: "md5_inv m msg" and len: "unat len \<le> length input" "unat len < 2 ^ 32 - 64"
  shows "\<exists>m'. update input len m = Some m' \<and> md5_inv m' (msg @ take (unat len) input)"
proof -
  let ?n = "unat len" and ?d = "take (unat len) input"
  let ?idx = "length msg mod 64"
  have idx: "unat (fst (count m) div 8 mod 64) = ?idx"
    using inv by (intro md5_index) (simp add: md5_inv_def)
  have bits: "bit_count (update_count (count m) len) = 8 * length (msg @ ?d) mod 2 ^ 64"
    using inv len by (simp add: update_count_bits md5_inv_def mod_simps algebra_simps)
  have buf: "length (buffer m) = 64" "take ?idx (buffer m) = md5_tail msg" "\<not> finalized m"
    and st: "md5_st m = rfc_blocks md5_init_state msg"
    using inv by (simp_all add: md5_inv_def)
  have st': "rfc_blocks md5_init_state (msg @ ?d) = rfc_blocks (md5_st m) (md5_tail msg @ ?d)"
    unfolding st by (rule rfc_blocks_append)
  show ?thesis
  proof (cases "64 - ?idx \<le> ?n")
    case True
    let ?fp = "64 - ?idx"
    let ?blk = "md5_tail msg @ take ?fp input"
    let ?i = "?fp + 64 * ((?n - ?fp) div 64)"
    let ?rest = "take (?n - ?i) (drop ?i input)"
    have lt: "?idx < 64"
      by simp
    have lf: "length (take ?fp input) = ?fp"
      using True len by simp
    have blk: "length ?blk = 64" "write_at ?idx (take ?fp input) (buffer m) = ?blk"
      using lf lt buf(1,2) by (simp_all only: write_at_def length_append length_md5_tail) simp_all
    have le: "?i \<le> ?n"
      using True div_mult_mod_eq [of "?n - ?fp" 64] by linarith
    have dd: "?d = take ?fp input @ slice ?fp ?n input"
      using True by (simp add: slice_def take_add [symmetric])
    have tl: "md5_tail (msg @ ?d) = ?rest"
    proof -
      have "md5_tail (msg @ ?d) = md5_tail (slice ?fp ?n input)"
        using md5_tail_append [of msg ?d] md5_tail_step [of "?blk @ slice ?fp ?n input"] blk(1)
        by (simp add: dd)
      also have "\<dots> = ?rest"
        by (rule md5_tail_slice) (fact len(1))
      finally show ?thesis .
    qed
    define i rest where "i = ?i" and "rest = ?rest"
    have lr: "length rest = length (msg @ ?d) mod 64"
      by (simp only: rest_def tl [symmetric] length_md5_tail)
    moreover have "length (msg @ ?d) mod 64 < 64"
      by simp
    ultimately have w: "length (write_at 0 rest ?blk) = 64"
      "take (length (msg @ ?d) mod 64) (write_at 0 rest ?blk) = rest" "length rest \<le> 64"
      using blk(1) by (rule write_at_front)+
    have r: "rest = take (?n - i) (drop i input)" "i \<le> ?n"
      using le by (simp_all only: rest_def i_def)
    have r64: "?n - i \<le> 64"
      using w(3) r(2) len(1) by (simp add: r(1))
    have blocks: "rfc_blocks md5_init_state (msg @ ?d) =
        rfc_blocks (rfc_compress (md5_st m) ?blk) (slice ?fp ?n input)"
      using rfc_blocks_block [OF blk(1), of "md5_st m" "slice ?fp ?n input"]
      unfolding st' unfolding dd append_assoc .
    have "md5_loop (transform (md5_st m) ?blk) input ?fp len =
        Some (rfc_blocks (rfc_compress (md5_st m) ?blk) (slice ?fp ?n input), i)"
      using True len unfolding i_def transform_rfc by (intro md5_loop_blocks)
    then have upd: "update input len m = Some (m\<lparr>count := update_count (count m) len,
        md5_st := rfc_blocks (rfc_compress (md5_st m) ?blk) (slice ?fp ?n input),
        buffer := write_at 0 rest ?blk\<rparr>)"
      using True len r(2) blk buf(1) r64 lf
      by (simp add: update_def idx read_bytes_def mem_write_def Let_def r(1) [symmetric] diff_le_mono)
    show ?thesis
      by (rule exI, rule conjI, rule upd, rule md5_inv_updI [OF buf(3) w(1) bits blocks [symmetric]])
        (simp only: w(2) tl rest_def [symmetric])
  next
    case False
    then have "write_at ?idx ?d (buffer m) = md5_tail msg @ ?d @ drop (?idx + ?n) (buffer m)"
      using buf len by (simp add: write_at_def)
    then have "update input len m = Some (m\<lparr>count := update_count (count m) len,
        buffer := md5_tail msg @ ?d @ drop (?idx + ?n) (buffer m)\<rparr>)"
      using False len buf by (simp add: update_def idx read_bytes_def mem_write_def Let_def)
    moreover have "length (md5_tail msg @ ?d) < 64" "length (msg @ ?d) mod 64 = ?idx + ?n"
      using False len by (simp_all add: mod_add_left_eq [of "length msg", symmetric])
    moreover have "md5_tail (msg @ ?d) = md5_tail msg @ ?d"
      using calculation(2) by (subst md5_tail_append) simp
    ultimately show ?thesis
      using buf(1,3) bits len st' by (auto simp: md5_inv_def)
  qed
qed

lemma md5_inv_update_view:
  assumes "md5_inv m msg" and "length d < 2 ^ 32 - 64"
  shows "\<exists>m'. update_view d m = Some m' \<and> md5_inv m' (msg @ d)"
proof -
  have "unat (of_nat (length d) :: u32) = length d"
    using assms(2) by (simp add: unat_of_nat)
  then show ?thesis
    using md5_inv_update [OF assms(1), of "of_nat (length d)" d] assms(2)
    by (simp add: update_view_def)
qed

lemma md5_inv_update_all:
  assumes "md5_inv m msg" and "\<forall>d \<in> set ds. length d < 2 ^ 32 - 64"
  shows "\<exists>m'. update_all ds m = Some m' \<and> md5_inv m' (msg @ concat ds)"
  using assms
proof (induction ds arbitrary: m msg)
  case (Cons d ds)
  then obtain m' where "update_view d m = Some m'" and "md5_inv m' (msg @ d)"
    using md5_inv_update_view [of m msg d] by auto
  then show ?case
    using Cons.IH [of m' "msg @ d"] Cons.prems(2) by simp
qed simp

section \<open>The digest\<close>

lemma padding_length: "length padding = 64"
  by (simp add: padding_def)

lemma md5_bits: "md5_encode [lo, hi] = le_of_nat 8 (bit_count (lo, hi))"
proof -
  have "le_of_nat (4 + 4) (bit_count (lo, hi)) =
      le_of_nat 4 (bit_count (lo, hi) mod 256 ^ 4) @ le_of_nat 4 (bit_count (lo, hi) div 256 ^ 4)"
    by (simp only: le_of_nat_add le_of_nat_mod)
  moreover have "bit_count (lo, hi) mod 256 ^ 4 = unat lo"
    "bit_count (lo, hi) div 256 ^ 4 = unat hi"
    using unat_u32_less [of lo] by (simp_all add: bit_count_def)
  ultimately show ?thesis
    by (simp add: md5_encode_word word_bytes_def del: md5_encode.simps(2))
qed

definition md5_pad_len :: "nat \<Rightarrow> nat" where
  "md5_pad_len r = (if r < 56 then 56 - r else 120 - r)"

lemma rfc_pad_eq:
  "rfc_pad msg = (msg @ take (md5_pad_len (length msg mod 64)) padding) @
     le_of_nat 8 (8 * length msg mod 2 ^ 64)"
proof -
  have "0 < md5_pad_len (length msg mod 64)" "md5_pad_len (length msg mod 64) \<le> 64"
    by (auto simp: md5_pad_len_def)
  then have "take (md5_pad_len (length msg mod 64)) padding =
      0x80 # replicate (md5_pad_len (length msg mod 64) - 1) 0"
    by (cases "md5_pad_len (length msg mod 64)") (auto simp: padding_def min_def)
  moreover have "unat (of_nat (8 * length msg) :: u64) = 8 * length msg mod 2 ^ 64"
    by (simp only: unat_of_nat) simp
  ultimately show ?thesis
    by (simp add: rfc_pad_def word_bytes_def md5_pad_len_def Let_def)
qed

lemma pad_len_word:
  assumes "unat (i :: u32) = r" and "r < 64"
  shows "unat (if i < 56 then 56 - i else 120 - i) = md5_pad_len r"
  using assms by (auto simp: md5_pad_len_def word_less_nat_alt unat_sub word_le_nat_alt)

lemma md5_finalize:
  assumes inv: "md5_inv m msg"
  shows "\<exists>m'. finalize m = Some m' \<and> finalized m' \<and> digest m' = rfc_md5 msg"
proof -
  let ?i = "fst (count m) div 8 mod 64"
  let ?r = "length msg mod 64"
  let ?p = "if ?i < 56 then 56 - ?i else 120 - ?i"
  have bits: "bit_count (count m) = 8 * length msg mod 2 ^ 64" and nf: "\<not> finalized m"
    using inv by (simp_all add: md5_inv_def)
  have p: "unat ?p = md5_pad_len ?r"
    by (rule pad_len_word [OF md5_index [OF bits]]) simp
  have "md5_pad_len ?r \<le> 64"
    by (auto simp: md5_pad_len_def)
  then obtain m1 where m1: "update padding ?p m = Some m1"
      and inv1: "md5_inv m1 (msg @ take (md5_pad_len ?r) padding)"
    using md5_inv_update [OF inv, of ?p padding] by (auto simp: p padding_length)
  let ?b = "le_of_nat 8 (8 * length msg mod 2 ^ 64)"
  obtain m2 where m2: "update ?b 8 m1 = Some m2" and inv2: "md5_inv m2 (rfc_pad msg)"
    using md5_inv_update [OF inv1, of 8 ?b] by (auto simp: rfc_pad_eq simp del: le_of_nat.simps)
  obtain a b c d where st: "rfc_blocks md5_init_state (rfc_pad msg) = (a, b, c, d)"
    by (cases "rfc_blocks md5_init_state (rfc_pad msg)")
  have "md5_st m2 = (a, b, c, d)"
    using inv2 by (simp add: md5_inv_def st)
  moreover have "md5_encode [fst (count m), snd (count m)] = ?b"
    using md5_bits [of "fst (count m)" "snd (count m)"] bits by simp
  ultimately show ?thesis
    using nf m1 m2 unfolding finalize_def Let_def
    by (simp add: rfc_md5_def st md5_encode_word del: md5_encode.simps(2) le_of_nat.simps)
qed

lemma finalize_finalized [simp]: "finalized m \<Longrightarrow> finalize m = Some m"
  by (simp add: finalize_def)

lemma length_rfc_md5 [simp]: "length (rfc_md5 msg) = 16"
  by (simp add: rfc_md5_def split: prod.split)

definition hex_char :: "char \<Rightarrow> bool" where
  "hex_char c \<longleftrightarrow> c \<in> set ''0123456789abcdef''"

lemma hex_digit_char: "n < 16 \<Longrightarrow> hex_char (hex_digit n)"
  unfolding hex_char_def hex_digit_def by (rule nth_mem) simp

lemma hex2_chars: "list_all hex_char (hex2 b)"
proof -
  have "unat b < 256"
    using unsigned_less [of b] by simp
  then show ?thesis
    by (simp add: hex2_def hex_digit_char)
qed

lemma hex_chars: "list_all hex_char (concat (map hex2 bs))"
  using hex2_chars by (induction bs) (auto simp: list_all_append)

lemma length_hex: "length (concat (map hex2 bs)) = 2 * length bs"
  by (induction bs) (simp_all add: hex2_def)

lemma md5sum_of_digest:
  assumes "\<forall>d \<in> set ds. length d < 2 ^ 32 - 64"
  shows "\<exists>m. md5sum_of ds = Some m \<and> finalized m \<and> digest m = rfc_md5 (concat ds)"
  using md5_inv_update_all [OF md5_inv_new assms] md5_finalize [of _ "concat ds"]
  by (auto simp: md5sum_of_def)

lemma compute_md5sum_mod:
  assumes "length inp mod 2 ^ 32 < 2 ^ 32 - 64"
  shows "compute_md5sum inp = Some (concat (map hex2 (rfc_md5 (take (length inp mod 2 ^ 32) inp))))"
proof -
  let ?n = "of_nat (length inp) :: u32"
  have n: "unat ?n = length inp mod 2 ^ 32"
    by (simp add: unat_of_nat)
  then obtain m where m: "update inp ?n new_md5sum = Some m"
      and inv: "md5_inv m (take (length inp mod 2 ^ 32) inp)"
    using md5_inv_update [OF md5_inv_new, of ?n inp] assms by auto
  show ?thesis
    using md5_finalize [OF inv] m
    by (auto simp: compute_md5sum_def md5sum_of_def update_view_def hexdigest_def)
qed

lemma md5_loop_wraps:
  assumes "i mod 64 = 0" and "i \<le> length input" and n: "length input = n" "n mod 64 = 0" "n + 64 = 2 ^ 32"
    and "unat len = n"
  shows "md5_loop st input i len = None"
  using assms
proof (induction st input i len rule: md5_loop.induct)
  case (1 st input i len)
  show ?case
  proof (cases "i + 64 \<le> n")
    case True
    then have "md5_loop (transform st (take 64 (drop i input))) input (i + 64) len = None"
      if "(i + 64) mod 2 ^ 32 \<le> unat len" "i + 64 \<le> length input \<and> i + 64 < 2 ^ 32"
      using 1(1) [OF that] 1(2,4-) by (simp add: mod_add_self2)
    then show ?thesis
      using True 1(7) by (subst md5_loop.simps) (auto simp: mod_le_divisor)
  next
    case False
    then have i: "i = n"
      using 1(2-5) by (simp only: mod_eq_0_iff_dvd) (elim dvdE, simp)
    then have "(i + 64) mod 2 ^ 32 = 0"
      using 1(6) by simp
    moreover have "\<not> i + 64 \<le> length input"
      using i 1(4) by simp
    ultimately show ?thesis
      by (subst md5_loop.simps) (simp only: le0 if_True, simp)
  qed
qed

section \<open>Properties\<close>

text \<open>
  The unrolled block transform of the code is, on every state and block, the compression
  function of RFC 1321 in its table-driven form.
\<close>
theorem md5_transform_equivalence: "transform st block = rfc_compress st block"
  by (rule transform_rfc)

text \<open>
  C6. Hashing the arguments of the variadic constructor one after the other is hashing their
  concatenation: each shorter than the 32-bit limit, the context finalizes with the RFC's
  digest of the whole message.
\<close>
theorem md5_streaming:
  assumes "\<forall>d \<in> set ds. length d < 2 ^ 32 - 64"
  shows "\<exists>m. md5sum_of ds = Some m \<and> digest m = rfc_md5 (concat ds) \<and>
    hexdigest m = concat (map hex2 (rfc_md5 (concat ds))) \<and> finalize m = Some m"
proof -
  obtain m where "md5sum_of ds = Some m" "finalized m" "digest m = rfc_md5 (concat ds)"
    using md5sum_of_digest [OF assms] by blast
  then show ?thesis
    by (intro exI [of _ m]) (simp add: hexdigest_def)
qed

theorem md5_streaming_witness:
  "\<exists>m. md5sum_of [[97], [], [98, 99]] = Some m \<and> digest m = rfc_md5 [97, 98, 99]"
  using md5_streaming [of "[[97], [], [98, 99]]"] by auto

text \<open>
  \<open>compute_md5sum\<close> of a string below the 32-bit limit prints the RFC's digest: 32
  characters, all lowercase hexadecimal digits.
\<close>
theorem compute_md5sum_hex:
  assumes "length inp < 2 ^ 32 - 64"
  shows "\<exists>s. compute_md5sum inp = Some s \<and> s = concat (map hex2 (rfc_md5 inp)) \<and>
    length s = 32 \<and> list_all hex_char s"
  using compute_md5sum_mod [of inp] assms by (simp add: length_hex hex_chars)

theorem compute_md5sum_hex_witness:
  "\<exists>s. compute_md5sum (replicate 100 97) = Some s \<and> length s = 32 \<and> list_all hex_char s"
  using compute_md5sum_hex [of "replicate 100 97"] by auto

text \<open>
  The string overload narrows the length to 32 bits: of a string of 4 GiB and some bytes
  only those last \<open>k\<close> bytes' worth of the front is hashed.
\<close>
theorem compute_md5sum_truncates:
  assumes "length inp = 2 ^ 32 + k" and "k < 2 ^ 32 - 64"
  shows "compute_md5sum inp = compute_md5sum (take k inp)"
  using assms compute_md5sum_mod [of inp] compute_md5sum_mod [of "take k inp"] by (simp add: mod_if)

theorem compute_md5sum_truncates_witness:
  "compute_md5sum (replicate (2 ^ 32 + 3) 0) = compute_md5sum (replicate 3 0)"
  using compute_md5sum_truncates [of "replicate (2 ^ 32 + 3) 0" 3] by simp

text \<open>
  The loop guard adds the block size to a 32-bit index: for a string whose length is the
  last multiple of 64 below 4 GiB the guard wraps and the code reads past the end.
\<close>
theorem md5_guard_wraps:
  assumes "length inp = 2 ^ 32 - 64"
  shows "compute_md5sum inp = None"
proof -
  have n: "unat (of_nat (length inp) :: u32) = length inp"
    using assms by (simp add: unat_of_nat)
  have "md5_loop st inp 64 (of_nat (length inp)) = None" for st
    using assms by (intro md5_loop_wraps [where n = "2 ^ 32 - 64"]) (simp_all add: n)
  moreover have "read_bytes 64 inp = Some (take 64 inp, drop 64 inp)"
    using assms by (simp add: read_bytes_def)
  moreover have "64 \<le> unat (of_nat (length inp) :: u32)"
    using assms by (simp add: n)
  ultimately have "update inp (of_nat (length inp)) new_md5sum = None"
    by (simp add: update_def new_md5sum_def mem_write_def Let_def)
  then show ?thesis
    by (simp add: compute_md5sum_def md5sum_of_def update_view_def)
qed

theorem md5_guard_wraps_witness: "compute_md5sum (replicate (2 ^ 32 - 64) 0) = None"
  using md5_guard_wraps [of "replicate (2 ^ 32 - 64) 0"] by simp

end
