(* ===== verification/Ordered_Set.thy ===== *)
theory Ordered_Set
  imports Prelude "HOL-Library.Product_Lexorder" "HOL-Library.Multiset"
    "HOL-Library.List_Lexorder" "HOL-Library.Char_ord"
begin

text \<open>
  The containers and algorithms of the C++ library that order by a comparison: \<open>std::set\<close>
  as the list of its elements in order, and \<open>std::sort\<close>.

  The locale \<open>weak_order\<close> is the library's requirement on a comparison (a strict weak
  order); the lemmas inside it are what the containers then guarantee. The components
  interpret it on their own \<open>operator<\<close>, or show that theirs is not one.
\<close>

section \<open>Comparing tuples\<close>

text \<open>\<open>std::tie\<close> compares component by component: less, or not greater and the rest less.\<close>

definition tie_less :: "bool \<Rightarrow> bool \<Rightarrow> bool \<Rightarrow> bool" where
  "tie_less lt gt rest \<longleftrightarrow> lt \<or> (\<not> gt \<and> rest)"

definition tie_lt :: "'a :: linorder \<Rightarrow> 'a \<Rightarrow> bool \<Rightarrow> bool" where
  "tie_lt x y rest = tie_less (x < y) (y < x) rest"

lemma tie_lt_eq: "tie_lt x y rest \<longleftrightarrow> x < y \<or> (x = y \<and> rest)"
  unfolding tie_lt_def tie_less_def by (cases x y rule: linorder_cases) auto

lemma less_pair: "((a :: 'a :: order, b :: 'b :: order) < (c, d)) = (a < c \<or> (a = c \<and> b < d))"
  by (auto simp: less_prod_def order.order_iff_strict)

section \<open>The containers\<close>

text \<open>\<open>emplace\<close> leaves out an element equivalent to one that is there.\<close>

fun set_emplace :: "('a \<Rightarrow> 'a \<Rightarrow> bool) \<Rightarrow> 'a \<Rightarrow> 'a list \<Rightarrow> 'a list" where
  "set_emplace lt x [] = [x]"
| "set_emplace lt x (y # ys) =
     (if lt x y then x # y # ys else if lt y x then y # set_emplace lt x ys else y # ys)"

text \<open>A stable insertion sort: one of the results \<open>std::sort\<close> may give.\<close>

fun insort_by :: "('a \<Rightarrow> 'a \<Rightarrow> bool) \<Rightarrow> 'a \<Rightarrow> 'a list \<Rightarrow> 'a list" where
  "insort_by lt x [] = [x]"
| "insort_by lt x (y # ys) = (if lt y x then y # insort_by lt x ys else x # y # ys)"

definition sort_by :: "('a \<Rightarrow> 'a \<Rightarrow> bool) \<Rightarrow> 'a list \<Rightarrow> 'a list" where
  "sort_by lt xs = foldr (insort_by lt) xs []"

text \<open>What \<open>std::sort\<close> promises of its result.\<close>

definition ordered_by :: "('a \<Rightarrow> 'a \<Rightarrow> bool) \<Rightarrow> 'a list \<Rightarrow> bool" where
  "ordered_by lt xs \<longleftrightarrow> sorted_wrt (\<lambda>x y. \<not> lt y x) xs"

text \<open>\<open>std::unique\<close> keeps the first of every run of equal elements.\<close>

function unique_by :: "('a \<Rightarrow> 'a \<Rightarrow> bool) \<Rightarrow> 'a list \<Rightarrow> 'a list" where
  "unique_by eq [] = []"
| "unique_by eq (x # xs) = x # unique_by eq (dropWhile (eq x) xs)"
  by pat_completeness auto
termination
  by (relation "measure (\<lambda>(eq, xs). length xs)") (auto simp: le_imp_less_Suc length_dropWhile_le)

lemma set_unique_by: "set (unique_by eq xs) \<subseteq> set xs"
proof (induction eq xs rule: unique_by.induct)
  case (2 eq x xs)
  then show ?case
    using set_dropWhileD [of _ "eq x" xs] by auto
qed simp

lemma set_insort_by: "set (insort_by lt x xs) = insert x (set xs)"
  by (induction xs) auto

lemma set_sort_by [simp]: "set (sort_by lt xs) = set xs"
  unfolding sort_by_def by (induction xs) (simp_all add: set_insort_by)

lemma length_sort_by [simp]: "length (sort_by lt xs) = length xs"
proof -
  have "length (insort_by lt x ys) = Suc (length ys)" for x ys
    by (induction ys) auto
  then show ?thesis
    unfolding sort_by_def by (induction xs) simp_all
qed

lemma mset_sort_by: "mset (sort_by lt xs) = mset xs"
proof -
  have "mset (insort_by lt x ys) = add_mset x (mset ys)" for x ys
    by (induction ys) auto
  then show ?thesis
    unfolding sort_by_def by (induction xs) simp_all
qed

text \<open>The sort looks at the comparison of the elements of the list alone.\<close>

lemma sort_by_cong:
  assumes "\<And>x y. x \<in> set xs \<Longrightarrow> y \<in> set xs \<Longrightarrow> lt x y = lt' x y"
  shows "sort_by lt xs = sort_by lt' xs"
proof -
  have insort: "insort_by lt x ys = insort_by lt' x ys" if "\<forall>y \<in> set ys. lt y x = lt' y x" for x ys
    using that by (induction ys) auto
  show ?thesis
    using assms unfolding sort_by_def
  proof (induction xs)
    case (Cons x xs)
    have "set (foldr (insort_by lt') xs []) = set xs"
      using set_sort_by [of lt' xs] by (simp add: sort_by_def)
    with Cons show ?case
      by (simp add: insort)
  qed simp
qed

section \<open>Strict weak orders\<close>

locale weak_order =
  fixes lt :: "'a \<Rightarrow> 'a \<Rightarrow> bool"
  assumes irrefl: "\<not> lt x x"
    and trans: "lt x y \<Longrightarrow> lt y z \<Longrightarrow> lt x z"
    and neg_trans: "\<not> lt x y \<Longrightarrow> \<not> lt y z \<Longrightarrow> \<not> lt x z"
begin

lemma asym: "lt x y \<Longrightarrow> \<not> lt y x"
  using irrefl trans by blast

lemma set_emplace_subset: "set (set_emplace lt x xs) \<subseteq> insert x (set xs)"
  by (induction xs) auto

lemma set_emplace_keeps: "set xs \<subseteq> set (set_emplace lt x xs)"
  by (induction xs) auto

lemma set_emplace_sorted:
  assumes "sorted_wrt lt xs"
  shows "sorted_wrt lt (set_emplace lt x xs)"
  using assms
proof (induction xs)
  case (Cons y ys)
  have "\<forall>z \<in> set (set_emplace lt x ys). lt y z" if "lt y x"
    using Cons.prems that set_emplace_subset [of x ys] by auto
  moreover have "\<forall>z \<in> set (y # ys). lt x z" if "lt x y"
    using Cons.prems that trans [OF that] by simp
  ultimately show ?case
    using Cons by simp
qed simp

lemma set_emplace_last: "\<forall>y \<in> set ys. lt y x \<Longrightarrow> set_emplace lt x ys = ys @ [x]"
  by (induction ys) (auto simp: asym)

lemma fold_set_emplace: "sorted_wrt lt (ys @ xs) \<Longrightarrow> fold (set_emplace lt) xs ys = ys @ xs"
proof (induction xs arbitrary: ys)
  case (Cons x xs)
  then have "\<forall>y \<in> set ys. lt y x"
    by (simp add: sorted_wrt_append)
  then show ?case
    using Cons by (simp add: set_emplace_last)
qed simp

lemma set_emplace_found: "\<exists>y \<in> set (set_emplace lt x xs). \<not> lt x y \<and> \<not> lt y x"
  by (induction xs) (auto simp: irrefl)

lemma insort_by_ordered: "ordered_by lt xs \<Longrightarrow> ordered_by lt (insort_by lt x xs)"
  unfolding ordered_by_def
proof (induction xs)
  case (Cons y ys)
  moreover have "\<forall>z \<in> set ys. \<not> lt z x" if "\<not> lt y x"
    using Cons.prems that neg_trans [of _ y x] by simp
  ultimately show ?case
    using asym [of y x] by (auto simp: set_insort_by)
qed simp

lemma sort_by_ordered: "ordered_by lt (sort_by lt xs)"
  unfolding sort_by_def by (induction xs) (simp add: ordered_by_def, simp add: insort_by_ordered)

end

text \<open>A comparison that compares keys in a linear order is a strict weak order.\<close>

lemma weak_order_key: "weak_order (\<lambda>x y. (key x :: 'k :: linorder) < key y)"
  by unfold_locales auto

end
