(* ===== verification/Address_Range.thy ===== *)
theory Address_Range
  imports Ordered_Set
begin

text \<open>
  Address ranges of binaries: \<open>core/binary/address_range.cpp\<close> and
  \<open>binary/address_multirange.cpp\<close>.

  An \<open>address_range\<close> is a pair of 64-bit addresses: a half-open range when
  \<open>low < high\<close>, a single address otherwise. \<open>addresses\<close> is its meaning as a set; the
  lemmas compare every operation with it. A \<open>throw\<close> is \<open>Inl\<close>.
\<close>

section \<open>The range\<close>

record address_range =
  low :: u64
  high :: u64

datatype range_error = High_below_low u64 u64 | Not_contiguous

definition default_range :: address_range where
  "default_range = \<lparr>low = - 1, high = 0\<rparr>"

definition address_range_at :: "u64 \<Rightarrow> address_range" where
  "address_range_at v = \<lparr>low = v, high = v\<rparr>"

definition make_range :: "u64 \<Rightarrow> u64 \<Rightarrow> range_error + address_range" where
  "make_range l h = (if h < l then Inl (High_below_low l h) else Inr \<lparr>low = l, high = h\<rparr>)"

definition is_range :: "address_range \<Rightarrow> bool" where
  "is_range r \<longleftrightarrow> low r < high r"

definition range_size :: "address_range \<Rightarrow> u64" where
  "range_size r = (if low r = high r then 1
     else if high r > low r then high r - low r + 1 else low r - high r + 1)"

definition is_valid :: "address_range \<Rightarrow> bool" where
  "is_valid r \<longleftrightarrow> low r \<le> high r \<and> low r + 1 > 1"

definition contains :: "address_range \<Rightarrow> u64 \<Rightarrow> bool" where
  "contains r v \<longleftrightarrow> (if is_range r then low r \<le> v \<and> high r > v else v = low r)"

definition contains_range :: "address_range \<Rightarrow> address_range \<Rightarrow> bool" where
  "contains_range r v \<longleftrightarrow> r = v \<or> (contains r (low v) \<and> (contains r (high v) \<or> high v = high r))"

text \<open>
  \<open>overlaps\<close> computes its differences in \<open>uintptr_t\<close>, stores them in \<open>int64_t\<close> and adds
  two of them: a sum outside \<open>int64_t\<close> is undefined, \<open>None\<close>.
\<close>

definition int64_add :: "int \<Rightarrow> int \<Rightarrow> int option" where
  "int64_add a b = (if - (2 ^ 63) \<le> a + b \<and> a + b < 2 ^ 63 then Some (a + b) else None)"

definition overlaps :: "address_range \<Rightarrow> address_range \<Rightarrow> bool option" where
  "overlaps r v =
     (if contains_range r v then Some False
      else (let lhs_diff = sint (high r - low r);
                rhs_diff = sint (high v - low v);
                diff = sint (max (high r) (high v) - min (low r) (low v))
            in map_option (\<lambda>s. diff < s) (int64_add lhs_diff rhs_diff)))"

definition contiguous_with :: "address_range \<Rightarrow> address_range \<Rightarrow> bool" where
  "contiguous_with r v \<longleftrightarrow> low v = high r \<or> low r = high v"

definition range_less :: "address_range \<Rightarrow> address_range \<Rightarrow> bool" where
  "range_less r v =
     (if is_range r \<and> \<not> is_range v then (if low r = low v then True else low r < low v)
      else if \<not> is_range r \<and> is_range v then (if low r = low v then False else low r < low v)
      else if \<not> is_range r \<and> \<not> is_range v then low r < low v
      else low r < low v \<or> (low r = low v \<and> high r < high v))"

definition range_greater :: "address_range \<Rightarrow> address_range \<Rightarrow> bool" where
  "range_greater r v \<longleftrightarrow> \<not> range_less r v \<and> r \<noteq> v"

definition range_add :: "address_range \<Rightarrow> u64 \<Rightarrow> address_range" where
  "range_add r v = (if is_valid r then \<lparr>low = low r + v, high = high r + v\<rparr>
     else \<lparr>low = v, high = v\<rparr>)"

definition range_sub :: "address_range \<Rightarrow> u64 \<Rightarrow> address_range" where
  "range_sub r v = (if is_valid r then \<lparr>low = low r - v, high = high r - v\<rparr>
     else \<lparr>low = v, high = v\<rparr>)"

definition range_join :: "address_range \<Rightarrow> address_range \<Rightarrow> range_error + address_range" where
  "range_join r v =
     (if \<not> contiguous_with r v then Inl Not_contiguous
      else Inr \<lparr>low = min (low r) (low v), high = max (high r) (high v)\<rparr>)"

text \<open>The hash of a range combines its ends with timemory's \<open>get_hash_id\<close>, a parameter.\<close>

definition range_hash :: "(u64 \<Rightarrow> u64 \<Rightarrow> u64) \<Rightarrow> address_range \<Rightarrow> u64" where
  "range_hash get_hash_id r = (if is_range r then get_hash_id (low r) (high r) else low r)"

section \<open>Text forms\<close>

fun hex_digits :: "nat \<Rightarrow> u64 \<Rightarrow> string" where
  "hex_digits 0 v = ''''"
| "hex_digits (Suc n) v = hex_digits n (v div 16) @ [''0123456789abcdef'' ! unat (v mod 16)]"

text \<open>A 64-bit value in hexadecimal, padded with zeros to its sixteen digits.\<close>

definition hex16 :: "u64 \<Rightarrow> string" where
  "hex16 v = hex_digits 16 v"

definition as_string :: "nat \<Rightarrow> address_range \<Rightarrow> string" where
  "as_string depth r =
     replicate (2 * depth) (CHR '' '') @ ''0x'' @ hex16 (low r) @ ''-'' @ ''0x'' @ hex16 (high r)"

definition as_hex :: "address_range \<Rightarrow> string" where
  "as_hex r = (if is_range r then (''0x'' @ hex16 (low r)) @ ''-'' @ (''0x'' @ hex16 (high r))
     else ''0x'' @ hex16 (low r))"

section \<open>Several ranges\<close>

record address_multirange =
  coarse_range :: address_range
  fine_ranges :: "address_range list"

definition empty_multirange :: address_multirange where
  "empty_multirange = \<lparr>coarse_range = default_range, fine_ranges = []\<rparr>"

definition add_coarse :: "u64 \<Rightarrow> address_multirange \<Rightarrow> range_error + address_multirange" where
  "add_coarse v m =
     (case make_range (min (low (coarse_range m)) v) (max (high (coarse_range m)) (v + 1)) of
        Inl e \<Rightarrow> Inl e
      | Inr r \<Rightarrow> Inr (m\<lparr>coarse_range := r\<rparr>))"

definition add_coarse_range ::
  "address_range \<Rightarrow> address_multirange \<Rightarrow> range_error + address_multirange" where
  "add_coarse_range v m =
     (case make_range (min (low (coarse_range m)) (low v)) (max (high (coarse_range m)) (high v)) of
        Inl e \<Rightarrow> Inl e
      | Inr r \<Rightarrow> Inr (m\<lparr>coarse_range := r\<rparr>))"

definition add_address :: "u64 \<Rightarrow> address_multirange \<Rightarrow> range_error + address_multirange" where
  "add_address v m =
     (case add_coarse v m of
        Inl e \<Rightarrow> Inl e
      | Inr m \<Rightarrow> Inr (m\<lparr>fine_ranges := set_emplace range_less (address_range_at v) (fine_ranges m)\<rparr>))"

definition add_range :: "address_range \<Rightarrow> address_multirange \<Rightarrow> range_error + address_multirange" where
  "add_range v m =
     (case add_coarse_range v m of
        Inl e \<Rightarrow> Inl e
      | Inr m \<Rightarrow> Inr (m\<lparr>fine_ranges := set_emplace range_less v (fine_ranges m)\<rparr>))"

definition multi_contains :: "address_multirange \<Rightarrow> u64 \<Rightarrow> bool" where
  "multi_contains m v =
     (if \<not> contains (coarse_range m) v then False
      else list_ex (\<lambda>r. contains r v) (fine_ranges m))"

definition multi_contains_range :: "address_multirange \<Rightarrow> address_range \<Rightarrow> bool" where
  "multi_contains_range m v =
     (if \<not> contains_range (coarse_range m) v then False
      else list_ex (\<lambda>r. contains_range r v) (fine_ranges m))"

section \<open>The meaning of a range\<close>

definition addresses :: "address_range \<Rightarrow> u64 set" where
  "addresses r = (if is_range r then {low r ..< high r} else {low r})"

lemma contains_iff: "contains r v \<longleftrightarrow> v \<in> addresses r"
  by (auto simp: contains_def addresses_def)

lemma contains_range_sound:
  assumes "low v \<le> high v" and "contains_range r v"
  shows "addresses v \<subseteq> addresses r"
  using assms by (auto simp: contains_range_def contains_def addresses_def is_range_def split: if_splits)

lemma contains_range_complete:
  assumes "is_range r" and "low v \<le> high v" and "addresses v \<subseteq> addresses r"
  shows "contains_range r v"
proof (cases "is_range v")
  case True
  then have "low r \<le> low v" "high v \<le> high r" "low v < high v"
    using assms by (auto simp: addresses_def is_range_def dest!: atLeastLessThan_subset_iff)
  then show ?thesis
    using assms(1) by (auto simp: contains_range_def contains_def is_range_def)
next
  case False
  then have "low v = high v"
    using assms(2) by (simp add: is_range_def)
  then show ?thesis
    using False assms by (auto simp: contains_range_def contains_def addresses_def is_range_def)
qed

text \<open>The comparison compares the lows, then puts ranges before addresses, then the highs.\<close>

definition range_key :: "address_range \<Rightarrow> u64 \<times> nat \<times> u64" where
  "range_key r = (low r, if is_range r then 0 else 1, if is_range r then high r else 0)"

lemma range_less_key: "range_less r v \<longleftrightarrow> range_key r < range_key v"
  by (auto simp: range_less_def range_key_def less_prod_def less_eq_prod_def)

interpretation ranges: weak_order range_less
  unfolding range_less_key [abs_def] by (rule weak_order_key)

lemma range_equivalent:
  "\<not> range_less r v \<Longrightarrow> \<not> range_less v r \<Longrightarrow> addresses r = addresses v"
  unfolding range_less_key by (auto simp: not_less range_key_def addresses_def dest!: antisym split: if_splits)

lemma range_equivalent_eq:
  "low r \<le> high r \<Longrightarrow> low v \<le> high v \<Longrightarrow> \<not> range_less r v \<Longrightarrow> \<not> range_less v r \<Longrightarrow> r = v"
  unfolding range_less_key
  by (auto simp: not_less range_key_def is_range_def intro!: address_range.equality dest!: antisym split: if_splits)

section \<open>Overlap, join and size\<close>

lemma sint_diff:
  assumes "(l :: u64) \<le> h" and "uint h < 2 ^ 63"
  shows "sint (h - l) = uint h - uint l"
proof -
  have "uint (h - l) = uint h - uint l"
    using assms(1) by (simp add: uint_sub_if' word_le_def)
  moreover from this have "uint (h - l) < 2 ^ 63"
    using assms(2) uint_ge_0 [of l] by linarith
  ultimately show ?thesis
    using uint_ge_0 [of "h - l"] by (simp add: sint_uint signed_take_bit_int_eq_self_iff)
qed

lemma ranges_meet:
  assumes "is_range r" and "is_range v"
  shows "addresses r \<inter> addresses v \<noteq> {} \<longleftrightarrow> low r < high v \<and> low v < high r"
proof
  assume "low r < high v \<and> low v < high r"
  then have "max (low r) (low v) \<in> addresses r \<inter> addresses v"
    using assms by (auto simp: addresses_def is_range_def max_def)
  then show "addresses r \<inter> addresses v \<noteq> {}"
    by blast
qed (use assms in \<open>auto simp: addresses_def\<close>)

lemma overlaps_meet:
  assumes "is_range r" and "is_range v" and "high r < 2 ^ 62" and "high v < 2 ^ 62"
    and "\<not> contains_range r v"
  shows "overlaps r v = Some (low r < high v \<and> low v < high r)"
proof -
  have le: "low r \<le> high r" "low v \<le> high v" "min (low r) (low v) \<le> max (high r) (high v)"
    using assms(1,2) by (auto simp: is_range_def min_def max_def)
  have hi: "uint (high r) < 2 ^ 62" "uint (high v) < 2 ^ 62"
    using assms(3,4) by (simp_all add: word_less_def)
  have d: "sint (high r - low r) = uint (high r) - uint (low r)"
      "sint (high v - low v) = uint (high v) - uint (low v)"
    using hi le by (intro sint_diff; simp)+
  have mm: "uint (max x y) = max (uint x) (uint y)" "uint (min x y) = min (uint x) (uint y)" for x y :: u64
    by (auto simp: max_def min_def word_le_def)
  have m: "sint (max (high r) (high v) - min (low r) (low v)) =
      max (uint (high r)) (uint (high v)) - min (uint (low r)) (uint (low v))"
    using hi sint_diff [OF le(3)] by (simp add: mm)
  have "int64_add (sint (high r - low r)) (sint (high v - low v)) =
      Some (uint (high r) - uint (low r) + (uint (high v) - uint (low v)))"
  proof -
    have pow: "(2 :: int) ^ 63 = 2 * 2 ^ 62"
      by simp
    have "uint (low r) < uint (high r)" "uint (low v) < uint (high v)"
      using assms(1,2) by (simp_all add: is_range_def word_less_def)
    then have "- (2 ^ 63) \<le> uint (high r) - uint (low r) + (uint (high v) - uint (low v)) \<and>
        uint (high r) - uint (low r) + (uint (high v) - uint (low v)) < 2 ^ 63"
      using hi uint_ge_0 [of "low r"] uint_ge_0 [of "low v"] pow by (intro conjI; linarith)
    then show ?thesis
      unfolding d int64_add_def by simp
  qed
  then show ?thesis
    using assms(1,2,5) unfolding overlaps_def m
    by (auto simp: is_range_def word_less_def max_def min_def)
qed

lemma make_range_ok [simp]: "l \<le> h \<Longrightarrow> make_range l h = Inr \<lparr>low = l, high = h\<rparr>"
  by (simp add: make_range_def not_less)

section \<open>Several ranges\<close>

text \<open>What is added: single addresses and ranges.\<close>

datatype range_item = Address u64 | Range address_range

definition add_item :: "range_item \<Rightarrow> address_multirange \<Rightarrow> range_error + address_multirange" where
  "add_item i m = (case i of Address v \<Rightarrow> add_address v m | Range r \<Rightarrow> add_range r m)"

fun add_items :: "range_item list \<Rightarrow> address_multirange \<Rightarrow> range_error + address_multirange" where
  "add_items [] m = Inr m"
| "add_items (i # is) m = (case add_item i m of Inl e \<Rightarrow> Inl e | Inr m \<Rightarrow> add_items is m)"

fun item_ok :: "range_item \<Rightarrow> bool" where
  "item_ok (Address v) \<longleftrightarrow> v \<noteq> - 1"
| "item_ok (Range r) \<longleftrightarrow> is_range r"

fun item_addresses :: "range_item \<Rightarrow> u64 set" where
  "item_addresses (Address v) = {v}"
| "item_addresses (Range r) = addresses r"

text \<open>The coarse range covers what was added, and the fine ranges are exactly it.\<close>

definition multirange_inv :: "address_multirange \<Rightarrow> u64 set \<Rightarrow> bool" where
  "multirange_inv m S \<longleftrightarrow>
     sorted_wrt range_less (fine_ranges m) \<and>
     S = (\<Union>r \<in> set (fine_ranges m). addresses r) \<and>
     (if S = {} then coarse_range m = default_range
      else is_range (coarse_range m) \<and> S \<subseteq> addresses (coarse_range m))"

lemma multirange_inv_empty: "multirange_inv empty_multirange {}"
  by (simp add: multirange_inv_def empty_multirange_def)

lemma multi_contains_inv:
  assumes "multirange_inv m S"
  shows "multi_contains m v \<longleftrightarrow> v \<in> S"
  using assms by (auto simp: multi_contains_def multirange_inv_def contains_iff list_ex_iff split: if_splits)

lemma emplace_addresses:
  "(\<Union>r \<in> set (set_emplace range_less x xs). addresses r) = addresses x \<union> (\<Union>r \<in> set xs. addresses r)"
  (is "?L = ?R")
proof
  show "?L \<subseteq> ?R"
    using ranges.set_emplace_subset [of x xs] by auto
  obtain y where "y \<in> set (set_emplace range_less x xs)" "addresses x = addresses y"
    using ranges.set_emplace_found [of x xs] range_equivalent by blast
  then show "?R \<subseteq> ?L"
    using ranges.set_emplace_keeps [of xs x] by auto
qed

lemma addresses_nonempty: "addresses r \<noteq> {}"
  by (auto simp: addresses_def is_range_def)

text \<open>Both ways to widen the coarse range: it becomes the hull with \<open>{l..<h}\<close>.\<close>

lemma multirange_inv_widen:
  assumes inv: "multirange_inv m S" and lh: "l < h" and x: "addresses x \<subseteq> {l ..< h}"
  shows "\<exists>c. make_range (min (low (coarse_range m)) l) (max (high (coarse_range m)) h) = Inr c \<and>
    multirange_inv (m\<lparr>coarse_range := c, fine_ranges := set_emplace range_less x (fine_ranges m)\<rparr>)
      (addresses x \<union> S)"
proof -
  let ?l = "min (low (coarse_range m)) l" and ?h = "max (high (coarse_range m)) h"
  let ?c = "\<lparr>low = ?l, high = ?h\<rparr>"
  have lt: "?l < ?h" "?l \<le> ?h"
    using lh by (auto simp: min_def max_def)
  then have c: "is_range ?c" "addresses ?c = {?l ..< ?h}"
    by (simp_all add: is_range_def addresses_def)
  have "S \<subseteq> {?l ..< ?h}"
  proof (cases "S = {}")
    case False
    then have "is_range (coarse_range m) \<and> S \<subseteq> addresses (coarse_range m)"
      using inv by (auto simp only: multirange_inv_def if_False)
    then have "S \<subseteq> {low (coarse_range m) ..< high (coarse_range m)}"
      by (elim conjE) (simp add: addresses_def [of "coarse_range m"])
    then show ?thesis
      by (auto simp: subset_iff min_le_iff_disj less_max_iff_disj)
  qed simp
  moreover have "addresses x \<subseteq> {?l ..< ?h}"
    using x by (auto simp: subset_iff min_le_iff_disj less_max_iff_disj)
  moreover have "sorted_wrt range_less (set_emplace range_less x (fine_ranges m))"
    using inv by (simp add: multirange_inv_def ranges.set_emplace_sorted)
  moreover have "S = (\<Union>r \<in> set (fine_ranges m). addresses r)"
    using inv by (simp add: multirange_inv_def)
  ultimately show ?thesis
    using lt c addresses_nonempty [of x] by (simp add: multirange_inv_def emplace_addresses)
qed

lemma less_inc: "(v :: u64) \<noteq> - 1 \<Longrightarrow> v < v + 1"
proof -
  assume "v \<noteq> - 1"
  then have "1 + v \<noteq> 0"
    using max_word_wrap [of v] by (simp only: add.commute) blast
  then show ?thesis
    using unatSuc [of v] by (simp add: word_less_nat_alt add.commute)
qed

lemma multirange_inv_add:
  assumes "multirange_inv m S" and "item_ok i"
  shows "\<exists>m'. add_item i m = Inr m' \<and> multirange_inv m' (item_addresses i \<union> S)"
proof (cases i)
  case (Address v)
  have "v < v + 1"
    using assms(2) Address by (simp add: less_inc)
  then show ?thesis
    using multirange_inv_widen [OF assms(1), of v "v + 1" "address_range_at v"] Address
    by (auto simp: add_item_def add_address_def add_coarse_def addresses_def address_range_at_def is_range_def)
next
  case (Range r)
  then show ?thesis
    using multirange_inv_widen [OF assms(1), of "low r" "high r" r] assms(2)
    by (auto simp: add_item_def add_range_def add_coarse_range_def addresses_def is_range_def)
qed

lemma multirange_inv_items:
  assumes "multirange_inv m S" and "list_all item_ok is"
  shows "\<exists>m'. add_items is m = Inr m' \<and> multirange_inv m' ((\<Union>i \<in> set is. item_addresses i) \<union> S)"
  using assms
proof (induction "is" arbitrary: m S)
  case (Cons i "is")
  then obtain m1 where "add_item i m = Inr m1" "multirange_inv m1 (item_addresses i \<union> S)"
    using multirange_inv_add [of m S i] by auto
  then show ?case
    using Cons.IH [of m1 "item_addresses i \<union> S"] Cons.prems(2) by (auto simp: Un_ac)
qed simp

section \<open>Properties\<close>

text \<open>
  C7. The comparison of ranges is a strict weak order, and the only ranges it cannot tell apart
  have the same addresses: a sorted set of ranges loses none.
\<close>
theorem range_order:
  "\<not> range_less a a \<and>
   (\<not> (range_less a b \<and> range_less b c \<and> \<not> range_less a c)) \<and>
   (\<not> (\<not> range_less a b \<and> \<not> range_less b c \<and> range_less a c)) \<and>
   (\<not> (\<not> range_less a b \<and> \<not> range_less b a \<and> addresses a \<noteq> addresses b))"
  using ranges.irrefl ranges.trans ranges.neg_trans range_equivalent by blast

text \<open>
  On ranges of user space \<open>overlaps\<close> is defined and true exactly when the ranges share an
  address and the first does not hold the whole second: a range does not overlap what it
  contains.
\<close>
theorem overlaps_spec:
  assumes "is_range r" and "is_range v" and "high r < 2 ^ 62" and "high v < 2 ^ 62"
  shows "overlaps r v =
    Some (addresses r \<inter> addresses v \<noteq> {} \<and> \<not> addresses v \<subseteq> addresses r)"
proof (cases "contains_range r v")
  case True
  then have "addresses v \<subseteq> addresses r"
    using assms(2) by (intro contains_range_sound) (simp_all add: is_range_def)
  then show ?thesis
    using True by (simp add: overlaps_def)
next
  case False
  then have "\<not> addresses v \<subseteq> addresses r"
    using assms(1,2) contains_range_complete by (auto simp: is_range_def)
  then show ?thesis
    using overlaps_meet [OF assms False] ranges_meet [OF assms(1,2)] by simp
qed

theorem overlaps_spec_witness:
  "overlaps \<lparr>low = 4, high = 6\<rparr> \<lparr>low = 0, high = 9\<rparr> = Some True \<and>
   overlaps \<lparr>low = 0, high = 9\<rparr> \<lparr>low = 4, high = 6\<rparr> = Some False"
  using overlaps_spec [of "\<lparr>low = 4, high = 6\<rparr>" "\<lparr>low = 0, high = 9\<rparr>"]
    overlaps_spec [of "\<lparr>low = 0, high = 9\<rparr>" "\<lparr>low = 4, high = 6\<rparr>"]
  by (simp add: is_range_def addresses_def)

text \<open>
  Joining two contiguous ranges gives exactly the addresses of both; ranges that are not
  contiguous are refused, and the join of a range with the single address behind it drops that
  address.
\<close>
theorem range_join_union:
  assumes "is_range r" and "is_range v"
  shows "(contiguous_with r v \<longrightarrow> (\<exists>j. range_join r v = Inr j \<and> is_range j \<and>
      addresses j = addresses r \<union> addresses v)) \<and>
    (\<not> contiguous_with r v \<longrightarrow> range_join r v = Inl Not_contiguous) \<and>
    range_join r (address_range_at (high r)) = Inr r \<and> high r \<notin> addresses r"
  using assms
  by (auto simp: range_join_def contiguous_with_def is_range_def addresses_def address_range_at_def
      min_def max_def)

theorem range_join_union_witness:
  "\<exists>j. range_join \<lparr>low = 4, high = 6\<rparr> \<lparr>low = 1, high = 4\<rparr> = Inr j \<and> addresses j = {1 ..< 4} \<union> {4 ..< 6}"
  using range_join_union [of "\<lparr>low = 4, high = 6\<rparr>" "\<lparr>low = 1, high = 4\<rparr>"]
  by (auto simp: is_range_def contiguous_with_def addresses_def Un_commute)

text \<open>
  A multirange built from single addresses (not the last one) and proper ranges holds an
  address exactly when one of them does: the coarse range never hides a fine one.
\<close>
theorem multirange_contains:
  assumes "list_all item_ok is"
  shows "\<exists>m. add_items is empty_multirange = Inr m \<and>
    (\<forall>v. multi_contains m v = (v \<in> (\<Union>i \<in> set is. item_addresses i)))"
  using multirange_inv_items [OF multirange_inv_empty assms] multi_contains_inv by fastforce

theorem multirange_contains_witness:
  "\<exists>m. add_items [Address 7, Range \<lparr>low = 2, high = 4\<rparr>] empty_multirange = Inr m \<and>
     multi_contains m 3 \<and> \<not> multi_contains m 5"
  using multirange_contains [of "[Address 7, Range \<lparr>low = 2, high = 4\<rparr>]"]
  by (auto simp: is_range_def addresses_def)

text \<open>
  A single address added as a range at the end of the coarse range is in the set of fine
  ranges and still not found; the last address of memory is refused by an empty multirange.
\<close>
theorem multirange_loses_end:
  assumes "is_range r"
  shows "\<exists>m. add_items [Range r, Range (address_range_at (high r))] empty_multirange = Inr m \<and>
    address_range_at (high r) \<in> set (fine_ranges m) \<and> \<not> multi_contains m (high r) \<and>
    add_item (Address (- 1)) empty_multirange = Inl (High_below_low (- 1) 0)"
proof -
  have r: "low r < high r" "low r \<le> high r"
    using assms by (auto simp: is_range_def)
  have "\<not> is_range (address_range_at (high r))"
    by (simp add: is_range_def address_range_at_def)
  then have "range_less r (address_range_at (high r))"
    using assms r by (simp add: range_less_def address_range_at_def)
  moreover have "\<not> range_less (address_range_at (high r)) r"
    using calculation by (rule ranges.asym)
  ultimately show ?thesis
    using assms r
    by (auto simp: add_item_def add_range_def add_coarse_range_def empty_multirange_def default_range_def
        address_range_at_def multi_contains_def contains_def is_range_def add_address_def add_coarse_def
        make_range_def min_def max_def word_gt_0 split: if_splits)
qed

theorem multirange_loses_end_witness:
  "\<exists>m. add_items [Range \<lparr>low = 2, high = 4\<rparr>, Range (address_range_at 4)] empty_multirange = Inr m \<and>
     \<not> multi_contains m 4"
  using multirange_loses_end [of "\<lparr>low = 2, high = 4\<rparr>"] by (auto simp: is_range_def)

text \<open>
  \<open>size()\<close> counts the end that \<open>contains\<close> leaves out: it is one more than the number of
  addresses of a range.
\<close>
theorem range_size_counts_end:
  assumes "is_range r"
  shows "unat (range_size r) = Suc (card (addresses r)) \<or> r = \<lparr>low = 0, high = - 1\<rparr>"
proof -
  have le: "low r \<le> high r" "low r < high r"
    using assms by (auto simp: is_range_def)
  have "bij_betw unat (addresses r) {unat (low r) ..< unat (high r)}"
    unfolding bij_betw_def
  proof
    show "inj_on unat (addresses r)"
      by (rule inj_onI) (simp add: word_unat_eq_iff)
    show "unat ` addresses r = {unat (low r) ..< unat (high r)}"
    proof (intro equalityI subsetI)
      fix n
      assume n: "n \<in> {unat (low r) ..< unat (high r)}"
      then have "unat (of_nat n :: u64) = n"
        using unsigned_less [of "high r", where 'a = nat] by (simp add: unat_of_nat)
      then show "n \<in> unat ` addresses r"
        using n assms by (intro image_eqI [of _ _ "of_nat n"])
          (simp_all add: addresses_def word_le_nat_alt word_less_nat_alt)
    qed (use assms in \<open>auto simp: addresses_def word_le_nat_alt word_less_nat_alt\<close>)
  qed
  then have c: "card (addresses r) = unat (high r) - unat (low r)"
    using bij_betw_same_card by fastforce
  have d: "unat (high r - low r) = unat (high r) - unat (low r)"
    using le(1) by (simp add: unat_sub word_le_nat_alt)
  have s: "range_size r = 1 + (high r - low r)"
    using le by (simp add: range_size_def)
  show ?thesis
  proof (cases "high r - low r = - 1")
    case True
    then have h: "low r = high r + 1"
      by (simp add: diff_eq_eq)
    then have "high r = - 1"
      using less_inc [of "high r"] le(2) by (auto dest: less_asym)
    then show ?thesis
      using h by (simp add: address_range.equality)
  next
    case False
    then have "1 + (high r - low r) \<noteq> 0"
      using max_word_wrap [of "high r - low r"] by (auto simp: add.commute)
    then show ?thesis
      unfolding s using c d by (simp add: unatSuc)
  qed
qed

theorem range_size_counts_end_witness:
  "unat (range_size \<lparr>low = 2, high = 4\<rparr>) = Suc (card (addresses \<lparr>low = 2, high = 4\<rparr>))"
  using range_size_counts_end [of "\<lparr>low = 2, high = 4\<rparr>"] by (simp add: is_range_def)

end
