(* ===== verification/Binary_Symbol.thy ===== *)
theory Binary_Symbol
  imports Address_Range
begin

text \<open>
  Symbols of binaries with their debug information: \<open>binary/scope_filter\<close>,
  \<open>binary/dwarf_entry.cpp\<close>, \<open>binary/symbol.cpp\<close>, \<open>binary/binary_info.hpp\<close>,
  \<open>binary/link_map.cpp\<close> and the helpers of \<open>core/utility.hpp\<close> they use.

  What the code asks of other programs is the argument \<open>ext\<close>: the regular expressions of the C++
  library (\<open>None\<close> is an expression that does not compile), the demangler, timemory's \<open>join\<close>,
  \<open>realpath\<close> and \<open>basename\<close>, and what \<open>dlopen\<close> finds. A \<open>throw\<close> is \<open>Inl\<close>.
\<close>

section \<open>What the code calls\<close>

record externals =
  regex_search :: "string \<Rightarrow> string \<Rightarrow> bool option"
  demangle :: "string \<Rightarrow> string"
  join_line :: "string \<Rightarrow> u32 \<Rightarrow> string"
  realpath :: "string \<Rightarrow> string"
  basename :: "string \<Rightarrow> string"
  exe_realpath :: string
  dlopen_names :: "string option \<Rightarrow> int \<Rightarrow> string list option"

datatype symbol_error = Invalid_filter_mode | Regex_error | Incompatible_symbols | Bad_range range_error

section \<open>Helpers on sequences\<close>

definition filter_sort_unique ::
  "('a \<Rightarrow> bool) \<Rightarrow> ('a \<Rightarrow> 'a \<Rightarrow> bool) \<Rightarrow> ('a \<Rightarrow> 'a \<Rightarrow> bool) \<Rightarrow> 'a list \<Rightarrow> 'a list" where
  "filter_sort_unique pred lt eq v = unique_by eq (sort_by lt (filter (\<lambda>x. \<not> pred x) v))"

definition combine :: "'a list \<Rightarrow> 'a list \<Rightarrow> 'a list" where
  "combine lhs rhs = foldl (\<lambda>acc itr. acc @ [itr]) lhs rhs"

section \<open>Scope filters\<close>

definition FILTER_INCLUDE :: u8 where "FILTER_INCLUDE = 0"
definition FILTER_EXCLUDE :: u8 where "FILTER_EXCLUDE = 1"
definition UNIVERSAL_FILTER :: u8 where "UNIVERSAL_FILTER = 1"
definition BINARY_FILTER :: u8 where "BINARY_FILTER = 2"
definition SOURCE_FILTER :: u8 where "SOURCE_FILTER = 4"
definition FUNCTION_FILTER :: u8 where "FUNCTION_FILTER = 8"

record scope_filter =
  sf_mode :: u8
  sf_scope :: u8
  sf_expression :: string

text \<open>The value is searched as a C string: up to its first NUL.\<close>

definition c_str :: "string \<Rightarrow> string" where
  "c_str s = takeWhile (\<lambda>c. c \<noteq> CHR 0x00) s"

definition search :: "externals \<Rightarrow> string \<Rightarrow> string \<Rightarrow> symbol_error + bool" where
  "search ext re s = (case regex_search ext re s of None \<Rightarrow> Inl Regex_error | Some b \<Rightarrow> Inr b)"

definition filter_value :: "externals \<Rightarrow> scope_filter \<Rightarrow> string \<Rightarrow> symbol_error + bool" where
  "filter_value ext f value =
     (if sf_mode f = FILTER_INCLUDE
      then (if sf_expression f = [] then Inr True else search ext (sf_expression f) (c_str value))
      else if sf_mode f = FILTER_EXCLUDE
      then (if sf_expression f = [] then Inr False
            else map_sum id Not (search ext (sf_expression f) (c_str value)))
      else Inl Invalid_filter_mode)"

fun satisfies_filter :: "externals \<Rightarrow> scope_filter list \<Rightarrow> u8 \<Rightarrow> string \<Rightarrow> symbol_error + bool" where
  "satisfies_filter ext [] scope value = Inr True"
| "satisfies_filter ext (f # fs) scope value =
     (if sf_scope f AND scope > 0
      then (case filter_value ext f value of
              Inl e \<Rightarrow> Inl e
            | Inr b \<Rightarrow> if \<not> b then Inr False else satisfies_filter ext fs scope value)
      else satisfies_filter ext fs scope value)"

section \<open>Line information\<close>

record dwarf_entry =
  begin_statement :: bool
  end_sequence :: bool
  line_block :: bool
  prologue_end :: bool
  epilogue_begin :: bool
  de_line :: u32
  de_col :: int
  vliw_op_index :: u32
  isa :: u32
  discriminator :: u32
  de_address :: address_range
  de_file :: string

definition default_dwarf_entry :: dwarf_entry where
  "default_dwarf_entry = \<lparr>begin_statement = False, end_sequence = False, line_block = False,
     prologue_end = False, epilogue_begin = False, de_line = 0, de_col = 0, vliw_op_index = 0,
     isa = 0, discriminator = 0, de_address = \<lparr>low = 0, high = 0\<rparr>, de_file = ''''\<rparr>"

definition dwarf_less :: "dwarf_entry \<Rightarrow> dwarf_entry \<Rightarrow> bool" where
  "dwarf_less a b =
     tie_less (range_less (de_address a) (de_address b)) (range_less (de_address b) (de_address a))
      (tie_lt (de_file a) (de_file b) (tie_lt (de_line a) (de_line b)
        (tie_lt (de_col a) (de_col b) (discriminator a < discriminator b))))"

definition dwarf_eq :: "dwarf_entry \<Rightarrow> dwarf_entry \<Rightarrow> bool" where
  "dwarf_eq a b \<longleftrightarrow> de_address a = de_address b \<and> de_line a = de_line b \<and> de_col a = de_col b \<and>
     discriminator a = discriminator b \<and> vliw_op_index a = vliw_op_index b \<and> isa a = isa b \<and>
     de_file a = de_file b"

definition dwarf_valid :: "dwarf_entry \<Rightarrow> bool" where
  "dwarf_valid d \<longleftrightarrow> \<not> dwarf_eq d default_dwarf_entry \<and> de_file d \<noteq> []"

text \<open>
  What libdw reports of a die: its tag, its program counters, its ranges (one call of
  \<open>dwarf_ranges\<close> each; the last call leaves both ends zero), its line table and breakpoints.
\<close>

datatype die_tag = DW_TAG_compile_unit | DW_TAG_subprogram | DW_TAG_other

record dwarf_line =
  ln_entry :: dwarf_entry
  ln_address :: u64
  ln_lineno :: int
  ln_src :: "string option"

record dwarf_die =
  die_tag :: die_tag
  die_name :: string
  die_lowpc :: u64
  die_highpc :: u64
  die_entrypc :: u64
  die_ranges :: "(u64 \<times> u64) list"
  die_lines :: "dwarf_line option list option"
  die_breakpoints :: "u64 list"

definition get_dwarf_address_ranges :: "dwarf_die \<Rightarrow> address_range list" where
  "get_dwarf_address_ranges die =
     (if die_tag die \<noteq> DW_TAG_compile_unit \<and> die_tag die \<noteq> DW_TAG_subprogram then []
      else (let lowpc = (if die_lowpc die > die_highpc die \<and> die_entrypc die < die_lowpc die
                         then die_entrypc die else die_lowpc die)
            in (if lowpc < die_highpc die then [\<lparr>low = lowpc, high = die_highpc die\<rparr>] else []) @
               map (\<lambda>(l, h). \<lparr>low = l, high = h\<rparr>) (filter (\<lambda>(l, h). l < h) (die_ranges die))))"

definition get_dwarf_breakpoints :: "dwarf_die \<Rightarrow> u64 list" where
  "get_dwarf_breakpoints die = (if die_tag die \<noteq> DW_TAG_subprogram then [] else die_breakpoints die)"

definition get_dwarf_entry :: "externals \<Rightarrow> dwarf_die \<Rightarrow> dwarf_entry list" where
  "get_dwarf_entry ext die =
     (if die_tag die \<noteq> DW_TAG_compile_unit then []
      else case die_lines die of
        None \<Rightarrow> []
      | Some lines \<Rightarrow> map (\<lambda>l. case l of
            None \<Rightarrow> default_dwarf_entry
          | Some l \<Rightarrow> (ln_entry l)
              \<lparr>de_address := address_range_at (ln_address l),
               vliw_op_index := 0,
               de_line := (if ln_lineno l > 0 then of_int (ln_lineno l) else 0),
               de_file := realpath ext (case ln_src l of None \<Rightarrow> die_name die | Some f \<Rightarrow> f)\<rparr>)
          lines)"

definition process_dwarf ::
  "externals \<Rightarrow> dwarf_die option list option \<Rightarrow>
   dwarf_entry list \<times> address_range list \<times> u64 list" where
  "process_dwarf ext units = (case units of
     None \<Rightarrow> ([], [], [])
   | Some dies \<Rightarrow>
      (let (entries, ranges, bkpts) = foldl (\<lambda>(entries, ranges, bkpts) die.
           (case die of
              None \<Rightarrow> (entries, ranges, bkpts)
            | Some die \<Rightarrow>
                if die_tag die = DW_TAG_compile_unit
                then (combine entries (get_dwarf_entry ext die),
                      combine ranges (get_dwarf_address_ranges die), bkpts)
                else if die_tag die = DW_TAG_subprogram
                then (entries, combine ranges (get_dwarf_address_ranges die),
                      combine bkpts (get_dwarf_breakpoints die))
                else (entries, ranges, bkpts))) ([], [], []) dies
       in (filter_sort_unique (\<lambda>d. \<not> dwarf_valid d) dwarf_less dwarf_eq entries,
           filter_sort_unique (\<lambda>r. \<not> is_valid r) range_less (=) ranges,
           filter_sort_unique (\<lambda>b. b = 0) (<) (=) bkpts)))"

section \<open>Symbols\<close>

record inlined_symbol =
  is_line :: u32
  is_file :: string
  is_func :: string

text \<open>The part of the symbol the base class of timemory holds.\<close>

record base_symbol =
  bs_binding :: int
  bs_visibility :: int
  bs_section :: nat
  bs_address :: u64
  bs_symsize :: u64
  bs_name :: string

record symbol = base_symbol +
  sy_line :: u32
  load_address :: u64
  address :: address_range
  func :: string
  sy_file :: string
  breakpoints :: "u64 list"
  inlines :: "inlined_symbol list"
  dwarf_info :: "dwarf_entry list"

definition make_symbol :: "base_symbol \<Rightarrow> symbol_error + symbol" where
  "make_symbol v =
     (case make_range (bs_address v) (bs_address v + bs_symsize v + 1) of
        Inl e \<Rightarrow> Inl (Bad_range e)
      | Inr r \<Rightarrow> Inr (base_symbol.extend v (symbol.fields 0 0 r (bs_name v) [] [] [] [])))"

definition symbol_eq :: "symbol \<Rightarrow> symbol \<Rightarrow> bool" where
  "symbol_eq a b \<longleftrightarrow> address a = address b \<and> bs_name a = bs_name b"

text \<open>The tie of \<open>operator<\<close> has the left operand's visibility on both sides.\<close>

definition symbol_less :: "symbol \<Rightarrow> symbol \<Rightarrow> bool" where
  "symbol_less a b =
     (if load_address a > 0 \<and> load_address b > 0 \<and> load_address a \<noteq> load_address b
      then load_address a < load_address b
      else if address a = address b \<and> bs_name a = bs_name b
      then load_address a > load_address b
      else tie_less (range_less (address a) (address b)) (range_less (address b) (address a))
             (tie_lt (bs_binding a) (bs_binding b)
               (tie_lt (bs_visibility a) (bs_visibility a) (bs_name a < bs_name b))))"

definition symbol_accepts :: "externals \<Rightarrow> symbol \<Rightarrow> scope_filter list \<Rightarrow> symbol_error + bool" where
  "symbol_accepts ext s filters =
     (case satisfies_filter ext filters FUNCTION_FILTER (demangle ext (func s)) of
        Inl e \<Rightarrow> Inl e
      | Inr False \<Rightarrow> Inr False
      | Inr True \<Rightarrow>
         (case satisfies_filter ext filters SOURCE_FILTER (sy_file s) of
            Inl e \<Rightarrow> Inl e
          | Inr True \<Rightarrow> Inr True
          | Inr False \<Rightarrow>
              satisfies_filter ext filters SOURCE_FILTER (join_line ext (sy_file s) (sy_line s))))"

definition symbol_join :: "symbol \<Rightarrow> symbol \<Rightarrow> symbol_error + symbol" where
  "symbol_join s rhs =
     (if contiguous_with (address s) (address rhs) \<and>
         (sy_line s, load_address s, func s, sy_file s) =
         (sy_line rhs, load_address rhs, func rhs, sy_file rhs)
      then (case range_join (address s) (address rhs) of
         Inl e \<Rightarrow> Inl (Bad_range e)
       | Inr r \<Rightarrow>
          (let s = s\<lparr>address := r\<rparr>;
               s = s\<lparr>inlines := combine (inlines s) (inlines rhs)\<rparr>;
               s = s\<lparr>dwarf_info := combine (dwarf_info s) (dwarf_info rhs)\<rparr>;
               s = (if bs_binding rhs < bs_binding s then s\<lparr>bs_binding := bs_binding rhs\<rparr> else s);
               s = (if bs_visibility rhs < bs_visibility s
                    then s\<lparr>bs_visibility := bs_visibility rhs\<rparr> else s);
               s = (if load_address s = 0 \<and> load_address rhs > load_address s
                    then s\<lparr>load_address := load_address rhs\<rparr> else s)
           in Inr s))
      else Inl Incompatible_symbols)"

definition symbol_valid :: "symbol \<Rightarrow> bool" where
  "symbol_valid s \<longleftrightarrow> is_valid (address s) \<and>
     (of_nat (length (sy_file s)) + of_nat (length (func s)) + ucast (sy_line s) :: u64) > 0"

definition ipaddr :: "symbol \<Rightarrow> address_range" where
  "ipaddr s = range_add (address s) (load_address s)"

text \<open>
  \<open>read_dwarf_entries\<close>: the end of a single address is the next higher low of the entries
  behind it, or the end of the symbol.
\<close>

definition next_address :: "u64 \<Rightarrow> dwarf_entry list \<Rightarrow> u64 \<Rightarrow> u64" where
  "next_address hi behind lo =
     (case find (\<lambda>d. low (de_address d) > lo) behind of
        None \<Rightarrow> hi
      | Some d \<Rightarrow> low (de_address d))"

fun widen_entries :: "u64 \<Rightarrow> dwarf_entry list \<Rightarrow> symbol_error + dwarf_entry list" where
  "widen_entries hi [] = Inr []"
| "widen_entries hi (d # ds) =
     (case (if is_range (de_address d) then Inr d
            else (case make_range (low (de_address d)) (next_address hi ds (low (de_address d))) of
                    Inl e \<Rightarrow> Inl (Bad_range e)
                  | Inr r \<Rightarrow> Inr (d\<lparr>de_address := r\<rparr>))) of
        Inl e \<Rightarrow> Inl e
      | Inr d \<Rightarrow> map_sum id ((#) d) (widen_entries hi ds))"

definition entry_less :: "dwarf_entry \<Rightarrow> dwarf_entry \<Rightarrow> bool" where
  "entry_less a b =
     tie_less (range_less (de_address a) (de_address b)) (range_less (de_address b) (de_address a))
      (tie_lt (de_file a) (de_file b) (tie_lt (de_line a) (de_line b) (de_col a < de_col b)))"

definition entry_same :: "dwarf_entry \<Rightarrow> dwarf_entry \<Rightarrow> bool" where
  "entry_same a b \<longleftrightarrow> de_address a = de_address b \<and> de_file a = de_file b \<and> de_line a = de_line b"

definition read_dwarf_entries :: "dwarf_entry list \<Rightarrow> symbol \<Rightarrow> symbol_error + nat \<times> symbol" where
  "read_dwarf_entries info s =
     (let found = dwarf_info s @ filter (\<lambda>d. contains_range (address s) (de_address d)) info;
          sorted = sort_by (\<lambda>a b. range_less (de_address a) (de_address b)) found
      in case widen_entries (high (address s)) sorted of
           Inl e \<Rightarrow> Inl e
         | Inr ds \<Rightarrow>
            (let ds = unique_by entry_same (sort_by entry_less ds)
             in Inr (length ds, s\<lparr>dwarf_info := ds\<rparr>)))"

definition read_dwarf_breakpoints :: "u64 list \<Rightarrow> symbol \<Rightarrow> nat \<times> symbol" where
  "read_dwarf_breakpoints bkpts s =
     (let bs = sort_by (<) (breakpoints s @ filter (contains (address s)) bkpts)
      in (length bs, s\<lparr>breakpoints := bs\<rparr>))"

definition clone :: "symbol \<Rightarrow> symbol_error + symbol" where
  "clone s =
     (case make_symbol (base_symbol.truncate s) of
        Inl e \<Rightarrow> Inl e
      | Inr c \<Rightarrow> Inr (c\<lparr>sy_line := sy_line s, load_address := load_address s, address := address s,
          func := func s, sy_file := sy_file s\<rparr>))"

text \<open>The source filters see the file, and then the file and the line.\<close>

definition source_accepts ::
  "externals \<Rightarrow> scope_filter list \<Rightarrow> string \<Rightarrow> u32 \<Rightarrow> symbol_error + bool" where
  "source_accepts ext filters f l =
     (case satisfies_filter ext filters SOURCE_FILTER f of
        Inl e \<Rightarrow> Inl e
      | Inr True \<Rightarrow> Inr True
      | Inr False \<Rightarrow> satisfies_filter ext filters SOURCE_FILTER (join_line ext f l))"

fun get_inline_symbols ::
  "externals \<Rightarrow> scope_filter list \<Rightarrow> symbol \<Rightarrow> inlined_symbol list \<Rightarrow> symbol_error + symbol list" where
  "get_inline_symbols ext filters s [] = Inr []"
| "get_inline_symbols ext filters s (i # is) =
     (case (case satisfies_filter ext filters FUNCTION_FILTER (demangle ext (is_func i)) of
              Inl e \<Rightarrow> Inl e
            | Inr False \<Rightarrow> Inr False
            | Inr True \<Rightarrow> source_accepts ext filters (is_file i) (is_line i)) of
        Inl e \<Rightarrow> Inl e
      | Inr False \<Rightarrow> get_inline_symbols ext filters s is
      | Inr True \<Rightarrow>
         (case clone s of
            Inl e \<Rightarrow> Inl e
          | Inr c \<Rightarrow> map_sum id
              ((#) (c\<lparr>func := is_func i, sy_line := is_line i, sy_file := is_file i\<rparr>))
              (get_inline_symbols ext filters s is)))"

fun debug_lines ::
  "externals \<Rightarrow> scope_filter list \<Rightarrow> symbol \<Rightarrow> dwarf_entry list \<Rightarrow> symbol_error + symbol list" where
  "debug_lines ext filters s [] = Inr []"
| "debug_lines ext filters s (d # ds) =
     (case source_accepts ext filters (de_file d) (de_line d) of
        Inl e \<Rightarrow> Inl e
      | Inr False \<Rightarrow> debug_lines ext filters s ds
      | Inr True \<Rightarrow>
         (case clone s of
            Inl e \<Rightarrow> Inl e
          | Inr c \<Rightarrow> map_sum id
              ((#) (c\<lparr>address := de_address d, sy_file := de_file d, sy_line := de_line d\<rparr>))
              (debug_lines ext filters s ds)))"

definition get_debug_line_info ::
  "externals \<Rightarrow> scope_filter list \<Rightarrow> symbol \<Rightarrow> symbol_error + symbol list" where
  "get_debug_line_info ext filters s =
     (case satisfies_filter ext filters FUNCTION_FILTER (demangle ext (func s)) of
        Inl e \<Rightarrow> Inl e
      | Inr False \<Rightarrow> Inr []
      | Inr True \<Rightarrow> debug_lines ext filters s (dwarf_info s))"

section \<open>Orders\<close>

definition dwarf_key :: "dwarf_entry \<Rightarrow> (u64 \<times> nat \<times> u64) \<times> string \<times> u32 \<times> int \<times> u32" where
  "dwarf_key d = (range_key (de_address d), de_file d, de_line d, de_col d, discriminator d)"

definition entry_key :: "dwarf_entry \<Rightarrow> (u64 \<times> nat \<times> u64) \<times> string \<times> u32 \<times> int" where
  "entry_key d = (range_key (de_address d), de_file d, de_line d, de_col d)"

lemma tie_less_key:
  "tie_less (range_less r v) (range_less v r) rest \<longleftrightarrow>
     range_key r < range_key v \<or> (range_key r = range_key v \<and> rest)"
  unfolding tie_less_def range_less_key
  by (cases "range_key r" "range_key v" rule: linorder_cases) auto

lemma dwarf_less_key: "dwarf_less a b \<longleftrightarrow> dwarf_key a < dwarf_key b"
  by (simp only: dwarf_less_def tie_less_key tie_lt_eq dwarf_key_def less_pair)

lemma entry_less_key: "entry_less a b \<longleftrightarrow> entry_key a < entry_key b"
  by (simp only: entry_less_def tie_less_key tie_lt_eq entry_key_def less_pair)

interpretation dwarf: weak_order dwarf_less
  unfolding dwarf_less_key [abs_def] by (rule weak_order_key)

interpretation entries: weak_order entry_less
  unfolding entry_less_key [abs_def] by (rule weak_order_key)

section \<open>Line tables\<close>

text \<open>An entry inside the symbol: it starts in it and does not end behind it.\<close>

definition inside :: "symbol \<Rightarrow> dwarf_entry \<Rightarrow> bool" where
  "inside s d \<longleftrightarrow> low (address s) \<le> low (de_address d) \<and> low (de_address d) < high (address s) \<and>
     high (de_address d) \<le> high (address s)"

lemma inside_found:
  assumes "is_range (address s)" and "low (de_address d) = high (de_address d)"
  shows "contains_range (address s) (de_address d) \<longleftrightarrow> inside s d"
  using assms by (auto simp: contains_range_def contains_def inside_def is_range_def)

lemma next_address_bounds:
  assumes "lo < hi" and "\<forall>d \<in> set ds. low (de_address d) < hi"
  shows "lo < next_address hi ds lo" and "next_address hi ds lo \<le> hi"
  using assms by (auto simp: next_address_def find_Some_iff intro: less_imp_le split: option.splits)

lemma next_address_skips:
  assumes "p < hi" and "lo \<le> p" and "\<forall>d \<in> set ds. p < low (de_address d)"
  shows "p < next_address hi ds lo"
  using assms by (auto simp: next_address_def find_Some_iff split: option.splits)

lemma widen_entries_ok:
  assumes "\<forall>d \<in> set ds. inside s d"
  shows "\<exists>ds'. widen_entries (high (address s)) ds = Inr ds' \<and>
    (\<forall>d \<in> set ds'. is_range (de_address d) \<and> addresses (de_address d) \<subseteq> addresses (address s)) \<and>
    (\<forall>p. \<not> ((\<forall>d \<in> set ds. \<not> is_range (de_address d)) \<and> p < high (address s) \<and>
        (\<exists>d \<in> set ds. low (de_address d) \<le> p)) \<or> (\<exists>d \<in> set ds'. contains (de_address d) p))"
  using assms
proof (induction ds)
  case (Cons d ds)
  let ?hi = "high (address s)" and ?lo = "low (de_address d)"
  obtain ds' where ds': "widen_entries ?hi ds = Inr ds'"
      "\<forall>d \<in> set ds'. is_range (de_address d) \<and> addresses (de_address d) \<subseteq> addresses (address s)"
      "\<And>p. (\<forall>d \<in> set ds. \<not> is_range (de_address d)) \<Longrightarrow> p < ?hi \<Longrightarrow>
        (\<exists>d \<in> set ds. low (de_address d) \<le> p) \<Longrightarrow> \<exists>d \<in> set ds'. contains (de_address d) p"
    using Cons by fastforce
  have d: "low (address s) \<le> ?lo" "?lo < ?hi" "high (de_address d) \<le> ?hi"
    using Cons.prems by (auto simp: inside_def)
  then have s: "is_range (address s)"
    by (auto simp: is_range_def)
  show ?case
  proof (cases "is_range (de_address d)")
    case True
    then have "addresses (de_address d) \<subseteq> addresses (address s)"
      using d s by (auto simp: addresses_def)
    then show ?thesis
      using True ds' by simp
  next
    case False
    let ?n = "next_address ?hi ds ?lo"
    let ?r = "\<lparr>low = ?lo, high = ?n\<rparr>"
    have n: "?lo < ?n" "?n \<le> ?hi"
      using next_address_bounds [of ?lo ?hi ds] Cons.prems d(2) by (auto simp: inside_def)
    have "is_range ?r" "addresses ?r \<subseteq> addresses (address s)"
      using n d s by (auto simp: is_range_def addresses_def)
    moreover have "widen_entries ?hi (d # ds) = Inr (d\<lparr>de_address := ?r\<rparr> # ds')"
      using False n ds'(1) by simp
    moreover have "contains ?r p" if "p < ?hi" "?lo \<le> p" "\<forall>d \<in> set ds. p < low (de_address d)" for p
      using next_address_skips [OF that] that(2) n(1) by (simp add: contains_def is_range_def)
    ultimately show ?thesis
      using ds'(2) ds'(3) by (fastforce simp: not_le)
  qed
qed simp

lemma unique_by_keeps: "x \<in> set xs \<Longrightarrow> \<exists>y \<in> set (unique_by eq xs). y = x \<or> eq y x"
proof (induction eq xs rule: unique_by.induct)
  case (2 eq y ys)
  have "set ys = set (takeWhile (eq y) ys) \<union> set (dropWhile (eq y) ys)"
    by (metis set_append takeWhile_dropWhile_id)
  then consider "x = y" | "x \<in> set (takeWhile (eq y) ys)" | "x \<in> set (dropWhile (eq y) ys)"
    using 2(2) by auto
  then show ?case
  proof cases
    case 2
    then show ?thesis
      by (auto dest: set_takeWhileD)
  next
    case 3
    then show ?thesis
      using "2.IH" by auto
  qed simp
qed simp

lemma unique_by_sorted: "sorted_wrt P xs \<Longrightarrow> sorted_wrt P (unique_by eq xs)"
proof (induction eq xs rule: unique_by.induct)
  case (2 eq y ys)
  have "sorted_wrt P (dropWhile (eq y) ys)"
    using 2(2) by (simp add: sorted_wrt_drop dropWhile_eq_drop)
  then show ?case
    using 2 set_unique_by [of eq "dropWhile (eq y) ys"] by (auto dest: set_dropWhileD)
qed simp

lemma read_dwarf_ok:
  assumes s: "is_range (address s)" "dwarf_info s = []"
    and single: "\<forall>d \<in> set info. low (de_address d) = high (de_address d)"
  shows "\<exists>n s'. read_dwarf_entries info s = Inr (n, s') \<and> n = length (dwarf_info s') \<and>
    ordered_by entry_less (dwarf_info s') \<and>
    (\<forall>d \<in> set (dwarf_info s'). is_range (de_address d) \<and> addresses (de_address d) \<subseteq> addresses (address s)) \<and>
    (\<forall>p. \<not> (p < high (address s) \<and> (\<exists>d \<in> set info. inside s d \<and> low (de_address d) \<le> p)) \<or>
      (\<exists>d \<in> set (dwarf_info s'). contains (de_address d) p))"
proof -
  let ?found = "sort_by (\<lambda>a b. range_less (de_address a) (de_address b))
    (filter (\<lambda>d. contains_range (address s) (de_address d)) info)"
  have f: "set ?found = {d \<in> set info. inside s d}"
    using inside_found [OF s(1)] single by auto
  then have nr: "\<forall>d \<in> set ?found. \<not> is_range (de_address d)"
    using single by (auto simp: is_range_def)
  have "\<forall>d \<in> set ?found. inside s d"
    using f by blast
  from widen_entries_ok [OF this] obtain ds where ds: "widen_entries (high (address s)) ?found = Inr ds"
      "\<forall>d \<in> set ds. is_range (de_address d) \<and> addresses (de_address d) \<subseteq> addresses (address s)"
      "\<And>p. p < high (address s) \<Longrightarrow> \<exists>d \<in> set ?found. low (de_address d) \<le> p \<Longrightarrow>
        \<exists>d \<in> set ds. contains (de_address d) p"
    using nr by metis
  let ?out = "unique_by entry_same (sort_by entry_less ds)"
  have "set ?out \<subseteq> set ds"
    using set_unique_by [of entry_same "sort_by entry_less ds"] by simp
  moreover have "ordered_by entry_less ?out"
    using entries.sort_by_ordered [of ds] unique_by_sorted by (auto simp: ordered_by_def)
  moreover have "\<exists>d' \<in> set ?out. contains (de_address d') p" if "d \<in> set ds" "contains (de_address d) p" for d p
    using unique_by_keeps [of d "sort_by entry_less ds" entry_same] that
    by (metis entry_same_def set_sort_by)
  moreover have "read_dwarf_entries info s = Inr (length ?out, s\<lparr>dwarf_info := ?out\<rparr>)"
    using ds(1) s(2) by (simp add: read_dwarf_entries_def Let_def)
  moreover have "\<exists>d \<in> set ds. contains (de_address d) p"
    if "p < high (address s)" "\<exists>d \<in> set info. inside s d \<and> low (de_address d) \<le> p" for p
    using ds(3) [OF that(1)] that(2) unfolding f by blast
  ultimately show ?thesis
    using ds(2) by (intro exI [of _ "length ?out"] exI [of _ "s\<lparr>dwarf_info := ?out\<rparr>"]) (simp, blast)
qed

section \<open>Filters\<close>

text \<open>What one filter says of a value when its mode is one of the two and its expression compiles.\<close>

definition filter_passes :: "externals \<Rightarrow> scope_filter \<Rightarrow> string \<Rightarrow> bool" where
  "filter_passes ext f value \<longleftrightarrow>
     (if sf_expression f = [] then sf_mode f = FILTER_INCLUDE
      else (sf_mode f = FILTER_INCLUDE) =
        (regex_search ext (sf_expression f) (c_str value) = Some True))"

definition filter_ok :: "externals \<Rightarrow> scope_filter \<Rightarrow> string \<Rightarrow> bool" where
  "filter_ok ext f value \<longleftrightarrow> (sf_mode f = FILTER_INCLUDE \<or> sf_mode f = FILTER_EXCLUDE) \<and>
     regex_search ext (sf_expression f) (c_str value) \<noteq> None"

lemma filter_value_passes: "filter_ok ext f v \<Longrightarrow> filter_value ext f v = Inr (filter_passes ext f v)"
  by (auto simp: filter_ok_def filter_value_def filter_passes_def search_def FILTER_INCLUDE_def FILTER_EXCLUDE_def)

lemma satisfies_filter_all:
  assumes "list_all (\<lambda>f. filter_ok ext f v) fs"
  shows "satisfies_filter ext fs scope v =
    Inr (list_all (\<lambda>f. filter_passes ext f v) (filter (\<lambda>f. sf_scope f AND scope > 0) fs))"
  using assms by (induction fs) (simp_all add: filter_value_passes)

section \<open>Properties\<close>

text \<open>
  Attaching a line table of single addresses to a symbol never throws; every entry becomes a
  range inside the symbol, the entries are in order, and every address of the symbol from the
  first entry on is covered by one.
\<close>
theorem read_dwarf_entries_covers:
  assumes "is_range (address s)" and "dwarf_info s = []"
    and "\<forall>d \<in> set info. low (de_address d) = high (de_address d)"
  shows "\<exists>n s'. read_dwarf_entries info s = Inr (n, s') \<and> n = length (dwarf_info s') \<and>
    ordered_by entry_less (dwarf_info s') \<and>
    (\<forall>d \<in> set (dwarf_info s'). is_range (de_address d) \<and> addresses (de_address d) \<subseteq> addresses (address s)) \<and>
    (\<forall>p. \<not> (p < high (address s) \<and> (\<exists>d \<in> set info. inside s d \<and> low (de_address d) \<le> p)) \<or>
      (\<exists>d \<in> set (dwarf_info s'). contains (de_address d) p))"
  by (rule read_dwarf_ok [OF assms])

theorem read_dwarf_entries_covers_witness:
  "\<exists>s d n s'. read_dwarf_entries [d] s = Inr (n, s') \<and> (\<exists>e \<in> set (dwarf_info s'). contains (de_address e) 7)"
proof -
  define s where "s = \<lparr>bs_binding = 0, bs_visibility = 0, bs_section = 0,
    bs_address = 2, bs_symsize = 0, bs_name = [], sy_line = 3, load_address = 0,
    address = \<lparr>low = 2, high = 9\<rparr>, func = [], sy_file = [], breakpoints = [], inlines = [],
    dwarf_info = []\<rparr>"
  define d where "d = default_dwarf_entry\<lparr>de_address := address_range_at 5\<rparr>"
  have "inside s d" "low (de_address d) \<le> 7" "(7 :: u64) < high (address s)"
    by (simp_all add: inside_def s_def d_def address_range_at_def)
  moreover have "is_range (address s)" "dwarf_info s = []" "\<forall>d \<in> set [d]. low (de_address d) = high (de_address d)"
    by (simp_all add: s_def d_def is_range_def address_range_at_def)
  ultimately have "\<exists>n s'. read_dwarf_entries [d] s = Inr (n, s') \<and>
      (\<exists>e \<in> set (dwarf_info s'). contains (de_address e) 7)"
    using read_dwarf_entries_covers [of s "[d]"] by (fastforce dest: spec [of _ 7])
  then show ?thesis
    by blast
qed

text \<open>
  The comparison of symbols is not an order: once a load address is known for some symbols
  only, three symbols can each be less than the next in a circle, and visibility never counts,
  because it is compared with itself.
\<close>
theorem symbol_less_circle:
  "(\<exists>a b c. symbol_less a b \<and> symbol_less b c \<and> symbol_less c a) \<and>
   symbol_less (s\<lparr>bs_visibility := v\<rparr>) t = symbol_less s t \<and>
   symbol_less s (t\<lparr>bs_visibility := v\<rparr>) = symbol_less s t"
proof -
  define sym where "sym = (\<lambda>l h ld. \<lparr>bs_binding = 0, bs_visibility = 0, bs_section = 0,
    bs_address = l, bs_symsize = 0, bs_name = [], sy_line = 0, load_address = ld,
    address = \<lparr>low = l, high = h\<rparr>, func = [], sy_file = [], breakpoints = [], inlines = [],
    dwarf_info = []\<rparr>)"
  have "symbol_less (sym 2 3 0) (sym 4 5 5)" "symbol_less (sym 4 5 5) (sym 0 1 7)"
    "symbol_less (sym 0 1 7) (sym 2 3 0)"
    by (simp_all add: sym_def symbol_less_def tie_less_def tie_lt_def
        range_less_def is_range_def)
  moreover have "symbol_less (s\<lparr>bs_visibility := v\<rparr>) t = symbol_less s t"
    "symbol_less s (t\<lparr>bs_visibility := v\<rparr>) = symbol_less s t"
    by (simp_all add: symbol_less_def tie_lt_def tie_less_def)
  ultimately show ?thesis
    by blast
qed

text \<open>
  Two symbols join exactly when their ranges touch and they have the same line, load address,
  function and file; the join covers both, takes the inlined calls and lines of both, and the
  lower binding and visibility.
\<close>
theorem symbol_join_spec:
  assumes "is_range (address s)" and "is_range (address r)"
  shows "case symbol_join s r of
      Inl e \<Rightarrow> e = Incompatible_symbols \<and> \<not> (contiguous_with (address s) (address r) \<and>
        (sy_line s, load_address s, func s, sy_file s) = (sy_line r, load_address r, func r, sy_file r))
    | Inr j \<Rightarrow> addresses (address j) = addresses (address s) \<union> addresses (address r) \<and>
        inlines j = inlines s @ inlines r \<and> dwarf_info j = dwarf_info s @ dwarf_info r \<and>
        bs_binding j = min (bs_binding s) (bs_binding r) \<and>
        bs_visibility j = min (bs_visibility s) (bs_visibility r) \<and>
        load_address j = load_address s"
proof -
  have c: "combine xs ys = xs @ ys" for xs ys :: "'z list"
    unfolding combine_def by (induction ys rule: rev_induct) auto
  have "addresses \<lparr>low = min (low (address s)) (low (address r)), high = max (high (address s)) (high (address r))\<rparr>
      = addresses (address s) \<union> addresses (address r)"
    if "contiguous_with (address s) (address r)"
    using assms that by (auto simp: contiguous_with_def is_range_def addresses_def min_def max_def)
  then show ?thesis
    by (auto simp: symbol_join_def range_join_def Let_def c min_def)
qed

theorem symbol_join_spec_witness:
  "\<exists>s r j. symbol_join s r = Inr j \<and>
     addresses (address j) = {2 ..< 4} \<union> {4 ..< 5} \<and> sy_line j = 3"
proof -
  define sym where "sym = (\<lambda>l h. \<lparr>bs_binding = 0, bs_visibility = 0, bs_section = 0,
    bs_address = l, bs_symsize = 0, bs_name = [], sy_line = 3, load_address = 0,
    address = \<lparr>low = l, high = h\<rparr>, func = [], sy_file = [], breakpoints = [], inlines = [],
    dwarf_info = []\<rparr>)"
  have "is_range (address (sym 2 4))" "is_range (address (sym 4 5))"
    by (simp_all add: sym_def is_range_def)
  moreover have "symbol_join (sym 2 4) (sym 4 5) = Inr (sym 2 5)"
    by (simp add: sym_def symbol_join_def range_join_def contiguous_with_def combine_def)
  ultimately have "addresses (address (sym 2 5)) = addresses (address (sym 2 4)) \<union> addresses (address (sym 4 5))"
    using symbol_join_spec [of "sym 2 4" "sym 4 5"] by (simp only: sum.case)
  moreover have "addresses (address (sym 2 4)) = {2 ..< 4}" "addresses (address (sym 4 5)) = {4 ..< 5}"
    "sy_line (sym 2 5) = 3"
    by (simp_all add: sym_def addresses_def is_range_def)
  ultimately show ?thesis
    using \<open>symbol_join (sym 2 4) (sym 4 5) = Inr (sym 2 5)\<close> by metis
qed

text \<open>
  A list of scope filters is a conjunction: a value passes when every filter whose scope bits
  meet the scope passes it; a filter of universal scope meets none of the other scopes.
\<close>
theorem scope_filters_conjunction:
  assumes "list_all (\<lambda>f. filter_ok ext f v) fs"
  shows "satisfies_filter ext fs scope v =
      Inr (list_all (\<lambda>f. filter_passes ext f v) (filter (\<lambda>f. sf_scope f AND scope > 0) fs)) \<and>
    satisfies_filter ext (filter (\<lambda>f. sf_scope f = UNIVERSAL_FILTER) fs) FUNCTION_FILTER v = Inr True"
proof -
  have "filter (\<lambda>f. sf_scope f AND FUNCTION_FILTER > 0) (filter (\<lambda>f. sf_scope f = UNIVERSAL_FILTER) fs) = []"
    by (auto simp: filter_empty_conv UNIVERSAL_FILTER_def FUNCTION_FILTER_def)
  moreover have "list_all (\<lambda>f. filter_ok ext f v) (filter (\<lambda>f. sf_scope f = UNIVERSAL_FILTER) fs)"
    using assms by (auto simp: list_all_iff)
  ultimately show ?thesis
    using assms by (simp add: satisfies_filter_all)
qed

theorem scope_filters_conjunction_witness:
  "\<exists>ext. satisfies_filter ext
     [\<lparr>sf_mode = FILTER_EXCLUDE, sf_scope = SOURCE_FILTER, sf_expression = ''x''\<rparr>] SOURCE_FILTER ''xyz'' = Inr False"
proof -
  define ext where "ext = \<lparr>regex_search = (\<lambda>re s. Some (take (length re) s = re)), demangle = id,
    join_line = (\<lambda>f l. f), realpath = id, basename = id, exe_realpath = [], dlopen_names = (\<lambda>n m. None)\<rparr>"
  let ?f = "\<lparr>sf_mode = FILTER_EXCLUDE, sf_scope = SOURCE_FILTER, sf_expression = ''x''\<rparr>"
  have "list_all (\<lambda>f. filter_ok ext f ''xyz'') [?f]" "\<not> filter_passes ext ?f ''xyz''"
    by (simp_all add: filter_ok_def filter_passes_def ext_def c_str_def FILTER_INCLUDE_def FILTER_EXCLUDE_def)
  then show ?thesis
    using scope_filters_conjunction [of ext "''xyz''" "[?f]" SOURCE_FILTER]
    by (intro exI [of _ ext]) (simp add: SOURCE_FILTER_def)
qed

end
