(* ===== verification/Binary_Info.thy ===== *)
theory Binary_Info
  imports Binary_Symbol "HOL-Library.AList"
begin

text \<open>
  Reading a binary: \<open>binary/analysis.cpp\<close>, \<open>binary/binary_info.hpp\<close>,
  \<open>symbol::read_bfd_line_info\<close> and \<open>binary/link_map.cpp\<close>.

  The object file is what BFD reports of it: \<open>bfd_view\<close>. The memory maps of the process and
  the files that exist are arguments.
\<close>

section \<open>The object file\<close>

record nearest_line =
  nl_file :: "string option"
  nl_func :: "string option"
  nl_line :: u32

record bfd_view =
  bfd_good :: bool
  bfd_name :: string
  bfd_symbols :: "base_symbol list"
  section_vma :: "nat \<Rightarrow> u64"
  section_size :: "nat \<Rightarrow> u64"
  find_nearest_line :: "nat \<Rightarrow> u64 \<Rightarrow> nearest_line option"
  inliner_info :: "nat \<Rightarrow> u64 \<Rightarrow> nearest_line list"
  dwarf_units :: "dwarf_die option list option"

text \<open>
  \<open>bfd_find_inliner_info\<close> continues from the last \<open>bfd_find_nearest_line\<close>; its answers up to
  the first failure are the list.
\<close>

fun read_inliner_info :: "externals \<Rightarrow> nearest_line list \<Rightarrow> inlined_symbol list" where
  "read_inliner_info ext [] = []"
| "read_inliner_info ext (n # ns) =
     (case (nl_file n, nl_func n) of
        (Some f, Some g) \<Rightarrow>
          if nl_line n > 0
          then \<lparr>is_line = nl_line n, is_file = realpath ext f, is_func = g\<rparr> # read_inliner_info ext ns
          else read_inliner_info ext ns
      | _ \<Rightarrow> read_inliner_info ext ns)"

definition read_bfd_line_info :: "externals \<Rightarrow> bfd_view \<Rightarrow> symbol \<Rightarrow> bool \<times> symbol" where
  "read_bfd_line_info ext bfd s =
     (let sec = bs_section s; vma = section_vma bfd sec; size = section_size bfd sec;
          pc = low (address s)
      in if pc < vma \<or> pc \<ge> vma + size then (False, s)
         else (let s = (if high (address s) > vma + size
                        then s\<lparr>address := (address s)\<lparr>high := vma + size\<rparr>\<rparr> else s)
               in case find_nearest_line bfd sec (pc - vma) of
                    None \<Rightarrow> (False, s)
                  | Some n \<Rightarrow>
                     (let s = (case nl_file n of None \<Rightarrow> s | Some f \<Rightarrow> s\<lparr>sy_file := f\<rparr>);
                          s = (case nl_func n of None \<Rightarrow> s | Some g \<Rightarrow> s\<lparr>func := g\<rparr>);
                          s = (case nl_file n of
                                 None \<Rightarrow> s\<lparr>sy_file := bfd_name bfd\<rparr>
                               | Some f \<Rightarrow> if f \<noteq> [] then s\<lparr>sy_file := f\<rparr>
                                           else s\<lparr>sy_file := bfd_name bfd\<rparr>)
                      in if func s \<noteq> []
                         then (True, s\<lparr>sy_file := realpath ext (sy_file s), sy_line := nl_line n,
                                 inlines := read_inliner_info ext (inliner_info bfd sec (pc - vma))\<rparr>)
                         else (False, s))))"

section \<open>Binaries\<close>

record mapping =
  mp_pathname :: string
  mp_load_address :: u64
  mp_last_address :: u64

record binary_info =
  bi_bfd :: "bfd_view option"
  mappings :: "mapping list"
  symbols :: "symbol list"
  debug_info :: "dwarf_entry list"
  ranges :: "address_range list"
  bi_breakpoints :: "u64 list"
  sections :: "(address_range \<times> nat) list"

datatype binary_error = Symbol_failed symbol_error | Range_failed range_error | Sections_collide

definition empty_binary_info :: binary_info where
  "empty_binary_info = \<lparr>bi_bfd = None, mappings = [], symbols = [], debug_info = [], ranges = [],
     bi_breakpoints = [], sections = []\<rparr>"

text \<open>The sort of the mappings is timemory's \<open>procfs::maps\<close>: the argument \<open>sort_maps\<close>.\<close>

definition binary_sort :: "(mapping list \<Rightarrow> mapping list) \<Rightarrow> binary_info \<Rightarrow> binary_info" where
  "binary_sort sort_maps b = b\<lparr>
     mappings := sort_maps (mappings b),
     symbols := filter_sort_unique (\<lambda>s. \<not> symbol_valid s) symbol_less symbol_eq (symbols b),
     ranges := filter_sort_unique (\<lambda>r. \<not> is_valid r) range_less (=) (ranges b),
     debug_info := filter_sort_unique (\<lambda>d. \<not> dwarf_valid d) dwarf_less dwarf_eq (debug_info b),
     bi_breakpoints := filter_sort_unique (\<lambda>p. p = 0) (<) (=) (bi_breakpoints b)\<rparr>"

definition find_section :: "binary_info \<Rightarrow> u64 \<Rightarrow> nat option" where
  "find_section b addr = map_option snd (find (\<lambda>(r, _). contains r addr) (sections b))"

definition filename :: "binary_info \<Rightarrow> string" where
  "filename b = (case bi_bfd b of None \<Rightarrow> [] | Some bfd \<Rightarrow> bfd_name bfd)"

fun collect_symbols ::
  "externals \<Rightarrow> bfd_view \<Rightarrow> bool \<Rightarrow> bool \<Rightarrow> base_symbol list \<Rightarrow> binary_info \<Rightarrow> nat list \<Rightarrow>
   binary_error + binary_info \<times> nat list" where
  "collect_symbols ext bfd with_bfd include_all [] info secs = Inr (info, secs)"
| "collect_symbols ext bfd with_bfd include_all (b # bs) info secs =
     (if \<not> include_all \<and> bs_symsize b = 0
      then collect_symbols ext bfd with_bfd include_all bs info secs
      else (case make_symbol b of
        Inl e \<Rightarrow> Inl (Symbol_failed e)
      | Inr s \<Rightarrow>
         (case make_range (bs_address b) (bs_address b + bs_symsize b) of
            Inl e \<Rightarrow> Inl (Range_failed e)
          | Inr r \<Rightarrow>
             (let s = (if with_bfd then snd (read_bfd_line_info ext bfd s) else s)
              in collect_symbols ext bfd with_bfd include_all bs
                   (info\<lparr>symbols := symbols info @ [s], ranges := ranges info @ [r]\<rparr>)
                   (set_emplace (<) (bs_section b) secs)))))"

fun collect_sections ::
  "bfd_view \<Rightarrow> nat list \<Rightarrow> (address_range \<times> nat) list \<Rightarrow>
   binary_error + (address_range \<times> nat) list" where
  "collect_sections bfd [] m = Inr m"
| "collect_sections bfd (sec # secs) m =
     (case make_range (section_vma bfd sec) (section_vma bfd sec + section_size bfd sec) of
        Inl e \<Rightarrow> Inl (Range_failed e)
      | Inr r \<Rightarrow> collect_sections bfd secs (AList.update r sec m))"

fun read_all :: "dwarf_entry list \<Rightarrow> u64 list \<Rightarrow> symbol list \<Rightarrow> binary_error + symbol list" where
  "read_all info bkpts [] = Inr []"
| "read_all info bkpts (s # ss) =
     (case read_dwarf_entries info s of
        Inl e \<Rightarrow> Inl (Symbol_failed e)
      | Inr (_, s) \<Rightarrow> map_sum id ((#) (snd (read_dwarf_breakpoints bkpts s))) (read_all info bkpts ss))"

definition parse_line_info ::
  "externals \<Rightarrow> (mapping list \<Rightarrow> mapping list) \<Rightarrow> bfd_view \<Rightarrow> bool \<Rightarrow> bool \<Rightarrow> bool \<Rightarrow>
   binary_error + binary_info" where
  "parse_line_info ext sort_maps bfd with_dwarf with_bfd include_all =
     (let info = empty_binary_info\<lparr>bi_bfd := Some bfd\<rparr>
      in if \<not> bfd_good bfd then Inr info
         else case collect_symbols ext bfd with_bfd include_all (bfd_symbols bfd) info [] of
           Inl e \<Rightarrow> Inl e
         | Inr (info, secs) \<Rightarrow>
            (case collect_sections bfd secs [] of
               Inl e \<Rightarrow> Inl e
             | Inr m \<Rightarrow>
                if \<not> (include_all \<or> length secs = length m) then Inl Sections_collide
                else (let info = info\<lparr>sections := m\<rparr>;
                          info = (if with_dwarf
                                  then (case process_dwarf ext (dwarf_units bfd) of (es, rs, bs) \<Rightarrow>
                                    info\<lparr>debug_info := es, ranges := rs, bi_breakpoints := bs\<rparr>)
                                  else info)
                      in case read_all (debug_info info) (bi_breakpoints info) (symbols info) of
                           Inl e \<Rightarrow> Inl e
                         | Inr ss \<Rightarrow> Inr (binary_sort sort_maps (info\<lparr>symbols := ss\<rparr>)))))"

section \<open>The binaries of the process\<close>

text \<open>
  The binary filters of \<open>get_binary_info\<close> ask for all bits of the scope. A symbol whose
  address, moved by a mapping's load address, lies in the mapping takes that load address.
\<close>

fun satisfies_scope :: "externals \<Rightarrow> scope_filter list \<Rightarrow> u8 \<Rightarrow> string \<Rightarrow> symbol_error + bool" where
  "satisfies_scope ext [] scope value = Inr True"
| "satisfies_scope ext (f # fs) scope value =
     (if sf_scope f AND scope = scope
      then (case filter_value ext f value of
              Inl e \<Rightarrow> Inl e
            | Inr b \<Rightarrow> if \<not> b then Inr False else satisfies_scope ext fs scope value)
      else satisfies_scope ext fs scope value)"

fun open_files ::
  "externals \<Rightarrow> (string \<Rightarrow> bool) \<Rightarrow> scope_filter list \<Rightarrow> (string \<Rightarrow> binary_error + binary_info) \<Rightarrow>
   string list \<Rightarrow> string list \<Rightarrow> binary_error + binary_info list" where
  "open_files ext file_exists filters parse seen [] = Inr []"
| "open_files ext file_exists filters parse seen (f # fs) =
     (let name = realpath ext f
      in if \<not> file_exists name then open_files ext file_exists filters parse seen fs
         else case satisfies_scope ext filters BINARY_FILTER name of
           Inl e \<Rightarrow> Inl (Symbol_failed e)
         | Inr ok \<Rightarrow>
            if ok \<and> name \<notin> set seen
            then (case parse name of
                    Inl e \<Rightarrow> Inl e
                  | Inr b \<Rightarrow> map_sum id ((#) b)
                      (open_files ext file_exists filters parse (name # seen) fs))
            else open_files ext file_exists filters parse seen fs)"

definition assign_load_address :: "mapping \<Rightarrow> address_range \<Rightarrow> symbol \<Rightarrow> symbol" where
  "assign_load_address m mrange s =
     (if contains_range mrange (range_add (address s) (mp_load_address m))
      then s\<lparr>load_address := mp_load_address m\<rparr> else s)"

fun assign_loads :: "mapping list \<Rightarrow> symbol list \<Rightarrow> binary_error + symbol list" where
  "assign_loads [] ss = Inr ss"
| "assign_loads (m # ms) ss =
     (case make_range (mp_load_address m) (mp_last_address m) of
        Inl e \<Rightarrow> Inl (Range_failed e)
      | Inr r \<Rightarrow> assign_loads ms (map (assign_load_address m r) ss))"

fun map_binaries :: "mapping list \<Rightarrow> binary_info list \<Rightarrow> binary_error + binary_info list" where
  "map_binaries maps [] = Inr []"
| "map_binaries maps (b # bs) =
     (let b = b\<lparr>mappings := mappings b @ filter (\<lambda>m. mp_pathname m = filename b) maps\<rparr>
      in case assign_loads (mappings b) (symbols b) of
           Inl e \<Rightarrow> Inl e
         | Inr ss \<Rightarrow> map_sum id ((#) (b\<lparr>symbols := ss\<rparr>)) (map_binaries maps bs))"

definition get_binary_info ::
  "externals \<Rightarrow> (mapping list \<Rightarrow> mapping list) \<Rightarrow> (string \<Rightarrow> bool) \<Rightarrow> (string \<Rightarrow> bfd_view) \<Rightarrow>
   mapping list \<Rightarrow> string list \<Rightarrow> scope_filter list \<Rightarrow> bool \<Rightarrow> bool \<Rightarrow> bool \<Rightarrow>
   binary_error + binary_info list" where
  "get_binary_info ext sort_maps file_exists open_bfd maps files filters with_dwarf with_bfd
     include_all =
     (case open_files ext file_exists filters
             (\<lambda>n. parse_line_info ext sort_maps (open_bfd n) with_dwarf with_bfd include_all)
             [] files of
        Inl e \<Rightarrow> Inl e
      | Inr data \<Rightarrow>
         (case map_binaries maps data of
            Inl e \<Rightarrow> Inl e
          | Inr data \<Rightarrow> Inr (map (binary_sort sort_maps) data)))"

section \<open>The link map\<close>

definition RTLD_LAZY :: int where "RTLD_LAZY = 1"
definition RTLD_NOLOAD :: int where "RTLD_NOLOAD = 4"
definition RTLD_LOCAL :: int where "RTLD_LOCAL = 0"

definition default_link_open_modes :: "int list" where
  "default_link_open_modes = [RTLD_LAZY OR RTLD_NOLOAD, RTLD_LAZY OR RTLD_LOCAL]"

text \<open>The first mode that opens the library gives the names of its link map.\<close>

fun open_chain :: "externals \<Rightarrow> string option \<Rightarrow> int list \<Rightarrow> string list option" where
  "open_chain ext name [] = None"
| "open_chain ext name (mode # modes) =
     (case dlopen_names ext name mode of
        None \<Rightarrow> open_chain ext name modes
      | Some names \<Rightarrow> Some names)"

definition get_linked_path :: "externals \<Rightarrow> string option \<Rightarrow> int list \<Rightarrow> string option" where
  "get_linked_path ext name modes =
     (case name of
        None \<Rightarrow> Some (exe_realpath ext)
      | Some _ \<Rightarrow>
         (case open_chain ext name (if modes = [] then default_link_open_modes else modes) of
            Some (n # _) \<Rightarrow> if n \<noteq> [] then Some (realpath ext n) else None
          | _ \<Rightarrow> None))"

definition get_chain :: "externals \<Rightarrow> int list \<Rightarrow> string option \<Rightarrow> string list" where
  "get_chain ext modes name =
     (case open_chain ext name modes of
        None \<Rightarrow> []
      | Some names \<Rightarrow>
          foldl (\<lambda>chain (i, n).
            if name = None \<and> i = 0 \<and> n = [] then set_emplace (<) (exe_realpath ext) chain
            else if n \<noteq> [] then set_emplace (<) n chain else chain) []
            (zip [0 ..< length names] names))"

definition link_less :: "externals \<Rightarrow> string \<Rightarrow> string \<Rightarrow> bool" where
  "link_less ext a b =
     (if a = b then False
      else if basename ext a = basename ext b \<or> realpath ext a = realpath ext b then False
      else realpath ext a < realpath ext b)"

fun select_links ::
  "externals \<Rightarrow> string \<Rightarrow> string list \<Rightarrow> string list \<Rightarrow> string list \<Rightarrow> symbol_error + string list" where
  "select_links ext exclude_re excl fini [] = Inr fini"
| "select_links ext exclude_re excl fini (n # ns) =
     (if n \<in> set excl then select_links ext exclude_re excl fini ns
      else if exclude_re = [] then
        select_links ext exclude_re excl (set_emplace (link_less ext) n fini) ns
      else case search ext exclude_re n of
          Inl e \<Rightarrow> Inl e
        | Inr False \<Rightarrow> select_links ext exclude_re excl (set_emplace (link_less ext) n fini) ns
        | Inr True \<Rightarrow> select_links ext exclude_re (set_emplace (<) n excl) fini ns)"

definition get_link_map ::
  "externals \<Rightarrow> string option \<Rightarrow> string \<Rightarrow> string \<Rightarrow> int list \<Rightarrow> symbol_error + string list" where
  "get_link_map ext lib exclude_linked_by exclude_re modes =
     (let modes = (if modes = [] then default_link_open_modes else modes);
          full = get_chain ext modes lib;
          excl = (if exclude_linked_by = [] then [] else get_chain ext modes (Some exclude_linked_by))
      in select_links ext exclude_re excl [] full)"

section \<open>Properties\<close>

text \<open>
  The comparison of link files is not an order: of three libraries two of which have the same
  base name, the first is below the second and the second below the third, and the first and the
  third are equivalent; a set that holds the first does not take the third.
\<close>
theorem link_less_not_order:
  assumes "basename ext a = basename ext c" and "basename ext a \<noteq> basename ext b"
    and "realpath ext a < realpath ext b" and "realpath ext b < realpath ext c"
  shows "link_less ext a b \<and> link_less ext b c \<and> \<not> link_less ext a c \<and> \<not> link_less ext c a \<and>
    set_emplace (link_less ext) c [a] = [a]"
  using assms by (auto simp: link_less_def)

theorem link_less_not_order_witness:
  "\<exists>ext. link_less ext ''a1'' ''b2'' \<and> link_less ext ''b2'' ''c1'' \<and> \<not> link_less ext ''a1'' ''c1''"
proof -
  define ext where "ext = \<lparr>regex_search = (\<lambda>re s. None), demangle = id,
    join_line = (\<lambda>f l. f), realpath = id, basename = drop 1, exe_realpath = [], dlopen_names = (\<lambda>n m. None)\<rparr>"
  have "basename ext ''a1'' = basename ext ''c1''" "basename ext ''a1'' \<noteq> basename ext ''b2''"
    "realpath ext ''a1'' < realpath ext ''b2''" "realpath ext ''b2'' < realpath ext ''c1''"
    by (simp_all add: ext_def less_char_def)
  from link_less_not_order [OF this] show ?thesis
    by blast
qed

end
