(* ===== verification/Text_Paths.thy ===== *)
theory Text_Paths
  imports Ordered_Set
begin

text \<open>
  Strings and search paths: \<open>common/join.hpp\<close>, \<open>common/delimit.hpp\<close> and the search
  functions of \<open>common/path.hpp\<close>.

  A position that may be \<open>npos\<close> is an option. Which paths exist, and the environment, are
  arguments.
\<close>

section \<open>Finding\<close>

fun find_from :: "('a \<Rightarrow> bool) \<Rightarrow> nat \<Rightarrow> 'a list \<Rightarrow> nat option" where
  "find_from P i [] = None"
| "find_from P i (x # xs) = (if P x then Some i else find_from P (Suc i) xs)"

definition find_first_of :: "string \<Rightarrow> string \<Rightarrow> nat \<Rightarrow> nat option" where
  "find_first_of line ds pos = find_from (\<lambda>c. c \<in> set ds) pos (drop pos line)"

definition find_first_not_of :: "string \<Rightarrow> string \<Rightarrow> nat \<Rightarrow> nat option" where
  "find_first_not_of line ds pos = find_from (\<lambda>c. c \<notin> set ds) pos (drop pos line)"

text \<open>\<open>std::string::find\<close>: the first position at which the pattern starts.\<close>

fun find_string_from :: "nat \<Rightarrow> string \<Rightarrow> string \<Rightarrow> nat option" where
  "find_string_from i pat [] = (if pat = [] then Some i else None)"
| "find_string_from i pat (c # cs) =
     (if take (length pat) (c # cs) = pat then Some i else find_string_from (Suc i) pat cs)"

definition find_string :: "string \<Rightarrow> string \<Rightarrow> nat option" where
  "find_string s pat = find_string_from 0 pat s"

definition substr :: "nat \<Rightarrow> nat \<Rightarrow> 'a list \<Rightarrow> 'a list" where
  "substr pos n s = take n (drop pos s)"

section \<open>Join\<close>

text \<open>
  Every argument is streamed behind the delimiter, then the first delimiter is cut off; a
  result no longer than the delimiter is empty.
\<close>

definition join :: "string \<Rightarrow> string list \<Rightarrow> string" where
  "join delim args =
     (let ret = concat (map (\<lambda>a. delim @ a) args)
      in if length ret > length delim then drop (length delim) ret else [])"

definition as_quoted :: "string option \<Rightarrow> string" where
  "as_quoted v = (case v of None \<Rightarrow> ''\"\"'' | Some s \<Rightarrow> ''\"'' @ s @ ''\"'')"

definition join_quoted :: "string \<Rightarrow> string option list \<Rightarrow> string" where
  "join_quoted delim args = join delim (map as_quoted args)"

definition join_array :: "string \<times> string \<times> string \<Rightarrow> string list \<Rightarrow> string" where
  "join_array d args = join '''' [fst d, join (fst (snd d)) args, snd (snd d)]"

section \<open>Delimit\<close>

function delimit_loop :: "string \<Rightarrow> string \<Rightarrow> nat \<Rightarrow> nat \<Rightarrow> string list \<Rightarrow> string list" where
  "delimit_loop line ds beginp delimp result =
     (if beginp < length line \<and> delimp < length line
      then (case find_first_not_of line ds delimp of
              None \<Rightarrow> result
            | Some b \<Rightarrow>
               (case find_first_of line ds b of
                  None \<Rightarrow> (let tmp = drop b line in if tmp \<noteq> [] then result @ [tmp] else result)
                | Some d \<Rightarrow> (let tmp = substr b (d - b) line
                     in delimit_loop line ds b d (if tmp \<noteq> [] then result @ [tmp] else result))))
      else result)"
  by pat_completeness auto

lemma find_from_Some:
  "find_from P i xs = Some k \<Longrightarrow> i \<le> k \<and> k - i < length xs \<and> P (xs ! (k - i)) \<and>
     takeWhile (\<lambda>x. \<not> P x) xs = take (k - i) xs \<and> dropWhile (\<lambda>x. \<not> P x) xs = drop (k - i) xs"
proof (induction xs arbitrary: i)
  case (Cons x xs)
  show ?case
  proof (cases "P x")
    case False
    then have IH: "Suc i \<le> k \<and> k - Suc i < length xs \<and> P (xs ! (k - Suc i)) \<and>
        takeWhile (\<lambda>x. \<not> P x) xs = take (k - Suc i) xs \<and>
        dropWhile (\<lambda>x. \<not> P x) xs = drop (k - Suc i) xs"
      using Cons by simp
    then obtain j where "k - i = Suc j" "k - Suc i = j"
      by (metis Suc_diff_Suc Suc_le_lessD)
    then show ?thesis
      using IH False by simp
  qed (use Cons in simp)
qed simp

lemma find_from_None: "find_from P i xs = None \<longleftrightarrow> (\<forall>x \<in> set xs. \<not> P x)"
  by (induction xs arbitrary: i) auto

lemma find_not_of:
  "find_first_not_of line ds pos = Some b \<Longrightarrow>
     pos \<le> b \<and> b < length line \<and> line ! b \<notin> set ds \<and> drop b line = dropWhile (\<lambda>c. c \<in> set ds) (drop pos line)"
  unfolding find_first_not_of_def by (drule find_from_Some) (auto simp: less_diff_conv2)

lemma find_of:
  "find_first_of line ds pos = Some d \<Longrightarrow>
     pos \<le> d \<and> d < length line \<and> line ! d \<in> set ds \<and> drop d line = dropWhile (\<lambda>c. c \<notin> set ds) (drop pos line) \<and>
     substr pos (d - pos) line = takeWhile (\<lambda>c. c \<notin> set ds) (drop pos line)"
  unfolding find_first_of_def substr_def by (drule find_from_Some) (auto simp: less_diff_conv2)

termination delimit_loop
proof (relation "measure (\<lambda>(line, ds, b, d, r). length line - d)")
  fix line ds beginp delimp result b d x
  assume b: "find_first_not_of line ds delimp = Some b" and d: "find_first_of line ds b = Some d"
  have "b \<noteq> d"
    using find_not_of [OF b] find_of [OF d] by auto
  then have "delimp < d" "d < length line"
    using find_not_of [OF b] find_of [OF d] by auto
  then show "((line, ds, b, d, x), (line, ds, beginp, delimp, result)) \<in> measure (\<lambda>(line, ds, b, d, r). length line - d)"
    by simp
qed simp

declare delimit_loop.simps [simp del]

definition delimit :: "string \<Rightarrow> string \<Rightarrow> string list" where
  "delimit line ds = delimit_loop line ds 0 0 []"

text \<open>The reference: the maximal runs without a delimiter.\<close>

function tokens :: "('a \<Rightarrow> bool) \<Rightarrow> 'a list \<Rightarrow> 'a list list" where
  "tokens P s = (case dropWhile P s of
     [] \<Rightarrow> []
   | c # cs \<Rightarrow> takeWhile (\<lambda>c. \<not> P c) (c # cs) # tokens P (dropWhile (\<lambda>c. \<not> P c) (c # cs)))"
  by pat_completeness auto

lemma dropWhile_Cons_hd: "dropWhile P s = c # cs \<Longrightarrow> \<not> P c"
  by (metis hd_dropWhile list.distinct(1) list.sel(1))

termination tokens
proof (relation "measure (length \<circ> snd)")
  fix P :: "'a \<Rightarrow> bool" and s c cs
  assume *: "dropWhile P s = c # cs"
  have "length (dropWhile (\<lambda>c. \<not> P c) (c # cs)) \<le> length cs"
    using dropWhile_Cons_hd [OF *] by (simp add: length_dropWhile_le)
  also have "\<dots> < length s"
    using length_dropWhile_le [of P s] * by simp
  finally show "((P, dropWhile (\<lambda>c. \<not> P c) (c # cs)), (P, s)) \<in> measure (length \<circ> snd)"
    by simp
qed simp

declare tokens.simps [simp del]

lemma tokens_Nil: "dropWhile P s = [] \<Longrightarrow> tokens P s = []"
  by (subst tokens.simps) (simp only: list.case)

lemma tokens_Cons:
  "dropWhile P s = c # cs \<Longrightarrow>
    tokens P s = takeWhile (\<lambda>c. \<not> P c) (c # cs) # tokens P (dropWhile (\<lambda>c. \<not> P c) (c # cs))"
  by (subst tokens.simps) (simp only: list.case)

lemma tokens_all: "(\<forall>c \<in> set s. P c) \<Longrightarrow> tokens P s = []"
  by (rule tokens_Nil) simp

lemma delimit_loop_tokens:
  assumes "line = [] \<or> beginp < length line"
  shows "delimit_loop line ds beginp delimp result =
    result @ (if delimp < length line then tokens (\<lambda>c. c \<in> set ds) (drop delimp line) else [])"
  using assms
proof (induction line ds beginp delimp result rule: delimit_loop.induct)
  case (1 line ds beginp delimp result)
  let ?P = "\<lambda>c. c \<in> set ds"
  show ?case
  proof (cases "line \<noteq> [] \<and> delimp < length line")
    case True
    then have g: "beginp < length line \<and> delimp < length line"
      using 1(2) by auto
    show ?thesis
    proof (cases "find_first_not_of line ds delimp")
      case None
      then have "tokens ?P (drop delimp line) = []"
        by (intro tokens_all) (simp add: find_first_not_of_def find_from_None)
      then show ?thesis
        using g None by (subst delimit_loop.simps) simp
    next
      case (Some b)
      note b = find_not_of [OF Some]
      then have bl: "b < length line"
        by blast
      then have ne: "drop b line \<noteq> []" "drop b line = line ! b # drop (Suc b) line"
        by (simp_all add: Cons_nth_drop_Suc)
      have tok: "tokens ?P (drop delimp line) =
          takeWhile (\<lambda>c. \<not> ?P c) (drop b line) # tokens ?P (dropWhile (\<lambda>c. \<not> ?P c) (drop b line))"
        using tokens_Cons [of ?P "drop delimp line"] b ne by metis
      show ?thesis
      proof (cases "find_first_of line ds b")
        case None
        then have all: "\<forall>c \<in> set (drop b line). c \<notin> set ds"
          by (simp add: find_first_of_def find_from_None)
        then have "takeWhile (\<lambda>c. \<not> ?P c) (drop b line) = drop b line"
          "dropWhile (\<lambda>c. \<not> ?P c) (drop b line) = []"
          by (simp_all add: takeWhile_eq_all_conv dropWhile_eq_Nil_conv)
        then show ?thesis
          using g Some None ne tok tokens_all [of "[]" ?P] by (subst delimit_loop.simps) simp
      next
        case (Some d)
        note d = find_of [OF Some]
        have "line ! b \<notin> set ds"
          using b by blast
        then have "takeWhile (\<lambda>c. c \<notin> set ds) (drop b line) \<noteq> []"
          by (subst ne(2)) simp
        then have "delimit_loop line ds beginp delimp result =
            delimit_loop line ds b d (result @ [substr b (d - b) line])"
          using g Some \<open>find_first_not_of line ds delimp = Some b\<close> d by (subst delimit_loop.simps) simp
        also have "\<dots> = (result @ [substr b (d - b) line]) @ tokens ?P (drop d line)"
          using 1(1) [OF g \<open>find_first_not_of line ds delimp = Some b\<close> Some refl] d b
            \<open>takeWhile (\<lambda>c. c \<notin> set ds) (drop b line) \<noteq> []\<close> by simp
        finally show ?thesis
          using tok d g by simp
      qed
    qed
  next
    case False
    then show ?thesis
      by (subst delimit_loop.simps) auto
  qed
qed

lemma delimit_tokens_eq: "delimit line ds = tokens (\<lambda>c. c \<in> set ds) line"
  using delimit_loop_tokens [of line 0 ds 0 "[]"] tokens_all [of "[]" "\<lambda>c. c \<in> set ds"]
  by (cases "line = []") (auto simp: delimit_def)

lemma tokens_parts:
  "list_all (\<lambda>t. t \<noteq> [] \<and> list_all (\<lambda>c. \<not> P c) t) (tokens P s) \<and>
   concat (tokens P s) = filter (\<lambda>c. \<not> P c) s"
proof (induction P s rule: tokens.induct)
  case (1 P s)
  have f: "filter (\<lambda>c. \<not> P c) (dropWhile P s) = filter (\<lambda>c. \<not> P c) s" for s
    by (induction s) auto
  show ?case
  proof (cases "dropWhile P s")
    case Nil
    then show ?thesis
      using f [of s] tokens_Nil [OF Nil] by simp
  next
    case (Cons c cs)
    have "list_all (\<lambda>c. \<not> P c) (takeWhile (\<lambda>c. \<not> P c) (c # cs))"
      unfolding list_all_iff by (auto dest: set_takeWhileD)
    moreover have "filter (\<lambda>c. \<not> P c) (takeWhile (\<lambda>c. \<not> P c) (c # cs)) = takeWhile (\<lambda>c. \<not> P c) (c # cs)"
      by (rule filter_True) (auto dest: set_takeWhileD split: if_splits)
    then have "takeWhile (\<lambda>c. \<not> P c) (c # cs) @ filter (\<lambda>c. \<not> P c) (dropWhile (\<lambda>c. \<not> P c) (c # cs)) =
        filter (\<lambda>c. \<not> P c) (c # cs)"
      by (metis filter_append takeWhile_dropWhile_id)
    ultimately show ?thesis
      using 1 [OF Cons] dropWhile_Cons_hd [OF Cons] f [of s] Cons tokens_Cons [OF Cons] by simp
  qed
qed

section \<open>Search paths\<close>

definition rfind_char :: "char \<Rightarrow> string \<Rightarrow> nat option" where
  "rfind_char c s = (case find_from (\<lambda>x. x = c) 0 (rev s) of
     None \<Rightarrow> None | Some i \<Rightarrow> Some (length s - 1 - i))"

definition dirname :: "string \<Rightarrow> string" where
  "dirname fname = (case rfind_char (CHR ''/'') fname of None \<Rightarrow> [] | Some i \<Rightarrow> substr 0 i fname)"

text \<open>POSIX \<open>basename\<close> as glibc's \<open><string.h>\<close> has it: what follows the last slash.\<close>

definition gnu_basename :: "string \<Rightarrow> string" where
  "gnu_basename s = (case rfind_char (CHR ''/'') s of None \<Rightarrow> s | Some i \<Rightarrow> drop (Suc i) s)"

type_synonym environment = "string \<Rightarrow> string option"

definition get_default_lib_search_paths :: "(string \<Rightarrow> string \<Rightarrow> string) \<Rightarrow> string" where
  "get_default_lib_search_paths getenv =
     join '':'' [getenv ''ROCPROFSYS_PATH'' [], getenv ''LD_LIBRARY_PATH'' [],
       getenv ''LIBRARY_PATH'' [], getenv ''PWD'' [], ''.'']"

fun search_paths :: "(string \<Rightarrow> bool) \<Rightarrow> string list \<Rightarrow> string option" where
  "search_paths exists [] = None"
| "search_paths exists (f # fs) = (if exists f then Some f else search_paths exists fs)"

definition lib_candidates :: "string \<Rightarrow> string \<Rightarrow> string list" where
  "lib_candidates path itr =
     (if find_string (gnu_basename itr) ''lib'' = None \<and> dirname itr \<noteq> []
      then map (\<lambda>sitr. join ''/'' [dirname itr, sitr, path]) [''lib'', ''lib64'', ''../lib'', ''../lib64'']
      else [])"

definition find_path ::
  "(string \<Rightarrow> bool) \<Rightarrow> (string \<Rightarrow> string \<Rightarrow> string) \<Rightarrow> string \<Rightarrow> string \<Rightarrow> string" where
  "find_path exists getenv path search =
     (if exists path \<and> path \<noteq> [] \<and> path ! 0 = CHR ''/'' then path
      else (let paths = delimit search '':'';
                paths = (if paths = [] then delimit (get_default_lib_search_paths getenv) '':'' else paths)
            in case search_paths exists (map (\<lambda>itr. join ''/'' [itr, path]) paths) of
                 Some f \<Rightarrow> f
               | None \<Rightarrow>
                  (case search_paths exists (concat (map (lib_candidates path) paths)) of
                     Some f \<Rightarrow> f
                   | None \<Rightarrow> path)))"

text \<open>
  \<open>is_text_file\<close> reads the file in chunks and rejects a NUL byte; a file that does not open is
  no text file.
\<close>

definition chunk_size :: nat where "chunk_size = 1024"

function scan_chunks :: "bytes \<Rightarrow> bool" where
  "scan_chunks data =
     (if chunk_size \<le> length data
      then (if 0 \<in> set (take chunk_size data) then False else scan_chunks (drop chunk_size data))
      else 0 \<notin> set data)"
  by pat_completeness auto
termination
  by (relation "measure length") (auto simp: chunk_size_def)

declare scan_chunks.simps [simp del]

definition is_text_file :: "bytes option \<Rightarrow> bool" where
  "is_text_file file = (case file of None \<Rightarrow> False | Some data \<Rightarrow> scan_chunks data)"

lemma scan_chunks_eq: "scan_chunks data \<longleftrightarrow> 0 \<notin> set data"
proof (induction data rule: scan_chunks.induct)
  case (1 data)
  have mem: "0 \<in> set data \<longleftrightarrow> 0 \<in> set (take chunk_size data) \<or> 0 \<in> set (drop chunk_size data)"
    by (metis Un_iff append_take_drop_id set_append)
  show ?case
  proof (cases "chunk_size \<le> length data \<and> 0 \<notin> set (take chunk_size data)")
    case True
    then have "scan_chunks (drop chunk_size data) \<longleftrightarrow> 0 \<notin> set (drop chunk_size data)"
      using "1.IH" by blast
    moreover have "scan_chunks data = scan_chunks (drop chunk_size data)"
      using True by (subst scan_chunks.simps) (simp only: if_True if_False)
    ultimately show ?thesis
      using True mem by blast
  next
    case False
    have "scan_chunks data = (if chunk_size \<le> length data
        then (if 0 \<in> set (take chunk_size data) then False else scan_chunks (drop chunk_size data))
        else 0 \<notin> set data)"
      by (rule scan_chunks.simps)
    then show ?thesis
      using False mem by argo
  qed
qed

lemma search_paths_Some:
  "search_paths exists fs = Some f \<Longrightarrow> exists f \<and> f \<in> set fs"
  by (induction fs) (auto split: if_splits)

section \<open>Properties\<close>

text \<open>
  \<open>delimit\<close> terminates and gives the maximal runs of characters that are no delimiter, in
  order: no token is empty or holds a delimiter, and together they are the string without its
  delimiters.
\<close>
theorem delimit_maximal_runs:
  "delimit line ds = tokens (\<lambda>c. c \<in> set ds) line \<and>
   list_all (\<lambda>t. t \<noteq> [] \<and> list_all (\<lambda>c. c \<notin> set ds) t) (delimit line ds) \<and>
   concat (delimit line ds) = filter (\<lambda>c. c \<notin> set ds) line"
  using tokens_parts [of "\<lambda>c. c \<in> set ds" line] by (simp add: delimit_tokens_eq)

text \<open>
  \<open>find_path\<close> returns a path that exists, or the path it was given; an absolute path that
  exists is returned as it is.
\<close>
theorem find_path_exists:
  "(exists (find_path exists getenv path search) \<or> find_path exists getenv path search = path) \<and>
   (exists (CHR ''/'' # p) = False \<or> find_path exists getenv (CHR ''/'' # p) search = CHR ''/'' # p)"
proof -
  have "exists f" if "search_paths exists fs = Some f" for fs f
    using search_paths_Some [OF that] by blast
  then have "exists (find_path exists getenv path search) \<or> find_path exists getenv path search = path"
    unfolding find_path_def Let_def by (simp split: option.split)
  then show ?thesis
    by (simp add: find_path_def)
qed

end
