(* ===== verification/Numeric_Range.thy ===== *)
theory Numeric_Range
  imports Text_Paths
begin

text \<open>
  Numeric ranges of settings, \<open>N\<close>, \<open>N-M\<close> and \<open>N-M:I\<close>: \<open>core/utility.cpp\<close>,
  \<open>parse_numeric_range\<close> for \<open>int64_t\<close>.

  timemory's \<open>delimit\<close> is an argument. The loop that fills a range need not end: it is a
  \<open>partial_function\<close>, and not returning is \<open>None\<close>; a \<open>throw\<close>, or a signed overflow, is
  \<open>Some (Inl e)\<close>.
\<close>

datatype range_failure = Range_format | Invalid_argument | Out_of_range | Signed_overflow

section \<open>Numbers\<close>

definition INT64_MAX :: int where "INT64_MAX = 2 ^ 63 - 1"
definition INT64_MIN :: int where "INT64_MIN = - (2 ^ 63)"

definition is_digit :: "char \<Rightarrow> bool" where
  "is_digit c \<longleftrightarrow> c \<in> set ''0123456789''"

definition digit_value :: "char \<Rightarrow> int" where
  "digit_value c = of_char c - of_char (CHR ''0'')"

definition digits_value :: "string \<Rightarrow> int" where
  "digits_value ds = foldl (\<lambda>n c. 10 * n + digit_value c) 0 ds"

text \<open>
  \<open>std::stoll\<close> and \<open>std::stoull\<close> on the strings of this function (digits, dashes, colons): an
  optional sign, then the digits that follow; what is behind them is ignored.
\<close>

definition sign_digits :: "string \<Rightarrow> bool \<times> string" where
  "sign_digits s = (case s of
     c # cs \<Rightarrow> if c = CHR ''-'' then (True, takeWhile is_digit cs) else (False, takeWhile is_digit s)
   | [] \<Rightarrow> (False, []))"

definition stoll :: "string \<Rightarrow> range_failure + int" where
  "stoll s = (let (neg, ds) = sign_digits s; v = (if neg then - digits_value ds else digits_value ds)
     in if ds = [] then Inl Invalid_argument
        else if v < INT64_MIN \<or> INT64_MAX < v then Inl Out_of_range else Inr v)"

definition stoull :: "string \<Rightarrow> range_failure + int" where
  "stoull s = (let (neg, ds) = sign_digits s; v = digits_value ds
     in if ds = [] then Inl Invalid_argument
        else if 2 ^ 64 \<le> v then Inl Out_of_range
        else Inr (if neg then (- v) mod 2 ^ 64 else v))"

definition to_int64 :: "int \<Rightarrow> int" where
  "to_int64 v = (v + 2 ^ 63) mod 2 ^ 64 - 2 ^ 63"

text \<open>\<open>iss >> var\<close> of a string of digits: the value, or the largest one when it does not fit.\<close>

definition get_value :: "string \<Rightarrow> int" where
  "get_value s = min (digits_value (takeWhile is_digit s)) INT64_MAX"

section \<open>Containers\<close>

definition emplace_vector :: "int \<Rightarrow> int list \<Rightarrow> int list" where
  "emplace_vector v c = c @ [v]"

definition emplace_set :: "int \<Rightarrow> int list \<Rightarrow> int list" where
  "emplace_set v c = set_emplace (<) v c"

section \<open>Ranges\<close>

partial_function (option) range_loop ::
  "(int \<Rightarrow> 'c \<Rightarrow> 'c) \<Rightarrow> int \<Rightarrow> int \<Rightarrow> int \<Rightarrow> 'c \<Rightarrow> (range_failure + 'c) option" where
  "range_loop emplace incr vn vN result =
     (if vn + incr < INT64_MIN \<or> INT64_MAX < vn + incr then Some (Inl Signed_overflow)
      else if vn + incr \<le> vN then range_loop emplace incr (vn + incr) vN (emplace vn result)
      else Some (Inr (emplace vn result)))"

definition parse_range ::
  "(string \<Rightarrow> string \<Rightarrow> string list) \<Rightarrow> (int \<Rightarrow> 'c \<Rightarrow> 'c) \<Rightarrow> int \<Rightarrow> string \<Rightarrow> 'c \<Rightarrow> (range_failure + 'c) option" where
  "parse_range tim_delimit emplace incr v result =
     (if CHR ''-'' \<in> set v
      then (let vv = tim_delimit v ''-''
            in if length vv \<noteq> 2 then Some (Inl Range_format)
               else range_loop emplace incr (get_value (vv ! 0)) (get_value (vv ! 1)) result)
      else (case stoll v of Inl e \<Rightarrow> Some (Inl e) | Inr n \<Rightarrow> Some (Inr (emplace n result))))"

definition parse_token ::
  "(string \<Rightarrow> string \<Rightarrow> string list) \<Rightarrow> (int \<Rightarrow> 'c \<Rightarrow> 'c) \<Rightarrow> int \<Rightarrow> string \<Rightarrow> 'c \<Rightarrow> (range_failure + 'c) option" where
  "parse_token tim_delimit emplace incr v result =
     (if find_first_not_of v ''0123456789-:'' 0 \<noteq> None then Some (Inr result)
      else (case find_first_of v '':'' 0 of
          None \<Rightarrow> parse_range tim_delimit emplace incr v result
        | Some p \<Rightarrow>
           (let incr_str = drop (p + 1) v
            in if incr_str = [] then parse_range tim_delimit emplace incr (take p v) result
               else case stoull incr_str of
                   Inl e \<Rightarrow> Some (Inl e)
                 | Inr i \<Rightarrow> parse_range tim_delimit emplace (to_int64 i) (take p v) result)))"

fun parse_tokens ::
  "(string \<Rightarrow> string \<Rightarrow> string list) \<Rightarrow> (int \<Rightarrow> 'c \<Rightarrow> 'c) \<Rightarrow> int \<Rightarrow> string list \<Rightarrow> 'c \<Rightarrow> (range_failure + 'c) option" where
  "parse_tokens tim_delimit emplace incr [] result = Some (Inr result)"
| "parse_tokens tim_delimit emplace incr (v # vs) result =
     (case parse_token tim_delimit emplace incr v result of
        Some (Inr r) \<Rightarrow> parse_tokens tim_delimit emplace incr vs r
      | r \<Rightarrow> r)"

definition to_lower :: "char \<Rightarrow> char" where
  "to_lower c = (if 65 \<le> (of_char c :: nat) \<and> (of_char c :: nat) \<le> 90 then char_of ((of_char c :: nat) + 32) else c)"

definition parse_numeric_range ::
  "(string \<Rightarrow> string \<Rightarrow> string list) \<Rightarrow> (int \<Rightarrow> 'c \<Rightarrow> 'c) \<Rightarrow> 'c \<Rightarrow> int \<Rightarrow> string \<Rightarrow> (range_failure + 'c) option" where
  "parse_numeric_range tim_delimit emplace start incr input =
     parse_tokens tim_delimit emplace incr
       (tim_delimit (map to_lower input) ('',; '' @ [CHR 0x09, CHR 0x0A, CHR 0x0D])) start"

section \<open>Termination of the loop\<close>

text \<open>The values a range stands for: \<open>vn, vn + incr, ...\<close> up to \<open>vN\<close>, the first one always.\<close>

definition range_values :: "int \<Rightarrow> int \<Rightarrow> int \<Rightarrow> int list" where
  "range_values incr vn vN = vn # map (\<lambda>k. vn + incr * int k) [1 ..< nat ((vN - vn) div incr) + 1]"

lemma range_values_step:
  assumes "0 < incr" and "vn + incr \<le> vN"
  shows "range_values incr vn vN = vn # range_values incr (vn + incr) vN"
proof -
  have d: "(vN - vn) div incr = (vN - (vn + incr)) div incr + 1"
    using assms div_add_self2 [of incr "vN - (vn + incr)"] by (simp add: algebra_simps)
  define n where "n = nat ((vN - (vn + incr)) div incr)"
  have "0 \<le> (vN - (vn + incr)) div incr"
    using assms by (simp add: pos_imp_zdiv_nonneg_iff)
  then have n: "nat ((vN - vn) div incr) = Suc n"
    by (simp add: d n_def nat_add_distrib)
  have "map (\<lambda>k. vn + incr * int k) [1 ..< Suc n + 1] =
      (vn + incr) # map (\<lambda>k. vn + incr * int k) (map Suc [1 ..< n + 1])"
    by (simp add: upt_conv_Cons map_Suc_upt del: upt_Suc)
  then show ?thesis
    unfolding range_values_def n n_def [symmetric] by (simp add: algebra_simps comp_def)
qed

lemma range_values_single:
  assumes "0 < incr" and "\<not> vn + incr \<le> vN"
  shows "range_values incr vn vN = [vn]"
proof -
  have "(vN - vn) div incr \<le> (incr - 1) div incr"
    using assms by (intro zdiv_mono1) auto
  also have "\<dots> = 0"
    using assms(1) by (intro div_pos_pos_trivial) auto
  finally have "(vN - vn) div incr < 1"
    by simp
  then show ?thesis
    by (simp add: range_values_def)
qed

lemma range_loop_values:
  assumes "0 < incr" and "vN + incr \<le> INT64_MAX" and "vn + incr \<le> INT64_MAX" and "INT64_MIN \<le> vn"
  shows "range_loop emplace incr vn vN result = Some (Inr (fold emplace (range_values incr vn vN) result))"
  using assms(3,4)
proof (induction "nat (vN - vn)" arbitrary: vn result rule: less_induct)
  case less
  show ?case
  proof (cases "vn + incr \<le> vN")
    case True
    then have "range_loop emplace incr (vn + incr) vN (emplace vn result) =
        Some (Inr (fold emplace (range_values incr (vn + incr) vN) (emplace vn result)))"
      using less assms(1,2) by (intro less(1)) auto
    then show ?thesis
      using True less(2,3) assms(1) range_values_step [OF assms(1) True]
      by (subst range_loop.simps) simp
  next
    case False
    then show ?thesis
      using less(2,3) assms(1) range_values_single [OF assms(1) False]
      by (subst range_loop.simps) simp
  qed
qed

lemma range_loop_never:
  assumes "range_loop emplace incr vn vN result = Some r"
  shows "\<not> (incr = 0 \<and> vn \<le> vN \<and> INT64_MIN \<le> vn \<and> vn \<le> INT64_MAX)"
proof (rule range_loop.raw_induct [where P = "\<lambda>emplace incr vn vN result r.
    \<not> (incr = 0 \<and> vn \<le> vN \<and> INT64_MIN \<le> vn \<and> vn \<le> INT64_MAX)", OF _ assms])
  fix loop and e :: "int \<Rightarrow> 'c \<Rightarrow> 'c" and i v N :: int and r :: 'c and y :: "range_failure + 'c"
  assume IH: "\<And>e i v N r y. loop e i v N r = Some y \<Longrightarrow>
      \<not> (i = 0 \<and> v \<le> N \<and> INT64_MIN \<le> v \<and> v \<le> INT64_MAX)"
    and eq: "(if v + i < INT64_MIN \<or> INT64_MAX < v + i then Some (Inl Signed_overflow)
      else if v + i \<le> N then loop e i (v + i) N (e v r) else Some (Inr (e v r))) = Some y"
  show "\<not> (i = 0 \<and> v \<le> N \<and> INT64_MIN \<le> v \<and> v \<le> INT64_MAX)"
  proof
    assume c: "i = 0 \<and> v \<le> N \<and> INT64_MIN \<le> v \<and> v \<le> INT64_MAX"
    then have "loop e i v N (e v r) = Some y"
      using eq by (auto split: if_splits)
    then show False
      using IH c by blast
  qed
qed

section \<open>Tokens of digits\<close>

lemma to_lower_digit: "c \<in> set ''0123456789-:'' \<Longrightarrow> to_lower c = c"
  by (auto simp: to_lower_def)

lemma is_digit_plain: "is_digit c \<Longrightarrow> c \<in> set ''0123456789-:''"
  by (auto simp: is_digit_def)

lemma is_digit_not [simp]: "\<not> is_digit (CHR ''-'')" "\<not> is_digit (CHR '':'')"
  by (simp_all add: is_digit_def)

lemma tokens_one: "s \<noteq> [] \<Longrightarrow> \<forall>c \<in> set s. \<not> P c \<Longrightarrow> tokens P s = [s]"
proof -
  assume s: "s \<noteq> []" "\<forall>c \<in> set s. \<not> P c"
  then obtain c cs where "s = c # cs" "dropWhile P s = c # cs"
    by (cases s) auto
  moreover have "takeWhile (\<lambda>c. \<not> P c) s = s" "dropWhile (\<lambda>c. \<not> P c) s = []"
    using s(2) by (simp_all add: takeWhile_eq_all_conv)
  ultimately show ?thesis
    using tokens_Cons [of P s c cs] tokens_all [of "[]" P] by simp
qed

lemma tokens_two:
  assumes "a \<noteq> []" and "b \<noteq> []" and "\<forall>c \<in> set a \<union> set b. \<not> P c" and "P d"
  shows "tokens P (a @ d # b) = [a, b]"
proof -
  obtain c cs where a: "a = c # cs"
    using assms(1) by (cases a) auto
  then have "dropWhile P (a @ d # b) = c # cs @ d # b"
    using assms(3) by simp
  moreover have "takeWhile (\<lambda>c. \<not> P c) (a @ d # b) = a" "dropWhile (\<lambda>c. \<not> P c) (a @ d # b) = d # b"
    using assms(3,4) by (simp_all add: takeWhile_append2 dropWhile_append2)
  moreover have "tokens P (d # b) = [b]"
  proof -
    obtain e es where b: "b = e # es" "\<not> P e"
      using assms(2,3) by (cases b) auto
    have "dropWhile P (d # b) = e # es" "takeWhile (\<lambda>c. \<not> P c) b = b" "dropWhile (\<lambda>c. \<not> P c) b = []"
      using assms(3,4) b by (simp_all add: takeWhile_eq_all_conv)
    then show ?thesis
      using tokens_Cons [of P "d # b" e es] tokens_all [of "[]" P] b(1) by simp
  qed
  ultimately show ?thesis
    using tokens_Cons [of P "a @ d # b" c "cs @ d # b"] a by simp
qed

lemma find_from_append:
  "\<forall>c \<in> set a. \<not> P c \<Longrightarrow> P d \<Longrightarrow> find_from P i (a @ d # b) = Some (i + length a)"
  by (induction a arbitrary: i) auto

lemma digit_bounds: "is_digit c \<Longrightarrow> 0 \<le> digit_value c \<and> digit_value c \<le> 9"
  by (auto simp: is_digit_def digit_value_def)

lemma digits_value_nonneg:
  assumes "list_all is_digit ds"
  shows "0 \<le> digits_value ds"
proof -
  have step: "0 \<le> 10 * n + digit_value c" if "0 \<le> n" "is_digit c" for n c
    using digit_bounds [OF that(2)] that(1) by linarith
  have "0 \<le> n \<longrightarrow> 0 \<le> foldl (\<lambda>n c. 10 * n + digit_value c) n ds" for n :: int
    using assms by (induction ds arbitrary: n) (simp_all add: step)
  then show ?thesis
    unfolding digits_value_def by blast
qed

lemma takeWhile_digits: "list_all is_digit s \<Longrightarrow> takeWhile is_digit s = s"
  by (simp add: takeWhile_eq_all_conv list_all_iff)

lemma sign_digits_plain: "list_all is_digit s \<Longrightarrow> sign_digits s = (False, s)"
  by (cases s) (auto simp: sign_digits_def takeWhile_digits dest: takeWhile_digits)

text \<open>What the function does with one whole token: nothing else is in the string.\<close>

lemma parse_single:
  assumes "tim_delimit = delimit" and "s \<noteq> []" and "\<forall>c \<in> set s. c \<in> set ''0123456789-:''"
  shows "parse_numeric_range tim_delimit emplace start incr s = parse_token tim_delimit emplace incr s start"
proof -
  have "map to_lower s = s"
    using assms(3) to_lower_digit by (intro map_idI) blast
  moreover have "tokens (\<lambda>c. c \<in> set ('',; '' @ [CHR 0x09, CHR 0x0A, CHR 0x0D])) s = [s]"
  proof (rule tokens_one [OF assms(2)], intro ballI)
    fix c
    assume "c \<in> set s"
    then have "c \<in> set ''0123456789-:''"
      using assms(3) by blast
    then show "c \<notin> set ('',; '' @ [CHR 0x09, CHR 0x0A, CHR 0x0D])"
      by auto
  qed
  ultimately show ?thesis
    unfolding parse_numeric_range_def assms(1) delimit_tokens_eq
    by (simp split: option.split sum.split)
qed

lemma parse_token_range:
  assumes "tim_delimit = delimit" and "n \<noteq> []" "m \<noteq> []" "i \<noteq> []"
    and "list_all is_digit n" "list_all is_digit m" "list_all is_digit i"
    and "digits_value i < 2 ^ 63"
  shows "parse_token tim_delimit emplace incr (n @ CHR ''-'' # m @ CHR '':'' # i) result =
    range_loop emplace (digits_value i) (min (digits_value n) INT64_MAX) (min (digits_value m) INT64_MAX) result"
proof -
  let ?v = "n @ CHR ''-'' # m" and ?p = "length n + Suc (length m)"
  have d: "\<forall>c \<in> set n \<union> set m \<union> set i. is_digit c"
    using assms(5-7) by (auto simp: list_all_iff)
  have nd: "c \<noteq> CHR '':'' \<and> c \<noteq> CHR ''-''" if "c \<in> set n \<union> set m" for c
    using d is_digit_not that by (metis UnI1)
  have "find_first_not_of (?v @ CHR '':'' # i) ''0123456789-:'' 0 = None"
    unfolding find_first_not_of_def find_from_None using d is_digit_plain by auto
  moreover have "find_first_of (?v @ CHR '':'' # i) '':'' 0 = Some (length ?v)"
    unfolding find_first_of_def drop_0 using nd by (subst find_from_append) auto
  moreover have "stoull i = Inr (digits_value i)"
    using assms(4,8) digits_value_nonneg [OF assms(7)]
    by (simp add: stoull_def sign_digits_plain [OF assms(7)])
  moreover have "to_int64 (digits_value i) = digits_value i"
    using assms(8) digits_value_nonneg [OF assms(7)] by (simp add: to_int64_def)
  moreover have "tim_delimit ?v ''-'' = [n, m]"
    unfolding assms(1) delimit_tokens_eq using assms(2,3) nd by (intro tokens_two) auto
  ultimately show ?thesis
    using assms(4) by (simp add: parse_token_def parse_range_def get_value_def takeWhile_digits assms(5,6))
qed

lemma digits_append_plain:
  "list_all is_digit n \<Longrightarrow> list_all is_digit m \<Longrightarrow> list_all is_digit i \<Longrightarrow>
    \<forall>c \<in> set (n @ CHR ''-'' # m @ CHR '':'' # i). c \<in> set ''0123456789-:''"
proof (intro ballI)
  assume d: "list_all is_digit n" "list_all is_digit m" "list_all is_digit i"
  fix c
  assume "c \<in> set (n @ CHR ''-'' # m @ CHR '':'' # i)"
  then consider "c \<in> set n \<union> set m \<union> set i" | "c = CHR ''-''" | "c = CHR '':''"
    unfolding set_append list.set by blast
  then show "c \<in> set ''0123456789-:''"
  proof cases
    case 1
    then have "is_digit c"
      using d unfolding list_all_iff by blast
    then show ?thesis
      by (rule is_digit_plain)
  qed simp_all
qed

section \<open>Properties\<close>

text \<open>
  C8. A range \<open>N-M:I\<close> of digits with a positive increment, whose values stay below the largest
  64-bit integer, gives the vector \<open>N, N+I, ...\<close> up to \<open>M\<close>, and \<open>N\<close> alone when \<open>M\<close> is below it:
  the loop terminates. timemory's \<open>delimit\<close> is taken to cut like the project's own.
\<close>
theorem numeric_range_values:
  assumes "tim_delimit = delimit" and "n \<noteq> []" "m \<noteq> []" "i \<noteq> []"
    and "list_all is_digit n" "list_all is_digit m" "list_all is_digit i"
    and "0 < digits_value i" "digits_value n + digits_value i \<le> INT64_MAX"
    and "digits_value m + digits_value i \<le> INT64_MAX"
  shows "parse_numeric_range tim_delimit emplace_vector [] incr (n @ CHR ''-'' # m @ CHR '':'' # i) =
    Some (Inr (range_values (digits_value i) (digits_value n) (digits_value m)))"
proof -
  let ?s = "n @ CHR ''-'' # m @ CHR '':'' # i"
  have nn: "0 \<le> digits_value n" "0 \<le> digits_value m"
    using assms(5,6) digits_value_nonneg by auto
  then have b: "digits_value i < 2 ^ 63" "min (digits_value n) INT64_MAX = digits_value n"
    "min (digits_value m) INT64_MAX = digits_value m"
    using assms(8-10) by (auto simp: INT64_MAX_def)
  have f: "fold emplace_vector xs ys = ys @ xs" for xs ys
    by (induction xs arbitrary: ys) (auto simp: emplace_vector_def)
  have lo: "INT64_MIN \<le> digits_value n"
    using nn by (simp add: INT64_MIN_def)
  have "parse_numeric_range tim_delimit emplace_vector [] incr ?s =
      parse_token tim_delimit emplace_vector incr ?s []"
    by (rule parse_single [OF assms(1) _ digits_append_plain [OF assms(5-7)]]) simp
  also have "\<dots> = range_loop emplace_vector (digits_value i) (digits_value n) (digits_value m) []"
    using parse_token_range [OF assms(1-7) b(1)] by (simp only: b(2,3))
  finally show ?thesis
    by (simp only: range_loop_values [OF assms(8) assms(10) assms(9) lo] f append_Nil)
qed

theorem numeric_range_values_witness:
  "parse_numeric_range delimit emplace_vector [] 1 ''2-9:3'' = Some (Inr [2, 5, 8])"
proof -
  have "digits_value ''3'' = 3" "digits_value ''2'' = 2" "digits_value ''9'' = 9"
    by (simp_all add: digits_value_def digit_value_def)
  moreover have "range_values 3 2 9 = [2, 5, 8]"
    by (simp add: range_values_def upt_rec)
  ultimately show ?thesis
    using numeric_range_values [of delimit "''2''" "''9''" "''3''" 1]
    by (simp add: is_digit_def INT64_MAX_def)
qed

text \<open>
  An increment of zero, which the syntax admits, never returns when the range is not empty:
  the loop adds the same value for ever.
\<close>
theorem numeric_range_zero_increment:
  assumes "tim_delimit = delimit" and "n \<noteq> []" "m \<noteq> []"
    and "list_all is_digit n" "list_all is_digit m"
    and "digits_value n \<le> digits_value m"
  shows "parse_numeric_range tim_delimit emplace_vector [] incr (n @ CHR ''-'' # m @ CHR '':'' # ''0'') = None"
proof -
  have z: "list_all is_digit ''0''" "digits_value ''0'' = 0"
    by (simp_all add: is_digit_def digits_value_def digit_value_def)
  have "0 \<le> digits_value n"
    using assms(4) digits_value_nonneg by auto
  then have "range_loop emplace_vector 0 (min (digits_value n) INT64_MAX) (min (digits_value m) INT64_MAX) [] = None"
    using range_loop_never [of emplace_vector 0 "min (digits_value n) INT64_MAX" "min (digits_value m) INT64_MAX" "[]"]
      assms(6) by (cases "range_loop emplace_vector 0 (min (digits_value n) INT64_MAX) (min (digits_value m) INT64_MAX) []")
      (auto simp: INT64_MIN_def INT64_MAX_def min_def split: if_splits)
  moreover have "parse_numeric_range tim_delimit emplace_vector [] incr (n @ CHR ''-'' # m @ CHR '':'' # ''0'') =
      parse_token tim_delimit emplace_vector incr (n @ CHR ''-'' # m @ CHR '':'' # ''0'') []"
    by (rule parse_single [OF assms(1) _ digits_append_plain [OF assms(4,5) z(1)]]) simp
  moreover have "parse_token tim_delimit emplace_vector incr (n @ CHR ''-'' # m @ CHR '':'' # ''0'') [] =
      range_loop emplace_vector (digits_value ''0'') (min (digits_value n) INT64_MAX) (min (digits_value m) INT64_MAX) []"
    by (rule parse_token_range [OF assms(1-3) _ assms(4,5) z(1)]) (simp_all add: z(2))
  ultimately show ?thesis
    by (simp only: z(2))
qed

theorem numeric_range_zero_increment_witness:
  "parse_numeric_range delimit emplace_vector [] 1 ''0-4:0'' = None"
  using numeric_range_zero_increment [of delimit "''0''" "''4''" 1]
  by (simp add: is_digit_def digits_value_def digit_value_def)

end
