(* ===== verification/Environment.thy ===== *)
theory Environment
  imports Text_Paths
begin

text \<open>
  The environment of the launched program: \<open>common/environment.hpp\<close>.

  The environment block is a list of entries; an entry is a C string, or \<open>None\<close> for a null
  pointer. The process environment that \<open>getenv\<close> reads is a map, and \<open>get_env<bool>\<close>, which
  writes through the pointer, returns it updated. A \<open>throw\<close> is \<open>Inl\<close>. Log output is left out.
\<close>

type_synonym envp = "string option list"

section \<open>Reading variables\<close>

datatype env_error = No_boolean_value | Stoi_out_of_range

definition get_env_string :: "environment \<Rightarrow> string \<Rightarrow> string \<Rightarrow> string" where
  "get_env_string env env_id dflt =
     (if env_id = [] then dflt else case env env_id of Some v \<Rightarrow> v | None \<Rightarrow> dflt)"

definition is_space :: "char \<Rightarrow> bool" where
  "is_space c \<longleftrightarrow> c \<in> {CHR '' '', CHR 0x09, CHR 0x0A, CHR 0x0B, CHR 0x0C, CHR 0x0D}"

definition is_digit :: "char \<Rightarrow> bool" where
  "is_digit c \<longleftrightarrow> c \<in> set ''0123456789''"

definition digits_value :: "string \<Rightarrow> int" where
  "digits_value ds = foldl (\<lambda>n c. 10 * n + (of_char c - 48)) 0 ds"

text \<open>\<open>std::stoi\<close>: spaces, a sign, digits; \<open>None\<close> is an exception of either kind.\<close>

definition stoi :: "string \<Rightarrow> int option" where
  "stoi s =
     (let s = dropWhile is_space s;
          neg = (case s of c # _ \<Rightarrow> c = CHR ''-'' | [] \<Rightarrow> False);
          s = (case s of c # cs \<Rightarrow> if c = CHR ''-'' \<or> c = CHR ''+'' then cs else s | [] \<Rightarrow> []);
          ds = takeWhile is_digit s;
          v = (if neg then - digits_value ds else digits_value ds)
      in if ds = [] \<or> v < - (2 ^ 31) \<or> 2 ^ 31 \<le> v then None else Some v)"

definition get_env_int :: "environment \<Rightarrow> string \<Rightarrow> int \<Rightarrow> int" where
  "get_env_int env env_id dflt =
     (if env_id = [] then dflt
      else case env env_id of
        Some v \<Rightarrow> (case stoi v of Some i \<Rightarrow> i | None \<Rightarrow> dflt)
      | None \<Rightarrow> dflt)"

definition to_lower :: "char \<Rightarrow> char" where
  "to_lower c = (if 65 \<le> (of_char c :: nat) \<and> (of_char c :: nat) \<le> 90
     then char_of ((of_char c :: nat) + 32) else c)"

definition false_words :: "string list" where
  "false_words = [''off'', ''false'', ''no'', ''n'', ''f'', ''0'']"

text \<open>The lower case is written into the variable itself.\<close>

definition get_env_bool :: "environment \<Rightarrow> string \<Rightarrow> bool \<Rightarrow> env_error + bool \<times> environment" where
  "get_env_bool env env_id dflt =
     (if env_id = [] then Inr (dflt, env)
      else case env env_id of
        None \<Rightarrow> Inr (dflt, env)
      | Some v \<Rightarrow>
          if v = [] then Inl No_boolean_value
          else if find_first_not_of v ''0123456789'' 0 = None
          then (case stoi v of None \<Rightarrow> Inl Stoi_out_of_range | Some i \<Rightarrow> Inr (i \<noteq> 0, env))
          else (let v = map to_lower v; env = env(env_id \<mapsto> v)
                in if v \<in> set false_words then Inr (False, env) else Inr (True, env)))"

text \<open>\<open>setenv\<close> behind \<open>env_config\<close>: without override a variable that is set stays.\<close>

record env_config =
  env_name :: string
  env_value :: string
  override :: int

definition env_config_apply :: "env_config \<Rightarrow> environment \<Rightarrow> int \<times> environment" where
  "env_config_apply c env =
     (if env_name c = [] then (- 1, env)
      else if CHR ''='' \<in> set (env_name c) then (- 1, env)
      else if override c = 0 \<and> env (env_name c) \<noteq> None then (0, env)
      else (0, env(env_name c \<mapsto> env_value c)))"

section \<open>Removing a variable\<close>

definition entry_matches :: "string \<Rightarrow> string option \<Rightarrow> bool" where
  "entry_matches key e = (case e of None \<Rightarrow> False | Some s \<Rightarrow> find_string s key = Some 0)"

text \<open>The original entries are an unordered set: \<open>originals\<close> lists it in some order.\<close>

definition remove_env :: "envp \<Rightarrow> string \<Rightarrow> string list \<Rightarrow> envp" where
  "remove_env environ env_var originals =
     (let key = join [] [env_var, ''=''];
          environ = map (\<lambda>e. if entry_matches key e then None else e) environ;
          environ = filter (\<lambda>e. e \<noteq> None) environ
      in foldl (\<lambda>acc orig. if find_string orig key = Some 0 then acc @ [Some orig] else acc)
           environ originals)"

section \<open>Setting a variable\<close>

datatype update_mode = REPLACE | PREPEND | APPEND | WEAK

definition new_entry :: "update_mode \<Rightarrow> string \<Rightarrow> string \<Rightarrow> string \<Rightarrow> string \<Rightarrow> string" where
  "new_entry mode env_var val delim itr =
     (let key = join [] [env_var, ''='']
      in if mode = PREPEND \<or> mode = APPEND
         then (if find_string itr val = None
               then (let old = drop (length key) itr
                     in if mode = PREPEND then join ''='' [env_var, join delim [val, old]]
                        else join ''='' [env_var, join delim [old, val]])
               else itr)
         else join ''='' [env_var, val])"

text \<open>The loop over the entries: \<open>None\<close> when it runs to the end without returning.\<close>

fun update_entries :: "update_mode \<Rightarrow> string \<Rightarrow> string \<Rightarrow> string \<Rightarrow> string set \<Rightarrow> envp \<Rightarrow> envp option" where
  "update_entries mode env_var val delim originals [] = None"
| "update_entries mode env_var val delim originals (None # es) =
     map_option ((#) None) (update_entries mode env_var val delim originals es)"
| "update_entries mode env_var val delim originals (Some itr # es) =
     (if find_string itr (join [] [env_var, ''='']) \<noteq> Some 0
      then map_option ((#) (Some itr)) (update_entries mode env_var val delim originals es)
      else if mode = WEAK \<and> itr \<notin> originals then Some (Some itr # es)
      else Some (Some (new_entry mode env_var val delim itr) # es))"

definition update_env ::
  "envp \<Rightarrow> string \<Rightarrow> string \<Rightarrow> update_mode \<Rightarrow> string \<Rightarrow> string set \<Rightarrow> string set \<Rightarrow> envp \<times> string set" where
  "update_env environ env_var val mode delim updated originals =
     (let updated = insert env_var updated
      in case update_entries mode env_var val delim originals environ of
           Some environ \<Rightarrow> (environ, updated)
         | None \<Rightarrow> (environ @ [Some (join ''='' [env_var, val])], updated))"

section \<open>Discovery\<close>

definition strip_slash :: "string \<Rightarrow> string" where
  "strip_slash s = (if s \<noteq> [] \<and> last s = CHR ''/'' then butlast s else s)"

definition push_unique :: "string \<Rightarrow> string list \<Rightarrow> string list" where
  "push_unique p candidates =
     (if p = [] then candidates else if p \<notin> set candidates then candidates @ [p] else candidates)"

definition llvm_candidates :: "string \<Rightarrow> string \<Rightarrow> string list" where
  "llvm_candidates rocm_dir rocmv_dir =
     fold push_unique
       ((if rocmv_dir \<noteq> [] then [rocmv_dir @ ''/llvm/lib'', rocmv_dir @ ''/lib''] else []) @
        [rocm_dir @ ''/llvm/lib'', rocm_dir @ ''/lib/llvm/lib'', ''/opt/rocm/llvm/lib'',
         ''/opt/rocm/lib/llvm/lib'']) []"

definition discover_llvm_libdir_for_ompt :: "environment \<Rightarrow> (string \<Rightarrow> bool) \<Rightarrow> string" where
  "discover_llvm_libdir_for_ompt env exists =
     (let rocm_dir = strip_slash (get_env_string env ''ROCM_PATH'' ''/opt/rocm'');
          rocmv_dir = strip_slash (get_env_string env ''ROCmVersion_DIR'' [])
      in case find (\<lambda>dir. exists (dir @ ''/libomptarget.so'')) (llvm_candidates rocm_dir rocmv_dir) of
           Some dir \<Rightarrow> dir
         | None \<Rightarrow> [])"

definition is_python_interpreter :: "string \<Rightarrow> bool" where
  "is_python_interpreter executable =
     (if executable = [] then False
      else (let base = (case rfind_char (CHR ''/'') executable of
                          Some p \<Rightarrow> drop (p + 1) executable | None \<Rightarrow> executable);
                prefix = ''python3.''
            in if base = ''python'' \<or> base = ''python3'' then True
               else if \<not> (length base > length prefix \<and> take (length prefix) base = prefix) then False
               else list_all is_digit (drop (length prefix) base)))"

definition is_alnum :: "char \<Rightarrow> bool" where
  "is_alnum c \<longleftrightarrow> is_digit c \<or> (65 \<le> (of_char c :: nat) \<and> (of_char c :: nat) \<le> 90) \<or>
     (97 \<le> (of_char c :: nat) \<and> (of_char c :: nat) \<le> 122)"

definition is_safe_executable_path :: "string \<Rightarrow> bool" where
  "is_safe_executable_path path = list_all (\<lambda>c. is_alnum c \<or> c \<in> set ''/._-+'') path"

text \<open>
  \<open>discover_torch_libpath\<close> runs a shell command through \<open>popen\<close>: its output and status are the
  argument \<open>run\<close> (\<open>None\<close> when it does not start). \<open>fgets\<close> stops behind the first newline.
\<close>

definition first_line :: "string \<Rightarrow> string" where
  "first_line s = takeWhile (\<lambda>c. c \<noteq> CHR 0x0A) s @ take 1 (dropWhile (\<lambda>c. c \<noteq> CHR 0x0A) s)"

definition torch_command :: "string \<Rightarrow> string" where
  "torch_command python_binary = [CHR 0x22] @ python_binary @ [CHR 0x22] @ '' -c '' @ [CHR 0x22] @
     ''import torch; print(torch.__path__[0])'' @ [CHR 0x22] @ '' 2>/dev/null''"

definition discover_torch_libpath ::
  "(string \<Rightarrow> (string \<times> int) option) \<Rightarrow> (string \<Rightarrow> bool) \<Rightarrow> string \<Rightarrow> string" where
  "discover_torch_libpath run direxists python_binary =
     (if python_binary = [] \<or> \<not> is_safe_executable_path python_binary then []
      else case run (torch_command python_binary) of
        None \<Rightarrow> []
      | Some (out, status) \<Rightarrow>
         (let result = first_line out
          in if status \<noteq> 0 \<or> result = [] then []
             else (let result = rev (dropWhile (\<lambda>c. c = CHR 0x0A \<or> c = CHR 0x0D \<or> c = CHR '' '') (rev result))
                   in if result = [] then []
                      else (let libdir = result @ ''/lib'' in if direxists libdir then libdir else []))))"

section \<open>Lists of paths\<close>

text \<open>\<open>std::getline\<close> with a delimiter, until the stream is at its end.\<close>

function getlines :: "char \<Rightarrow> string \<Rightarrow> string list" where
  "getlines d s =
     (if s = [] then []
      else takeWhile (\<lambda>c. c \<noteq> d) s # getlines d (drop 1 (dropWhile (\<lambda>c. c \<noteq> d) s)))"
  by pat_completeness auto
termination
proof (relation "measure (length \<circ> snd)")
  fix d :: char and s :: string
  assume "s \<noteq> []"
  moreover have "length (dropWhile (\<lambda>c. c \<noteq> d) s) \<le> length s"
    by (rule length_dropWhile_le)
  ultimately show "((d, drop 1 (dropWhile (\<lambda>c. c \<noteq> d) s)), (d, s)) \<in> measure (length \<circ> snd)"
    unfolding in_measure by (simp del: length_greater_0_conv add: length_greater_0_conv [symmetric])
qed simp

declare getlines.simps [simp del]

definition add_unique :: "string list \<Rightarrow> string \<Rightarrow> string list" where
  "add_unique parts part = (if part \<noteq> [] \<and> part \<notin> set parts then parts @ [part] else parts)"

definition ld_prefix :: string where "ld_prefix = ''LD_LIBRARY_PATH=''"

definition is_ld_path :: "string option \<Rightarrow> bool" where
  "is_ld_path e = (case e of None \<Rightarrow> False | Some s \<Rightarrow> take (length ld_prefix) s = ld_prefix)"

definition add_torch_library_path ::
  "(string \<Rightarrow> (string \<times> int) option) \<Rightarrow> (string \<Rightarrow> bool) \<Rightarrow> envp \<Rightarrow> string option list \<Rightarrow> string set \<Rightarrow>
   envp \<times> string set" where
  "add_torch_library_path run direxists envp argv updated =
     (case argv of
        Some python # _ \<Rightarrow>
         (let torch = (if is_python_interpreter python
                       then discover_torch_libpath run direxists python else [])
          in if torch = [] then (envp, updated)
             else (let parts = foldl (\<lambda>parts e. if is_ld_path e
                         then foldl add_unique parts (getlines (CHR '':'') (drop (length ld_prefix) (the e)))
                         else parts) [torch] envp;
                       result = concat (hd parts # map (\<lambda>p. CHR '':'' # p) (tl parts));
                       envp = filter (\<lambda>e. \<not> is_ld_path e \<and> e \<noteq> None) envp
                   in (envp @ [Some (join [] [ld_prefix, result])],
                       insert (take (length ld_prefix - 1) ld_prefix) updated)))
      | _ \<Rightarrow> (envp, updated))"

section \<open>Consolidation\<close>

definition parse_entry :: "string \<Rightarrow> (string \<times> string) option" where
  "parse_entry entry =
     (case find_from (\<lambda>c. c = CHR ''='') 0 entry of
        None \<Rightarrow> None
      | Some p \<Rightarrow> Some (take p entry, drop (p + 1) entry))"

text \<open>Keys in the order of their first entry, each with its parts in order and without repeats.\<close>

type_synonym key_parts = "(string \<times> string list) list"

fun add_parts :: "string \<Rightarrow> string list \<Rightarrow> key_parts \<Rightarrow> key_parts" where
  "add_parts key parts [] = [(key, foldl add_unique [] parts)]"
| "add_parts key parts ((k, ps) # m) =
     (if k = key then (k, foldl add_unique ps parts) # m else (k, ps) # add_parts key parts m)"

fun collect_keys :: "envp \<Rightarrow> key_parts \<Rightarrow> key_parts" where
  "collect_keys [] m = m"
| "collect_keys (None # es) m = collect_keys es m"
| "collect_keys (Some e # es) m =
     (case parse_entry e of
        None \<Rightarrow> collect_keys es m
      | Some (key, value) \<Rightarrow> collect_keys es (add_parts key (getlines (CHR '':'') value) m))"

text \<open>A part is preceded by the delimiter unless it is equal to the first one.\<close>

definition join_parts :: "string \<times> string list \<Rightarrow> string" where
  "join_parts kp = (case kp of (key, parts) \<Rightarrow>
     foldl (\<lambda>acc part. (if part \<noteq> hd parts then acc @ '':'' else acc) @ part) (key @ ''='') parts)"

definition consolidate_env_entries :: "envp \<Rightarrow> envp" where
  "consolidate_env_entries envp = map (\<lambda>kp. Some (join_parts kp)) (collect_keys envp [])"

section \<open>Consolidation is a function of the parts\<close>

lemma find_from_take:
  "find_from P 0 s = Some p \<Longrightarrow> \<forall>c \<in> set (take p s). \<not> P c"
  using find_from_Some [of P 0 s p] by (metis diff_zero set_takeWhileD)

lemma parse_entry_append:
  assumes "CHR ''='' \<notin> set key"
  shows "parse_entry (key @ CHR ''='' # v) = Some (key, v)"
proof -
  have "find_from (\<lambda>c. c = CHR ''='') i (key @ CHR ''='' # v) = Some (i + length key)" for i
    using assms by (induction key arbitrary: i) auto
  from this [of 0] show ?thesis
    by (simp add: parse_entry_def)
qed

lemma parse_entry_key: "parse_entry e = Some (key, v) \<Longrightarrow> CHR ''='' \<notin> set key"
  using find_from_take [of "\<lambda>c. c = CHR ''=''" e] by (auto simp: parse_entry_def split: option.splits)

text \<open>The parts of a list: nonempty, each once, in the order of the first appearance.\<close>

definition unique_parts :: "string list \<Rightarrow> string list" where
  "unique_parts ps = foldl add_unique [] ps"

lemma add_unique_set: "set (add_unique ps p) = set ps \<union> ({p} - {[]})"
  by (auto simp: add_unique_def)

lemma add_unique_distinct: "distinct ps \<Longrightarrow> distinct (add_unique ps p)"
  by (auto simp: add_unique_def)

lemma foldl_add_unique:
  "set (foldl add_unique ps qs) = set ps \<union> (set qs - {[]}) \<and>
   (distinct ps \<longrightarrow> distinct (foldl add_unique ps qs))"
  by (induction qs arbitrary: ps) (auto simp: add_unique_set add_unique_distinct)

lemma foldl_add_unique_id:
  "distinct (ps @ qs) \<Longrightarrow> [] \<notin> set qs \<Longrightarrow> foldl add_unique ps qs = ps @ qs"
proof (induction qs arbitrary: ps)
  case (Cons q qs)
  then have "add_unique ps q = ps @ [q]"
    by (auto simp: add_unique_def)
  then show ?case
    using Cons by simp
qed simp

text \<open>The entries of a block: the parsed ones, with their values split.\<close>

fun parsed :: "envp \<Rightarrow> (string \<times> string list) list" where
  "parsed [] = []"
| "parsed (None # es) = parsed es"
| "parsed (Some e # es) = (case parse_entry e of None \<Rightarrow> parsed es
     | Some (k, v) \<Rightarrow> (k, getlines (CHR '':'') v) # parsed es)"

definition parts_of :: "string \<Rightarrow> (string \<times> string list) list \<Rightarrow> string list" where
  "parts_of k m = unique_parts (concat (map snd (filter (\<lambda>(k', _). k' = k) m)))"

lemma collect_keys_parsed: "collect_keys es m = foldl (\<lambda>m (k, ps). add_parts k ps m) m (parsed es)"
  by (induction es m rule: collect_keys.induct) (auto split: option.split)

fun keys_of :: "(string \<times> string list) list \<Rightarrow> string list" where
  "keys_of m = rev (remdups (rev (map fst m)))"

lemma add_parts_keys:
  "map fst (add_parts k ps m) = (if k \<in> fst ` set m then map fst m else map fst m @ [k])"
  by (induction k ps m rule: add_parts.induct) auto

lemma add_parts_map:
  assumes "distinct (map fst m)"
  shows "map_of (add_parts k ps m) =
    (map_of m)(k \<mapsto> foldl add_unique (case map_of m k of None \<Rightarrow> [] | Some qs \<Rightarrow> qs) ps)"
  using assms
proof (induction k ps m rule: add_parts.induct)
  case (2 key parts k ps m)
  then show ?case
    by (cases "k = key") (auto simp: fun_eq_iff split: option.split)
qed (simp add: fun_eq_iff)

text \<open>After any number of entries the map holds their keys and, for each, its parts.\<close>

definition collected :: "(string \<times> string list) list \<Rightarrow> key_parts \<Rightarrow> bool" where
  "collected es m \<longleftrightarrow> distinct (map fst m) \<and> map fst m = keys_of es \<and>
     list_all (\<lambda>(k, ps). ps = parts_of k es) m"

lemma foldl_collected: "collected es (foldl (\<lambda>m (k, ps). add_parts k ps m) [] es)"
proof (induction es rule: rev_induct)
  case Nil
  show ?case by (simp add: collected_def)
next
  case (snoc x es)
  obtain k ps where x: "x = (k, ps)"
    by (cases x)
  let ?m = "foldl (\<lambda>m (k, ps). add_parts k ps m) [] es"
  have d: "distinct (map fst ?m)" "map fst ?m = keys_of es"
    and p: "\<And>k ps. map_of ?m k = Some ps \<Longrightarrow> ps = parts_of k es"
    using snoc by (auto simp: collected_def list_all_iff dest: map_of_SomeD)
  have s: "fst ` set ?m = fst ` set es"
    using arg_cong [OF d(2), of set] by (simp only: keys_of.simps set_map set_rev set_remdups)
  have keys: "map fst (add_parts k ps ?m) = keys_of (es @ [x])"
    using d(2) s by (simp add: add_parts_keys x)
  have dist: "distinct (map fst (add_parts k ps ?m))"
    unfolding keys by simp
  have none: "parts_of k es = []" if "map_of ?m k = None"
  proof -
    have "k \<notin> fst ` set es"
      using that s by (simp add: map_of_eq_None_iff)
    then have "filter (\<lambda>(k', _). k' = k) es = []"
      by (force simp: filter_empty_conv)
    then show ?thesis
      by (simp add: parts_of_def unique_parts_def)
  qed
  have "qs = parts_of j (es @ [x])" if "(j, qs) \<in> set (add_parts k ps ?m)" for j qs
  proof -
    have m: "map_of (add_parts k ps ?m) j = Some qs"
      using that dist by simp
    have step: "parts_of k (es @ [x]) = foldl add_unique (parts_of k es) ps"
      by (simp add: parts_of_def unique_parts_def x)
    show ?thesis
    proof (cases "j = k")
      case True
      then show ?thesis
        using m add_parts_map [OF d(1), of k ps] none p step by (cases "map_of ?m k") auto
    next
      case False
      then have "parts_of j (es @ [x]) = parts_of j es"
        by (simp add: parts_of_def x)
      then show ?thesis
        using m add_parts_map [OF d(1), of k ps] False p by simp
    qed
  qed
  then show ?case
    using keys dist by (auto simp: collected_def list_all_iff x)
qed

text \<open>The declarative form: one entry for every key, its parts between colons.\<close>

fun between :: "char \<Rightarrow> string list \<Rightarrow> string" where
  "between d [] = []"
| "between d [p] = p"
| "between d (p # q # ps) = p @ d # between d (q # ps)"

lemma between_snoc: "ps \<noteq> [] \<Longrightarrow> between d (ps @ [p]) = between d ps @ d # p"
  by (induction d ps rule: between.induct) auto

lemma join_parts_between:
  assumes "distinct ps"
  shows "join_parts (k, ps) = k @ CHR ''='' # between (CHR '':'') ps"
  using assms
proof (induction ps rule: rev_induct)
  case (snoc p ps)
  then show ?case
    using between_snoc [of ps "CHR '':''" p] by (cases ps) (auto simp: join_parts_def)
qed (simp add: join_parts_def)

lemma parts_of_distinct: "distinct (parts_of k es)" "[] \<notin> set (parts_of k es)"
  using foldl_add_unique [of "[]"] by (auto simp: parts_of_def unique_parts_def)

lemma consolidate_eq:
  "consolidate_env_entries es =
    map (\<lambda>k. Some (k @ CHR ''='' # between (CHR '':'') (parts_of k (parsed es)))) (keys_of (parsed es))"
proof -
  let ?m = "foldl (\<lambda>m (k, ps). add_parts k ps m) [] (parsed es)"
  have "collected (parsed es) ?m"
    by (rule foldl_collected)
  then have m: "map fst ?m = keys_of (parsed es)" "\<And>k ps. (k, ps) \<in> set ?m \<Longrightarrow> ps = parts_of k (parsed es)"
    by (auto simp: collected_def list_all_iff)
  have j: "join_parts kp = fst kp @ CHR ''='' # between (CHR '':'') (parts_of (fst kp) (parsed es))"
    if "kp \<in> set ?m" for kp
    using m(2) [of "fst kp" "snd kp"] that join_parts_between [OF parts_of_distinct(1), of "fst kp" "fst kp" "parsed es"]
    by (cases kp) simp
  have "consolidate_env_entries es = map (\<lambda>kp. Some (join_parts kp)) ?m"
    by (simp add: consolidate_env_entries_def collect_keys_parsed)
  also have "\<dots> = map (\<lambda>k. Some (k @ CHR ''='' # between (CHR '':'') (parts_of k (parsed es)))) (map fst ?m)"
    using j by (simp add: o_def)
  finally show ?thesis
    using m(1) by simp
qed

lemma getlines_Nil [simp]: "getlines d [] = []"
  by (simp add: getlines.simps)

lemma getlines_free: "p \<in> set (getlines d s) \<Longrightarrow> d \<notin> set p"
proof (induction d s rule: getlines.induct)
  case (1 d s)
  show ?case
  proof (cases "s = []")
    case False
    then have "getlines d s = takeWhile (\<lambda>c. c \<noteq> d) s # getlines d (drop 1 (dropWhile (\<lambda>c. c \<noteq> d) s))"
      by (subst getlines.simps) simp
    then show ?thesis
      using 1 False by (auto dest: set_takeWhileD)
  qed (use 1 in simp)
qed

lemma getlines_between:
  "list_all (\<lambda>p. p \<noteq> [] \<and> d \<notin> set p) ps \<Longrightarrow> getlines d (between d ps) = ps"
proof (induction d ps rule: between.induct)
  case (2 d p)
  then have "takeWhile (\<lambda>c. c \<noteq> d) p = p" "dropWhile (\<lambda>c. c \<noteq> d) p = []"
    by (auto simp: takeWhile_eq_all_conv)
  moreover have "getlines d p = takeWhile (\<lambda>c. c \<noteq> d) p # getlines d (drop 1 (dropWhile (\<lambda>c. c \<noteq> d) p))"
    using 2 by (subst getlines.simps) simp
  ultimately show ?case
    by (simp only: between.simps drop_Nil getlines_Nil)
next
  case (3 d p q ps)
  let ?r = "between d (q # ps)"
  have "\<forall>c \<in> set p. c \<noteq> d"
    using 3(2) by auto
  then have "takeWhile (\<lambda>c. c \<noteq> d) (p @ d # ?r) = p" "dropWhile (\<lambda>c. c \<noteq> d) (p @ d # ?r) = d # ?r"
    by (simp_all add: takeWhile_append2 dropWhile_append2)
  then show ?case
    using 3 by (subst getlines.simps) simp
qed simp

lemma parsed_parts: "(k, ps) \<in> set (parsed es) \<Longrightarrow> p \<in> set ps \<Longrightarrow> CHR '':'' \<notin> set p"
  by (induction es rule: parsed.induct) (auto split: option.splits dest: getlines_free)

lemma parsed_keys: "(k, ps) \<in> set (parsed es) \<Longrightarrow> CHR ''='' \<notin> set k"
  by (induction es rule: parsed.induct) (auto split: option.splits dest: parse_entry_key)

lemma parts_of_clean: "list_all (\<lambda>p. p \<noteq> [] \<and> CHR '':'' \<notin> set p) (parts_of k (parsed es))"
proof -
  have "set (parts_of k (parsed es)) \<subseteq> (\<Union>(k, ps) \<in> set (parsed es). set ps) - {[]}"
    using foldl_add_unique [of "[]"] by (auto simp: parts_of_def unique_parts_def)
  then show ?thesis
    unfolding list_all_iff using parsed_parts [of _ _ es] by fastforce
qed

lemma filter_single: "distinct xs \<Longrightarrow> k \<in> set xs \<Longrightarrow> filter (\<lambda>x. x = k) xs = [k]"
  by (induction xs) (auto simp: filter_empty_conv)

lemma keys_of_distinct: "distinct ks \<Longrightarrow> keys_of (map (\<lambda>k. (k, f k)) ks) = ks"
  by (simp add: o_def distinct_remdups_id)

text \<open>A consolidated block, read again, has the same keys and parts.\<close>

lemma parsed_block:
  assumes "\<forall>k \<in> set ks. CHR ''='' \<notin> set k \<and> list_all (\<lambda>p. p \<noteq> [] \<and> CHR '':'' \<notin> set p) (f k)"
  shows "parsed (map (\<lambda>k. Some (k @ CHR ''='' # between (CHR '':'') (f k))) ks) = map (\<lambda>k. (k, f k)) ks"
  using assms by (induction ks) (simp_all add: parse_entry_append getlines_between)

lemma consolidate_again: "consolidate_env_entries (consolidate_env_entries es) = consolidate_env_entries es"
proof -
  let ?ks = "keys_of (parsed es)" and ?f = "\<lambda>k. parts_of k (parsed es)"
  have "\<forall>k \<in> set ?ks. CHR ''='' \<notin> set k \<and> list_all (\<lambda>p. p \<noteq> [] \<and> CHR '':'' \<notin> set p) (?f k)"
    using parts_of_clean parsed_keys [of _ _ es] by auto
  then have p: "parsed (consolidate_env_entries es) = map (\<lambda>k. (k, ?f k)) ?ks"
    unfolding consolidate_eq by (rule parsed_block)
  have d: "distinct ?ks"
    by simp
  then have keys: "keys_of (map (\<lambda>k. (k, ?f k)) ?ks) = ?ks"
    by (rule keys_of_distinct)
  have "parts_of k (map (\<lambda>k. (k, ?f k)) ?ks) = ?f k" if "k \<in> set ?ks" for k
  proof -
    have "filter (\<lambda>(k', _). k' = k) (map (\<lambda>k. (k, ?f k)) ?ks) = map (\<lambda>k. (k, ?f k)) (filter (\<lambda>k'. k' = k) ?ks)"
      by (simp add: filter_map o_def)
    also have "filter (\<lambda>k'. k' = k) ?ks = [k]"
      using d that by (rule filter_single)
    finally show ?thesis
      using foldl_add_unique_id [of "[]" "?f k"] parts_of_distinct [of k "parsed es"]
      by (simp add: parts_of_def [of k "map _ _"] unique_parts_def)
  qed
  then show ?thesis
    unfolding consolidate_eq [of "consolidate_env_entries es"] p keys
    by (subst consolidate_eq) simp
qed

section \<open>The value of a variable\<close>

definition var_key :: "string \<Rightarrow> string" where
  "var_key v = v @ ''=''"

text \<open>What \<open>getenv\<close> of the launched program finds: the first entry of the variable.\<close>

fun env_lookup :: "envp \<Rightarrow> string \<Rightarrow> string option" where
  "env_lookup [] v = None"
| "env_lookup (None # es) v = env_lookup es v"
| "env_lookup (Some e # es) v =
     (if take (length (var_key v)) e = var_key v then Some (drop (length (var_key v)) e)
      else env_lookup es v)"

lemma find_string_from_ge: "find_string_from i pat s = Some j \<Longrightarrow> i \<le> j"
  by (induction i pat s rule: find_string_from.induct) (auto split: if_splits)

lemma find_string_0: "find_string s pat = Some 0 \<longleftrightarrow> take (length pat) s = pat"
proof (cases s)
  case (Cons c cs)
  have "find_string_from (Suc 0) pat cs \<noteq> Some 0"
    using find_string_from_ge [of "Suc 0" pat cs 0] by auto
  then show ?thesis
    using Cons by (simp add: find_string_def)
qed (auto simp: find_string_def)

lemma join_key [simp]: "join [] [v, ''=''] = var_key v"
  by (simp add: join_def var_key_def)

lemma join_eq [simp]: "join ''='' [v, x] = var_key v @ x"
  by (simp add: join_def var_key_def)

lemma take_var_key: "take (length (var_key v)) (var_key v @ x) = var_key v"
  by simp

lemma other_key:
  assumes "v \<noteq> w" and "CHR ''='' \<notin> set v" and "CHR ''='' \<notin> set w"
  shows "take (length (var_key w)) (var_key v @ x) \<noteq> var_key w"
proof
  assume "take (length (var_key w)) (var_key v @ x) = var_key w"
  then have "v @ CHR ''='' # x = w @ CHR ''='' # drop (length (var_key w)) (var_key v @ x)"
    using append_take_drop_id [of "length (var_key w)" "var_key v @ x"] by (simp add: var_key_def)
  then have "parse_entry (v @ CHR ''='' # x) =
      parse_entry (w @ CHR ''='' # drop (length (var_key w)) (var_key v @ x))"
    by (rule arg_cong)
  then show False
    using assms by (simp add: parse_entry_append)
qed

lemma other_key_prefix:
  assumes "v \<noteq> w" and "CHR ''='' \<notin> set v" and "CHR ''='' \<notin> set w"
    and "take (length (var_key v)) e = var_key v"
  shows "take (length (var_key w)) e \<noteq> var_key w"
proof -
  obtain r where "e = var_key v @ r"
    using assms(4) by (metis append_take_drop_id)
  then show ?thesis
    using other_key [OF assms(1-3)] by simp
qed

lemma env_lookup_append:
  "env_lookup (es @ fs) v = (case env_lookup es v of None \<Rightarrow> env_lookup fs v | Some x \<Rightarrow> Some x)"
  by (induction es v rule: env_lookup.induct) auto

lemma update_entries_replace:
  assumes "CHR ''='' \<notin> set v" and "CHR ''='' \<notin> set w"
  shows "case update_entries REPLACE v x d orig es of
      None \<Rightarrow> env_lookup es v = None
    | Some es' \<Rightarrow> env_lookup es' v = Some x \<and> (v = w \<or> env_lookup es' w = env_lookup es w)"
proof (induction es)
  case (Cons entry es)
  show ?case
  proof (cases entry)
    case None
    then show ?thesis
      using Cons by (auto split: option.splits)
  next
    case (Some e)
    show ?thesis
  proof (cases "take (length (var_key v)) e = var_key v")
    case True
    then have "v = w \<or> take (length (var_key w)) e \<noteq> var_key w"
      using other_key_prefix [OF _ assms] by blast
    then show ?thesis
      using Some True other_key [OF _ assms] by (auto simp: find_string_0 new_entry_def)
  next
    case False
    then show ?thesis
      using Some Cons by (auto simp: find_string_0 split: option.splits)
  qed
  qed
qed simp

section \<open>Properties\<close>


text \<open>Consolidating a consolidated block changes nothing.\<close>
theorem consolidate_idempotent:
  "consolidate_env_entries (consolidate_env_entries es) = consolidate_env_entries es"
  by (rule consolidate_again)

text \<open>
  Consolidation treats every variable as a list of paths: a display loses its colon, a value
  with equal parts loses one, and an entry without an equals sign is dropped.
\<close>
theorem consolidate_damages_values:
  "consolidate_env_entries [Some ''DISPLAY=:0'', Some ''PS1=a:a'', Some ''odd''] =
     [Some ''DISPLAY=0'', Some ''PS1=a'']"
  by (simp add: consolidate_env_entries_def parse_entry_def getlines.simps add_unique_def join_parts_def)

text \<open>
  After \<open>update_env\<close> in replace mode the launched program reads the new value, and every
  other variable is as before.
\<close>
theorem update_env_replaces:
  assumes "CHR ''='' \<notin> set v" and "CHR ''='' \<notin> set w" and "v \<noteq> w"
  shows "env_lookup (fst (update_env es v x REPLACE d updated orig)) v = Some x \<and>
    env_lookup (fst (update_env es v x REPLACE d updated orig)) w = env_lookup es w"
  using update_entries_replace [OF assms(1,2), where x = x and d = d and orig = orig and es = es] assms(3) other_key [OF assms(3,1,2), of x]
  by (auto simp: update_env_def Let_def env_lookup_append split: option.splits)

theorem update_env_replaces_witness:
  "env_lookup (fst (update_env [Some ''A=1'', Some ''AB=2''] ''A'' ''9'' REPLACE '':'' {} {})) ''A'' = Some ''9'' \<and>
   env_lookup (fst (update_env [Some ''A=1'', Some ''AB=2''] ''A'' ''9'' REPLACE '':'' {} {})) ''AB'' = Some ''2''"
  using update_env_replaces [of "''A''" "''AB''" "[Some ''A=1'', Some ''AB=2'']" "''9''"]
  by (simp add: var_key_def)

text \<open>
  Appending or prepending looks for the new value anywhere in the entry, its name included:
  a path that is a prefix of one already in the list is never added.
\<close>
theorem append_skips_substring:
  assumes "take (length (var_key v)) e = var_key v" and "find_string e x \<noteq> None"
  shows "fst (update_env (Some e # es) v x APPEND d updated orig) = Some e # es \<and>
    fst (update_env (Some e # es) v x PREPEND d updated orig) = Some e # es"
  using assms by (auto simp: update_env_def find_string_0 new_entry_def)

theorem append_skips_substring_witness:
  "fst (update_env [Some ''LD_LIBRARY_PATH=/usr/lib64''] ''LD_LIBRARY_PATH'' ''/usr/lib'' APPEND '':'' {} {}) =
     [Some ''LD_LIBRARY_PATH=/usr/lib64'']"
  using append_skips_substring [of "''LD_LIBRARY_PATH''" "''LD_LIBRARY_PATH=/usr/lib64''" "''/usr/lib''" "[]"]
  by (simp add: var_key_def find_string_def)

text \<open>
  The path of the interpreter reaches a shell only when every character of it is harmless
  inside double quotes: with any other character nothing is run, whatever the command would do.
\<close>
theorem torch_path_no_injection:
  assumes "c \<in> set python" and "c \<in> {CHR 0x22, CHR 0x24, CHR 0x60, CHR 0x5C, CHR 0x0A, CHR 0x3B, CHR 0x20}"
  shows "discover_torch_libpath run direxists python = []"
proof -
  have "\<not> is_alnum c \<and> c \<notin> set ''/._-+''"
    using assms(2) by (auto simp: is_alnum_def is_digit_def)
  then have "\<not> is_safe_executable_path python"
    using assms(1) unfolding is_safe_executable_path_def list_all_iff by blast
  then show ?thesis
    by (simp add: discover_torch_libpath_def)
qed

theorem torch_path_no_injection_witness:
  "discover_torch_libpath (\<lambda>cmd. Some (''/x'', 0)) (\<lambda>d. True) ''a$(b)'' = []"
  using torch_path_no_injection [of "CHR 0x24" "''a$(b)''"] by simp

end
