(* ===== verification/Regular_Expression.thy ===== *)
theory Regular_Expression
  imports Main "HOL-Library.Char_ord"
begin

text \<open>
  \<open>std::regex\<close>, as far as the program uses it: literals, character classes, the anchors,
  alternatives, sequences and repetition, with \<open>std::regex_search\<close> and \<open>std::regex_match\<close>.

  A match is a pair of positions of the subject, so that the anchors have a meaning in the middle
  of a pattern. \<open>match_at\<close> is the definition of the standard; \<open>ends\<close> computes all ends of a match
  from a position, and \<open>ends_iff\<close> shows that it finds exactly the matches. Which of several
  matches the library would report does not matter to the program, which asks for the existence of
  one only.
\<close>

type_synonym char_ranges = "(char \<times> char) list"

definition in_ranges :: "char_ranges \<Rightarrow> char \<Rightarrow> bool" where
  "in_ranges rs c = list_ex (\<lambda>(a, b). (of_char a :: nat) \<le> of_char c \<and> (of_char c :: nat) \<le> of_char b) rs"

datatype regex =
    Lit string
  | Class char_ranges
  | Not_in char_ranges
  | Bol
  | Eol
  | Alt regex regex
  | Seq regex regex
  | Star regex

text \<open>Patterns written with several alternatives or in sequence.\<close>

fun alts :: "regex list \<Rightarrow> regex" where
  "alts [] = Class []"
| "alts [r] = r"
| "alts (r # rs) = Alt r (alts rs)"

definition lits :: "string list \<Rightarrow> regex" where
  "lits ss = alts (map Lit ss)"

fun seqs :: "regex list \<Rightarrow> regex" where
  "seqs [] = Lit []"
| "seqs [r] = r"
| "seqs (r # rs) = Seq r (seqs rs)"

definition plus :: "regex \<Rightarrow> regex" where
  "plus r = Seq r (Star r)"

text \<open>\<open>.\<close> of the ECMAScript grammar matches no line terminator.\<close>

definition any_char :: regex where
  "any_char = Not_in [(CHR 0x0A, CHR 0x0A), (CHR 0x0D, CHR 0x0D)]"

section \<open>What a pattern matches\<close>

inductive match_at :: "string \<Rightarrow> regex \<Rightarrow> nat \<Rightarrow> nat \<Rightarrow> bool" for s :: string where
  lit: "take (length t) (drop i s) = t \<Longrightarrow> match_at s (Lit t) i (i + length t)"
| cls: "i < length s \<Longrightarrow> in_ranges rs (s ! i) \<Longrightarrow> match_at s (Class rs) i (Suc i)"
| not_in: "i < length s \<Longrightarrow> \<not> in_ranges rs (s ! i) \<Longrightarrow> match_at s (Not_in rs) i (Suc i)"
| bol: "match_at s Bol 0 0"
| eol: "match_at s Eol (length s) (length s)"
| alt1: "match_at s r i j \<Longrightarrow> match_at s (Alt r r') i j"
| alt2: "match_at s r' i j \<Longrightarrow> match_at s (Alt r r') i j"
| seq: "match_at s r i k \<Longrightarrow> match_at s r' k j \<Longrightarrow> match_at s (Seq r r') i j"
| star0: "match_at s (Star r) i i"
| star: "match_at s r i k \<Longrightarrow> match_at s (Star r) k j \<Longrightarrow> match_at s (Star r) i j"

inductive_cases match_at_cases:
  "match_at s (Lit t) i j" "match_at s (Class rs) i j" "match_at s (Not_in rs) i j"
  "match_at s Bol i j" "match_at s Eol i j" "match_at s (Alt r r') i j" "match_at s (Seq r r') i j"

section \<open>Computing the ends of a match\<close>

text \<open>
  A repetition goes on from every end behind the position it started at. Each round moves the
  position, so as many rounds as there are characters left are enough.
\<close>

fun star_ends :: "(nat \<Rightarrow> nat list) \<Rightarrow> nat \<Rightarrow> nat \<Rightarrow> nat list" where
  "star_ends step 0 i = [i]"
| "star_ends step (Suc n) i = i # concat (map (star_ends step n) (filter (\<lambda>k. i < k) (step i)))"

fun ends :: "string \<Rightarrow> regex \<Rightarrow> nat \<Rightarrow> nat list" where
  "ends s (Lit t) i = (if take (length t) (drop i s) = t then [i + length t] else [])"
| "ends s (Class rs) i = (if i < length s \<and> in_ranges rs (s ! i) then [Suc i] else [])"
| "ends s (Not_in rs) i = (if i < length s \<and> \<not> in_ranges rs (s ! i) then [Suc i] else [])"
| "ends s Bol i = (if i = 0 then [0] else [])"
| "ends s Eol i = (if i = length s then [i] else [])"
| "ends s (Alt r r') i = ends s r i @ ends s r' i"
| "ends s (Seq r r') i = concat (map (ends s r') (ends s r i))"
| "ends s (Star r) i = star_ends (ends s r) (length s - i) i"

definition std_regex_search :: "string \<Rightarrow> regex \<Rightarrow> bool" where
  "std_regex_search s r = list_ex (\<lambda>i. ends s r i \<noteq> []) [0 ..< Suc (length s)]"

definition std_regex_match :: "string \<Rightarrow> regex \<Rightarrow> bool" where
  "std_regex_match s r = (length s \<in> set (ends s r 0))"

section \<open>The computation finds exactly the matches\<close>

lemma match_at_bounds: "match_at s r i j \<Longrightarrow> i \<le> length s \<Longrightarrow> i \<le> j \<and> j \<le> length s"
proof (induction rule: match_at.induct)
  case (lit t i)
  then have "min (length s - i) (length t) = length t"
    by (metis length_drop length_take)
  then show ?case
    using lit.prems by (simp add: min_def split: if_splits)
qed auto

lemma star_ends_match:
  assumes "\<And>i j. j \<in> set (step i) \<Longrightarrow> match_at s r i j"
  shows "j \<in> set (star_ends step n i) \<Longrightarrow> match_at s (Star r) i j"
proof (induction n arbitrary: i)
  case 0
  then show ?case by (simp add: match_at.star0)
next
  case (Suc n)
  then show ?case
    using assms by (auto intro: match_at.star0 match_at.star)
qed

lemma ends_match: "j \<in> set (ends s r i) \<Longrightarrow> match_at s r i j"
proof (induction r arbitrary: i j)
  case (Star r)
  then show ?case
    using star_ends_match [of "ends s r" s r] by simp
next
  case (Seq r r')
  then show ?case
    by simp (metis match_at.seq)
qed (auto intro: match_at.intros split: if_splits)

lemma match_star_ends:
  assumes "match_at s q i j" and "q = Star r" and "i \<le> length s" and "length s - i \<le> n"
    and "\<And>i j. match_at s r i j \<Longrightarrow> i \<le> length s \<Longrightarrow> j \<in> set (step i)"
  shows "j \<in> set (star_ends step n i)"
  using assms
proof (induction arbitrary: n rule: match_at.induct)
  case (star0 r' i)
  then show ?case by (cases n) auto
next
  case (star r' i k j)
  have k: "i \<le> k" "k \<le> length s"
    using match_at_bounds star by auto
  show ?case
  proof (cases "i = k")
    case True
    then show ?thesis using star by simp
  next
    case False
    then obtain m where m: "n = Suc m"
      using k star.prems by (cases n) auto
    have "j \<in> set (star_ends step m k)"
      using star.IH(2) [of m] star.prems k False m by auto
    moreover have "k \<in> set (step i)"
      using star by simp
    ultimately show ?thesis
      using k False m by auto
  qed
qed auto

lemma match_ends: "match_at s r i j \<Longrightarrow> i \<le> length s \<Longrightarrow> j \<in> set (ends s r i)"
proof (induction r arbitrary: i j)
  case (Seq r r')
  then show ?case
    using match_at_bounds by (fastforce elim!: match_at_cases)
next
  case (Star r)
  then show ?case
    using match_star_ends [of s "Star r" i j r "length s - i" "ends s r"] by simp
qed (auto elim!: match_at_cases)

theorem ends_iff: "i \<le> length s \<Longrightarrow> j \<in> set (ends s r i) \<longleftrightarrow> match_at s r i j"
  using ends_match match_ends by blast

theorem std_regex_search_iff: "std_regex_search s r \<longleftrightarrow> (\<exists>i j. i \<le> length s \<and> match_at s r i j)"
proof -
  have "std_regex_search s r \<longleftrightarrow> (\<exists>i \<le> length s. set (ends s r i) \<noteq> {})"
    unfolding std_regex_search_def list_ex_iff set_upt atLeast0LessThan lessThan_Suc_atMost by auto
  moreover have "set (ends s r i) \<noteq> {} \<longleftrightarrow> (\<exists>j. match_at s r i j)" if "i \<le> length s" for i
    unfolding ex_in_conv [symmetric] ends_iff [OF that] by (rule refl)
  ultimately show ?thesis
    by (simp only:) (simp add: conj_commute cong: conj_cong)
qed

theorem std_regex_match_iff: "std_regex_match s r \<longleftrightarrow> match_at s r 0 (length s)"
  by (simp add: std_regex_match_def ends_iff)

text \<open>A literal is found exactly in the strings that hold it.\<close>

lemma std_regex_search_Lit: "std_regex_search s (Lit t) \<longleftrightarrow> (\<exists>a b. s = a @ t @ b)"
proof
  assume "std_regex_search s (Lit t)"
  then obtain i where "i \<le> length s" "take (length t) (drop i s) = t"
    unfolding std_regex_search_iff by (auto elim: match_at_cases)
  then have "s = take i s @ t @ drop (length t) (drop i s)"
    by (metis append_take_drop_id)
  then show "\<exists>a b. s = a @ t @ b"
    by blast
next
  assume "\<exists>a b. s = a @ t @ b"
  then obtain a b where "s = a @ t @ b"
    by blast
  then have "match_at s (Lit t) (length a) (length a + length t)" "length a \<le> length s"
    by (auto intro: match_at.lit)
  then show "std_regex_search s (Lit t)"
    unfolding std_regex_search_iff by blast
qed

lemma std_regex_search_Alt: "std_regex_search s (Alt r r') \<longleftrightarrow> std_regex_search s r \<or> std_regex_search s r'"
  unfolding std_regex_search_iff by (auto elim!: match_at_cases intro: match_at.alt1 match_at.alt2)

lemma std_regex_search_alts: "std_regex_search s (alts rs) \<longleftrightarrow> list_ex (std_regex_search s) rs"
proof (induction rs rule: alts.induct)
  case 1
  then show ?case by (simp add: std_regex_search_def in_ranges_def list_ex_iff)
qed (auto simp: std_regex_search_Alt)

lemma std_regex_search_lits: "std_regex_search s (lits ts) \<longleftrightarrow> list_ex (\<lambda>t. std_regex_search s (Lit t)) ts"
  by (simp add: lits_def std_regex_search_alts list_ex_iff)

text \<open>Evaluating a pattern on a given string.\<close>

lemmas regex_simps = std_regex_search_def std_regex_match_def lits_def plus_def any_char_def in_ranges_def
  upt_rec_numeral upt_conv_Cons

end
