(* ===== verification/Instrument_Types.thy ===== *)
theory Instrument_Types
  imports Ordered_Set Regular_Expression Text_Paths
begin

text \<open>
  The data of the binary instrumenter \<open>rocprof-sys-instrument\<close>: the global settings of \<open>fwd.hpp\<close>
  and what it reads of the program under instrumentation.

  Dyninst is not part of the repository. Its objects are records of the answers the instrumenter
  asks for: a pointer that may be null is an option, a query that returns \<open>bool\<close> and fills a vector
  is an option of a list, and the points of an object at a location are a function of the location.
  The functions of timemory, the demangler and the constants of Dyninst's enumerations that the code
  uses are the record \<open>instr_externals\<close>.
\<close>

section \<open>Numbers as text\<close>

definition digit :: "nat \<Rightarrow> char" where
  "digit n = char_of (48 + n)"

fun dec :: "nat \<Rightarrow> string" where
  "dec n = (if n < 10 then [digit n] else dec (n div 10) @ [digit (n mod 10)])"

declare dec.simps [simp del]

section \<open>Dyninst's view of the mutatee\<close>

datatype procedure_loc =
  BPatch_entry | BPatch_exit | BPatch_locLoopEntry | BPatch_locLoopExit | BPatch_locOther

record point =
  pt_id :: nat
  uses_trap :: bool

type_synonym points = "point option list option"

record statement =
  line_number :: int
  line_offset :: int

datatype bb_instructions =
    Instructions "(nat \<times> string) list"
  | No_instructions
  | Dyninst_error string

record basic_block =
  bb_id :: nat
  bb_start :: u64
  bb_end :: u64
  bb_dominates :: "nat list"
  bb_read :: bb_instructions
  bb_entry_point :: "point option"
  bb_exit_point :: "point option"

record basic_loop =
  loop_blocks_exclusive :: "basic_block list"
  loop_points :: "procedure_loc \<Rightarrow> points"

record flow_graph =
  fg_blocks :: "basic_block list"
  fg_outer_loops :: "basic_loop list"
  contains_dynamic :: bool

record module_t =
  full_name :: string
  is_system_lib :: bool
  source_lines :: "u64 \<Rightarrow> statement list option"

record procedure_t =
  p_id :: nat
  demangled_name :: string
  mangled_name :: string
  has_module :: bool
  instrumentable :: bool
  p_address_range :: "(u64 \<times> u64) option"
  p_cfg :: "flow_graph option"
  p_points :: "procedure_loc \<Rightarrow> points"
  p_callees :: "string list"
  has_overlapping :: bool
  return_type :: "string option"
  parameters :: "(string \<times> string) list option"

section \<open>Settings\<close>

datatype CodeCoverageMode = CODECOV_NONE | CODECOV_FUNCTION | CODECOV_BASIC_BLOCK

record instr_settings =
  use_return_info :: bool
  use_args_info :: bool
  use_file_info :: bool
  use_line_info :: bool
  allow_overlapping :: bool
  loop_level_instr :: bool
  instr_dynamic_callsites :: bool
  instr_traps :: bool
  instr_loop_traps :: bool
  min_address_range :: u64
  min_loop_address_range :: u64
  min_instructions :: u64
  min_loop_instructions :: u64
  werror :: bool
  debug_print :: bool
  instr_print :: bool
  verbose_level :: int
  func_include :: "regex list"
  func_exclude :: "regex list"
  file_include :: "regex list"
  file_exclude :: "regex list"
  file_restrict :: "regex list"
  func_restrict :: "regex list"
  caller_include :: "regex list"
  instruction_exclude :: "regex list"
  coverage_mode :: CodeCoverageMode
  enabled_linkage :: "nat list"
  enabled_visibility :: "nat list"

section \<open>Functions of other libraries\<close>

text \<open>
  \<open>tim_join\<close> is timemory's \<open>join\<close> on pieces already printed; \<open>internal_libs\<close> is the table that
  \<open>get_internal_libs_data\<close> reads from the libraries of the system, in the order of its iteration.
\<close>

record instr_externals =
  tim_basename :: "string \<Rightarrow> string"
  tim_realpath :: "string \<Rightarrow> string"
  tim_join :: "string \<Rightarrow> string list \<Rightarrow> string"
  demangle_name :: "string \<Rightarrow> string"
  internal_libs :: "(string \<times> (string \<times> string list) list) list"
  sl_unknown :: nat
  sv_unknown :: nat
  no_category :: nat
  accepts_point :: "point \<Rightarrow> bool"

section \<open>Errors\<close>

text \<open>
  \<open>errprintf\<close> throws when warnings are errors or its level is negative; \<open>at\<close> throws on a key that
  is not there; \<open>Null_pointer\<close> stands for the use of a null pointer,
  \<open>Past_end\<close> for reading through an iterator behind the last element.
\<close>

datatype instr_error = Runtime_error string | Out_of_range | Null_pointer | Past_end

definition errprintf :: "instr_settings \<Rightarrow> int \<Rightarrow> string \<Rightarrow> instr_error option" where
  "errprintf cfg level msg = (if werror cfg \<or> level < 0 then Some (Runtime_error msg) else None)"

end
