(* ===== verification/Function_Signature.thy ===== *)
theory Function_Signature
  imports Instrument_Types
begin

text \<open>
  \<open>function_signature\<close>: the label under which a function or a loop is instrumented
  (\<open>function_signature.hpp\<close> and \<open>function_signature.cpp\<close>).

  \<open>get\<close> keeps the text it made in a mutable member: it is a function of the signature that returns
  the text and the signature with that member set. It throws when warnings are errors and a loop has
  no line information.
\<close>

abbreviation uint32_max :: u32 where "uint32_max \<equiv> - 1"

type_synonym location_t = "u64 \<times> u64"

record function_signature =
  m_loop :: bool
  m_info_beg :: bool
  m_info_end :: bool
  m_loop_num :: u32
  m_row :: location_t
  m_col :: location_t
  m_return :: string
  m_name :: string
  m_params :: string
  m_file :: string
  m_signature :: string

section \<open>Construction\<close>

definition after_last_slash :: "string \<Rightarrow> string" where
  "after_last_slash file =
     (if CHR ''/'' \<in> set file then rev (takeWhile (\<lambda>c. c \<noteq> CHR ''/'') (rev file)) else file)"

definition function_signature ::
  "(string \<Rightarrow> string) \<Rightarrow> string \<Rightarrow> string \<Rightarrow> string \<Rightarrow> location_t \<Rightarrow> location_t \<Rightarrow> bool \<Rightarrow> bool \<Rightarrow> bool \<Rightarrow>
   function_signature" where
  "function_signature demangle ret name file row col loop info_beg info_end =
     \<lparr>m_loop = loop, m_info_beg = info_beg, m_info_end = info_end, m_loop_num = uint32_max,
      m_row = row, m_col = col, m_return = ret, m_name = demangle name, m_params = ''()'',
      m_file = after_last_slash file, m_signature = []\<rparr>"

definition param_list :: "string list \<Rightarrow> string" where
  "param_list params =
     (let m = ''('' @ concat (map (\<lambda>p. p @ '', '') params);
          m = (if params \<noteq> [] then take (length m - 2) m else m)
      in m @ '')'')"

definition function_signature_with ::
  "(string \<Rightarrow> string) \<Rightarrow> string \<Rightarrow> string \<Rightarrow> string \<Rightarrow> string list \<Rightarrow> location_t \<Rightarrow> location_t \<Rightarrow> bool \<Rightarrow> bool \<Rightarrow>
   bool \<Rightarrow> function_signature" where
  "function_signature_with demangle ret name file params row col loop info_beg info_end =
     (function_signature demangle ret name file row col loop info_beg info_end)
       \<lparr>m_params := param_list params\<rparr>"

definition set_loop_number :: "u32 \<Rightarrow> function_signature \<Rightarrow> function_signature" where
  "set_loop_number n sig = sig\<lparr>m_loop_num := n\<rparr>"

section \<open>The text\<close>

definition row_col_str :: "u64 \<Rightarrow> u64 \<Rightarrow> string" where
  "row_col_str row col =
     (if row = 0 \<and> col = 0 then []
      else if 0 < col then ''{'' @ dec (unat row) @ '','' @ dec (unat col) @ ''}''
      else ''{'' @ dec (unat row) @ ''}'')"

text \<open>The four cases that print a location; \<open>None\<close> when none of them applies.\<close>

definition loop_location :: "function_signature \<Rightarrow> string option" where
  "loop_location sig =
     (let rc1 = row_col_str (fst (m_row sig)) (fst (m_col sig));
          rc2 = row_col_str (snd (m_row sig)) (snd (m_col sig))
      in if m_info_end sig \<and> rc1 \<noteq> [] \<and> rc2 \<noteq> [] \<and> rc1 \<noteq> rc2 then Some ('' ['' @ rc1 @ ''-'' @ rc2 @ '']'')
         else if m_info_end sig \<and> rc1 \<noteq> [] \<and> rc2 \<noteq> [] \<and> rc1 = rc2 then Some ('' ['' @ rc1 @ '']'')
         else if m_info_end sig \<and> rc1 \<noteq> [] \<and> rc2 = [] then Some ('' ['' @ rc1 @ '']'')
         else if \<not> m_info_end sig \<and> rc1 \<noteq> [] then Some ('' ['' @ rc1 @ '']'')
         else None)"

definition loop_text :: "instr_settings \<Rightarrow> function_signature \<Rightarrow> instr_error + string" where
  "loop_text cfg sig =
     (if \<not> m_loop sig then Inr []
      else case loop_location sig of
          Some t \<Rightarrow> Inr t
        | None \<Rightarrow>
           (if m_loop_num sig < uint32_max then Inr ('' [loop#'' @ dec (unat (m_loop_num sig)) @ '']'')
            else case errprintf cfg 3 ''line info is empty!'' of Some e \<Rightarrow> Inl e | None \<Rightarrow> Inr []))"

definition get :: "instr_settings \<Rightarrow> bool \<Rightarrow> bool \<Rightarrow> function_signature \<Rightarrow> instr_error + (string \<times> function_signature)" where
  "get cfg all_info save sig =
     (if \<not> all_info \<and> save \<and> m_signature sig \<noteq> [] then Inr (m_signature sig, sig)
      else case loop_text cfg sig of
          Inl e \<Rightarrow> Inl e
        | Inr loop \<Rightarrow>
           (let ss = (if (all_info \<or> use_return_info cfg) \<and> m_return sig \<noteq> [] then m_return sig @ '' '' else [])
                   @ m_name sig
                   @ (if all_info \<or> use_args_info cfg then m_params sig else [])
                   @ loop
                   @ (if (all_info \<or> use_file_info cfg) \<and> m_file sig \<noteq> [] then '' ['' @ m_file sig else [])
                   @ (if (all_info \<or> use_line_info cfg) \<and> 0 < fst (m_row sig)
                      then '':'' @ dec (unat (fst (m_row sig))) else [])
                   @ (if (all_info \<or> use_file_info cfg) \<and> m_file sig \<noteq> [] then '']'' else [])
            in Inr (ss, if save then sig\<lparr>m_signature := ss\<rparr> else sig)))"

definition get_coverage :: "instr_settings \<Rightarrow> bool \<Rightarrow> function_signature \<Rightarrow> instr_error + string" where
  "get_coverage cfg basic_block sig =
     (let ss = (if m_return sig \<noteq> [] then m_return sig @ '' '' else []) @ m_name sig @ m_params sig
      in if basic_block \<and> m_loop sig \<and> m_info_beg sig
         then (let ss = ss @ (if m_file sig \<noteq> [] then '' ['' @ m_file sig @ '']'' else [])
               in case loop_location sig of
                    Some t \<Rightarrow> Inr (ss @ t)
                  | None \<Rightarrow> (case errprintf cfg 3 ''line info is empty!'' of Some e \<Rightarrow> Inl e | None \<Rightarrow> Inr ss))
         else Inr (ss @ (if m_file sig \<noteq> [] then '' ['' @ m_file sig else [])
                      @ (if 0 < fst (m_row sig) then '':'' @ dec (unat (fst (m_row sig))) else [])
                      @ (if m_file sig \<noteq> [] then '']'' else [])))"

section \<open>Comparison\<close>

definition sig_equal :: "instr_settings \<Rightarrow> function_signature \<Rightarrow> function_signature \<Rightarrow> instr_error + bool" where
  "sig_equal cfg lhs rhs =
     (case get cfg False True lhs of
        Inl e \<Rightarrow> Inl e
      | Inr (a, _) \<Rightarrow> (case get cfg False True rhs of Inl e \<Rightarrow> Inl e | Inr (b, _) \<Rightarrow> Inr (a = b)))"

definition sig_less :: "function_signature \<Rightarrow> function_signature \<Rightarrow> bool" where
  "sig_less lhs rhs =
     (if m_loop lhs \<and> \<not> m_loop rhs then False
      else if \<not> m_loop lhs \<and> m_loop rhs then True
      else if m_loop_num lhs < uint32_max \<and> m_loop_num rhs = uint32_max then False
      else if m_loop_num lhs = uint32_max \<and> m_loop_num rhs < uint32_max then True
      else tie_lt (m_file lhs) (m_file rhs) (tie_lt (m_name lhs) (m_name rhs)
             (tie_lt (m_return lhs) (m_return rhs) (tie_lt (m_params lhs) (m_params rhs)
               (tie_lt (fst (m_row lhs)) (fst (m_row rhs)) (tie_lt (fst (m_col lhs)) (fst (m_col rhs))
                 (m_loop_num lhs < m_loop_num rhs)))))))"

section \<open>Facts\<close>

text \<open>Without a loop the text is always made.\<close>

lemma get_no_loop:
  assumes "\<not> m_loop sig"
  shows "\<exists>t sig'. get cfg all_info save sig = Inr (t, sig') \<and> \<not> m_loop sig' \<and> m_name sig' = m_name sig"
  using assms by (simp add: get_def loop_text_def Let_def)

text \<open>A second call returns what the first one made, whatever changed in between.\<close>

lemma get_cached:
  "m_signature sig \<noteq> [] \<Longrightarrow> get cfg False True sig = Inr (m_signature sig, sig)"
  by (simp add: get_def)

lemma get_then_loop_number:
  assumes "get cfg all_info True sig = Inr (t, sig')" and "t \<noteq> []"
  shows "get cfg False True (set_loop_number n sig') = Inr (t, set_loop_number n sig')"
proof -
  have "m_signature sig' = t"
    using assms by (auto simp: get_def Let_def split: if_splits sum.splits)
  then show ?thesis
    using assms(2) by (simp add: get_def set_loop_number_def)
qed

text \<open>\<open>operator<\<close> is the lexicographic order of a key, and so a strict weak order.\<close>

definition sig_key ::
  "function_signature \<Rightarrow> bool \<times> bool \<times> string \<times> string \<times> string \<times> string \<times> u64 \<times> u64 \<times> u32" where
  "sig_key s = (m_loop s, m_loop_num s < uint32_max, m_file s, m_name s, m_return s, m_params s,
     fst (m_row s), fst (m_col s), m_loop_num s)"

lemma uint32_max_cases: "n < uint32_max \<or> n = uint32_max"
  using word_order.extremum [of n] by (auto simp: order_le_less)

lemma sig_less_key: "sig_less a b \<longleftrightarrow> sig_key a < sig_key b"
  using uint32_max_cases [of "m_loop_num a"] uint32_max_cases [of "m_loop_num b"]
  unfolding sig_less_def sig_key_def tie_lt_eq less_pair less_bool_def
  by (cases "m_loop a"; cases "m_loop b") auto

interpretation signatures: weak_order sig_less
  unfolding sig_less_key [abs_def] by (rule weak_order_key)

end
