(* ===== verification/Source_Lines.thy ===== *)
theory Source_Lines
  imports Function_Signature
begin

text \<open>
  The labels of functions, loops and basic blocks from the line information of the binary:
  \<open>get_func_file_line_info\<close>, \<open>get_loop_file_line_info\<close> and \<open>get_basic_block_file_line_info\<close> of
  \<open>details.cpp\<close>. Line numbers are \<open>int\<close>s that are converted to \<open>unsigned long\<close>.
\<close>

definition get_return_type :: "procedure_t \<Rightarrow> string" where
  "get_return_type func =
     (if instrumentable func then (case return_type func of None \<Rightarrow> [] | Some t \<Rightarrow> t) else [])"

definition get_parameter_types :: "procedure_t \<Rightarrow> string list" where
  "get_parameter_types func =
     (if instrumentable func
      then (case parameters func of
              None \<Rightarrow> []
            | Some ps \<Rightarrow> map (\<lambda>(type_name, name). if type_name = [] then name else type_name) ps)
      else [])"

definition get_func_file_line_info :: "instr_externals \<Rightarrow> module_t \<Rightarrow> procedure_t \<Rightarrow> function_signature" where
  "get_func_file_line_info E md func =
     (let signature = function_signature_with (demangle_name E) (get_return_type func) (demangled_name func)
            (full_name md) (get_parameter_types func)
      in case p_address_range func of
          Some (base_addr, _) \<Rightarrow>
           (case source_lines md base_addr of
              Some (l # _) \<Rightarrow> signature (of_int (line_number l), 0) (0, 0) False True False
            | _ \<Rightarrow> signature (0, 0) (0, 0) False False False)
        | None \<Rightarrow> signature (0, 0) (0, 0) False False False)"

text \<open>The block of a loop that dominates the blocks before it.\<close>

definition loop_header :: "basic_block list \<Rightarrow> basic_block" where
  "loop_header blocks =
     foldl (\<lambda>block itr. if bb_id itr = bb_id block then block
                        else if bb_id block \<in> set (bb_dominates itr) then itr else block) (hd blocks) blocks"

definition max_line :: "int \<times> int \<Rightarrow> statement list \<Rightarrow> int \<times> int" where
  "max_line rc ls = foldl (\<lambda>(row, col) l. (max row (line_number l), max col (line_offset l))) rc ls"

definition get_loop_file_line_info ::
  "instr_externals \<Rightarrow> module_t \<Rightarrow> procedure_t \<Rightarrow> basic_loop \<Rightarrow> function_signature" where
  "get_loop_file_line_info E md func lp =
     (let blocks = loop_blocks_exclusive lp
      in if blocks = [] then function_signature (demangle_name E) [] [] [] (0, 0) (0, 0) False False False
         else
          (let block = loop_header blocks;
               signature = function_signature_with (demangle_name E) (get_return_type func)
                 (demangled_name func) (full_name md) (get_parameter_types func)
           in case source_lines md (bb_start block) of
               None \<Rightarrow> signature (0, 0) (0, 0) True False False
             | Some lines_beg \<Rightarrow>
                (let (row1, col1) = (case find (\<lambda>l. 0 < line_number l) lines_beg of
                        None \<Rightarrow> (0, 0) | Some l \<Rightarrow> (line_number l, line_offset l))
                 in if row1 = 0 \<and> col1 = 0 then signature (0, 0) (0, 0) False False False
                    else
                     (let (row2, col2) = max_line (0, 0) lines_beg;
                          col1 = (if col1 < 0 then 0 else col1)
                      in case source_lines md (bb_end block) of
                          Some lines_end \<Rightarrow>
                           (let (row2, col2) = max_line (row2, col2) lines_end;
                                col2 = (if col2 < 0 then 0 else col2);
                                row1 = (if row2 < row1 then row2 else row1)
                            in signature (of_int row1, of_int row2) (of_int col1, of_int col2) True True True)
                        | None \<Rightarrow>
                            signature (of_int row1, 0) (of_int col1, 0) True True False))))"

record basic_block_signature =
  start_addr :: u64
  last_addr :: u64
  bb_signature :: function_signature

definition block_file_line_info ::
  "instr_externals \<Rightarrow> module_t \<Rightarrow> procedure_t \<Rightarrow> basic_block \<Rightarrow> basic_block_signature" where
  "block_file_line_info E md func itr =
     (let signature = function_signature_with (demangle_name E) (get_return_type func) (demangled_name func)
            (full_name md) (get_parameter_types func)
      in \<lparr>start_addr = bb_start itr, last_addr = bb_end itr, bb_signature =
          (case source_lines md (bb_start itr) of
             Some (b # bs) \<Rightarrow>
              (let row1 = line_number b; col1 = line_offset b
               in case source_lines md (bb_end itr) of
                   Some (e # es) \<Rightarrow>
                    (let row2 = line_number (last (e # es)); col2 = line_offset (last (e # es));
                         (row1, row2) = (if row2 < row1 then (row2, row1) else (row1, row2));
                         (col1, col2) = (if row1 = row2 \<and> col2 < col1 then (col2, col1) else (col1, col2))
                     in signature (of_int row1, of_int row2) (of_int col1, of_int col2) True True True)
                 | _ \<Rightarrow> signature (of_int row1, 0) (of_int col1, 0) True True False)
           | _ \<Rightarrow> signature (0, 0) (0, 0) False False False)\<rparr>)"

text \<open>The result is a map from blocks; \<open>fg_blocks\<close> is the set of blocks in its order.\<close>

definition get_basic_block_file_line_info ::
  "instr_externals \<Rightarrow> module_t \<Rightarrow> procedure_t \<Rightarrow> instr_error + (basic_block \<times> basic_block_signature) list" where
  "get_basic_block_file_line_info E md func =
     (case p_cfg func of
        None \<Rightarrow> Inl Null_pointer
      | Some cfg \<Rightarrow> Inr (map (\<lambda>b. (b, block_file_line_info E md func b)) (fg_blocks cfg)))"

section \<open>Facts\<close>

lemma func_label_no_loop [simp]: "\<not> m_loop (get_func_file_line_info E md func)"
  by (simp add: get_func_file_line_info_def function_signature_with_def function_signature_def Let_def
      split: option.splits list.splits prod.splits)

end
