(* ===== verification/Symtab_Data.thy ===== *)
theory Symtab_Data
  imports Instrument_Types
begin

text \<open>
  The symbol tables of the instrumenter: \<open>process_modules\<close> and \<open>get_symtab_function\<close> of
  \<open>details.cpp\<close>, with the names of linkage and visibility.

  Dyninst's Symtab objects are records of the answers the code asks for. Keys that are pointers are
  numbers. The enumerators of linkage and visibility are their values; \<open>unknown\<close> is the value of
  \<open>SL_UNKNOWN\<close> or \<open>SV_UNKNOWN\<close>.
\<close>

section \<open>Tables\<close>

record symtab_symbol =
  sy_mangled :: string
  sy_typed :: string
  sy_linkage :: nat
  sy_visibility :: nat
  sy_function :: "nat option"

record symtab_func =
  sf_id :: nat
  sf_name :: string
  sf_symbols :: "symtab_symbol option list option"

record symtab_module =
  sm_id :: nat
  sm_full_name :: string
  sm_all_functions :: "symtab_func option list"

text \<open>\<open>std::map\<close>s keyed by a pointer keep the order of their keys and what stands under them.\<close>

record symtab_data_s =
  modules :: "symtab_module list"
  module_functions :: "nat \<rightharpoonup> symtab_func option list"
  symbols :: "(symtab_func \<times> symtab_symbol option list) list"
  mangled_symbol_names :: "string \<rightharpoonup> symtab_symbol"
  typed_func_names :: "string \<rightharpoonup> nat"
  typed_symbol_names :: "string \<rightharpoonup> symtab_symbol"

definition empty_symtab_data :: symtab_data_s where
  "empty_symtab_data = \<lparr>modules = [], module_functions = Map.empty, symbols = [],
     mangled_symbol_names = Map.empty, typed_func_names = Map.empty, typed_symbol_names = Map.empty\<rparr>"

definition symbols_at :: "nat \<Rightarrow> symtab_data_s \<Rightarrow> symtab_symbol option list option" where
  "symbols_at f d = map_option snd (find (\<lambda>e. sf_id (fst e) = f) (symbols d))"

definition emplace_symbols :: "symtab_func \<Rightarrow> symtab_symbol option list \<Rightarrow> symtab_data_s \<Rightarrow> symtab_data_s" where
  "emplace_symbols f syms d =
     (if symbols_at (sf_id f) d \<noteq> None then d
      else d\<lparr>symbols := insort_by (\<lambda>a b. sf_id (fst a) < sf_id (fst b)) (f, syms) (symbols d)\<rparr>)"

definition set_symbols :: "nat \<Rightarrow> symtab_symbol option list \<Rightarrow> symtab_data_s \<Rightarrow> symtab_data_s" where
  "set_symbols f syms d =
     d\<lparr>symbols := map (\<lambda>e. if sf_id (fst e) = f then (fst e, syms) else e) (symbols d)\<rparr>"

section \<open>Reading the modules\<close>

definition erase_nullptrs :: "'a option list \<Rightarrow> 'a option list" where
  "erase_nullptrs vec = filter (\<lambda>p. p \<noteq> None) vec"

definition add_symbol :: "symtab_data_s \<Rightarrow> symtab_symbol option \<Rightarrow> symtab_data_s" where
  "add_symbol d sitr =
     (case sitr of
        None \<Rightarrow> d
      | Some s \<Rightarrow> d\<lparr>mangled_symbol_names := (mangled_symbol_names d)(sy_mangled s \<mapsto> s),
                   typed_symbol_names := (typed_symbol_names d)(sy_typed s \<mapsto> s)\<rparr>)"

definition add_function :: "(string \<Rightarrow> string) \<Rightarrow> symtab_data_s \<Rightarrow> symtab_func option \<Rightarrow> symtab_data_s" where
  "add_function demangle d fitr =
     (case fitr of
        None \<Rightarrow> d
      | Some f \<Rightarrow>
         (let d = d\<lparr>typed_func_names := (typed_func_names d)(demangle (sf_name f) \<mapsto> sf_id f)\<rparr>;
              d = emplace_symbols f [] d
          in case sf_symbols f of
               None \<Rightarrow> d
             | Some syms \<Rightarrow>
                (let d = set_symbols (sf_id f) (erase_nullptrs syms) d
                 in foldl add_symbol d (erase_nullptrs syms))))"

text \<open>
  The loop body for one module. The vector under the module is made empty; the result of
  \<open>getAllFunctions\<close> is only asked whether it is empty.
\<close>

definition process_module ::
  "(string \<Rightarrow> string) \<Rightarrow> (string \<Rightarrow> string option) \<Rightarrow> symtab_data_s \<Rightarrow> symtab_module \<Rightarrow> symtab_data_s" where
  "process_module demangle basename d itr =
     (case basename (sm_full_name itr) of
        None \<Rightarrow> d
      | Some _ \<Rightarrow>
         (let d = (if sm_id itr \<in> dom (module_functions d) then d
                   else d\<lparr>module_functions := (module_functions d)(sm_id itr \<mapsto> [])\<rparr>)
          in if sm_all_functions itr = [] then d
             else (let fs = erase_nullptrs (the (module_functions d (sm_id itr)));
                       d = d\<lparr>module_functions := (module_functions d)(sm_id itr \<mapsto> fs)\<rparr>
                   in foldl (add_function demangle) d fs)))"

definition process_modules ::
  "(string \<Rightarrow> string) \<Rightarrow> (string \<Rightarrow> string option) \<Rightarrow> symtab_module option list \<Rightarrow> symtab_data_s \<Rightarrow>
   symtab_data_s" where
  "process_modules demangle basename app_modules d =
     (let d = d\<lparr>modules := modules d @ map the (erase_nullptrs app_modules)\<rparr>
      in if modules d = [] then d else foldl (process_module demangle basename) d (modules d))"

section \<open>Lookup\<close>

definition get_symtab_function :: "procedure_t \<Rightarrow> symtab_data_s \<Rightarrow> nat option" where
  "get_symtab_function func d =
     (let name = mangled_name func; dname = demangled_name func
      in case mangled_symbol_names d name of
          Some s \<Rightarrow> sy_function s
        | None \<Rightarrow> (case find (\<lambda>e. name = sf_name (fst e)) (symbols d) of
          Some e \<Rightarrow> Some (sf_id (fst e))
        | None \<Rightarrow> (case typed_func_names d dname of
          Some f \<Rightarrow> Some f
        | None \<Rightarrow> (case typed_symbol_names d dname of
          Some s \<Rightarrow> sy_function s
        | None \<Rightarrow> None))))"

text \<open>The smallest known value of the symbols; \<open>at\<close> throws when the function has no entry.\<close>

definition least_known :: "nat \<Rightarrow> nat list \<Rightarrow> nat" where
  "least_known unknown vs =
     foldl (\<lambda>v l. if unknown < l then (if v = unknown then l else min v l) else v) unknown vs"

definition get_linkage :: "nat \<Rightarrow> nat option \<Rightarrow> symtab_data_s \<Rightarrow> instr_error + nat" where
  "get_linkage unknown symtab_function d =
     (case symtab_function of
        None \<Rightarrow> Inr unknown
      | Some f \<Rightarrow> (case symbols_at f d of
                     None \<Rightarrow> Inl Out_of_range
                   | Some syms \<Rightarrow> Inr (least_known unknown (map (sy_linkage \<circ> the) syms))))"

definition get_visibility :: "nat \<Rightarrow> nat option \<Rightarrow> symtab_data_s \<Rightarrow> instr_error + nat" where
  "get_visibility unknown symtab_function d =
     (case symtab_function of
        None \<Rightarrow> Inr unknown
      | Some f \<Rightarrow> (case symbols_at f d of
                     None \<Rightarrow> Inl Out_of_range
                   | Some syms \<Rightarrow> Inr (least_known unknown (map (sy_visibility \<circ> the) syms))))"

text \<open>
  The names of the enumerators: \<open>str\<close> is Dyninst's name, of which the prefix of three characters
  is cut off. \<open>from_string\<close> tries the five enumerators in turn, the first of them being the unknown one.
\<close>

definition lower :: "char \<Rightarrow> char" where
  "lower c = (if (65 :: nat) \<le> of_char c \<and> (of_char c :: nat) \<le> 90 then char_of (of_char c + 32 :: nat) else c)"

definition enum_to_string :: "(nat \<Rightarrow> string) \<Rightarrow> nat \<Rightarrow> string" where
  "enum_to_string str v = map lower (drop 3 (str v))"

definition enum_from_string :: "(nat \<Rightarrow> string) \<Rightarrow> nat list \<Rightarrow> string \<Rightarrow> nat" where
  "enum_from_string str enumerators v =
     (case find (\<lambda>itr. v = enum_to_string str itr) enumerators of Some itr \<Rightarrow> itr | None \<Rightarrow> hd enumerators)"

section \<open>The tables stay empty\<close>

definition no_functions :: "symtab_data_s \<Rightarrow> bool" where
  "no_functions d \<longleftrightarrow> ran (module_functions d) \<subseteq> {[]} \<and> symbols d = [] \<and> mangled_symbol_names d = Map.empty \<and>
     typed_func_names d = Map.empty \<and> typed_symbol_names d = Map.empty"

lemma no_functions_empty: "no_functions empty_symtab_data"
  by (simp add: no_functions_def empty_symtab_data_def)

lemma process_module_no_functions:
  assumes "no_functions d"
  shows "no_functions (process_module demangle basename d itr)"
proof -
  have "module_functions d m = Some fs \<Longrightarrow> fs = []" for m fs
    using assms by (auto simp: no_functions_def ran_def)
  then have "the (((module_functions d)(sm_id itr \<mapsto> [])) (sm_id itr)) = []"
    and "sm_id itr \<in> dom (module_functions d) \<Longrightarrow> the (module_functions d (sm_id itr)) = []"
    by auto
  then show ?thesis
    using assms by (auto simp: process_module_def no_functions_def Let_def erase_nullptrs_def ran_def
      split: option.splits)
qed

lemma process_modules_no_functions:
  assumes "no_functions d"
  shows "no_functions (process_modules demangle basename app_modules d)"
proof -
  have "no_functions e \<Longrightarrow> no_functions (foldl (process_module demangle basename) e ms)" for e ms
    by (induction ms arbitrary: e) (auto intro: process_module_no_functions)
  moreover have "no_functions (d\<lparr>modules := ms\<rparr>)" for ms
    using assms by (simp add: no_functions_def)
  ultimately show ?thesis
    by (simp add: process_modules_def Let_def)
qed

lemma no_functions_lookup: "no_functions d \<Longrightarrow> get_symtab_function f d = None"
  by (simp add: no_functions_def get_symtab_function_def Let_def)

lemma enum_roundtrip:
  assumes "v \<in> set enumerators" and "inj_on (enum_to_string str) (set enumerators)"
  shows "enum_from_string str enumerators (enum_to_string str v) = v"
proof (cases "find (\<lambda>itr. enum_to_string str v = enum_to_string str itr) enumerators")
  case None
  then show ?thesis
    using assms(1) unfolding find_None_iff by blast
next
  case (Some w)
  then obtain i where "i < length enumerators" "w = enumerators ! i" "enum_to_string str v = enum_to_string str w"
    unfolding find_Some_iff by blast
  then have "w = v"
    using assms inj_onD [of "enum_to_string str" "set enumerators" w v] by force
  then show ?thesis
    using Some by (simp add: enum_from_string_def)
qed

end
