(* ===== verification/Insert_Points.thy ===== *)
theory Insert_Points
  imports Instrument_Types
begin

text \<open>
  Instrumentation points: \<open>query_instr\<close> (end of \<open>rocprof-sys-instrument.cpp\<close>) counts them and
  \<open>insert_instr\<close> (\<open>rocprof-sys-instrument.hpp\<close>) asks Dyninst to insert a call at each of them.

  The requests made of Dyninst are recorded in order. Whether Dyninst accepts one is the argument
  \<open>accepts\<close>; only the variant for basic blocks looks at it.
\<close>

section \<open>Calls to insert\<close>

datatype snippet_arg = Str_arg string | Num_arg u64

record call_expr =
  callee :: nat
  call_args :: "snippet_arg list"

type_synonym str_msg = "int \<times> string \<times> string \<times> string \<times> string"

record instr_state =
  messages :: "str_msg list"
  requests :: "(call_expr \<times> point) list"

definition call_expr_get :: "snippet_arg list \<Rightarrow> nat option \<Rightarrow> call_expr option" where
  "call_expr_get params func = map_option (\<lambda>f. \<lparr>callee = f, call_args = params\<rparr>) func"

definition insert_snippet :: "call_expr \<Rightarrow> point \<Rightarrow> instr_state \<Rightarrow> instr_state" where
  "insert_snippet trace p s = s\<lparr>requests := requests s @ [(trace, p)]\<rparr>"

section \<open>Counting\<close>

definition count_points :: "points \<Rightarrow> nat \<times> nat" where
  "count_points pts =
     (case pts of
        None \<Rightarrow> (0, 0)
      | Some ps \<Rightarrow> foldl (\<lambda>(n, t) itr.
          case itr of None \<Rightarrow> (n, t) | Some p \<Rightarrow> (n + 1, if uses_trap p then t + 1 else t)) (0, 0) ps)"

definition query_instr ::
  "procedure_t \<Rightarrow> procedure_loc \<Rightarrow> flow_graph option \<Rightarrow> basic_loop option \<Rightarrow> instr_error + nat \<times> nat" where
  "query_instr func loc cfGraph loop =
     (if \<not> has_module func then Inr (0, 0)
      else let cfGraph = (if cfGraph = None then p_cfg func else cfGraph)
           in if (cfGraph \<noteq> None \<and> loop \<noteq> None) \<or> loc = BPatch_locLoopEntry \<or> loc = BPatch_locLoopExit
              then (if cfGraph = None then Inl (Runtime_error ''No control flow graph'')
                    else case loop of
                        None \<Rightarrow> Inl (Runtime_error ''No loop to instrument'')
                      | Some l \<Rightarrow>
                         if loc = BPatch_entry \<or> loc = BPatch_locLoopEntry
                         then Inr (count_points (loop_points l BPatch_locLoopEntry))
                         else if loc = BPatch_exit \<or> loc = BPatch_locLoopExit
                         then Inr (count_points (loop_points l BPatch_locLoopExit))
                         else Inl (Runtime_error ''unsupported trace location''))
              else Inr (count_points (p_points func loc)))"

text \<open>The variant that answers whether a usable point is left.\<close>

definition query_instr_any ::
  "procedure_t \<Rightarrow> procedure_loc \<Rightarrow> flow_graph option \<Rightarrow> basic_loop option \<Rightarrow> bool \<Rightarrow> bool" where
  "query_instr_any func loc cfGraph loop allow_traps =
     (if \<not> has_module func then False
      else let pts = (case (cfGraph, loop) of
                   (Some _, Some l) \<Rightarrow> (if loc = BPatch_entry then loop_points l BPatch_locLoopEntry
                                      else if loc = BPatch_exit then loop_points l BPatch_locLoopExit
                                      else None)
                 | _ \<Rightarrow> p_points func loc)
           in case pts of
                None \<Rightarrow> False
              | Some ps \<Rightarrow> ps \<noteq> [] \<and>
                  0 < foldl (\<lambda>n itr. case itr of None \<Rightarrow> n - 1
                               | Some p \<Rightarrow> if \<not> allow_traps \<and> uses_trap p then n - 1 else n) (length ps) ps)"

section \<open>Inserting\<close>

definition trap_points :: "bool \<Rightarrow> point option list \<Rightarrow> point set" where
  "trap_points allow_traps ps =
     (if allow_traps then {} else set (filter uses_trap (map the (filter (\<lambda>p. p \<noteq> None) ps))))"

text \<open>The loop both vector variants end with: the number of points and the state.\<close>

definition insert_loop ::
  "call_expr \<Rightarrow> point set \<Rightarrow> point option list \<Rightarrow> instr_state \<Rightarrow> nat \<times> instr_state" where
  "insert_loop trace traps ps s =
     foldl (\<lambda>(n, s) itr. case itr of
          None \<Rightarrow> (n, s)
        | Some p \<Rightarrow> if p \<in> traps then (n, s) else (n + 1, insert_snippet trace p s)) (0, s) ps"

definition insert_instr_points ::
  "call_expr option \<Rightarrow> point option list \<Rightarrow> bool \<Rightarrow> instr_state \<Rightarrow> bool \<times> instr_state" where
  "insert_instr_points traceFunc ps allow_traps s =
     (case traceFunc of
        None \<Rightarrow> (False, s)
      | Some trace \<Rightarrow>
         if ps = [] then (False, s)
         else (let (n, s) = insert_loop trace (trap_points allow_traps ps) ps s in (0 < n, s)))"

definition insert_instr ::
  "procedure_t \<Rightarrow> call_expr option \<Rightarrow> procedure_loc \<Rightarrow> flow_graph option \<Rightarrow> basic_loop option \<Rightarrow> bool \<Rightarrow>
   instr_state \<Rightarrow> bool \<times> instr_state" where
  "insert_instr func traceFunc loc cfGraph loop allow_traps s =
     (case traceFunc of
        None \<Rightarrow> (False, s)
      | Some trace \<Rightarrow>
         if \<not> has_module func then (False, s)
         else let pts = (case (cfGraph, loop) of
                   (Some _, Some l) \<Rightarrow> (if loc = BPatch_entry then loop_points l BPatch_locLoopEntry
                                      else if loc = BPatch_exit then loop_points l BPatch_locLoopExit
                                      else None)
                 | _ \<Rightarrow> p_points func loc)
              in case pts of
                   None \<Rightarrow> (False, s)
                 | Some ps \<Rightarrow>
                    if ps = [] then (False, s)
                    else (let (n, s) = insert_loop trace (trap_points allow_traps ps) ps s in (0 < n, s)))"

definition insert_instr_block ::
  "(point \<Rightarrow> bool) \<Rightarrow> call_expr option \<Rightarrow> procedure_loc \<Rightarrow> basic_block \<Rightarrow> bool \<Rightarrow> instr_state \<Rightarrow>
   instr_error + (bool \<times> instr_state)" where
  "insert_instr_block accepts traceFunc loc block allow_traps s =
     (case (if loc = BPatch_entry then bb_entry_point block
            else if loc = BPatch_exit then bb_exit_point block else None) of
        None \<Rightarrow> Inr (False, s)
      | Some p \<Rightarrow>
         if \<not> allow_traps \<and> uses_trap p then Inr (False, s)
         else (case traceFunc of
                 None \<Rightarrow> Inl Null_pointer
               | Some trace \<Rightarrow> Inr (accepts p, insert_snippet trace p s)))"

section \<open>What is usable\<close>

definition usable :: "bool \<Rightarrow> points \<Rightarrow> point list" where
  "usable allow_traps pts =
     (case pts of
        None \<Rightarrow> []
      | Some ps \<Rightarrow> filter (\<lambda>p. allow_traps \<or> \<not> uses_trap p) (map the (filter (\<lambda>p. p \<noteq> None) ps)))"

lemma foldl_count:
  "foldl (\<lambda>(n, t) itr. case itr of None \<Rightarrow> (n, t) | Some p \<Rightarrow> (n + 1, if uses_trap p then t + 1 else t)) (n, t) ps =
     (n + length (usable True (Some ps)), t + length (filter uses_trap (usable True (Some ps))))"
  by (induction ps arbitrary: n t) (auto simp: usable_def split: option.splits)

lemma count_points_usable:
  "count_points pts = (length (usable True pts), length (filter uses_trap (usable True pts)))"
proof (cases pts)
  case (Some ps)
  then show ?thesis
    using foldl_count [of 0 0 ps] unfolding count_points_def by (simp only: option.case add_0)
qed (simp add: count_points_def usable_def)

lemma usable_False: "usable False pts = filter (\<lambda>p. \<not> uses_trap p) (usable True pts)"
  by (cases pts) (simp_all add: usable_def)

lemma usable_None [simp]: "usable allow None = []"
  by (simp add: usable_def)

lemma usable_Nil [simp]: "usable allow (Some []) = []"
  by (simp add: usable_def)

lemma usable_Cons [simp]:
  "usable allow (Some (None # ps)) = usable allow (Some ps)"
  "usable allow (Some (Some p # ps)) =
    (if allow \<or> \<not> uses_trap p then p # usable allow (Some ps) else usable allow (Some ps))"
  by (simp_all add: usable_def)

lemma trap_points_iff: "Some p \<in> set ps \<Longrightarrow> p \<in> trap_points allow ps \<longleftrightarrow> \<not> allow \<and> uses_trap p"
  by (force simp: trap_points_def)

lemma insert_loop_requests:
  assumes "traps = trap_points allow qs" and "set ps \<subseteq> set qs"
  shows "insert_loop trace traps ps s =
    (length (usable allow (Some ps)),
     s\<lparr>requests := requests s @ map (Pair trace) (usable allow (Some ps))\<rparr>)"
proof -
  have "foldl (\<lambda>(n, s) itr. case itr of None \<Rightarrow> (n, s)
          | Some p \<Rightarrow> if p \<in> traps then (n, s) else (n + 1, insert_snippet trace p s)) (n, s) ps =
      (n + length (usable allow (Some ps)),
       s\<lparr>requests := requests s @ map (Pair trace) (usable allow (Some ps))\<rparr>)" for n
    using assms(2)
  proof (induction ps arbitrary: n s)
    case (Cons p ps)
    then show ?case
      by (cases p) (simp_all add: insert_snippet_def trap_points_iff [of _ qs allow, folded assms(1)])
  qed simp
  then show ?thesis
    by (simp add: insert_loop_def)
qed

lemma insert_instr_points_usable:
  "insert_instr_points (Some trace) ps allow s =
    (usable allow (Some ps) \<noteq> [], s\<lparr>requests := requests s @ map (Pair trace) (usable allow (Some ps))\<rparr>)"
  by (cases "ps = []") (simp_all add: insert_instr_points_def insert_loop_requests [OF refl subset_refl])

section \<open>The interface of counting and inserting\<close>

text \<open>
  What the instrumenter relies on: a query tells how many points there are and how many of them
  need a trap, and inserting succeeds exactly when a point is left that may be used.
\<close>

locale point_access =
  fixes query :: "'u \<Rightarrow> nat \<times> nat"
    and ins :: "'c \<Rightarrow> 'u \<Rightarrow> bool \<Rightarrow> 's \<Rightarrow> bool \<times> 's"
    and allowed :: "bool \<Rightarrow> 'u \<Rightarrow> point list"
  assumes query_all: "fst (query u) = length (allowed True u)"
    and query_traps: "fst (query u) - snd (query u) = length (allowed False u)"
    and traps_le: "snd (query u) \<le> fst (query u)"
    and ins_iff: "fst (ins c u allow s) \<longleftrightarrow> allowed allow u \<noteq> []"
begin

text \<open>The guards of the code leave exactly the units at which inserting succeeds.\<close>

lemma guards_suffice:
  assumes "fst (query u) \<noteq> 0" and "\<not> (\<not> allow \<and> fst (query u) - snd (query u) = 0)"
  shows "fst (ins c u allow s)"
  using assms query_all query_traps by (cases allow) (force simp: ins_iff)+

lemma guards_iff:
  "fst (query u) \<noteq> 0 \<and> \<not> (\<not> allow \<and> fst (query u) = snd (query u)) \<longleftrightarrow> allowed allow u \<noteq> []"
proof (cases allow)
  case False
  have "fst (query u) = snd (query u) \<longleftrightarrow> allowed False u = []" "fst (query u) = 0 \<Longrightarrow> allowed False u = []"
    using query_traps [of u] traps_le [of u] by auto
  then show ?thesis
    using False by auto
qed (use query_all [of u] in simp)

end

interpretation points: point_access count_points
    "\<lambda>c pts allow s. (case pts of None \<Rightarrow> (False, s) | Some ps \<Rightarrow> insert_instr_points (Some c) ps allow s)"
    usable
proof
  fix pts c allow s
  show "fst (count_points pts) = length (usable True pts)"
    by (simp add: count_points_usable)
  show "fst (count_points pts) - snd (count_points pts) = length (usable False pts)"
    using sum_length_filter_compl [of uses_trap "usable True pts"]
    by (simp add: count_points_usable usable_False)
  show "snd (count_points pts) \<le> fst (count_points pts)"
    by (simp add: count_points_usable)
  show "fst (case pts of None \<Rightarrow> (False, s) | Some ps \<Rightarrow> insert_instr_points (Some c) ps allow s) \<longleftrightarrow>
      usable allow pts \<noteq> []"
    by (cases pts) (simp_all add: insert_instr_points_usable)
qed

text \<open>The function and loop variants on the units they select.\<close>

definition unit_points :: "procedure_t \<Rightarrow> procedure_loc \<Rightarrow> flow_graph option \<Rightarrow> basic_loop option \<Rightarrow> points" where
  "unit_points func loc cfGraph loop =
     (case (cfGraph, loop) of
        (Some _, Some l) \<Rightarrow> loop_points l (if loc = BPatch_entry then BPatch_locLoopEntry else BPatch_locLoopExit)
      | _ \<Rightarrow> p_points func loc)"

lemma query_instr_points:
  assumes "loc = BPatch_entry \<or> loc = BPatch_exit" and "has_module func" and "loop = None \<or> cfGraph \<noteq> None"
  shows "query_instr func loc cfGraph loop = Inr (count_points (unit_points func loc cfGraph loop))"
  using assms by (auto simp: query_instr_def unit_points_def Let_def split: option.splits)

lemma insert_instr_requests:
  assumes "loc = BPatch_entry \<or> loc = BPatch_exit" and "has_module func"
  shows "insert_instr func (Some trace) loc cfGraph loop allow s =
    (usable allow (unit_points func loc cfGraph loop) \<noteq> [],
     s\<lparr>requests := requests s @ map (Pair trace) (usable allow (unit_points func loc cfGraph loop))\<rparr>)"
proof -
  have "insert_instr func (Some trace) loc cfGraph loop allow s =
      (case unit_points func loc cfGraph loop of None \<Rightarrow> (False, s)
       | Some ps \<Rightarrow> insert_instr_points (Some trace) ps allow s)"
    using assms unfolding insert_instr_def unit_points_def insert_instr_points_def Let_def option.case
    by (cases cfGraph; cases loop) (elim disjE; simp)+
  then show ?thesis
    by (cases "unit_points func loc cfGraph loop") (simp_all add: insert_instr_points_usable)
qed

end
