(* ===== verification/Module_Function.thy ===== *)
theory Module_Function
  imports Source_Lines Symtab_Data Insert_Points
begin

text \<open>
  \<open>module_function\<close>: one function of the program under instrumentation and the checks that decide
  whether it is instrumented (\<open>module_function.hpp\<close>, \<open>module_function.cpp\<close>,
  \<open>get_whole_function_names\<close> of \<open>details.cpp\<close>).

  The checks are \<open>const\<close> methods that append to the mutable list \<open>messages\<close>: a check is a function of
  the state \<open>instr_state\<close> with the answer and the new state, or the exception it throws. The pointers
  to the module and the function are not null, as the constructor reads through both.
\<close>

section \<open>Checks\<close>

type_synonym check = "instr_state \<Rightarrow> instr_error + (bool \<times> instr_state)"

definition answer :: "bool \<Rightarrow> check" where
  "answer b s = Inr (b, s)"

definition report :: "bool \<Rightarrow> int \<Rightarrow> string \<Rightarrow> string \<Rightarrow> string \<Rightarrow> string \<Rightarrow> check" where
  "report b lvl action type reason name s =
     Inr (b, s\<lparr>messages := messages s @ [(lvl, action, type, reason, name)]\<rparr>)"

text \<open>\<open>if(check() == stop) return result;\<close> and the rest of the body.\<close>

definition stop_if :: "check \<Rightarrow> bool \<Rightarrow> bool \<Rightarrow> check \<Rightarrow> check" where
  "stop_if c stop result rest s =
     (case c s of Inl e \<Rightarrow> Inl e | Inr (b, s) \<Rightarrow> if b = stop then Inr (result, s) else rest s)"

definition check_regex_restrictions :: "string \<Rightarrow> regex list \<Rightarrow> bool" where
  "check_regex_restrictions name regexes = list_ex (std_regex_search name) regexes"

section \<open>The object\<close>

record module_function =
  start_address :: u64
  address_range :: u64
  num_instructions :: u64
  mf_module :: module_t
  mf_function :: procedure_t
  symtab_function :: "nat option"
  mf_flow_graph :: "flow_graph option"
  mod_name :: string
  function_name :: string
  signature :: function_signature
  basic_blocks :: "basic_block list"
  loop_blocks :: "basic_loop list"
  instruction_types :: "nat \<rightharpoonup> int"
  instructions :: "(nat \<times> string) list list"

definition mf_less :: "module_function \<Rightarrow> module_function \<Rightarrow> bool" where
  "mf_less lhs rhs =
     tie_lt (mod_name lhs) (mod_name rhs) (tie_lt (function_name lhs) (function_name rhs)
      (tie_lt (start_address lhs) (start_address rhs) (tie_lt (address_range lhs) (address_range rhs)
        (num_instructions lhs < num_instructions rhs))))"

definition mf_equal :: "module_function \<Rightarrow> module_function \<Rightarrow> bool" where
  "mf_equal lhs rhs \<longleftrightarrow> start_address lhs = start_address rhs \<and> address_range lhs = address_range rhs \<and>
     num_instructions lhs = num_instructions rhs \<and> mod_name lhs = mod_name rhs \<and>
     function_name lhs = function_name rhs"

definition add_instructions :: "(nat \<rightharpoonup> int) \<Rightarrow> (nat \<times> string) list \<Rightarrow> (nat \<rightharpoonup> int)" where
  "add_instructions types is =
     foldl (\<lambda>m (c, _). m(c \<mapsto> (case m c of None \<Rightarrow> 0 | Some n \<Rightarrow> n) + 1)) types is"

text \<open>The loop over the basic blocks. The instructions are kept only for printing.\<close>

definition keeps_instructions :: "instr_settings \<Rightarrow> bool" where
  "keeps_instructions cfg \<longleftrightarrow> debug_print cfg \<or> verbose_level cfg > 3 \<or> instr_print cfg"

fun read_blocks :: "instr_settings \<Rightarrow> basic_block list \<Rightarrow> module_function \<Rightarrow> instr_error + module_function" where
  "read_blocks cfg [] f = Inr f"
| "read_blocks cfg (b # bs) f =
     (case bb_read b of
        Instructions is \<Rightarrow>
         (let f = f\<lparr>num_instructions := num_instructions f + of_nat (length is),
                    instruction_types := add_instructions (instruction_types f) is\<rparr>;
              f = (if keeps_instructions cfg then f\<lparr>instructions := instructions f @ [is]\<rparr> else f)
          in read_blocks cfg bs f)
      | No_instructions \<Rightarrow>
          read_blocks cfg bs (f\<lparr>num_instructions := num_instructions f + (bb_end b - bb_start b) div 4\<rparr>)
      | Dyninst_error what \<Rightarrow>
         (case errprintf cfg 1 what of Some e \<Rightarrow> Inl e | None \<Rightarrow> read_blocks cfg bs f))"

definition make_module_function ::
  "instr_externals \<Rightarrow> instr_settings \<Rightarrow> symtab_data_s \<Rightarrow> module_t \<Rightarrow> procedure_t \<Rightarrow> instr_error + module_function" where
  "make_module_function E cfg d md proc =
     (let (start, range) = (case p_address_range proc of None \<Rightarrow> (0, 0) | Some (a, b) \<Rightarrow> (a, b - a));
          f = \<lparr>start_address = start, address_range = range, num_instructions = 0, mf_module = md,
               mf_function = proc,
               symtab_function = (if instrumentable proc then get_symtab_function proc d else None),
               mf_flow_graph = p_cfg proc, mod_name = full_name md, function_name = demangled_name proc,
               signature = get_func_file_line_info E md proc, basic_blocks = [], loop_blocks = [],
               instruction_types = (\<lambda>c. if c \<le> no_category E then Some 0 else None), instructions = []\<rparr>
      in if instrumentable proc
         then (case mf_flow_graph f of
                 None \<Rightarrow> Inr f
               | Some g \<Rightarrow> read_blocks cfg (fg_blocks g)
                           (f\<lparr>basic_blocks := fg_blocks g, loop_blocks := fg_outer_loops g\<rparr>))
         else Inr f)"

section \<open>Hard constraints\<close>

definition is_instrumentable :: "module_function \<Rightarrow> check" where
  "is_instrumentable f =
     (if \<not> instrumentable (mf_function f)
      then report False 2 ''Skipping'' ''module'' ''not-instrumentable'' (mod_name f) else answer True)"

definition can_instrument_at :: "procedure_loc \<Rightarrow> string \<Rightarrow> module_function \<Rightarrow> check" where
  "can_instrument_at loc reason f s =
     (case query_instr (mf_function f) loc None None of
        Inl e \<Rightarrow> Inl e
      | Inr (num_points, num_traps) \<Rightarrow>
          (if num_points = 0 then report False 3 ''Skipping'' ''function'' reason (function_name f)
           else answer True) s)"

definition can_instrument_entry :: "module_function \<Rightarrow> check" where
  "can_instrument_entry = can_instrument_at BPatch_entry ''no-instrumentable-entry-point''"

definition can_instrument_exit :: "module_function \<Rightarrow> check" where
  "can_instrument_exit = can_instrument_at BPatch_exit ''no-instrumentable-exit-point''"

text \<open>The expressions of \<open>is_internal_constrained\<close>.\<close>

definition internal_lib_regex :: regex where
  "internal_lib_regex = Seq (Lit ''lib'') (lits [''rocprof-sys'', ''rocprofsys'', ''timemory'', ''perfetto''])"

definition internal_source_regex :: regex where
  "internal_source_regex = seqs [Star any_char, Lit ''/source/lib/'',
     lits [''core'', ''common'', ''binary'', ''rocprofsys'', ''rocprofsys-dl'', ''rocprofsys-user''],
     Lit ''/'', Star any_char, Lit ''/'', Star any_char, Lit ''.'', lits [''h'', ''c'', ''cpp'', ''hpp''], Eol]"

definition rocprofsys_name_regex :: regex where
  "rocprofsys_name_regex =
     alts [Lit ''10rocprofsys'', Lit ''rocprofsys'', Seq (Lit ''rocprofsys'') (lits [''::'', ''_''])]"

definition timemory_name_regex :: regex where
  "timemory_name_regex = alts [Lit ''3tim'', Lit ''tim::'', Seq (Lit ''timemory'') (lits [''::'', ''_''])]"

definition perfetto_name_regex :: regex where
  "perfetto_name_regex = alts [Lit ''9perfetto'', Seq (Lit ''perfetto'') (lits [''::'', ''_''])]"

definition internal_lib_hit ::
  "instr_externals \<Rightarrow> module_function \<Rightarrow> string \<times> (string \<times> string list) list \<Rightarrow> string option" where
  "internal_lib_hit E f litr =
     (let base = tim_basename E (mod_name f); real = tim_realpath E (mod_name f);
          keys = map fst (snd litr)
      in if base = tim_basename E (fst litr) \<or> base \<in> set keys \<or> real = fst litr \<or> real \<in> set keys \<or>
            mod_name f \<in> set keys then Some ''module''
         else if list_ex (\<lambda>fitr. function_name f \<in> set (snd fitr)) (snd litr) then Some ''function''
         else None)"

fun internal_lib_loop ::
  "instr_externals \<Rightarrow> module_function \<Rightarrow> (string \<times> (string \<times> string list) list) list \<Rightarrow> check" where
  "internal_lib_loop E f [] = answer False"
| "internal_lib_loop E f (litr # libs) =
     (case internal_lib_hit E f litr of
        Some type \<Rightarrow> report True 3 ''Excluding'' type (tim_join E '' '' [''internal library'', fst litr]) (mod_name f)
      | None \<Rightarrow> internal_lib_loop E f libs)"

definition is_internal_constrained :: "instr_externals \<Rightarrow> module_function \<Rightarrow> check" where
  "is_internal_constrained E f =
     (let libs = map fst (internal_libs E);
          base = tim_basename E (mod_name f); real = tim_realpath E (mod_name f);
          excluding = (\<lambda>type reason. report True 3 ''Excluding'' type reason (mod_name f))
      in if std_regex_search (mod_name f) internal_lib_regex then excluding ''module'' ''rocprofsys''
         else if std_regex_match (mod_name f) internal_source_regex then excluding ''module'' ''rocprofsys''
         else if std_regex_search (function_name f) rocprofsys_name_regex then excluding ''function'' ''rocprofsys''
         else if std_regex_search (function_name f) timemory_name_regex then excluding ''function'' ''timemory''
         else if std_regex_search (function_name f) perfetto_name_regex then excluding ''function'' ''perfetto''
         else if mod_name f \<in> set libs \<or> real \<in> set libs \<or> base \<in> set libs
              then excluding ''module'' ''internal library''
         else internal_lib_loop E f (internal_libs E))"

text \<open>
  The expressions of \<open>is_module_constrained\<close>. In a bracket of the \<open>egrep\<close> grammar a backslash is
  an ordinary character.
\<close>

definition az :: char_ranges where "az = [(CHR ''a'', CHR ''z'')]"
definition AZ :: char_ranges where "AZ = [(CHR ''A'', CHR ''Z'')]"
definition one_char :: "char \<Rightarrow> char_ranges" where "one_char c = [(c, c)]"

definition ext_regex :: regex where
  "ext_regex = seqs [Lit ''.'', lits [''s'', ''S''], Eol]"

definition sys_regex :: regex where
  "sys_regex = seqs [Bol, lits [''s'', ''k'', ''e'', ''w''], Lit ''_'',
     plus (Class (AZ @ az @ one_char CHR ''_'' @ [(CHR ''0'', CHR ''9'')] @ one_char (CHR 0x5C) @
       one_char CHR ''-'')),
     Lit ''.'', lits [''c'', ''C''], Eol]"

definition sys_build_regex :: regex where
  "sys_build_regex = Seq Bol (lits [''../sysdeps/'', ''/build/''])"

definition dyninst_regex :: regex where
  "dyninst_regex = alts [Lit ''dyninst'', Lit ''DYNINST'',
     seqs [alts [Bol, Lit ''/''], Lit ''RT'', plus (Class [(CHR 0x21, CHR 0x7E)]), Lit ''.c'', Eol]]"

definition dependlib_regex :: regex where
  "dependlib_regex = seqs [Bol, lits [''lib'', ''''],
     lits [''rocprof-sys'', ''rocprofsys'', ''pthread'', ''caliper'', ''gotcha'', ''papi'', ''cupti'', ''TAU'',
       ''likwid'', ''pfm'', ''nvperf'', ''unwind'']]"

definition core_cmod_regex :: regex where
  "core_cmod_regex = seqs [Bol,
     alts [Lit ''malloc'', Seq (lits [''f'', '''']) (Lit ''lock''), Lit ''sig'', Lit ''sem''],
     plus (Class (az @ one_char CHR ''_'')), lits ['''', ''64'', ''_r'', ''_l''], Lit ''.c'', Eol]"

definition core_lib_regex :: regex where
  "core_lib_regex = seqs [Lit ''lib'', Lit ''elf'', lits [''-'', ''.'']]"

definition is_module_constrained :: "module_function \<Rightarrow> check" where
  "is_module_constrained f =
     (let name = mod_name f; excluding = (\<lambda>reason. report True 3 ''Excluding'' ''module'' reason name)
      in if is_system_lib (mf_module f) then excluding ''system library''
         else if name = ''DEFAULT_MODULE'' \<or> name = ''LIBRARY_MODULE'' then answer False
         else if std_regex_search name ext_regex then excluding ''file extension''
         else if std_regex_search name sys_regex \<or> std_regex_search name sys_build_regex
              then excluding ''system module''
         else if std_regex_search name dyninst_regex then excluding ''dyninst module''
         else if std_regex_search name core_lib_regex \<or> std_regex_search name core_cmod_regex
              then excluding ''core module''
         else if std_regex_search name dependlib_regex then excluding ''dependency module''
         else answer False)"

text \<open>The names and expressions of \<open>is_routine_constrained\<close>.\<close>

definition get_whole_function_names :: "string list" where
  "get_whole_function_names = [
    ''sem_init'', ''sem_destroy'', ''sem_open'', ''sem_close'', ''sem_post'', ''sem_wait'',
    ''sem_getvalue'', ''sem_clockwait'', ''sem_timedwait'', ''sem_trywait'', ''sem_unlink'',
    ''fork'', ''do_futex_wait'', ''dl_iterate_phdr'', ''dlinfo'', ''dlopen'', ''dlmopen'',
    ''dlvsym'', ''dlsym'', ''dlerror'', ''dladdr'', ''_dl_sym'', ''_dl_vsym'', ''_dl_addr'',
    ''_dl_relocate_static_pie'', ''getenv'', ''setenv'', ''unsetenv'', ''printf'', ''fprintf'',
    ''vprintf'', ''buffered_vfprintf'', ''vfprintf'', ''printf_positional'', ''puts'', ''fputs'',
    ''vfputs'', ''fflush'', ''fwrite'', ''malloc'', ''malloc_stats'', ''malloc_trim'', ''mallopt'',
    ''calloc'', ''free'', ''pvalloc'', ''valloc'', ''sysmalloc'', ''posix_memalign'', ''freehook'',
    ''mallochook'', ''memalignhook'', ''mprobe'', ''reallochook'', ''mmap'', ''munmap'', ''fopen'',
    ''fclose'', ''fmemopen'', ''fmemclose'', ''backtrace'', ''backtrace_symbols'',
    ''backtrace_symbols_fd'', ''sigaddset'', ''sigandset'', ''sigdelset'', ''sigemptyset'',
    ''sigfillset'', ''sighold'', ''sigisemptyset'', ''sigismember'', ''sigorset'', ''sigrelse'',
    ''sigvec'', ''strtok'', ''strstr'', ''sbrk'', ''strxfrm'', ''atexit'', ''ompt_start_tool'',
    ''nanosleep'', ''cfree'', ''tolower'', ''toupper'', ''fileno'', ''fileno_unlocked'', ''exit'',
    ''quick_exit'', ''abort'', ''mbind'', ''migrate_pages'', ''move_pages'',
    ''numa_migrate_pages'', ''numa_move_pages'', ''numa_alloc'', ''numa_alloc_local'',
    ''numa_alloc_interleaved'', ''numa_alloc_onnode'', ''numa_realloc'', ''numa_free'',
    ''round_and_return'', ''_init'', ''_fini'', ''_start'', ''__do_global_dtors_aux'',
    ''__libc_csu_init'', ''__libc_csu_fini'', ''__hip_module_ctor'', ''__hip_module_dtor'',
    ''__hipRegisterManagedVar'', ''__hipRegisterFunction'', ''__hipPushCallConfiguration'',
    ''__hipPopCallConfiguration'', ''hipApiName'', ''enlarge_userbuf'',
    ''rocr::core::Signal::WaitAny'', ''rocr::core::Runtime::AsyncEventsLoop'',
    ''rocr::core::BusyWaitSignal::WaitAcquire'', ''rocr::core::BusyWaitSignal::WaitRelaxed'',
    ''rocr::HSA::hsa_signal_wait_scacquire'', ''rocr::os::ThreadTrampoline'',
    ''rocr::image::ImageRuntime::CreateImageManager'', ''rocr::AMD::GpuAgent::GetInfo'',
    ''rocr::HSA::hsa_agent_get_info'', ''event_base_loop'', ''bootstrapRoot'',
    ''bootstrapNetAccept'', ''ncclCommInitRank'', ''ncclCommInitAll'', ''ncclCommDestroy'',
    ''ncclCommCount'', ''ncclCommCuDevice'', ''ncclCommUserRank'', ''ncclReduce'', ''ncclBcast'',
    ''ncclBroadcast'', ''ncclAllReduce'', ''ncclReduceScatter'', ''ncclAllGather'',
    ''ncclGroupStart'', ''ncclGroupEnd'', ''ncclSend'', ''ncclRecv'', ''ncclGather'',
    ''ncclScatter'', ''ncclAllToAll'', ''ncclAllToAllv'', ''ncclSocketAccept'', ''vaBeginPicture'',
    ''vaCreateBuffer'', ''vaCreateConfig'', ''vaCreateContext'', ''vaCreateSurfaces'',
    ''vaDestroySurfaces'', ''vaSyncSurface'', ''vaDestroyBuffer'', ''vaDestroyConfig'',
    ''vaDestroyContext'', ''vaEndPicture'', ''vaExportSurfaceHandle'', ''vaGetConfigAttributes'',
    ''vaInitialize'', ''vaQueryConfigEntrypoints'', ''vaQuerySurfaceAttributes'',
    ''vaQuerySurfaceStatus'', ''vaRenderPicture'', ''vaTerminate'', ''vaDisplayIsValid'']"

definition whole_function_names :: "string list" where
  "whole_function_names =
     get_whole_function_names @
     concat (map (\<lambda>ext. map (\<lambda>n. n @ ext) get_whole_function_names) [''64'', ''_l'', ''_r''])"

definition exclude_regex :: regex where
  "exclude_regex = lits [''rocprofsys'', ''rocprof-sys'', ''tim::'', ''MPI_Init'', ''MPI_Finalize'', ''dyninst'',
     ''DYNINST'', ''tm_clones'']"

definition exclude_cxx_regex :: regex where
  "exclude_cxx_regex = alts [Lit ''std::_Sp_counted_base'',
     seqs [Lit ''std::'', lits [''use'', ''has''], Lit ''_facet''], Lit ''std::locale'', Lit ''::sentry'',
     Seq Bol (Lit ''std::_''), seqs [Lit ''::_'', lits [''M'', ''S''], Lit ''_''],
     seqs [Lit ''::basic_string'',
       plus (Class (az @ AZ @ one_char CHR '','' @ one_char CHR ''<'' @ one_char CHR ''>'' @
         one_char CHR '':'' @ one_char CHR '' '')),
       Lit ''::_M_create''],
     Lit ''::__'', Seq (Lit ''::_'') (lits [''Alloc'', ''State'']),
     seqs [Lit ''std::'', lits [''basic_'', ''''], lits [''ifstream'', ''ios'', ''istream'', ''ostream'', ''stream'']]]"

definition exclude_fortran_regex :: regex where
  "exclude_fortran_regex = lits [''log2visit'', ''Log2VisitHelper'']"

definition leading_regex :: regex where
  "leading_regex = Seq Bol (alts [Lit ''.'', Lit ''frame_dummy'', Lit ''transaction clone'', Lit ''virtual thunk'',
     Lit ''non-virtual thunk'', Lit ''('', Lit ''targ'', Lit ''kmp_threadprivate_'', Lit ''Kokkos::Profiling::'',
     Lit ''_IO_'', Lit ''___'',
     seqs [Lit ''__'', lits [''GI'', ''cxa'', ''libc'', ''IO'', ''rpc'', ''run'', ''call'', ''pthread'', ''dl'', ''nl'',
       ''nss'', ''new'', ''old'', ''internal'', ''argp'', ''malloc'', ''libio'', ''printf''], Lit ''_'']])"

definition trailing_regex :: regex where
  "trailing_regex = Seq (Lit ''_internal'') Eol"

definition is_routine_constrained :: "module_function \<Rightarrow> check" where
  "is_routine_constrained f =
     (let name = function_name f; found = (\<lambda>t. find_string name t \<noteq> None);
          rep = (\<lambda>action reason lvl. report True lvl action ''function'' reason name)
      in if found ''rocprofsys'' then rep ''Skipping'' ''rocprofsys-function'' 1
         else if found ''FunctionInfo'' \<or> found ''_L_lock'' \<or> found ''_L_unlock''
              then rep ''Skipping'' ''function-constraint'' 2
         else if std_regex_search name exclude_regex \<or> std_regex_search name exclude_cxx_regex \<or>
                 std_regex_search name exclude_fortran_regex then rep ''Excluding'' ''critical'' 3
         else if name \<in> set whole_function_names then rep ''Excluding'' ''critical-whole-match'' 3
         else if std_regex_search name leading_regex then rep ''Excluding'' ''recommended-leading-match'' 3
         else if std_regex_search name trailing_regex then rep ''Excluding'' ''recommended-trailing-match'' 3
         else answer False)"

section \<open>The selection of the user\<close>

text \<open>\<open>signature.get()\<close>: the text it keeps is the one it would make again.\<close>

definition with_signature :: "instr_settings \<Rightarrow> module_function \<Rightarrow> (string \<Rightarrow> check) \<Rightarrow> check" where
  "with_signature cfg f k s =
     (case get cfg False True (signature f) of Inl e \<Rightarrow> Inl e | Inr (t, _) \<Rightarrow> k t s)"

definition is_user_restricted :: "instr_settings \<Rightarrow> module_function \<Rightarrow> check" where
  "is_user_restricted cfg f =
     (if file_restrict cfg \<noteq> []
      then (if check_regex_restrictions (mod_name f) (file_restrict cfg)
            then report False 2 ''Forcing'' ''module'' ''module-restrict-regex'' (mod_name f)
            else report True 3 ''Skipping'' ''module'' ''module-restrict-regex'' (mod_name f))
      else if func_restrict cfg \<noteq> []
      then (if check_regex_restrictions (function_name f) (func_restrict cfg)
            then report False 2 ''Forcing'' ''function'' ''function-restrict-regex'' (function_name f)
            else with_signature cfg f (\<lambda>t.
              if check_regex_restrictions t (func_restrict cfg)
              then report False 2 ''Forcing'' ''function'' ''function-restrict-regex'' t
              else report True 3 ''Skipping'' ''function'' ''function-restrict-regex'' (function_name f)))
      else answer False)"

definition contains_user_callsite :: "instr_settings \<Rightarrow> module_function \<Rightarrow> check" where
  "contains_user_callsite cfg f =
     (if caller_include cfg = [] then answer False
      else if list_ex (\<lambda>c. check_regex_restrictions c (caller_include cfg)) (p_callees (mf_function f))
      then report True 2 ''Forcing'' ''function'' ''caller-include-regex'' (function_name f)
      else answer False)"

definition is_user_included :: "instr_settings \<Rightarrow> module_function \<Rightarrow> check" where
  "is_user_included cfg f =
     (if file_include cfg \<noteq> [] \<and> check_regex_restrictions (mod_name f) (file_include cfg)
      then report True 2 ''Forcing'' ''module'' ''module-include-regex'' (mod_name f)
      else if func_include cfg \<noteq> []
      then (if check_regex_restrictions (function_name f) (func_include cfg)
            then report True 2 ''Forcing'' ''function'' ''function-include-regex'' (function_name f)
            else with_signature cfg f (\<lambda>t.
              if check_regex_restrictions t (func_include cfg)
              then report True 2 ''Forcing'' ''function'' ''function-include-regex'' t
              else contains_user_callsite cfg f))
      else contains_user_callsite cfg f)"

definition is_user_excluded :: "instr_settings \<Rightarrow> module_function \<Rightarrow> check" where
  "is_user_excluded cfg f =
     (if file_exclude cfg \<noteq> [] \<and> check_regex_restrictions (mod_name f) (file_exclude cfg)
      then report True 2 ''Skipping'' ''module'' ''module-exclude-regex'' (mod_name f)
      else if func_exclude cfg \<noteq> []
      then (if check_regex_restrictions (function_name f) (func_exclude cfg)
            then report True 2 ''Skipping'' ''function'' ''function-exclude-regex'' (function_name f)
            else with_signature cfg f (\<lambda>t.
              if check_regex_restrictions t (func_exclude cfg)
              then report True 2 ''Skipping'' ''function'' ''function-exclude-regex'' t
              else answer False))
      else answer False)"

section \<open>Heuristics\<close>

definition is_overlapping :: "module_function \<Rightarrow> bool" where
  "is_overlapping f = has_overlapping (mf_function f)"

definition is_overlapping_constrained :: "instr_settings \<Rightarrow> module_function \<Rightarrow> check" where
  "is_overlapping_constrained cfg f =
     (if \<not> allow_overlapping cfg \<and> is_overlapping f
      then report True 2 ''Skipping'' ''function'' ''overlapping'' (function_name f) else answer False)"

definition is_trap_constrained :: "procedure_loc \<Rightarrow> string \<Rightarrow> instr_settings \<Rightarrow> module_function \<Rightarrow> check" where
  "is_trap_constrained loc reason cfg f s =
     (if instr_traps cfg then Inr (False, s)
      else case query_instr (mf_function f) loc None None of
          Inl e \<Rightarrow> Inl e
        | Inr (num_points, num_traps) \<Rightarrow>
            (if num_points - num_traps = 0 then report True 3 ''Skipping'' ''function'' reason (function_name f)
             else answer False) s)"

definition is_entry_trap_constrained :: "instr_settings \<Rightarrow> module_function \<Rightarrow> check" where
  "is_entry_trap_constrained = is_trap_constrained BPatch_entry ''entry-point-trap-instrumentation''"

definition is_exit_trap_constrained :: "instr_settings \<Rightarrow> module_function \<Rightarrow> check" where
  "is_exit_trap_constrained = is_trap_constrained BPatch_exit ''exit-point-trap-instrumentation''"

definition contains_dynamic_callsites :: "module_function \<Rightarrow> bool" where
  "contains_dynamic_callsites f = (case mf_flow_graph f of None \<Rightarrow> False | Some g \<Rightarrow> contains_dynamic g)"

definition is_dynamic_callsite_forced :: "instr_settings \<Rightarrow> module_function \<Rightarrow> check" where
  "is_dynamic_callsite_forced cfg f =
     (if instr_dynamic_callsites cfg \<and> contains_dynamic_callsites f
      then report True 2 ''Forcing'' ''function'' ''dynamic-callsites'' (function_name f) else answer False)"

definition is_loop_address_range_constrained :: "instr_settings \<Rightarrow> module_function \<Rightarrow> check" where
  "is_loop_address_range_constrained cfg f =
     (if loop_blocks f = [] then answer False
      else if address_range f < min_loop_address_range cfg
      then report True 2 ''Skipping'' ''function'' ''min-address-range-loop'' (function_name f) else answer False)"

definition is_address_range_constrained :: "instr_settings \<Rightarrow> module_function \<Rightarrow> check" where
  "is_address_range_constrained cfg f =
     (if loop_blocks f \<noteq> [] then is_loop_address_range_constrained cfg f
      else if address_range f < min_address_range cfg
      then report True 2 ''Skipping'' ''function'' ''min-address-range'' (function_name f) else answer False)"

definition is_loop_num_instructions_constrained :: "instr_settings \<Rightarrow> module_function \<Rightarrow> check" where
  "is_loop_num_instructions_constrained cfg f =
     (if loop_blocks f = [] then answer False
      else if num_instructions f < min_loop_instructions cfg
      then report True 2 ''Skipping'' ''function'' ''min-instructions-loop'' (function_name f) else answer False)"

definition is_num_instructions_constrained :: "instr_settings \<Rightarrow> module_function \<Rightarrow> check" where
  "is_num_instructions_constrained cfg f =
     (if loop_blocks f \<noteq> [] then is_loop_num_instructions_constrained cfg f
      else if num_instructions f < min_instructions cfg
      then report True 2 ''Skipping'' ''function'' ''min-instructions'' (function_name f) else answer False)"

text \<open>The instructions of a block are joined by spaces.\<close>

definition block_text :: "(nat \<times> string) list \<Rightarrow> string" where
  "block_text is = concat (map (\<lambda>(_, t). '' '' @ t) is)"

definition is_instruction_constrained :: "instr_settings \<Rightarrow> module_function \<Rightarrow> check" where
  "is_instruction_constrained cfg f =
     (if instruction_exclude cfg \<noteq> [] \<and>
         list_ex (\<lambda>is. block_text is \<noteq> [] \<and>
           check_regex_restrictions (drop 1 (block_text is)) (instruction_exclude cfg)) (instructions f)
      then report True 2 ''Skipping'' ''function'' ''instruction-exclude-regex'' (function_name f)
      else answer False)"

definition is_linkage_constrained ::
  "instr_externals \<Rightarrow> instr_settings \<Rightarrow> symtab_data_s \<Rightarrow> module_function \<Rightarrow> check" where
  "is_linkage_constrained E cfg d f s =
     (case get_linkage (sl_unknown E) (symtab_function f) d of
        Inl e \<Rightarrow> Inl e
      | Inr l \<Rightarrow> Inr (l \<noteq> sl_unknown E \<and> l \<notin> set (enabled_linkage cfg), s))"

definition is_visibility_constrained ::
  "instr_externals \<Rightarrow> instr_settings \<Rightarrow> symtab_data_s \<Rightarrow> module_function \<Rightarrow> check" where
  "is_visibility_constrained E cfg d f s =
     (case get_visibility (sv_unknown E) (symtab_function f) d of
        Inl e \<Rightarrow> Inl e
      | Inr v \<Rightarrow> Inr (v \<noteq> sv_unknown E \<and> v \<notin> set (enabled_visibility cfg), s))"

section \<open>The decision\<close>

definition too_few_instructions :: "instr_externals \<Rightarrow> module_function \<Rightarrow> check" where
  "too_few_instructions E f =
     (if num_instructions f < 2
      then report True 2 ''Skipping'' ''function'' (tim_join E ''-'' [''less-than'', ''2'', ''instructions''])
             (function_name f)
      else answer False)"

definition negated :: "check \<Rightarrow> check" where
  "negated c s = (case c s of Inl e \<Rightarrow> Inl e | Inr (b, s) \<Rightarrow> Inr (\<not> b, s))"

definition unless_coverage :: "bool \<Rightarrow> check \<Rightarrow> check" where
  "unless_coverage coverage c = (if coverage then answer False else c)"

text \<open>The last part of the decision: size and instructions.\<close>

definition size_heuristics :: "instr_settings \<Rightarrow> module_function \<Rightarrow> check" where
  "size_heuristics cfg f =
     stop_if (is_address_range_constrained cfg f) True False
     (stop_if (is_num_instructions_constrained cfg f) True False
     (stop_if (is_instruction_constrained cfg f) True False
     (answer True)))"

definition should_instrument_mode ::
  "instr_externals \<Rightarrow> instr_settings \<Rightarrow> symtab_data_s \<Rightarrow> bool \<Rightarrow> module_function \<Rightarrow> check" where
  "should_instrument_mode E cfg d coverage f =
     stop_if (is_instrumentable f) False False
     (stop_if (can_instrument_entry f) False False
     (stop_if (if coverage then answer True else can_instrument_exit f) False False
     (stop_if (is_internal_constrained E f) True False
     (stop_if (is_module_constrained f) True False
     (stop_if (is_routine_constrained f) True False
     (stop_if (too_few_instructions E f) True False
     (stop_if (is_user_excluded cfg f) True False
     (stop_if (is_overlapping_constrained cfg f) True False
     (stop_if (is_entry_trap_constrained cfg f) True False
     (stop_if (unless_coverage coverage (is_exit_trap_constrained cfg f)) True False
     (stop_if (is_dynamic_callsite_forced cfg f) True True
     (if file_restrict cfg \<noteq> [] \<or> func_restrict cfg \<noteq> [] then negated (is_user_restricted cfg f)
      else
       stop_if (is_user_included cfg f) True True
       (stop_if (unless_coverage coverage (is_linkage_constrained E cfg d f)) True False
       (stop_if (unless_coverage coverage (is_visibility_constrained E cfg d f)) True False
       (size_heuristics cfg f)))))))))))))))"

definition should_instrument ::
  "instr_externals \<Rightarrow> instr_settings \<Rightarrow> symtab_data_s \<Rightarrow> module_function \<Rightarrow> check" where
  "should_instrument E cfg d f = should_instrument_mode E cfg d False f"

definition should_coverage_instrument :: "instr_externals \<Rightarrow> instr_settings \<Rightarrow> module_function \<Rightarrow> check" where
  "should_coverage_instrument E cfg f =
     stop_if (is_instrumentable f) False False
     (stop_if (can_instrument_entry f) False False
     (stop_if (is_internal_constrained E f) True False
     (stop_if (is_module_constrained f) True False
     (stop_if (is_routine_constrained f) True False
     (stop_if (too_few_instructions E f) True False
     (stop_if (is_user_excluded cfg f) True False
     (stop_if (is_overlapping_constrained cfg f) True False
     (stop_if (is_entry_trap_constrained cfg f) True False
     (if file_restrict cfg \<noteq> [] \<or> func_restrict cfg \<noteq> [] then negated (is_user_restricted cfg f)
      else
       stop_if (is_user_included cfg f) True True
       (size_heuristics cfg f))))))))))"

section \<open>What a check may do\<close>

text \<open>
  A check leaves the mutatee alone and appends at most one message. Most checks append one exactly
  when their answer ends the decision; the two on the symbol table never do.
\<close>

definition one_message :: "instr_state \<Rightarrow> instr_state \<Rightarrow> bool" where
  "one_message s s' \<longleftrightarrow> requests s' = requests s \<and> (\<exists>m. messages s' = messages s @ [m])"

locale const_check =
  fixes c :: check
  assumes effect: "c s = Inr (b, s') \<Longrightarrow> s' = s \<or> one_message s s'"

locale speaking = const_check c for c :: check +
  fixes stop :: bool
  assumes passes: "c s = Inr (\<not> stop, s') \<Longrightarrow> s' = s"
    and stops: "c s = Inr (stop, s') \<Longrightarrow> one_message s s'"
begin

lemma stop_if_cases:
  assumes "stop_if c stop result rest s = Inr (b, s')"
  shows "(b = result \<and> c s = Inr (stop, s') \<and> one_message s s') \<or> (c s = Inr (\<not> stop, s) \<and> rest s = Inr (b, s'))"
proof (cases "c s")
  case (Inr p)
  then obtain x t where x: "c s = Inr (x, t)"
    by (cases p) auto
  show ?thesis
  proof (cases "x = stop")
    case True
    then show ?thesis using assms x stops by (simp add: stop_if_def)
  next
    case False
    then have "x = (\<not> stop)"
      by blast
    then show ?thesis using assms x passes [of s t] by (simp add: stop_if_def)
  qed
qed (use assms in \<open>simp add: stop_if_def\<close>)

end

locale silent = fixes c :: check
  assumes quiet: "c s = Inr (b, s') \<Longrightarrow> s' = s"

sublocale silent \<subseteq> const_check
  using quiet by unfold_locales blast

lemmas check_defs = answer_def report_def one_message_def

lemma speakingI:
  assumes "\<And>s b s'. c s = Inr (b, s') \<Longrightarrow> if b = stop then one_message s s' else s' = s"
  shows "speaking c stop"
  using assms by unfold_locales (metis, metis, metis)

text \<open>The two ways a check ends, and the case of a label that has to be made first.\<close>

lemma speaking_report: "b = stop \<Longrightarrow> speaking (report b lvl action type reason name) stop"
  by (rule speakingI) (auto simp: check_defs)

lemma speaking_answer: "b \<noteq> stop \<Longrightarrow> speaking (answer b) stop"
  by (rule speakingI) (auto simp: check_defs)

lemma speaking_if: "speaking c stop \<Longrightarrow> speaking c' stop \<Longrightarrow> speaking (if P then c else c') stop"
  by simp

lemma speaking_with_signature: "(\<And>t. speaking (k t) stop) \<Longrightarrow> speaking (with_signature cfg f k) stop"
  by (rule speakingI) (auto simp: with_signature_def speaking.passes dest: speaking.stops
      speaking.passes split: sum.splits prod.splits)

lemmas speaking_intros = speaking_report speaking_answer speaking_if speaking_with_signature

interpretation instrumentable: speaking "is_instrumentable f" False for f
  unfolding is_instrumentable_def by (intro speaking_intros) auto

lemma speaking_can_instrument_at: "speaking (can_instrument_at loc reason f) False"
  by (rule speakingI) (auto simp: can_instrument_at_def check_defs split: sum.splits prod.splits if_splits)

interpretation entry: speaking "can_instrument_entry f" False for f
  unfolding can_instrument_entry_def by (rule speaking_can_instrument_at)

interpretation exit: speaking "can_instrument_exit f" False for f
  unfolding can_instrument_exit_def by (rule speaking_can_instrument_at)

lemma speaking_internal_lib_loop: "speaking (internal_lib_loop E f libs) True"
  by (induction libs) (auto intro: speaking_intros split: option.splits)

interpretation internal: speaking "is_internal_constrained E f" True for E f
  unfolding is_internal_constrained_def Let_def
  by (intro speaking_intros speaking_internal_lib_loop) auto

interpretation module_check: speaking "is_module_constrained f" True for f
  unfolding is_module_constrained_def Let_def by (intro speaking_intros) auto

interpretation routine: speaking "is_routine_constrained f" True for f
  unfolding is_routine_constrained_def Let_def by (intro speaking_intros) auto

interpretation few: speaking "too_few_instructions E f" True for E f
  unfolding too_few_instructions_def by (intro speaking_intros) auto

interpretation excluded: speaking "is_user_excluded cfg f" True for cfg f
  unfolding is_user_excluded_def by (intro speaking_intros) auto

interpretation overlapping: speaking "is_overlapping_constrained cfg f" True for cfg f
  unfolding is_overlapping_constrained_def by (intro speaking_intros) auto

lemma speaking_trap: "speaking (is_trap_constrained loc reason cfg f) True"
  by (rule speakingI) (auto simp: is_trap_constrained_def check_defs split: sum.splits prod.splits if_splits)

interpretation entry_trap: speaking "is_entry_trap_constrained cfg f" True for cfg f
  unfolding is_entry_trap_constrained_def by (rule speaking_trap)

interpretation exit_trap: speaking "unless_coverage coverage (is_exit_trap_constrained cfg f)" True for coverage cfg f
  unfolding is_exit_trap_constrained_def unless_coverage_def by (intro speaking_intros speaking_trap) auto

interpretation dynamic: speaking "is_dynamic_callsite_forced cfg f" True for cfg f
  unfolding is_dynamic_callsite_forced_def by (intro speaking_intros) auto

lemma speaking_callsite: "speaking (contains_user_callsite cfg f) True"
  unfolding contains_user_callsite_def by (intro speaking_intros) auto

interpretation included: speaking "is_user_included cfg f" True for cfg f
  unfolding is_user_included_def by (intro speaking_intros speaking_callsite) auto

interpretation address_check: speaking "is_address_range_constrained cfg f" True for cfg f
  unfolding is_address_range_constrained_def is_loop_address_range_constrained_def
  by (intro speaking_intros) auto

interpretation number_check: speaking "is_num_instructions_constrained cfg f" True for cfg f
  unfolding is_num_instructions_constrained_def is_loop_num_instructions_constrained_def
  by (intro speaking_intros) auto

interpretation instruction_check: speaking "is_instruction_constrained cfg f" True for cfg f
  unfolding is_instruction_constrained_def by (intro speaking_intros) auto

interpretation linkage: silent "unless_coverage coverage (is_linkage_constrained E cfg d f)" for coverage E cfg d f
  by unfold_locales (auto simp: unless_coverage_def is_linkage_constrained_def answer_def split: sum.splits if_splits)

interpretation visibility: silent "unless_coverage coverage (is_visibility_constrained E cfg d f)"
  for coverage E cfg d f
  by unfold_locales (auto simp: unless_coverage_def is_visibility_constrained_def answer_def
      split: sum.splits if_splits)

section \<open>A refusal is explained\<close>

text \<open>
  \<open>explained X c\<close>: the decision \<open>c\<close> appends at most one message, and a refusal appends one
  unless \<open>X\<close>.
\<close>

definition explained :: "bool \<Rightarrow> check \<Rightarrow> bool" where
  "explained X c \<longleftrightarrow>
     (\<forall>s b s'. c s = Inr (b, s') \<longrightarrow> (s' = s \<or> one_message s s') \<and> (b \<or> one_message s s' \<or> X))"

lemma explained_stop_if:
  assumes "speaking c stop" and "explained X rest"
  shows "explained X (stop_if c stop result rest)"
  using speaking.stop_if_cases [OF assms(1)] assms(2) unfolding explained_def by blast

lemma explained_stop_if_silent:
  assumes "silent c" and "explained X rest" and "\<And>s. c s = Inr (True, s) \<Longrightarrow> X"
  shows "explained X (stop_if c True False rest)"
  unfolding explained_def stop_if_def
proof (intro allI impI)
  fix s b s'
  assume run: "(case c s of Inl e \<Rightarrow> Inl e
    | Inr (b, s) \<Rightarrow> if b = True then Inr (False, s) else rest s) = Inr (b, s')"
  then obtain x t where x: "c s = Inr (x, t)"
    by (auto split: sum.splits)
  then have "t = s"
    using silent.quiet [OF assms(1)] by blast
  then show "(s' = s \<or> one_message s s') \<and> (b \<or> one_message s s' \<or> X)"
    using run x assms(2,3) unfolding explained_def by (cases x) (auto split: if_splits)
qed

lemma explained_answer: "explained X (answer True)"
  by (simp add: explained_def answer_def)

lemma explained_size: "explained X (size_heuristics cfg f)"
  unfolding size_heuristics_def
  by (intro explained_stop_if explained_answer address_check.speaking_axioms number_check.speaking_axioms
      instruction_check.speaking_axioms)

lemma restricted_reports:
  assumes "file_restrict cfg \<noteq> [] \<or> func_restrict cfg \<noteq> []" and "is_user_restricted cfg f s = Inr (b, s')"
  shows "one_message s s'"
  using assms by (auto simp: is_user_restricted_def with_signature_def check_defs
      split: if_splits sum.splits prod.splits)

lemma explained_restricted:
  "file_restrict cfg \<noteq> [] \<or> func_restrict cfg \<noteq> [] \<Longrightarrow> explained X (negated (is_user_restricted cfg f))"
  unfolding explained_def negated_def using restricted_reports [of cfg f]
  by (fastforce split: sum.splits)

lemma explained_if: "(P \<Longrightarrow> explained X c) \<Longrightarrow> (\<not> P \<Longrightarrow> explained X c') \<Longrightarrow> explained X (if P then c else c')"
  by simp

lemmas speaking_checks = instrumentable.speaking_axioms entry.speaking_axioms exit.speaking_axioms
  internal.speaking_axioms module_check.speaking_axioms routine.speaking_axioms few.speaking_axioms
  excluded.speaking_axioms overlapping.speaking_axioms entry_trap.speaking_axioms exit_trap.speaking_axioms
  dynamic.speaking_axioms included.speaking_axioms

text \<open>The refusals that leave no message.\<close>

definition symbol_refused :: "instr_externals \<Rightarrow> instr_settings \<Rightarrow> symtab_data_s \<Rightarrow> module_function \<Rightarrow> bool" where
  "symbol_refused E cfg d f \<longleftrightarrow>
     (case get_linkage (sl_unknown E) (symtab_function f) d of
        Inl _ \<Rightarrow> False | Inr l \<Rightarrow> l \<noteq> sl_unknown E \<and> l \<notin> set (enabled_linkage cfg)) \<or>
     (case get_visibility (sv_unknown E) (symtab_function f) d of
        Inl _ \<Rightarrow> False | Inr v \<Rightarrow> v \<noteq> sv_unknown E \<and> v \<notin> set (enabled_visibility cfg))"

lemma should_instrument_mode_explained:
  "explained (symbol_refused E cfg d f) (should_instrument_mode E cfg d coverage f)"
  unfolding should_instrument_mode_def
  by (intro explained_stop_if explained_if explained_stop_if_silent explained_restricted explained_size
      speaking_checks speaking_if speaking_answer linkage.silent_axioms visibility.silent_axioms)
    (auto simp: symbol_refused_def is_linkage_constrained_def is_visibility_constrained_def
      unless_coverage_def answer_def split: sum.splits if_splits)

section \<open>What the constructor leaves\<close>

lemma read_blocks_keeps:
  "read_blocks cfg bs f = Inr f' \<Longrightarrow>
    symtab_function f' = symtab_function f \<and> mf_function f' = mf_function f \<and>
    (\<not> keeps_instructions cfg \<longrightarrow> instructions f' = instructions f)"
  by (induction bs arbitrary: f) (auto simp: Let_def split: bb_instructions.splits option.splits if_splits)

lemma make_module_function_keeps:
  assumes "make_module_function E cfg d md proc = Inr f"
  shows "symtab_function f = (if instrumentable proc then get_symtab_function proc d else None)"
    and "mf_function f = proc" and "\<not> keeps_instructions cfg \<Longrightarrow> instructions f = []"
  using assms read_blocks_keeps
  by (fastforce simp: make_module_function_def Let_def split: option.splits prod.splits if_splits)+

end
