(* ===== verification/Instrument_Function.thy ===== *)
theory Instrument_Function
  imports Module_Function
begin

text \<open>
  Instrumenting a function and its loops: \<open>module_function::operator()\<close>, and the code coverage of
  \<open>register_source\<close> and \<open>register_coverage\<close> (\<open>module_function.cpp\<close>).

  The calls inserted are requests of the state. The counters are pairs of functions and loops (or
  functions and basic blocks).
\<close>

section \<open>Loops\<close>

definition skip_loop :: "bool \<Rightarrow> string \<Rightarrow> string \<Rightarrow> instr_state \<Rightarrow> bool \<times> instr_state" where
  "skip_loop v label mname s =
     (if v then (True, s\<lparr>messages := messages s @ [(3, ''Skipping'', ''function-loop'', label, mname)]\<rparr>)
      else (False, s))"

definition loop_label ::
  "instr_externals \<Rightarrow> instr_settings \<Rightarrow> module_function \<Rightarrow> nat \<Rightarrow> basic_loop \<Rightarrow> instr_error + string" where
  "loop_label E cfg f i itr =
     map_sum id fst (get cfg False True (set_loop_number (of_nat i)
       (get_loop_file_line_info E (mf_module f) (mf_function f) itr)))"

text \<open>
  The body of the loop over \<open>loop_blocks\<close> for one loop; \<open>continue\<close> gives back the cnt and the state.
\<close>

definition instrument_loop ::
  "instr_externals \<Rightarrow> instr_settings \<Rightarrow> module_function \<Rightarrow> nat option \<Rightarrow> nat option \<Rightarrow> nat \<Rightarrow> basic_loop \<Rightarrow>
   nat \<Rightarrow> instr_state \<Rightarrow> instr_error + (nat \<times> instr_state)" where
  "instrument_loop E cfg f entr_trace exit_trace i itr cnt s =
     (if \<not> loop_level_instr cfg then Inr (cnt, s)
      else if mf_flow_graph f = None then Inr (cnt, s)
      else case loop_label E cfg f i itr of Inl e \<Rightarrow> Inl e | Inr lname \<Rightarrow>
       (case query_instr (mf_function f) BPatch_entry (mf_flow_graph f) (Some itr) of
          Inl e \<Rightarrow> Inl e
        | Inr (n, ntraps) \<Rightarrow>
       (let (skip, s) = skip_loop (n = 0) ''no-instrumentable-loop-entry-point'' lname s
        in if skip then Inr (cnt, s) else
       (let (skip, s) = skip_loop (\<not> instr_loop_traps cfg \<and> n = ntraps)
              ''loop-entry-point-trap-instrumentation'' lname s
        in if skip then Inr (cnt, s) else
       (case query_instr (mf_function f) BPatch_exit (mf_flow_graph f) (Some itr) of
          Inl e \<Rightarrow> Inl e
        | Inr (n, ntraps) \<Rightarrow>
       (let (skip, s) = skip_loop (n = 0) ''no-instrumentable-loop-exit-point'' lname s
        in if skip then Inr (cnt, s) else
       (let (skip, s) = skip_loop (\<not> instr_loop_traps cfg \<and> n = ntraps)
              ''loop-exit-point-trap-instrumentation'' lname s
        in if skip then Inr (cnt, s) else
       (let lentr = call_expr_get [Str_arg lname] entr_trace;
            lexit = call_expr_get [Str_arg lname] exit_trace;
            (ok, s) = insert_instr (mf_function f) lentr BPatch_entry (mf_flow_graph f) (Some itr)
                        (instr_loop_traps cfg) s
        in if \<not> ok then Inr (cnt, s) else
       (let (ok, s) = insert_instr (mf_function f) lexit BPatch_exit (mf_flow_graph f) (Some itr)
                        (instr_loop_traps cfg) s
        in if \<not> ok then Inr (cnt, s)
           else Inr (cnt + 1, s\<lparr>messages := messages s @
             [(1, ''Loop Instrumenting'', ''function'', ''no-constraint'', lname)]\<rparr>))))))))))"

fun instrument_loops ::
  "instr_externals \<Rightarrow> instr_settings \<Rightarrow> module_function \<Rightarrow> nat option \<Rightarrow> nat option \<Rightarrow> nat \<Rightarrow> basic_loop list \<Rightarrow>
   nat \<Rightarrow> instr_state \<Rightarrow> instr_error + (nat \<times> instr_state)" where
  "instrument_loops E cfg f entr_trace exit_trace i [] cnt s = Inr (cnt, s)"
| "instrument_loops E cfg f entr_trace exit_trace i (itr # ls) cnt s =
     (case instrument_loop E cfg f entr_trace exit_trace i itr cnt s of
        Inl e \<Rightarrow> Inl e
      | Inr (cnt, s) \<Rightarrow> instrument_loops E cfg f entr_trace exit_trace (i + 1) ls cnt s)"

section \<open>The function\<close>

definition instrument ::
  "instr_externals \<Rightarrow> instr_settings \<Rightarrow> module_function \<Rightarrow> nat option \<Rightarrow> nat option \<Rightarrow> instr_state \<Rightarrow>
   instr_error + ((nat \<times> nat) \<times> instr_state)" where
  "instrument E cfg f entr_trace exit_trace s =
     (case get cfg False True (signature f) of Inl e \<Rightarrow> Inl e | Inr (name, _) \<Rightarrow>
       (let entr = call_expr_get [Str_arg name] entr_trace;
            exit = call_expr_get [Str_arg name] exit_trace;
            (ok, s) = insert_instr (mf_function f) entr BPatch_entry None None (instr_traps cfg) s;
            (ok, s) = (if ok then insert_instr (mf_function f) exit BPatch_exit None None (instr_traps cfg) s
                       else (False, s));
            (n, s) = (if ok then (1, s\<lparr>messages := messages s @
                        [(1, ''Instrumenting'', ''function'', ''no-constraint'', function_name f)]\<rparr>)
                      else (0, s))
        in map_sum id (\<lambda>(m, s). ((n, m), s))
             (instrument_loops E cfg f entr_trace exit_trace 0 (loop_blocks f) 0 s)))"

section \<open>Code coverage\<close>

definition register_source ::
  "instr_externals \<Rightarrow> instr_settings \<Rightarrow> module_function \<Rightarrow> nat option \<Rightarrow> point option list \<Rightarrow> instr_state \<Rightarrow>
   instr_error + instr_state" where
  "register_source E cfg f entr_trace entr_points s =
     (let reg = (\<lambda>sig addr name type s.
            (let entr = call_expr_get [Str_arg (m_file sig), Str_arg (m_name sig), Num_arg (fst (m_row sig)),
                   Num_arg addr, Str_arg name] entr_trace;
                 (ok, s) = insert_instr_points entr entr_points (instr_traps cfg) s
             in if ok then s\<lparr>messages := messages s @ [(1, ''Code Coverage'', type, ''no-constraint'', name)]\<rparr> else s))
      in case coverage_mode cfg of
          CODECOV_FUNCTION \<Rightarrow>
           map_sum id (\<lambda>name. reg (signature f) (start_address f) name ''function'' s) (get_coverage cfg False (signature f))
        | CODECOV_BASIC_BLOCK \<Rightarrow>
           (case get_basic_block_file_line_info E (mf_module f) (mf_function f) of
              Inl e \<Rightarrow> Inl e
            | Inr blocks \<Rightarrow>
               foldl (\<lambda>r (b, info). case r of Inl e \<Rightarrow> Inl e | Inr s \<Rightarrow>
                 map_sum id (\<lambda>name. reg (bb_signature info) (start_addr info) name ''basic_block'' s)
                   (get_coverage cfg True (bb_signature info))) (Inr s) blocks)
        | CODECOV_NONE \<Rightarrow> Inr s)"

definition register_coverage ::
  "instr_externals \<Rightarrow> instr_settings \<Rightarrow> module_function \<Rightarrow> nat option \<Rightarrow> instr_state \<Rightarrow>
   instr_error + ((nat \<times> nat) \<times> instr_state)" where
  "register_coverage E cfg f entr_trace s =
     (case coverage_mode cfg of
        CODECOV_FUNCTION \<Rightarrow>
         (let entr = call_expr_get [Str_arg (m_file (signature f)), Str_arg (m_name (signature f)),
                Num_arg (start_address f)] entr_trace;
              (ok, s) = insert_instr (mf_function f) entr BPatch_entry None None (instr_traps cfg) s
          in if ok then map_sum id (\<lambda>name. ((1, 0), s\<lparr>messages := messages s @
                       [(1, ''Code Coverage'', ''function'', ''no-constraint'', name)]\<rparr>))
                     (get_coverage cfg False (signature f))
             else Inr ((0, 0), s))
      | CODECOV_BASIC_BLOCK \<Rightarrow>
         (case get_basic_block_file_line_info E (mf_module f) (mf_function f) of
            Inl e \<Rightarrow> Inl e
          | Inr blocks \<Rightarrow>
             foldl (\<lambda>r (b, info). case r of Inl e \<Rightarrow> Inl e | Inr ((m, n), s) \<Rightarrow>
               (let sig = bb_signature info;
                    entr = call_expr_get [Str_arg (m_file sig), Str_arg (m_name sig), Num_arg (start_addr info)]
                             entr_trace
                in case insert_instr_block (accepts_point E) entr BPatch_entry b (instr_traps cfg) s of
                     Inl e \<Rightarrow> Inl e
                   | Inr (ok, s) \<Rightarrow>
                      if ok then map_sum id (\<lambda>name. ((m, n + 1), s\<lparr>messages := messages s @
                             [(1, ''Code Coverage'', ''basic_block'', ''no-constraint'', name)]\<rparr>))
                           (get_coverage cfg True sig)
                      else Inr ((m, n), s))) (Inr ((0, 0), s)) blocks)
      | CODECOV_NONE \<Rightarrow> Inr ((0, 0), s))"

section \<open>What is inserted\<close>

text \<open>The calls at the points of a unit: all usable entries, then all usable exits.\<close>

definition unit_calls ::
  "instr_settings \<Rightarrow> module_function \<Rightarrow> bool \<Rightarrow> flow_graph option \<Rightarrow> basic_loop option \<Rightarrow> string \<Rightarrow> nat \<Rightarrow> nat \<Rightarrow>
   (call_expr \<times> point) list" where
  "unit_calls cfg f traps cg lp name entr exit =
     map (Pair \<lparr>callee = entr, call_args = [Str_arg name]\<rparr>) (usable traps (unit_points (mf_function f) BPatch_entry cg lp)) @
     map (Pair \<lparr>callee = exit, call_args = [Str_arg name]\<rparr>) (usable traps (unit_points (mf_function f) BPatch_exit cg lp))"

definition both_ends :: "module_function \<Rightarrow> bool \<Rightarrow> flow_graph option \<Rightarrow> basic_loop option \<Rightarrow> bool" where
  "both_ends f traps cg lp \<longleftrightarrow>
     usable traps (unit_points (mf_function f) BPatch_entry cg lp) \<noteq> [] \<and>
     usable traps (unit_points (mf_function f) BPatch_exit cg lp) \<noteq> []"

text \<open>The loops that are instrumented, with their labels.\<close>

definition chosen_loops ::
  "instr_externals \<Rightarrow> instr_settings \<Rightarrow> module_function \<Rightarrow> nat \<Rightarrow> basic_loop list \<Rightarrow> (string \<times> basic_loop) list" where
  "chosen_loops E cfg f i ls =
     (if loop_level_instr cfg \<and> mf_flow_graph f \<noteq> None
      then map (\<lambda>(k, l). (case loop_label E cfg f k l of Inl _ \<Rightarrow> [] | Inr t \<Rightarrow> t, l))
             (filter (\<lambda>(k, l). both_ends f (instr_loop_traps cfg) (mf_flow_graph f) (Some l)) (enumerate i ls))
      else [])"

lemma loop_label_total: "\<not> werror cfg \<Longrightarrow> \<exists>t. loop_label E cfg f i l = Inr t"
  by (auto simp: loop_label_def get_def loop_text_def errprintf_def Let_def split: option.splits)

text \<open>Asking first and inserting then: a loop is instrumented at both ends or not at all.\<close>

lemma instrument_loop_spec:
  assumes "\<not> werror cfg" and "has_module (mf_function f)"
  shows "\<exists>s'. instrument_loop E cfg f (Some entr) (Some exit) i l cnt s = Inr (cnt + length (chosen_loops E cfg f i [l]), s') \<and>
    requests s' = requests s @ concat (map (\<lambda>(t, l). unit_calls cfg f (instr_loop_traps cfg) (mf_flow_graph f) (Some l) t entr exit)
      (chosen_loops E cfg f i [l]))"
proof (cases "loop_level_instr cfg \<and> mf_flow_graph f \<noteq> None")
  case False
  then show ?thesis
    by (auto simp: instrument_loop_def chosen_loops_def)
next
  case True
  then obtain g where g: "mf_flow_graph f = Some g"
    by blast
  obtain t where t: "loop_label E cfg f i l = Inr t"
    using loop_label_total [OF assms(1)] by blast
  let ?E = "unit_points (mf_function f) BPatch_entry (Some g) (Some l)"
  let ?X = "unit_points (mf_function f) BPatch_exit (Some g) (Some l)"
  obtain ne te nx tx where q: "count_points ?E = (ne, te)" "count_points ?X = (nx, tx)"
    by (meson surj_pair)
  have guards: "ne \<noteq> 0 \<and> \<not> (\<not> instr_loop_traps cfg \<and> ne = te) \<longleftrightarrow> usable (instr_loop_traps cfg) ?E \<noteq> []"
    "nx \<noteq> 0 \<and> \<not> (\<not> instr_loop_traps cfg \<and> nx = tx) \<longleftrightarrow> usable (instr_loop_traps cfg) ?X \<noteq> []"
    using points.guards_iff [of ?E "instr_loop_traps cfg"] points.guards_iff [of ?X "instr_loop_traps cfg"] q
    by simp_all
  have queries: "query_instr (mf_function f) BPatch_entry (Some g) (Some l) = Inr (ne, te)"
    "query_instr (mf_function f) BPatch_exit (Some g) (Some l) = Inr (nx, tx)"
    using query_instr_points [of BPatch_entry "mf_function f" "Some l" "Some g"]
      query_instr_points [of BPatch_exit "mf_function f" "Some l" "Some g"] assms(2) q by simp_all
  have inserts: "insert_instr (mf_function f) (Some tr) BPatch_entry (Some g) (Some l) (instr_loop_traps cfg) s =
      (usable (instr_loop_traps cfg) ?E \<noteq> [], s\<lparr>requests := requests s @ map (Pair tr) (usable (instr_loop_traps cfg) ?E)\<rparr>)"
    "insert_instr (mf_function f) (Some tr) BPatch_exit (Some g) (Some l) (instr_loop_traps cfg) s =
      (usable (instr_loop_traps cfg) ?X \<noteq> [], s\<lparr>requests := requests s @ map (Pair tr) (usable (instr_loop_traps cfg) ?X)\<rparr>)"
    for tr s
    using insert_instr_requests assms(2) by simp_all
  have chosen: "chosen_loops E cfg f i [l] =
      (if usable (instr_loop_traps cfg) ?E \<noteq> [] \<and> usable (instr_loop_traps cfg) ?X \<noteq> [] then [(t, l)] else [])"
    using True g t by (simp add: chosen_loops_def both_ends_def enumerate_simps)
  define skip_entry where "skip_entry = (ne = 0 \<or> (\<not> instr_loop_traps cfg \<and> ne = te))"
  define skip_exit where "skip_exit = (nx = 0 \<or> (\<not> instr_loop_traps cfg \<and> nx = tx))"
  consider "skip_entry" | "\<not> skip_entry" "skip_exit" | "\<not> skip_entry" "\<not> skip_exit"
    by blast
  then show ?thesis
  proof cases
    case 1
    then have "usable (instr_loop_traps cfg) ?E = []"
      using guards(1) unfolding skip_entry_def by blast
    then show ?thesis
      using True 1 unfolding chosen instrument_loop_def t g skip_entry_def
      by (cases "ne = 0") (auto simp: queries skip_loop_def)
  next
    case 2
    then have "usable (instr_loop_traps cfg) ?X = []"
      using guards(2) unfolding skip_exit_def by blast
    then show ?thesis
      using True 2 unfolding chosen instrument_loop_def t g skip_entry_def skip_exit_def
      by (cases "nx = 0") (auto simp: queries skip_loop_def)
  next
    case 3
    then have "usable (instr_loop_traps cfg) ?E \<noteq> []" "usable (instr_loop_traps cfg) ?X \<noteq> []"
      using guards unfolding skip_entry_def skip_exit_def by blast+
    then show ?thesis
      using True 3 unfolding chosen instrument_loop_def t g skip_entry_def skip_exit_def
      by (auto simp: queries inserts skip_loop_def call_expr_get_def unit_calls_def)
  qed
qed

lemma instrument_loops_spec:
  assumes "\<not> werror cfg" and "has_module (mf_function f)"
  shows "\<exists>s'. instrument_loops E cfg f (Some entr) (Some exit) i ls cnt s = Inr (cnt + length (chosen_loops E cfg f i ls), s') \<and>
    requests s' = requests s @ concat (map (\<lambda>(t, l). unit_calls cfg f (instr_loop_traps cfg) (mf_flow_graph f) (Some l) t entr exit)
      (chosen_loops E cfg f i ls))"
proof (induction ls arbitrary: i cnt s)
  case Nil
  then show ?case by (simp add: chosen_loops_def)
next
  case (Cons l ls)
  have split: "chosen_loops E cfg f i (l # ls) = chosen_loops E cfg f i [l] @ chosen_loops E cfg f (Suc i) ls"
    unfolding chosen_loops_def by (auto simp: enumerate_simps)
  obtain s1 where s1: "instrument_loop E cfg f (Some entr) (Some exit) i l cnt s =
      Inr (cnt + length (chosen_loops E cfg f i [l]), s1)"
    and r1: "requests s1 = requests s @ concat (map (\<lambda>(t, l). unit_calls cfg f (instr_loop_traps cfg) (mf_flow_graph f)
      (Some l) t entr exit) (chosen_loops E cfg f i [l]))"
    using instrument_loop_spec [OF assms] by blast
  obtain s2 where "instrument_loops E cfg f (Some entr) (Some exit) (i + 1) ls
      (cnt + length (chosen_loops E cfg f i [l])) s1 =
      Inr (cnt + length (chosen_loops E cfg f i [l]) + length (chosen_loops E cfg f (i + 1) ls), s2)"
    and "requests s2 = requests s1 @ concat (map (\<lambda>(t, l). unit_calls cfg f (instr_loop_traps cfg) (mf_flow_graph f)
      (Some l) t entr exit) (chosen_loops E cfg f (i + 1) ls))"
    using Cons.IH by blast
  then show ?case
    unfolding split by (simp add: s1 r1)
qed

text \<open>A function that was selected has usable points at both ends.\<close>

lemma query_at_both_ends:
  assumes "has_module func" and "loc = BPatch_entry \<or> loc = BPatch_exit"
  shows "query_instr func loc None None = Inr (count_points (unit_points func loc None None))"
  using query_instr_points [of loc func None None] assms by blast

lemma can_instrument_at_points:
  assumes "can_instrument_at loc reason f s = Inr (True, s')" and "loc = BPatch_entry \<or> loc = BPatch_exit"
  shows "has_module (mf_function f)" and "fst (count_points (unit_points (mf_function f) loc None None)) \<noteq> 0"
proof -
  show module: "has_module (mf_function f)"
    using assms(1) by (cases "has_module (mf_function f)")
      (simp_all add: can_instrument_at_def query_instr_def report_def)
  show "fst (count_points (unit_points (mf_function f) loc None None)) \<noteq> 0"
    using assms(1) by (cases "count_points (unit_points (mf_function f) loc None None)")
      (auto simp: can_instrument_at_def query_at_both_ends [OF module assms(2)] check_defs split: if_splits)
qed

lemma trap_constrained_points:
  assumes "is_trap_constrained loc reason cfg f s = Inr (False, s')" and "has_module (mf_function f)"
    and "loc = BPatch_entry \<or> loc = BPatch_exit"
  shows "\<not> (\<not> instr_traps cfg \<and> fst (count_points (unit_points (mf_function f) loc None None)) -
      snd (count_points (unit_points (mf_function f) loc None None)) = 0)"
  using assms(1) by (cases "count_points (unit_points (mf_function f) loc None None)")
    (auto simp: is_trap_constrained_def query_at_both_ends [OF assms(2,3)] check_defs split: if_splits)

lemma stop_if_TrueE:
  assumes "stop_if c stop False rest s = Inr (True, s')"
  obtains s1 where "c s = Inr (\<not> stop, s1)" and "rest s1 = Inr (True, s')"
  using assms by (auto simp: stop_if_def split: sum.splits prod.splits if_splits)

lemma selected_both_ends:
  assumes "should_instrument E cfg d f s = Inr (True, s')"
  shows "has_module (mf_function f)" and "both_ends f (instr_traps cfg) None None"
proof -
  obtain s1 s2 s3 s4 s5 s6 s7 s8 where checks: "can_instrument_entry f s1 = Inr (True, s2)"
    "can_instrument_exit f s3 = Inr (True, s4)" "is_entry_trap_constrained cfg f s5 = Inr (False, s6)"
    "is_exit_trap_constrained cfg f s7 = Inr (False, s8)"
    using assms unfolding should_instrument_def should_instrument_mode_def unless_coverage_def if_False
    by (elim stop_if_TrueE) simp
  then show module: "has_module (mf_function f)"
    using can_instrument_at_points(1) unfolding can_instrument_entry_def by blast
  have points: "fst (count_points (unit_points (mf_function f) loc None None)) \<noteq> 0"
    "\<not> (\<not> instr_traps cfg \<and> fst (count_points (unit_points (mf_function f) loc None None)) -
      snd (count_points (unit_points (mf_function f) loc None None)) = 0)"
    if "loc = BPatch_entry \<or> loc = BPatch_exit" for loc
    using that checks can_instrument_at_points(2) trap_constrained_points module
    unfolding can_instrument_entry_def can_instrument_exit_def is_entry_trap_constrained_def
      is_exit_trap_constrained_def by blast+
  show "both_ends f (instr_traps cfg) None None"
    using points.guards_suffice [OF points] unfolding both_ends_def points.ins_iff by blast
qed

text \<open>All calls a selected function gets, its own and those of its loops.\<close>

definition function_calls ::
  "instr_externals \<Rightarrow> instr_settings \<Rightarrow> module_function \<Rightarrow> nat \<Rightarrow> nat \<Rightarrow> (call_expr \<times> point) list" where
  "function_calls E cfg f entr exit =
     unit_calls cfg f (instr_traps cfg) None None
       (case get cfg False True (signature f) of Inl _ \<Rightarrow> [] | Inr (t, _) \<Rightarrow> t) entr exit @
     concat (map (\<lambda>(t, l). unit_calls cfg f (instr_loop_traps cfg) (mf_flow_graph f) (Some l) t entr exit)
       (chosen_loops E cfg f 0 (loop_blocks f)))"

lemma get_total: "\<not> werror cfg \<Longrightarrow> \<exists>t sig'. get cfg False True sig = Inr (t, sig')"
  by (auto simp: get_def loop_text_def errprintf_def Let_def split: option.splits)

lemma instrument_total:
  assumes "\<not> werror cfg" and "has_module (mf_function f)"
  shows "\<exists>r. instrument E cfg f (Some entr) (Some exit) s = Inr r"
proof -
  obtain t sig' where t: "get cfg False True (signature f) = Inr (t, sig')"
    using get_total [OF assms(1)] by blast
  have "\<exists>r. instrument_loops E cfg f (Some entr) (Some exit) 0 (loop_blocks f) 0 s1 = Inr r" for s1
    using instrument_loops_spec [OF assms] by blast
  then have "\<exists>r. map_sum id g (instrument_loops E cfg f (Some entr) (Some exit) 0 (loop_blocks f) 0 s1) = Inr r"
    for s1 and g :: "nat \<times> instr_state \<Rightarrow> (nat \<times> nat) \<times> instr_state"
    by (metis map_sum.simps(2))
  then show ?thesis
    unfolding instrument_def t sum.case prod.case Let_def by (simp split: prod.splits)
qed

lemma instrument_both_ends:
  assumes "\<not> werror cfg" and "has_module (mf_function f)" and "both_ends f (instr_traps cfg) None None"
  shows "\<exists>s'. instrument E cfg f (Some entr) (Some exit) s =
      Inr ((1, length (chosen_loops E cfg f 0 (loop_blocks f))), s') \<and>
    requests s' = requests s @ function_calls E cfg f entr exit"
proof -
  obtain t sig' where t: "get cfg False True (signature f) = Inr (t, sig')"
    using get_total [OF assms(1)] by blast
  let ?s1 = "s\<lparr>requests := requests s @ unit_calls cfg f (instr_traps cfg) None None t entr exit,
      messages := messages s @ [(1, ''Instrumenting'', ''function'', ''no-constraint'', function_name f)]\<rparr>"
  obtain s' where s': "instrument_loops E cfg f (Some entr) (Some exit) 0 (loop_blocks f) 0 ?s1 =
      Inr (0 + length (chosen_loops E cfg f 0 (loop_blocks f)), s')"
    and r: "requests s' = requests ?s1 @ concat (map (\<lambda>(t, l). unit_calls cfg f (instr_loop_traps cfg)
      (mf_flow_graph f) (Some l) t entr exit) (chosen_loops E cfg f 0 (loop_blocks f)))"
    using instrument_loops_spec [OF assms(1,2)] by blast
  have ends: "usable (instr_traps cfg) (unit_points (mf_function f) BPatch_entry None None) \<noteq> []"
    "usable (instr_traps cfg) (unit_points (mf_function f) BPatch_exit None None) \<noteq> []"
    using assms(3) by (simp_all add: both_ends_def)
  have "instrument E cfg f (Some entr) (Some exit) s =
      map_sum id (\<lambda>(m, s). ((1, m), s)) (instrument_loops E cfg f (Some entr) (Some exit) 0 (loop_blocks f) 0 ?s1)"
    unfolding instrument_def t
    by (simp add: call_expr_get_def insert_instr_requests assms(2) ends unit_calls_def)
  then show ?thesis
    using r by (simp add: s' function_calls_def t)
qed

end
