(* ===== verification/Instrument_Driver.thy ===== *)
theory Instrument_Driver
  imports Instrument_Function
begin

text \<open>
  The part of \<open>main\<close> in \<open>rocprof-sys-instrument.cpp\<close> that sets the size heuristics from the command
  line, sorts the available functions into sets, instruments the selected ones, and falls back to
  batches when Dyninst refuses the whole set.

  A set of \<open>module_function\<close>s is the list of its elements in order, each with its messages. Reading
  through an iterator that has reached the end is \<open>Past_end\<close>.
\<close>

section \<open>Heuristics from the command line\<close>

definition handle_heuristics ::
  "(string \<Rightarrow> bool) \<Rightarrow> string \<Rightarrow> string \<Rightarrow> (instr_settings \<Rightarrow> instr_settings) \<Rightarrow> bool \<Rightarrow> instr_settings \<Rightarrow>
   instr_settings" where
  "handle_heuristics exists given not_given assign cond cfg =
     (if exists given \<and> \<not> exists not_given \<and> cond then assign cfg else cfg)"

definition apply_heuristics :: "(string \<Rightarrow> bool) \<Rightarrow> instr_settings \<Rightarrow> instr_settings" where
  "apply_heuristics exists cfg =
     (let cfg = handle_heuristics exists ''min-instructions'' ''min-address-range''
            (\<lambda>c. c\<lparr>min_address_range := 0\<rparr>) True cfg;
          cfg = handle_heuristics exists ''min-instructions-loop'' ''min-address-range-loop''
            (\<lambda>c. c\<lparr>min_loop_address_range := 0\<rparr>) True cfg;
          cfg = handle_heuristics exists ''min-address-range'' ''min-instructions''
            (\<lambda>c. c\<lparr>min_instructions := 0\<rparr>) True cfg;
          cfg = handle_heuristics exists ''min-address-range-loop'' ''min-instructions-loop''
            (\<lambda>c. c\<lparr>min_loop_instructions := 0\<rparr>) True cfg;
          cfg = handle_heuristics exists ''min-instructions'' ''min-instructions-loop''
            (\<lambda>c. c\<lparr>min_loop_instructions := min_instructions c\<rparr>) True cfg;
          cfg = handle_heuristics exists ''min-address-range'' ''min-address-range-loop''
            (\<lambda>c. c\<lparr>min_loop_address_range := min_address_range c\<rparr>) True cfg;
          cfg = handle_heuristics exists ''min-instructions'' ''min-address-range-loop''
            (\<lambda>c. c\<lparr>min_loop_address_range := 0\<rparr>)
            (\<not> exists ''min-address-range'' \<and> \<not> exists ''min-instructions-loop'') cfg
      in handle_heuristics exists ''min-address-range'' ''min-instructions-loop''
            (\<lambda>c. c\<lparr>min_loop_instructions := 0\<rparr>)
            (\<not> exists ''min-instructions'' \<and> \<not> exists ''min-address-range-loop'') cfg)"

text \<open>A value given on the command line is never overwritten.\<close>

lemma apply_heuristics_keeps:
  "exists ''min-instructions'' \<Longrightarrow> min_instructions (apply_heuristics exists cfg) = min_instructions cfg"
  "exists ''min-address-range'' \<Longrightarrow> min_address_range (apply_heuristics exists cfg) = min_address_range cfg"
  "exists ''min-instructions-loop'' \<Longrightarrow>
     min_loop_instructions (apply_heuristics exists cfg) = min_loop_instructions cfg"
  "exists ''min-address-range-loop'' \<Longrightarrow>
     min_loop_address_range (apply_heuristics exists cfg) = min_loop_address_range cfg"
  by (simp_all add: apply_heuristics_def handle_heuristics_def Let_def)

section \<open>Sorting the available functions\<close>

type_synonym entry = "module_function \<times> str_msg list"

record function_sets =
  instrumented_fns :: "entry list"
  excluded_fns :: "entry list"
  coverage_fns :: "entry list"
  overlapping_fns :: "entry list"

record fixed_flags =
  fixed_instrumented :: bool
  fixed_excluded :: bool
  fixed_coverage :: bool
  fixed_overlapping :: bool

definition fn_entry_less :: "entry \<Rightarrow> entry \<Rightarrow> bool" where
  "fn_entry_less a b = mf_less (fst a) (fst b)"

definition insert_module_function :: "bool \<Rightarrow> entry \<Rightarrow> entry list \<Rightarrow> entry list" where
  "insert_module_function fixed v fns = (if fixed then fns else set_emplace fn_entry_less v fns)"

definition run_check :: "check \<Rightarrow> str_msg list \<Rightarrow> instr_error + (bool \<times> str_msg list)" where
  "run_check c msgs = map_sum id (\<lambda>(b, s). (b, messages s)) (c \<lparr>messages = msgs, requests = []\<rparr>)"

definition classify_entry ::
  "instr_externals \<Rightarrow> instr_settings \<Rightarrow> symtab_data_s \<Rightarrow> fixed_flags \<Rightarrow> entry \<Rightarrow> function_sets \<Rightarrow>
   instr_error + function_sets" where
  "classify_entry E cfg d fx itr sets =
     (case itr of (f, msgs) \<Rightarrow>
       (case run_check (should_instrument E cfg d f) msgs of Inl e \<Rightarrow> Inl e | Inr (selected, msgs) \<Rightarrow>
         (let sets = (if selected
                then sets\<lparr>instrumented_fns := insert_module_function (fixed_instrumented fx) (f, msgs) (instrumented_fns sets)\<rparr>
                else sets\<lparr>excluded_fns := insert_module_function (fixed_excluded fx) (f, msgs) (excluded_fns sets)\<rparr>)
          in case (if coverage_mode cfg \<noteq> CODECOV_NONE
                   then run_check (should_coverage_instrument E cfg f) msgs else Inr (False, msgs)) of
               Inl e \<Rightarrow> Inl e
             | Inr (covered, msgs) \<Rightarrow>
                (let sets = (if covered
                       then sets\<lparr>coverage_fns := insert_module_function (fixed_coverage fx) (f, msgs) (coverage_fns sets)\<rparr>
                       else sets)
                 in Inr (if is_overlapping f
                    then sets\<lparr>overlapping_fns := insert_module_function (fixed_overlapping fx) (f, msgs) (overlapping_fns sets)\<rparr>
                    else sets)))))"

fun classify ::
  "instr_externals \<Rightarrow> instr_settings \<Rightarrow> symtab_data_s \<Rightarrow> fixed_flags \<Rightarrow> entry list \<Rightarrow> function_sets \<Rightarrow>
   instr_error + function_sets" where
  "classify E cfg d fx [] sets = Inr sets"
| "classify E cfg d fx (itr # es) sets =
     (case classify_entry E cfg d fx itr sets of Inl e \<Rightarrow> Inl e | Inr sets \<Rightarrow> classify E cfg d fx es sets)"

section \<open>Instrumenting the selected functions\<close>

definition run_instrument ::
  "instr_externals \<Rightarrow> instr_settings \<Rightarrow> nat option \<Rightarrow> nat option \<Rightarrow> entry \<Rightarrow> (call_expr \<times> point) list \<Rightarrow>
   instr_error + ((nat \<times> nat) \<times> (call_expr \<times> point) list)" where
  "run_instrument E cfg entr exit e reqs =
     map_sum id (\<lambda>(n, s). (n, requests s))
       (instrument E cfg (fst e) entr exit \<lparr>messages = snd e, requests = reqs\<rparr>)"

type_synonym pass_info = "string \<rightharpoonup> nat \<times> nat"

definition add_pass :: "string \<Rightarrow> nat \<times> nat \<Rightarrow> pass_info \<Rightarrow> pass_info" where
  "add_pass name n info =
     info(name \<mapsto> (case info name of None \<Rightarrow> n | Some m \<Rightarrow> (fst m + fst n, snd m + snd n)))"

fun instrument_all ::
  "instr_externals \<Rightarrow> instr_settings \<Rightarrow> nat option \<Rightarrow> nat option \<Rightarrow> nat option \<Rightarrow> entry list \<Rightarrow> pass_info \<Rightarrow>
   (call_expr \<times> point) list \<Rightarrow> instr_error + (pass_info \<times> (call_expr \<times> point) list)" where
  "instrument_all E cfg main_func entr exit [] info reqs = Inr (info, reqs)"
| "instrument_all E cfg main_func entr exit (e # es) info reqs =
     (if Some (p_id (mf_function (fst e))) = main_func
      then instrument_all E cfg main_func entr exit es info reqs
      else case run_instrument E cfg entr exit e reqs of
          Inl err \<Rightarrow> Inl err
        | Inr (n, reqs) \<Rightarrow>
            instrument_all E cfg main_func entr exit es (add_pass (mod_name (fst e)) n info) reqs)"

section \<open>Batches\<close>

text \<open>
  \<open>_execute_batch\<close> runs a number of functions from a position on, without asking for the end of
  the set; the loop for a batch that failed does ask. Whether Dyninst accepts the batch that
  starts at a position is the argument \<open>finalize\<close>.
\<close>

fun run_batch ::
  "instr_externals \<Rightarrow> instr_settings \<Rightarrow> nat option \<Rightarrow> nat option \<Rightarrow> nat \<Rightarrow> entry list \<Rightarrow>
   (call_expr \<times> point) list \<Rightarrow> instr_error + (call_expr \<times> point) list" where
  "run_batch E cfg entr exit 0 es reqs = Inr reqs"
| "run_batch E cfg entr exit (Suc n) [] reqs = Inl Past_end"
| "run_batch E cfg entr exit (Suc n) (e # es) reqs =
     (case run_instrument E cfg entr exit e reqs of
        Inl err \<Rightarrow> Inl err | Inr (_, reqs) \<Rightarrow> run_batch E cfg entr exit n es reqs)"

definition execute_batch ::
  "instr_externals \<Rightarrow> instr_settings \<Rightarrow> nat option \<Rightarrow> nat option \<Rightarrow> (nat \<Rightarrow> bool) \<Rightarrow> nat \<Rightarrow> entry list \<Rightarrow> nat \<Rightarrow>
   (call_expr \<times> point) list \<Rightarrow> instr_error + (call_expr \<times> point) list" where
  "execute_batch E cfg entr exit finalize batch_size fns beg reqs =
     (case run_batch E cfg entr exit batch_size (drop beg fns) reqs of
        Inl err \<Rightarrow> Inl err
      | Inr reqs \<Rightarrow>
         if finalize beg then Inr reqs
         else run_batch E cfg entr exit (min batch_size (length (drop beg fns))) (drop beg fns) reqs)"

partial_function (option) batch_loop ::
  "instr_externals \<Rightarrow> instr_settings \<Rightarrow> nat option \<Rightarrow> nat option \<Rightarrow> (nat \<Rightarrow> bool) \<Rightarrow> nat \<Rightarrow> entry list \<Rightarrow> nat \<Rightarrow>
   (call_expr \<times> point) list \<Rightarrow> (instr_error + (call_expr \<times> point) list) option" where
  "batch_loop E cfg entr exit finalize batch_size fns nidx reqs =
     (if nidx < length fns
      then (case execute_batch E cfg entr exit finalize batch_size fns nidx reqs of
              Inl err \<Rightarrow> Some (Inl err)
            | Inr reqs \<Rightarrow> batch_loop E cfg entr exit finalize batch_size fns (nidx + batch_size) reqs)
      else Some (Inr reqs))"

section \<open>The sets\<close>

definition mf_key :: "module_function \<Rightarrow> string \<times> string \<times> u64 \<times> u64 \<times> u64" where
  "mf_key f = (mod_name f, function_name f, start_address f, address_range f, num_instructions f)"

lemma mf_less_key: "mf_less a b \<longleftrightarrow> mf_key a < mf_key b"
  by (simp only: mf_less_def mf_key_def tie_lt_eq less_pair)

interpretation fn_order: weak_order mf_less
  unfolding mf_less_key [abs_def] by (rule weak_order_key)

interpretation fn_entries: weak_order fn_entry_less
  unfolding fn_entry_less_def mf_less_key by (rule weak_order_key)

lemma emplace_behind:
  assumes "\<forall>y \<in> set xs. fn_entry_less y x"
  shows "set_emplace fn_entry_less x xs = xs @ [x]"
  using assms by (induction xs) (auto dest: fn_entries.asym)

lemma classify_entry_sets:
  assumes "classify_entry E cfg d fx (f, m) sets = Inr sets'" and "\<not> fixed_instrumented fx" and "\<not> fixed_excluded fx"
  shows "(\<exists>m' s'. should_instrument E cfg d f \<lparr>messages = m, requests = []\<rparr> = Inr (True, s') \<and>
      instrumented_fns sets' = set_emplace fn_entry_less (f, m') (instrumented_fns sets) \<and>
      excluded_fns sets' = excluded_fns sets) \<or>
    (\<exists>m' s'. should_instrument E cfg d f \<lparr>messages = m, requests = []\<rparr> = Inr (False, s') \<and>
      excluded_fns sets' = set_emplace fn_entry_less (f, m') (excluded_fns sets) \<and>
      instrumented_fns sets' = instrumented_fns sets)"
proof (cases "should_instrument E cfg d f \<lparr>messages = m, requests = []\<rparr>")
  case (Inr p)
  then obtain b s' where "should_instrument E cfg d f \<lparr>messages = m, requests = []\<rparr> = Inr (b, s')"
    by (cases p) auto
  then show ?thesis
    using assms by (cases b) (auto simp: classify_entry_def run_check_def insert_module_function_def Let_def
      split: sum.splits prod.splits if_splits)
qed (use assms in \<open>simp add: classify_entry_def run_check_def\<close>)

text \<open>
  From ordered entries, each is put behind the elements of one of the two sets, by the answer of
  \<open>should_instrument\<close>.
\<close>

definition decided :: "instr_externals \<Rightarrow> instr_settings \<Rightarrow> symtab_data_s \<Rightarrow> bool \<Rightarrow> entry list \<Rightarrow> entry \<Rightarrow> bool" where
  "decided E cfg d b available e \<longleftrightarrow>
     (\<exists>m s'. (fst e, m) \<in> set available \<and>
        should_instrument E cfg d (fst e) \<lparr>messages = m, requests = []\<rparr> = Inr (b, s'))"

lemma classify_splits:
  assumes "classify E cfg d fx es sets = Inr sets'" and "\<not> fixed_instrumented fx" and "\<not> fixed_excluded fx"
    and "sorted_wrt fn_entry_less es"
    and "\<forall>y \<in> set (instrumented_fns sets) \<union> set (excluded_fns sets). \<forall>x \<in> set es. fn_entry_less y x"
  shows "\<exists>ins exs. instrumented_fns sets' = instrumented_fns sets @ ins \<and> excluded_fns sets' = excluded_fns sets @ exs \<and>
    mset (map fst ins) + mset (map fst exs) = mset (map fst es) \<and>
    (\<forall>e \<in> set ins. decided E cfg d True es e) \<and> (\<forall>e \<in> set exs. decided E cfg d False es e)"
  using assms
proof (induction es arbitrary: sets)
  case Nil
  then show ?case by simp
next
  case (Cons e es)
  obtain f m where e: "e = (f, m)"
    by (cases e)
  obtain s1 where s1: "classify_entry E cfg d fx (f, m) sets = Inr s1" and rest: "classify E cfg d fx es s1 = Inr sets'"
    using Cons.prems(1) by (auto simp: e split: sum.splits)
  have less: "fn_entry_less (f, m') x" if "x \<in> set es" for m' x
    using Cons.prems(4) that by (auto simp: e fn_entry_less_def)
  have more: "decided E cfg d b (e # es) x" if "decided E cfg d b es x" for b x
    using that by (auto simp: decided_def)
  have behind: "set_emplace fn_entry_less (f, m') xs = xs @ [(f, m')]"
    if "set xs \<subseteq> set (instrumented_fns sets) \<union> set (excluded_fns sets)" for m' xs
    using Cons.prems(5) that by (intro emplace_behind) (auto simp: e fn_entry_less_def)
  from classify_entry_sets [OF s1 Cons.prems(2,3)]
  consider m' s' where "should_instrument E cfg d f \<lparr>messages = m, requests = []\<rparr> = Inr (True, s')"
      "instrumented_fns s1 = instrumented_fns sets @ [(f, m')]" "excluded_fns s1 = excluded_fns sets"
    | m' s' where "should_instrument E cfg d f \<lparr>messages = m, requests = []\<rparr> = Inr (False, s')"
      "instrumented_fns s1 = instrumented_fns sets" "excluded_fns s1 = excluded_fns sets @ [(f, m')]"
    using behind by auto
  then show ?case
  proof cases
    case 1
    then obtain ins exs where i: "instrumented_fns sets' = instrumented_fns s1 @ ins"
      "excluded_fns sets' = excluded_fns s1 @ exs" "mset (map fst ins) + mset (map fst exs) = mset (map fst es)"
      "\<forall>e \<in> set ins. decided E cfg d True es e" "\<forall>e \<in> set exs. decided E cfg d False es e"
      using Cons.IH [OF rest] Cons.prems(2,3,4,5) less by auto
    then show ?thesis
      using 1 more by (intro exI [of _ "(f, m') # ins"] exI [of _ exs]) (auto simp: e decided_def)
  next
    case 2
    then obtain ins exs where i: "instrumented_fns sets' = instrumented_fns s1 @ ins"
      "excluded_fns sets' = excluded_fns s1 @ exs" "mset (map fst ins) + mset (map fst exs) = mset (map fst es)"
      "\<forall>e \<in> set ins. decided E cfg d True es e" "\<forall>e \<in> set exs. decided E cfg d False es e"
      using Cons.IH [OF rest] Cons.prems(2,3,4,5) less by auto
    then show ?thesis
      using 2 more by (intro exI [of _ ins] exI [of _ "(f, m') # exs"]) (auto simp: e decided_def)
  qed
qed

section \<open>Running over a set\<close>

lemma instrument_all_selected:
  assumes "\<not> werror cfg"
    and "\<forall>e \<in> set es. has_module (mf_function (fst e)) \<and> both_ends (fst e) (instr_traps cfg) None None"
  shows "\<exists>info'. instrument_all E cfg main_func (Some entr) (Some exit) es info reqs =
    Inr (info', reqs @ concat (map (\<lambda>e. function_calls E cfg (fst e) entr exit)
      (filter (\<lambda>e. Some (p_id (mf_function (fst e))) \<noteq> main_func) es)))"
  using assms(2)
proof (induction es arbitrary: info reqs)
  case (Cons e es)
  obtain n where "run_instrument E cfg (Some entr) (Some exit) e reqs = Inr (n, reqs @ function_calls E cfg (fst e) entr exit)"
    using instrument_both_ends [OF assms(1), of "fst e" E entr exit "\<lparr>messages = snd e, requests = reqs\<rparr>"] Cons.prems
    by (force simp: run_instrument_def)
  then show ?case
    using Cons.IH [of "add_pass (mod_name (fst e)) n info" "reqs @ function_calls E cfg (fst e) entr exit"]
      Cons.IH [of info reqs] Cons.prems by simp
qed simp

lemma run_batch_outcome:
  assumes "\<not> werror cfg" and "\<forall>e \<in> set es. has_module (mf_function (fst e))"
  shows "(n \<le> length es \<and> (\<exists>r. run_batch E cfg (Some entr) (Some exit) n es reqs = Inr r)) \<or>
    (length es < n \<and> run_batch E cfg (Some entr) (Some exit) n es reqs = Inl Past_end)"
  using assms(2)
proof (induction n arbitrary: es reqs)
  case (Suc n)
  show ?case
  proof (cases es)
    case (Cons e es')
    have "\<exists>r. run_instrument E cfg (Some entr) (Some exit) e reqs = Inr r"
      using instrument_total [OF assms(1), of "fst e" E entr exit "\<lparr>messages = snd e, requests = reqs\<rparr>"]
        Suc.prems Cons by (auto simp: run_instrument_def)
    then obtain m reqs' where "run_instrument E cfg (Some entr) (Some exit) e reqs = Inr (m, reqs')"
      by (metis surj_pair)
    then show ?thesis
      using Suc.IH [of es' reqs'] Suc.prems Cons by auto
  qed simp
qed simp

lemma execute_batch_outcome:
  assumes "\<not> werror cfg" and "\<forall>e \<in> set fns. has_module (mf_function (fst e))"
  shows "(beg + bs \<le> length fns \<and> (\<exists>r. execute_batch E cfg (Some entr) (Some exit) fin bs fns beg reqs = Inr r)) \<or>
    (length fns < beg + bs \<and> beg < length fns \<and>
       execute_batch E cfg (Some entr) (Some exit) fin bs fns beg reqs = Inl Past_end) \<or> length fns \<le> beg"
proof -
  have sub: "\<forall>e \<in> set (drop beg fns). has_module (mf_function (fst e))"
    using assms(2) by (auto dest: in_set_dropD)
  consider "length fns \<le> beg" | "beg + bs \<le> length fns" | "beg < length fns" "length fns < beg + bs"
    by linarith
  then show ?thesis
  proof cases
    case 2
    then have n: "bs \<le> length (drop beg fns)"
      by simp
    then obtain r where r: "run_batch E cfg (Some entr) (Some exit) bs (drop beg fns) reqs = Inr r"
      using run_batch_outcome [OF assms(1) sub, of bs E entr exit reqs] by auto
    obtain r' where "run_batch E cfg (Some entr) (Some exit) bs (drop beg fns) r = Inr r'"
      using n run_batch_outcome [OF assms(1) sub, of bs E entr exit r] by auto
    then show ?thesis
      using 2 n r by (simp add: execute_batch_def min_def)
  next
    case 3
    then have "run_batch E cfg (Some entr) (Some exit) bs (drop beg fns) reqs = Inl Past_end"
      using run_batch_outcome [OF assms(1) sub, of bs E entr exit reqs] by auto
    then show ?thesis
      using 3 by (simp add: execute_batch_def)
  qed simp
qed

text \<open>The batches: they reach the end of the set only when its size is a multiple of theirs.\<close>

lemma batch_loop_outcome:
  assumes "\<not> werror cfg" and "\<forall>e \<in> set fns. has_module (mf_function (fst e))" and "0 < bs" and "nidx \<le> length fns"
  shows "\<exists>r. batch_loop E cfg (Some entr) (Some exit) fin bs fns nidx reqs = Some r \<and>
    (case r of Inl e \<Rightarrow> e = Past_end \<and> \<not> bs dvd length fns - nidx | Inr _ \<Rightarrow> bs dvd length fns - nidx)"
  using assms(4)
proof (induction "length fns - nidx" arbitrary: nidx reqs rule: less_induct)
  case less
  show ?case
  proof (cases "nidx < length fns")
    case False
    then show ?thesis
      by (subst batch_loop.simps) (simp add: less.prems)
  next
    case True
    consider "nidx + bs \<le> length fns" | "length fns < nidx + bs"
      by linarith
    then show ?thesis
    proof cases
      case 1
      then obtain r where r: "execute_batch E cfg (Some entr) (Some exit) fin bs fns nidx reqs = Inr r"
        using execute_batch_outcome [OF assms(1,2), of nidx bs E entr exit fin reqs] True by auto
      have eq: "length fns - nidx = (length fns - (nidx + bs)) + bs"
        using 1 by simp
      have IH: "\<exists>x. batch_loop E cfg (Some entr) (Some exit) fin bs fns (nidx + bs) r = Some x \<and>
        (case x of Inl e \<Rightarrow> e = Past_end \<and> \<not> bs dvd length fns - (nidx + bs)
         | Inr _ \<Rightarrow> bs dvd length fns - (nidx + bs))"
        using less.hyps [of "nidx + bs" r] 1 True assms(3) by simp
      have step: "batch_loop E cfg (Some entr) (Some exit) fin bs fns nidx reqs =
          batch_loop E cfg (Some entr) (Some exit) fin bs fns (nidx + bs) r"
        by (subst batch_loop.simps) (simp add: True r)
      have dvd: "bs dvd length fns - nidx \<longleftrightarrow> bs dvd length fns - (nidx + bs)"
        unfolding eq by simp
      show ?thesis
        unfolding step dvd by (rule IH)
    next
      case 2
      then have "execute_batch E cfg (Some entr) (Some exit) fin bs fns nidx reqs = Inl Past_end"
        using execute_batch_outcome [OF assms(1,2), of nidx bs E entr exit fin reqs] True by auto
      then have "batch_loop E cfg (Some entr) (Some exit) fin bs fns nidx reqs = Some (Inl Past_end)"
        by (subst batch_loop.simps) (simp add: True)
      moreover have "\<not> bs dvd length fns - nidx"
        using 2 True by (auto dest: dvd_imp_le)
      ultimately show ?thesis
        by simp
    qed
  qed
qed

lemma execute_batch_zero: "execute_batch E cfg entr exit fin 0 fns beg reqs = Inr reqs"
  by (simp add: execute_batch_def)

lemma batch_loop_zero: "fns \<noteq> [] \<Longrightarrow> batch_loop E cfg entr exit fin 0 fns 0 reqs = None"
proof (cases "batch_loop E cfg entr exit fin 0 fns 0 reqs")
  case (Some r)
  assume "fns \<noteq> []"
  have "bs = 0 \<longrightarrow> length fs \<le> nidx"
    if "batch_loop E' cfg' entr' exit' fin' bs fs nidx reqs' = Some r'"
    for E' cfg' entr' exit' fin' bs fs nidx reqs' r'
  proof (rule batch_loop.raw_induct
      [where P = "\<lambda>E cfg entr exit fin bs fs nidx reqs r. bs = 0 \<longrightarrow> length fs \<le> nidx", OF _ that], intro impI)
    fix loop :: "instr_externals \<Rightarrow> instr_settings \<Rightarrow> nat option \<Rightarrow> nat option \<Rightarrow> (nat \<Rightarrow> bool) \<Rightarrow> nat \<Rightarrow> entry list \<Rightarrow> nat \<Rightarrow>
      (call_expr \<times> point) list \<Rightarrow> (instr_error + (call_expr \<times> point) list) option"
      and E cfg entr exit fin fs and bs nidx :: nat and reqs r
    assume hyp: "\<And>E cfg entr exit fin bs fs nidx reqs r.
        loop E cfg entr exit fin bs fs nidx reqs = Some r \<Longrightarrow> bs = 0 \<longrightarrow> length fs \<le> nidx"
      and body: "(if nidx < length fs then case execute_batch E cfg entr exit fin bs fs nidx reqs of
          Inl err \<Rightarrow> Some (Inl err) | Inr reqs \<Rightarrow> loop E cfg entr exit fin bs fs (nidx + bs) reqs
        else Some (Inr reqs)) = Some r" and "bs = 0"
    show "length fs \<le> nidx"
    proof (rule ccontr)
      assume "\<not> length fs \<le> nidx"
      then have "loop E cfg entr exit fin 0 fs nidx reqs = Some r"
        using body \<open>bs = 0\<close> by (simp add: execute_batch_zero)
      then show False
        using hyp \<open>\<not> length fs \<le> nidx\<close> by blast
    qed
  qed
  then show ?thesis
    using Some \<open>fns \<noteq> []\<close> by fastforce
qed

end
