(* ===== verification/Instrument_Properties.thy ===== *)
theory Instrument_Properties
  imports Instrument_Driver
begin

text \<open>
  What the binary instrumenter does, over its components: the decision, the sets, the calls that are
  inserted, and the fallback in batches. A small program at the beginning is the one the theorems
  are applied to.
\<close>

section \<open>A program under instrumentation\<close>

definition sample_externals :: instr_externals where
  "sample_externals = \<lparr>tim_basename = (\<lambda>p. p), tim_realpath = (\<lambda>p. p), tim_join = (\<lambda>d ps. concat ps),
     demangle_name = (\<lambda>n. n), internal_libs = [], sl_unknown = 0, sv_unknown = 0, no_category = 0,
     accepts_point = (\<lambda>_. True)\<rparr>"

definition sample_settings :: instr_settings where
  "sample_settings = \<lparr>use_return_info = False, use_args_info = False, use_file_info = False,
     use_line_info = False, allow_overlapping = False, loop_level_instr = False,
     instr_dynamic_callsites = False, instr_traps = False, instr_loop_traps = False,
     min_address_range = 0, min_loop_address_range = 0, min_instructions = 0, min_loop_instructions = 0,
     werror = False, debug_print = False, instr_print = False, verbose_level = 0,
     func_include = [], func_exclude = [], file_include = [], file_exclude = [], file_restrict = [],
     func_restrict = [], caller_include = [], instruction_exclude = [Lit ''ret''], coverage_mode = CODECOV_NONE,
     enabled_linkage = [], enabled_visibility = []\<rparr>"

definition sample_module :: module_t where
  "sample_module = \<lparr>full_name = ''a.cpp'', is_system_lib = False, source_lines = (\<lambda>_. None)\<rparr>"

definition sample_procedure :: procedure_t where
  "sample_procedure = \<lparr>p_id = 1, demangled_name = ''run'', mangled_name = ''run'', has_module = True,
     instrumentable = True, p_address_range = Some (16, 80),
     p_cfg = Some \<lparr>fg_blocks = [\<lparr>bb_id = 0, bb_start = 16, bb_end = 80, bb_dominates = [],
         bb_read = Instructions [(0, ''mov''), (0, ''ret'')], bb_entry_point = None, bb_exit_point = None\<rparr>],
       fg_outer_loops = [], contains_dynamic = False\<rparr>,
     p_points = (\<lambda>l. Some [Some \<lparr>pt_id = (if l = BPatch_entry then 0 else 1), uses_trap = False\<rparr>]),
     p_callees = [], has_overlapping = False, return_type = None, parameters = None\<rparr>"

definition sample_function :: module_function where
  "sample_function = \<lparr>start_address = 16, address_range = 64, num_instructions = 2,
     mf_module = sample_module, mf_function = sample_procedure, symtab_function = None,
     mf_flow_graph = p_cfg sample_procedure, mod_name = ''a.cpp'', function_name = ''run'',
     signature = get_func_file_line_info sample_externals sample_module sample_procedure,
     basic_blocks = fg_blocks (the (p_cfg sample_procedure)), loop_blocks = [],
     instruction_types = [0 \<mapsto> 2], instructions = []\<rparr>"

lemma sample_made:
  "no_functions d \<Longrightarrow>
    make_module_function sample_externals sample_settings d sample_module sample_procedure = Inr sample_function"
  by (simp add: make_module_function_def sample_function_def sample_procedure_def sample_externals_def
      sample_settings_def sample_module_def no_functions_lookup keeps_instructions_def
      add_instructions_def fun_eq_iff)

lemmas sample_defs = sample_function_def sample_procedure_def sample_module_def sample_settings_def
  sample_externals_def

lemma sample_passes:
  "is_instrumentable sample_function s = Inr (True, s)"
  "can_instrument_entry sample_function s = Inr (True, s)"
  "can_instrument_exit sample_function s = Inr (True, s)"
  "is_entry_trap_constrained sample_settings sample_function s = Inr (False, s)"
  "is_exit_trap_constrained sample_settings sample_function s = Inr (False, s)"
  "too_few_instructions sample_externals sample_function s = Inr (False, s)"
  "is_user_excluded sample_settings sample_function s = Inr (False, s)"
  "is_overlapping_constrained sample_settings sample_function s = Inr (False, s)"
  "is_dynamic_callsite_forced sample_settings sample_function s = Inr (False, s)"
  "is_user_included sample_settings sample_function s = Inr (False, s)"
  "is_linkage_constrained sample_externals sample_settings d sample_function s = Inr (False, s)"
  "is_visibility_constrained sample_externals sample_settings d sample_function s = Inr (False, s)"
  "size_heuristics sample_settings sample_function s = Inr (True, s)"
  by (simp_all add: sample_defs is_instrumentable_def can_instrument_entry_def can_instrument_exit_def
      can_instrument_at_def query_instr_def count_points_def is_entry_trap_constrained_def
      is_exit_trap_constrained_def is_trap_constrained_def too_few_instructions_def is_user_excluded_def
      is_overlapping_constrained_def is_overlapping_def is_dynamic_callsite_forced_def is_user_included_def
      contains_user_callsite_def is_linkage_constrained_def get_linkage_def is_visibility_constrained_def
      get_visibility_def size_heuristics_def stop_if_def is_address_range_constrained_def
      is_num_instructions_constrained_def is_instruction_constrained_def answer_def)

lemma sample_internal: "is_internal_constrained sample_externals sample_function s = Inr (False, s)"
  by (simp add: is_internal_constrained_def sample_defs internal_lib_regex_def internal_source_regex_def
      rocprofsys_name_regex_def timemory_name_regex_def perfetto_name_regex_def regex_simps answer_def)

lemma sample_module_passes: "is_module_constrained sample_function s = Inr (False, s)"
  by (simp add: is_module_constrained_def sample_defs ext_regex_def sys_regex_def sys_build_regex_def
      dyninst_regex_def dependlib_regex_def core_cmod_regex_def core_lib_regex_def regex_simps answer_def
      az_def AZ_def one_char_def)

lemma sample_routine_passes: "is_routine_constrained sample_function s = Inr (False, s)"
  by (simp add: is_routine_constrained_def sample_defs exclude_regex_def exclude_cxx_regex_def
      exclude_fortran_regex_def leading_regex_def trailing_regex_def regex_simps answer_def find_string_def
      az_def AZ_def one_char_def whole_function_names_def get_whole_function_names_def)

lemma sample_selected:
  "should_instrument sample_externals sample_settings d sample_function s = Inr (True, s)"
  by (simp add: should_instrument_def should_instrument_mode_def stop_if_def unless_coverage_def
      sample_passes sample_internal sample_module_passes sample_routine_passes)
    (simp add: sample_settings_def)

definition sample_symtab_module :: symtab_module where
  "sample_symtab_module = \<lparr>sm_id = 0, sm_full_name = ''a.cpp'', sm_all_functions =
     [Some \<lparr>sf_id = 1, sf_name = ''run'', sf_symbols = Some [Some \<lparr>sy_mangled = ''run'', sy_typed = ''run'',
        sy_linkage = 2, sy_visibility = 3, sy_function = Some 1\<rparr>]\<rparr>]\<rparr>"

definition no_sets :: function_sets where
  "no_sets = \<lparr>instrumented_fns = [], excluded_fns = [], coverage_fns = [], overlapping_fns = []\<rparr>"

definition nothing_fixed :: fixed_flags where
  "nothing_fixed = \<lparr>fixed_instrumented = False, fixed_excluded = False, fixed_coverage = False,
     fixed_overlapping = False\<rparr>"

lemma sample_classified:
  "classify sample_externals sample_settings empty_symtab_data nothing_fixed [(sample_function, [])] no_sets =
    Inr (no_sets\<lparr>instrumented_fns := [(sample_function, [])]\<rparr>)"
  by (simp add: classify_entry_def run_check_def sample_selected no_sets_def nothing_fixed_def
      insert_module_function_def)
    (simp add: sample_settings_def is_overlapping_def sample_function_def sample_procedure_def)

section \<open>Properties\<close>

text \<open>
  C11. The available functions, in order, are split between the instrumented and the excluded ones:
  none is lost, none is in both, and the answer of \<open>should_instrument\<close> decides which.
\<close>
theorem classify_partition:
  assumes "classify E cfg d fx available no_sets = Inr sets" and "\<not> fixed_instrumented fx"
    and "\<not> fixed_excluded fx" and "sorted_wrt fn_entry_less available"
  shows "mset (map fst (instrumented_fns sets)) + mset (map fst (excluded_fns sets)) = mset (map fst available) \<and>
    list_all (decided E cfg d True available) (instrumented_fns sets) \<and>
    list_all (decided E cfg d False available) (excluded_fns sets)"
  using classify_splits [OF assms] by (auto simp: no_sets_def list_all_iff)

theorem classify_partition_witness:
  "mset (map fst (instrumented_fns (no_sets\<lparr>instrumented_fns := [(sample_function, [])]\<rparr>))) +
     mset (map fst (excluded_fns (no_sets\<lparr>instrumented_fns := [(sample_function, [])]\<rparr>))) =
   mset (map fst [(sample_function, [])])"
  using classify_partition [OF sample_classified] by (simp add: nothing_fixed_def)

text \<open>
  C10. What was selected is instrumented: when the instrumented set of the previous step is run, every
  function but the main one gets a call at each of its usable entry points and at each of its usable
  exit points, and has at least one of each; a loop gets both kinds of calls or none.
\<close>
theorem selected_is_instrumented:
  assumes "classify E cfg d fx available no_sets = Inr sets" and "\<not> fixed_instrumented fx"
    and "\<not> fixed_excluded fx" and "sorted_wrt fn_entry_less available" and "\<not> werror cfg"
  shows "list_all (\<lambda>e. both_ends (fst e) (instr_traps cfg) None None) (instrumented_fns sets) \<and>
    (\<exists>info. instrument_all E cfg main_func (Some entr) (Some exit) (instrumented_fns sets) Map.empty [] =
      Inr (info, concat (map (\<lambda>e. function_calls E cfg (fst e) entr exit)
        (filter (\<lambda>e. Some (p_id (mf_function (fst e))) \<noteq> main_func) (instrumented_fns sets)))))"
proof -
  have "\<forall>e \<in> set (instrumented_fns sets). decided E cfg d True available e"
    using classify_splits [OF assms(1-4)] by (auto simp: no_sets_def)
  then have ends: "\<forall>e \<in> set (instrumented_fns sets).
      has_module (mf_function (fst e)) \<and> both_ends (fst e) (instr_traps cfg) None None"
    using selected_both_ends unfolding decided_def by blast
  show ?thesis
    using ends instrument_all_selected [OF assms(5) ends, of E main_func entr exit Map.empty "[]"]
    by (simp add: list_all_iff)
qed

theorem selected_is_instrumented_witness:
  "both_ends sample_function False None None"
  using selected_is_instrumented [OF sample_classified, of None 7 8]
  by (simp add: nothing_fixed_def sample_settings_def no_sets_def)

text \<open>
  The decision never touches the mutatee and appends at most one message; a refusal always
  appends one, except when the linkage or the visibility of the symbol is the reason.
\<close>
theorem should_instrument_explained:
  assumes "should_instrument E cfg d f s = Inr (selected, s')"
  shows "(s' = s \<or> one_message s s') \<and> (selected \<or> one_message s s' \<or> symbol_refused E cfg d f)"
  using assms should_instrument_mode_explained [of E cfg d f False]
  unfolding should_instrument_def explained_def by blast

theorem should_instrument_explained_witness:
  "\<exists>s'. should_instrument sample_externals sample_settings empty_symtab_data
     (sample_function\<lparr>num_instructions := 1\<rparr>) \<lparr>messages = [], requests = []\<rparr> = Inr (False, s') \<and>
   one_message \<lparr>messages = [], requests = []\<rparr> s'"
proof -
  let ?f = "sample_function\<lparr>num_instructions := 1\<rparr>"
  let ?s = "\<lparr>messages = [], requests = []\<rparr> :: instr_state"
  have same: "is_instrumentable ?f = is_instrumentable sample_function"
    "can_instrument_entry ?f = can_instrument_entry sample_function"
    "can_instrument_exit ?f = can_instrument_exit sample_function"
    "is_internal_constrained sample_externals ?f = is_internal_constrained sample_externals sample_function"
    "is_module_constrained ?f = is_module_constrained sample_function"
    "is_routine_constrained ?f = is_routine_constrained sample_function"
    by (simp_all cong: if_cong sum.case_cong prod.case_cong add: fun_eq_iff is_instrumentable_def can_instrument_entry_def can_instrument_exit_def
        can_instrument_at_def is_internal_constrained_def is_module_constrained_def is_routine_constrained_def
        sample_externals_def)
  obtain s' where run: "should_instrument sample_externals sample_settings empty_symtab_data ?f ?s = Inr (False, s')"
    by (simp add: should_instrument_def should_instrument_mode_def stop_if_def same sample_passes
        sample_internal sample_module_passes sample_routine_passes too_few_instructions_def report_def)
  have "\<not> symbol_refused sample_externals sample_settings empty_symtab_data ?f"
    by (simp add: symbol_refused_def get_linkage_def get_visibility_def sample_function_def)
  then show ?thesis
    using run should_instrument_explained [OF run] by blast
qed

text \<open>
  C12. The constraints on linkage and visibility never refuse a function: \<open>process_modules\<close> does not
  store the functions it asks the modules for, so no function is ever found in the symbol tables.
\<close>
theorem symbol_constraints_dead:
  assumes "make_module_function E cfg (process_modules demangle basename app_modules empty_symtab_data) md proc = Inr f"
  shows "is_linkage_constrained E cfg (process_modules demangle basename app_modules empty_symtab_data) f s = Inr (False, s) \<and>
    is_visibility_constrained E cfg (process_modules demangle basename app_modules empty_symtab_data) f s = Inr (False, s)"
proof -
  have "symtab_function f = None"
    using make_module_function_keeps(1) [OF assms]
      no_functions_lookup [OF process_modules_no_functions [OF no_functions_empty]] by simp
  then show ?thesis
    by (simp add: is_linkage_constrained_def is_visibility_constrained_def get_linkage_def get_visibility_def)
qed

theorem symbol_constraints_dead_witness:
  "is_linkage_constrained sample_externals sample_settings
     (process_modules (\<lambda>n. n) Some [Some sample_symtab_module] empty_symtab_data) sample_function \<lparr>messages = [], requests = []\<rparr> =
   Inr (False, \<lparr>messages = [], requests = []\<rparr>)"
  using symbol_constraints_dead [OF sample_made [OF process_modules_no_functions [OF no_functions_empty]]] by blast

text \<open>
  The expressions of \<open>--instruction-exclude\<close> exclude nothing unless instructions are printed:
  the constructor keeps the instructions of a function only for printing.
\<close>
theorem instruction_exclude_ignored:
  assumes "make_module_function E cfg d md proc = Inr f" and "\<not> keeps_instructions cfg"
  shows "is_instruction_constrained cfg f s = Inr (False, s)"
  using make_module_function_keeps(3) [OF assms] by (simp add: is_instruction_constrained_def answer_def)

theorem instruction_exclude_ignored_witness:
  "is_instruction_constrained sample_settings sample_function \<lparr>messages = [], requests = []\<rparr> =
     Inr (False, \<lparr>messages = [], requests = []\<rparr>) \<and>
   check_regex_restrictions ''ret'' (instruction_exclude sample_settings)"
  using instruction_exclude_ignored [OF sample_made [OF no_functions_empty]]
  by (simp add: keeps_instructions_def sample_settings_def check_regex_restrictions_def std_regex_search_def)

text \<open>
  C13. The fallback in batches reaches the end of the set only when the number of functions is a
  multiple of the batch size; otherwise the last batch reads behind the end of the set. With a
  batch size of zero it never returns.
\<close>
theorem batches_read_past_end:
  assumes "\<not> werror cfg" and "list_all (\<lambda>e. has_module (mf_function (fst e))) fns" and "fns \<noteq> []"
  shows "if batch_size = 0 then batch_loop E cfg (Some entr) (Some exit) finalize batch_size fns 0 reqs = None
    else (\<exists>r. batch_loop E cfg (Some entr) (Some exit) finalize batch_size fns 0 reqs = Some r \<and>
      (case r of Inl e \<Rightarrow> e = Past_end \<and> \<not> batch_size dvd length fns | Inr _ \<Rightarrow> batch_size dvd length fns))"
proof (cases "batch_size = 0")
  case False
  then show ?thesis
    using batch_loop_outcome [of cfg fns batch_size 0 E entr exit finalize reqs] assms(1,2)
    unfolding diff_zero list_all_iff by simp
qed (simp add: batch_loop_zero [OF assms(3)])

theorem batches_read_past_end_witness:
  "batch_loop sample_externals sample_settings (Some 7) (Some 8) (\<lambda>_. True) 50 [(sample_function, [])] 0 [] =
    Some (Inl Past_end)"
proof -
  have "\<not> werror sample_settings" and "list_all (\<lambda>e. has_module (mf_function (fst e))) [(sample_function, [])]"
    by (simp_all add: sample_defs)
  note spec = batches_read_past_end [OF this, of 50 sample_externals 7 8 "\<lambda>_. True" "[]"]
  have "(50 :: nat) \<noteq> 0"
    by simp
  from spec [unfolded if_not_P [OF this], OF list.distinct(2)]
  obtain r where r: "batch_loop sample_externals sample_settings (Some 7) (Some 8) (\<lambda>_. True) 50
      [(sample_function, [])] 0 [] = Some r"
    and "case r of Inl e \<Rightarrow> e = Past_end \<and> \<not> 50 dvd length [(sample_function, [] :: str_msg list)]
      | Inr _ \<Rightarrow> 50 dvd length [(sample_function, [] :: str_msg list)]"
    by blast
  then show ?thesis
    by (cases r) simp_all
qed

end
