(* ===== verification/File_Resolve.thy ===== *)
theory File_Resolve
  imports Instrument_Types
begin

text \<open>
  How the instrumenter turns names into paths: \<open>canonicalize\<close>, \<open>absolute\<close> and the
  \<open>get_absolute_filepath\<close> family at the end of \<open>rocprof-sys-instrument.cpp\<close>.

  The file system, the working directory and timemory's \<open>delimit\<close>, \<open>join\<close>, \<open>dirname\<close> and \<open>basename\<close>
  are the record \<open>file_system\<close>. \<open>at\<close> throws \<open>Out_of_range\<close>.
\<close>

record file_system =
  cwd :: string
  tim_delimit :: "string \<Rightarrow> string \<Rightarrow> string list"
  path_join :: "string \<Rightarrow> string \<Rightarrow> string"
  path_dirname :: "string \<Rightarrow> string"
  path_basename :: "string \<Rightarrow> string"
  path_exists :: "string \<Rightarrow> bool"
  path_realpath :: "string \<Rightarrow> string"
  is_regular :: "string \<Rightarrow> bool"
  is_dir :: "string \<Rightarrow> bool"

section \<open>Canonical paths\<close>

text \<open>The loop over the pieces, last piece first: a piece \<open>..\<close> skips the piece in front of it.\<close>

fun keep_pieces :: "string list \<Rightarrow> string list" where
  "keep_pieces [] = []"
| "keep_pieces (p # ps) =
     (if p = ''.'' then keep_pieces ps
      else if p = ''..'' then (case ps of [] \<Rightarrow> [] | _ # qs \<Rightarrow> keep_pieces qs)
      else p # keep_pieces ps)"

text \<open>
  The loop that puts the path together runs up to the size minus one, which is the largest number
  when nothing is left: its first access then throws.
\<close>

definition build_path :: "bool \<Rightarrow> string list \<Rightarrow> instr_error + string" where
  "build_path leading tree =
     (if tree = [] then Inl Out_of_range
      else Inr ((if leading then ''/'' else []) @ concat (map (\<lambda>p. p @ ''/'') (butlast tree)) @ last tree))"

definition canonicalize :: "file_system \<Rightarrow> string \<Rightarrow> instr_error + string" where
  "canonicalize fs path =
     (let path = (if find_string path ''./'' = Some 0 then cwd fs @ drop 1 path
                  else if find_string path ''../'' = Some 0 then cwd fs @ ''/'' @ path else path);
          leading = (find_string path ''/'' = Some 0);
          pieces = rev (tim_delimit fs path ''/'')
      in build_path leading (rev (keep_pieces pieces)))"

definition absolute :: "file_system \<Rightarrow> string \<Rightarrow> instr_error + string" where
  "absolute fs path =
     (if find_string path ''/'' = Some 0 then canonicalize fs path
      else canonicalize fs (path_join fs (cwd fs) path))"

section \<open>Looking for files\<close>

definition exists_file :: "file_system \<Rightarrow> string \<Rightarrow> instr_error + bool" where
  "exists_file fs name = map_sum id (path_exists fs) (absolute fs name)"

definition is_file :: "file_system \<Rightarrow> string \<Rightarrow> bool" where
  "is_file fs name = is_regular fs (path_realpath fs name)"

definition is_directory :: "file_system \<Rightarrow> string \<Rightarrow> bool" where
  "is_directory fs name = is_dir fs (path_realpath fs name)"

definition first_of_two :: "file_system \<Rightarrow> string \<Rightarrow> string \<Rightarrow> instr_error + string option" where
  "first_of_two fs a b =
     (case exists_file fs a of Inl e \<Rightarrow> Inl e | Inr ex \<Rightarrow>
       if ex \<and> is_file fs a then Inr (Some a)
       else (case exists_file fs b of Inl e \<Rightarrow> Inl e | Inr ex \<Rightarrow>
         if ex \<and> is_file fs b then Inr (Some b) else Inr None))"

text \<open>The loop over the search paths; both candidates are made before the first is tried.\<close>

fun search_loop :: "file_system \<Rightarrow> string \<Rightarrow> string list \<Rightarrow> instr_error + string option" where
  "search_loop fs name [] = Inr None"
| "search_loop fs name (itr # paths) =
     (let itr = (if \<not> is_directory fs itr \<or> is_file fs itr then path_dirname fs itr else itr)
      in case absolute fs (path_join fs itr name) of Inl e \<Rightarrow> Inl e | Inr a \<Rightarrow>
        (case absolute fs (path_join fs itr (path_basename fs name)) of Inl e \<Rightarrow> Inl e | Inr b \<Rightarrow>
          (case first_of_two fs a b of
             Inl e \<Rightarrow> Inl e
           | Inr (Some p) \<Rightarrow> Inr (Some p)
           | Inr None \<Rightarrow> search_loop fs name paths)))"

definition get_absolute_filepath :: "file_system \<Rightarrow> string \<Rightarrow> string list \<Rightarrow> instr_error + string" where
  "get_absolute_filepath fs name dirs =
     (if name = [] then Inr name
      else case exists_file fs name of Inl e \<Rightarrow> Inl e | Inr ex \<Rightarrow>
        if \<not> ex \<or> \<not> is_file fs name
        then (case search_loop fs name dirs of
                Inl e \<Rightarrow> Inl e
              | Inr r \<Rightarrow>
                 (let name = (case r of Some p \<Rightarrow> p | None \<Rightarrow> name)
                  in case exists_file fs name of Inl e \<Rightarrow> Inl e | Inr _ \<Rightarrow> Inr name))
        else absolute fs name)"

definition get_absolute_filepath_any ::
  "file_system \<Rightarrow> string list \<Rightarrow> string list \<Rightarrow> string \<Rightarrow> instr_error + string" where
  "get_absolute_filepath_any fs bin_search_paths lib_search_paths name =
     (let base = path_basename fs name;
          paths = (if find_string base ''lib'' = Some 0 \<or> find_string base ''.so'' \<noteq> None \<or>
                      find_string base ''.a'' \<noteq> None
                   then lib_search_paths @ bin_search_paths else bin_search_paths @ lib_search_paths)
      in get_absolute_filepath fs name paths)"

definition get_absolute_exe_filepath :: "file_system \<Rightarrow> string list \<Rightarrow> string \<Rightarrow> instr_error + string" where
  "get_absolute_exe_filepath fs bin_search_paths exe_name = get_absolute_filepath fs exe_name bin_search_paths"

definition get_absolute_lib_filepath :: "file_system \<Rightarrow> string list \<Rightarrow> string \<Rightarrow> instr_error + string" where
  "get_absolute_lib_filepath fs lib_search_paths lib_name =
     (case get_absolute_filepath fs lib_name lib_search_paths of Inl e \<Rightarrow> Inl e | Inr found \<Rightarrow>
       if lib_name = found
       then (case exists_file fs found of Inl e \<Rightarrow> Inl e | Inr ex \<Rightarrow>
         if \<not> ex \<and> find_string found ''.so'' = None \<and> find_string found ''.a'' = None
         then get_absolute_filepath fs (found @ ''.so'') lib_search_paths else Inr found)
       else Inr found)"

section \<open>The reference: a stack of directories\<close>

fun resolve_pieces :: "string list \<Rightarrow> string list \<Rightarrow> string list" where
  "resolve_pieces stack [] = stack"
| "resolve_pieces stack (p # ps) =
     (if p = ''.'' then resolve_pieces stack ps
      else if p = ''..'' then resolve_pieces (butlast stack) ps
      else resolve_pieces (stack @ [p]) ps)"

definition plain :: "string \<Rightarrow> bool" where
  "plain p \<longleftrightarrow> p \<noteq> ''.'' \<and> p \<noteq> ''..''"

text \<open>Every \<open>..\<close> stands directly behind a plain name.\<close>

fun parents_placed :: "string list \<Rightarrow> bool" where
  "parents_placed [] \<longleftrightarrow> True"
| "parents_placed [p] \<longleftrightarrow> p \<noteq> ''..''"
| "parents_placed (p # q # ps) \<longleftrightarrow>
     (if q = ''..'' then plain p \<and> parents_placed ps else p \<noteq> ''..'' \<and> parents_placed (q # ps))"

lemma keep_pieces_append:
  "parents_placed ps \<Longrightarrow> keep_pieces (rev ps @ qs) = keep_pieces (rev ps) @ keep_pieces qs"
proof (induction ps arbitrary: qs rule: parents_placed.induct)
  case 1
  show ?case by simp
next
  case (2 p)
  then show ?case by simp
next
  case (3 p q ps)
  have step: "keep_pieces (q # p # r) = keep_pieces [q, p] @ keep_pieces r" if "q = ''..''" for r
    using that by simp
  show ?case
  proof (cases "q = ''..''")
    case True
    then have "parents_placed ps"
      using 3(3) by simp
    from 3(1) [OF True this, of "q # p # qs"] 3(1) [OF True this, of "[q, p]"] step [OF True, of qs]
    show ?thesis
      by (simp only: rev.simps append_assoc append.simps)
  next
    case False
    then have p: "p \<noteq> ''..''" "parents_placed (q # ps)"
      using 3(3) by simp_all
    have "keep_pieces (p # qs) = keep_pieces [p] @ keep_pieces qs"
      using p(1) by simp
    then show ?thesis
      using 3(2) [OF False p(2), of "p # qs"] 3(2) [OF False p(2), of "[p]"]
      by (simp only: rev.simps append_assoc append.simps)
  qed
qed

lemma keep_pieces_resolve:
  "parents_placed ps \<Longrightarrow> resolve_pieces stack ps = stack @ rev (keep_pieces (rev ps))"
proof (induction ps arbitrary: stack rule: parents_placed.induct)
  case 1
  show ?case by simp
next
  case (2 p)
  then show ?case by simp
next
  case (3 p q ps)
  show ?case
  proof (cases "q = ''..''")
    case True
    then have p: "plain p" "parents_placed ps"
      using 3(3) by simp_all
    have "resolve_pieces stack (p # q # ps) = resolve_pieces stack ps" "keep_pieces [q, p] = []"
      using True p(1) by (simp_all add: plain_def)
    then show ?thesis
      using 3(1) [OF True p(2), of stack] keep_pieces_append [OF p(2), of "[q, p]"]
      by (simp only: rev.simps append_assoc append.simps append_Nil2)
  next
    case False
    then have p: "p \<noteq> ''..''" "parents_placed (q # ps)"
      using 3(3) by simp_all
    have "rev (keep_pieces (rev (p # q # ps))) = rev (keep_pieces [p]) @ rev (keep_pieces (rev (q # ps)))"
      using keep_pieces_append [OF p(2), of "[p]"] by (simp only: rev.simps rev_append)
    moreover have "resolve_pieces stack (p # q # ps) = resolve_pieces (stack @ keep_pieces [p]) (q # ps)"
      "rev (keep_pieces [p]) = keep_pieces [p]"
      using p(1) by (simp_all del: resolve_pieces.simps add: resolve_pieces.simps(2) [of _ p])
    ultimately show ?thesis
      using 3(2) [OF False p(2), of "stack @ keep_pieces [p]"] by (simp only: append_assoc)
  qed
qed

lemma build_path_concat:
  "tree \<noteq> [] \<Longrightarrow> build_path True tree = Inr (concat (map (\<lambda>p. ''/'' @ p) tree))"
proof (induction tree rule: rev_induct)
  case (snoc p tree)
  have "''/'' @ concat (map (\<lambda>p. p @ ''/'') ps) = concat (map (\<lambda>p. ''/'' @ p) ps) @ ''/''" for ps :: "string list"
    by (induction ps) auto
  then show ?case
    by (simp add: build_path_def)
qed simp

lemma build_path_cases:
  "build_path True tree =
    (case tree of [] \<Rightarrow> Inl Out_of_range | d # ds \<Rightarrow> Inr (concat (map (\<lambda>p. ''/'' @ p) (d # ds))))"
proof (cases tree)
  case Nil
  then show ?thesis
    by (simp add: build_path_def)
next
  case (Cons d ds)
  show ?thesis
    unfolding Cons list.case by (rule build_path_concat) simp
qed

lemma find_string_slash: "find_string (CHR ''/'' # path) ''/'' = Some 0"
  by (simp add: find_string_def)

lemma canonicalize_absolute:
  "canonicalize fs (CHR ''/'' # path) =
    build_path True (rev (keep_pieces (rev (tim_delimit fs (CHR ''/'' # path) ''/''))))"
proof -
  have "find_string_from (Suc i) pat s \<noteq> Some 0" for i pat s
    by (induction s arbitrary: i) (auto split: if_splits)
  then have "find_string (CHR ''/'' # path) ''./'' \<noteq> Some 0" "find_string (CHR ''/'' # path) ''../'' \<noteq> Some 0"
    by (auto simp: find_string_def)
  then show ?thesis
    by (simp add: canonicalize_def find_string_slash)
qed

section \<open>Properties\<close>

text \<open>
  C14. \<open>canonicalize\<close> of an absolute path in which every \<open>..\<close> stands directly behind a name, with
  \<open>delimit\<close> giving the nonempty pieces between slashes, resolves it like a stack of directories; when
  that leaves no directory (the root, or \<open>/a/..\<close>) it throws \<open>Out_of_range\<close>, and yields the path
  otherwise.
\<close>
theorem canonicalize_resolves:
  assumes "\<And>s. tim_delimit fs s ''/'' = tokens (\<lambda>c. c = CHR ''/'') s"
    and "parents_placed (tokens (\<lambda>c. c = CHR ''/'') (CHR ''/'' # path))"
  shows "canonicalize fs (CHR ''/'' # path) =
    (case resolve_pieces [] (tokens (\<lambda>c. c = CHR ''/'') (CHR ''/'' # path)) of
       [] \<Rightarrow> Inl Out_of_range
     | d # ds \<Rightarrow> Inr (concat (map (\<lambda>p. ''/'' @ p) (d # ds))))"
  using keep_pieces_resolve [OF assms(2), of "[]"]
  by (simp only: canonicalize_absolute assms(1) append_Nil build_path_cases [symmetric])

definition sample_files :: file_system where
  "sample_files = \<lparr>cwd = ''/w'', tim_delimit = (\<lambda>s ds. tokens (\<lambda>c. c \<in> set ds) s),
     path_join = (\<lambda>a b. a @ ''/'' @ b), path_dirname = (\<lambda>p. p), path_basename = (\<lambda>p. p),
     path_exists = (\<lambda>_. False), path_realpath = (\<lambda>p. p), is_regular = (\<lambda>_. False), is_dir = (\<lambda>_. False)\<rparr>"

lemma sample_delimit: "tim_delimit sample_files s ''/'' = tokens (\<lambda>c. c = CHR ''/'') s"
  by (simp add: sample_files_def)

theorem canonicalize_resolves_witness:
  "canonicalize sample_files ''/a/b/../x'' = Inr ''/a/x'' \<and> canonicalize sample_files ''/a/..'' = Inl Out_of_range"
proof -
  have "tokens (\<lambda>c. c = CHR ''/'') ''/a/b/../x'' = [''a'', ''b'', ''..'', ''x'']"
    and "tokens (\<lambda>c. c = CHR ''/'') ''/a/..'' = [''a'', ''..'']"
    by (simp_all add: tokens.simps)
  then show ?thesis
    using canonicalize_resolves [OF sample_delimit, of "''a/b/../x''"]
      canonicalize_resolves [OF sample_delimit, of "''a/..''"] by (simp add: plain_def)
qed

text \<open>
  Two \<open>..\<close> in a row remove one directory only, a \<open>..\<close> behind \<open>.\<close> removes none, and the root
  directory makes \<open>canonicalize\<close> throw.
\<close>
theorem canonicalize_wrong_parent:
  assumes "\<And>s. tim_delimit fs s ''/'' = tokens (\<lambda>c. c = CHR ''/'') s"
  shows "canonicalize fs ''/a/b/../../x'' = Inr ''/a/b/x'' \<and> canonicalize fs ''/a/./../x'' = Inr ''/a/x'' \<and>
    canonicalize fs ''/'' = Inl Out_of_range"
  by (simp add: canonicalize_absolute assms tokens.simps build_path_def)

theorem canonicalize_wrong_parent_witness:
  "canonicalize sample_files ''/a/b/../../x'' = Inr ''/a/b/x'' \<and> resolve_pieces [] [''a'', ''b'', ''..'', ''..'', ''x''] = [''x'']"
  using canonicalize_wrong_parent [OF sample_delimit] by simp

end
