(* ===== verification/Runtime_State.thy ===== *)
theory Runtime_State
  imports Prelude
begin

text \<open>
  The state of the runtime library and of its threads: \<open>core/state.hpp\<close> and \<open>core/state.cpp\<close>.

  The state of the process is one atomic value. Every thread has a state of its own, and a history
  of the states it left by \<open>push_thread_state\<close>: a slot of a static array for the threads whose index
  is below \<open>ROCPROFSYS_MAX_THREADS\<close> (the length of \<open>histories\<close>), a thread-local vector for the
  others. The index of a thread is \<open>idx\<close>, which timemory assigns.
\<close>

section \<open>The state of the process\<close>

datatype state = PreInit | Init | Active | Finalized | Disabled

fun state_value :: "state \<Rightarrow> nat" where
  "state_value PreInit = 0"
| "state_value Init = 1"
| "state_value Active = 2"
| "state_value Finalized = 3"
| "state_value Disabled = 4"

lemma state_value_inject: "state_value a = state_value b \<longleftrightarrow> a = b"
  by (cases a; cases b) simp_all

instantiation state :: linorder
begin

definition less_eq_state :: "state \<Rightarrow> state \<Rightarrow> bool" where
  "less_eq_state a b \<longleftrightarrow> state_value a \<le> state_value b"

definition less_state :: "state \<Rightarrow> state \<Rightarrow> bool" where
  "less_state a b \<longleftrightarrow> state_value a < state_value b"

instance
  by standard (auto simp: less_eq_state_def less_state_def state_value_inject)

end

fun state_string :: "state \<Rightarrow> string" where
  "state_string PreInit = ''PreInit''"
| "state_string Init = ''Init''"
| "state_string Active = ''Active''"
| "state_string Disabled = ''Disabled''"
| "state_string Finalized = ''Finalized''"

text \<open>A throw is the left of the sum: the states it reports. \<open>ci\<close> is the continuous integration setting.\<close>

definition set_state :: "bool \<Rightarrow> state \<Rightarrow> state \<Rightarrow> (state \<times> state) + (state \<times> state)" where
  "set_state ci n current =
     (if ci \<and> n < current then Inl (current, n) else Inr (current, n))"

section \<open>The state of a thread\<close>

datatype thread_state = TS_Enabled | TS_Internal | TS_Completed | TS_Disabled

fun thread_state_value :: "thread_state \<Rightarrow> nat" where
  "thread_state_value TS_Enabled = 0"
| "thread_state_value TS_Internal = 1"
| "thread_state_value TS_Completed = 2"
| "thread_state_value TS_Disabled = 3"

lemma thread_state_value_inject: "thread_state_value a = thread_state_value b \<longleftrightarrow> a = b"
  by (cases a; cases b) simp_all

instantiation thread_state :: linorder
begin

definition less_eq_thread_state :: "thread_state \<Rightarrow> thread_state \<Rightarrow> bool" where
  "less_eq_thread_state a b \<longleftrightarrow> thread_state_value a \<le> thread_state_value b"

definition less_thread_state :: "thread_state \<Rightarrow> thread_state \<Rightarrow> bool" where
  "less_thread_state a b \<longleftrightarrow> thread_state_value a < thread_state_value b"

instance
  by standard (auto simp: less_eq_thread_state_def less_thread_state_def thread_state_value_inject)

end

fun thread_state_string :: "thread_state \<Rightarrow> string" where
  "thread_state_string TS_Enabled = ''Enabled''"
| "thread_state_string TS_Internal = ''Internal''"
| "thread_state_string TS_Completed = ''Completed''"
| "thread_state_string TS_Disabled = ''Disabled''"

record threads =
  values_of :: "nat \<Rightarrow> thread_state"
  histories :: "thread_state list list"
  local_histories :: "nat \<Rightarrow> thread_state list"

definition get_thread_state_history :: "(nat \<Rightarrow> nat) \<Rightarrow> nat \<Rightarrow> threads \<Rightarrow> thread_state list" where
  "get_thread_state_history idx t s =
     (if idx t \<ge> length (histories s) then local_histories s t else histories s ! idx t)"

definition put_thread_state_history ::
  "(nat \<Rightarrow> nat) \<Rightarrow> nat \<Rightarrow> thread_state list \<Rightarrow> threads \<Rightarrow> threads" where
  "put_thread_state_history idx t h s =
     (if idx t \<ge> length (histories s)
      then s\<lparr>local_histories := (local_histories s)(t := h)\<rparr>
      else s\<lparr>histories := (histories s)[idx t := h]\<rparr>)"

definition set_thread_state :: "nat \<Rightarrow> thread_state \<Rightarrow> threads \<Rightarrow> thread_state \<times> threads" where
  "set_thread_state t n s = (values_of s t, s\<lparr>values_of := (values_of s)(t := n)\<rparr>)"

definition push_thread_state ::
  "(nat \<Rightarrow> nat) \<Rightarrow> nat \<Rightarrow> thread_state \<Rightarrow> threads \<Rightarrow> thread_state \<times> threads" where
  "push_thread_state idx t v s =
     (if values_of s t \<ge> TS_Completed then (values_of s t, s)
      else (let (former, s) = set_thread_state t v s
            in (former, put_thread_state_history idx t (get_thread_state_history idx t s @ [former]) s)))"

definition pop_thread_state :: "(nat \<Rightarrow> nat) \<Rightarrow> nat \<Rightarrow> threads \<Rightarrow> thread_state \<times> threads" where
  "pop_thread_state idx t s =
     (if values_of s t \<ge> TS_Completed then (values_of s t, s)
      else (let hist = get_thread_state_history idx t s;
                s = (if hist \<noteq> []
                     then put_thread_state_history idx t (butlast hist) (snd (set_thread_state t (last hist) s))
                     else s)
            in (values_of s t, s)))"

text \<open>A block with a \<open>scoped_thread_state\<close>: what it runs stands between constructor and destructor.\<close>

datatype scope = Scope thread_state "scope list"

fun run_scopes :: "(nat \<Rightarrow> nat) \<Rightarrow> nat \<Rightarrow> scope list \<Rightarrow> threads \<Rightarrow> threads" where
  "run_scopes idx t [] s = s"
| "run_scopes idx t (Scope v body # rest) s =
     run_scopes idx t rest
       (snd (pop_thread_state idx t (run_scopes idx t body (snd (push_thread_state idx t v s)))))"

section \<open>One thread alone\<close>

text \<open>What a thread sees: its state and its history.\<close>

definition view :: "(nat \<Rightarrow> nat) \<Rightarrow> threads \<Rightarrow> nat \<Rightarrow> thread_state \<times> thread_state list" where
  "view idx s t = (values_of s t, get_thread_state_history idx t s)"

datatype thread_op = Set_op thread_state | Push_op thread_state | Pop_op

fun do_op :: "(nat \<Rightarrow> nat) \<Rightarrow> nat \<Rightarrow> thread_op \<Rightarrow> threads \<Rightarrow> threads" where
  "do_op idx t (Set_op v) s = snd (set_thread_state t v s)"
| "do_op idx t (Push_op v) s = snd (push_thread_state idx t v s)"
| "do_op idx t Pop_op s = snd (pop_thread_state idx t s)"

fun own_op :: "thread_op \<Rightarrow> thread_state \<times> thread_state list \<Rightarrow> thread_state \<times> thread_state list" where
  "own_op (Set_op v) (c, h) = (v, h)"
| "own_op (Push_op v) (c, h) = (if c \<ge> TS_Completed then (c, h) else (v, h @ [c]))"
| "own_op Pop_op (c, h) = (if c \<ge> TS_Completed \<or> h = [] then (c, h) else (last h, butlast h))"

lemma history_simps [simp]:
  "get_thread_state_history idx t (s\<lparr>values_of := f\<rparr>) = get_thread_state_history idx t s"
  "get_thread_state_history idx t (put_thread_state_history idx t h s) = h"
  "values_of (put_thread_state_history idx t h s) = values_of s"
  "length (histories (put_thread_state_history idx t h s)) = length (histories s)"
  by (simp_all add: get_thread_state_history_def put_thread_state_history_def)

lemma history_other [simp]:
  "inj idx \<Longrightarrow> u \<noteq> t \<Longrightarrow>
    get_thread_state_history idx u (put_thread_state_history idx t h s) = get_thread_state_history idx u s"
  by (auto simp: get_thread_state_history_def put_thread_state_history_def inj_eq)

lemma view_do_op: "view idx (do_op idx t op s) t = own_op op (view idx s t)"
  by (cases op) (auto simp: view_def push_thread_state_def pop_thread_state_def set_thread_state_def Let_def)

lemma view_do_op_other: "inj idx \<Longrightarrow> u \<noteq> t \<Longrightarrow> view idx (do_op idx t op s) u = view idx s u"
  by (cases op) (auto simp: view_def push_thread_state_def pop_thread_state_def set_thread_state_def Let_def)

section \<open>Scopes\<close>

text \<open>
  The first scope, in the order of execution, that asks for a state from \<open>TS_Completed\<close> on: its
  state, and the states left on the way to it. From there on every push and pop is ignored.
\<close>

fun sticks :: "thread_state \<Rightarrow> scope list \<Rightarrow> (thread_state \<times> thread_state list) option" where
  "sticks c [] = None"
| "sticks c (Scope v body # rest) =
     (if v \<ge> TS_Completed then Some (v, [c])
      else case sticks v body of
             Some (w, path) \<Rightarrow> Some (w, c # path)
           | None \<Rightarrow> sticks c rest)"

fun after_scopes :: "scope list \<Rightarrow> thread_state \<times> thread_state list \<Rightarrow> thread_state \<times> thread_state list" where
  "after_scopes scs (c, h) =
     (if c \<ge> TS_Completed then (c, h)
      else case sticks c scs of None \<Rightarrow> (c, h) | Some (w, path) \<Rightarrow> (w, h @ path))"

lemma sticks_completed: "sticks c scs = Some (w, path) \<Longrightarrow> w \<ge> TS_Completed"
proof (induction c scs arbitrary: w path rule: sticks.induct)
  case (2 c v body rest)
  show ?case
  proof (cases "v \<ge> TS_Completed")
    case True
    with "2.prems" show ?thesis
      by simp
  next
    case False
    show ?thesis
    proof (cases "sticks v body")
      case None
      with False "2.prems" show ?thesis
        by (intro "2.IH"(2)) simp_all
    next
      case (Some p)
      obtain u q where "p = (u, q)"
        by (cases p)
      with Some False "2.prems" have "sticks v body = Some (w, q)"
        by simp
      with False show ?thesis
        by (rule "2.IH"(1))
    qed
  qed
qed simp

lemma view_run_scopes: "view idx (run_scopes idx t scs s) t = after_scopes scs (view idx s t)"
proof (induction idx t scs s rule: run_scopes.induct)
  case (1 idx t s)
  then show ?case
    by (cases "view idx s t") simp
next
  case (2 idx t v body rest s)
  obtain c h where v0: "view idx s t = (c, h)"
    by (cases "view idx s t")
  define pushed where "pushed = do_op idx t (Push_op v) s"
  define ran where "ran = run_scopes idx t body pushed"
  define popped where "popped = do_op idx t Pop_op ran"
  have run: "run_scopes idx t (Scope v body # rest) s = run_scopes idx t rest popped"
    by (simp add: popped_def ran_def pushed_def)
  have ran_view: "view idx ran t = after_scopes body (own_op (Push_op v) (c, h))"
    using 2(1) by (simp add: ran_def pushed_def view_do_op v0 flip: do_op.simps)
  have popped_view: "view idx popped t = own_op Pop_op (view idx ran t)"
    by (simp only: popped_def view_do_op)
  have final: "view idx (run_scopes idx t (Scope v body # rest) s) t
      = after_scopes rest (own_op Pop_op (after_scopes body (own_op (Push_op v) (c, h))))"
    using 2(2) unfolding run ran_view [symmetric] popped_view [symmetric]
    by (simp add: popped_def ran_def pushed_def)
  show ?case
  proof (cases "c \<ge> TS_Completed")
    case True
    then show ?thesis
      unfolding final v0 by simp
  next
    case low: False
    show ?thesis
    proof (cases "v \<ge> TS_Completed")
      case True
      with low show ?thesis
        unfolding final v0 by simp
    next
      case False
      with low show ?thesis
        unfolding final v0
        by (cases "sticks v body") (auto dest: sticks_completed)
    qed
  qed
qed

lemma view_push_pop_other [simp]:
  assumes "inj idx" and "u \<noteq> t"
  shows "view idx (snd (push_thread_state idx t v s)) u = view idx s u"
    and "view idx (snd (pop_thread_state idx t s)) u = view idx s u"
  using view_do_op_other [OF assms, of "Push_op v" s] view_do_op_other [OF assms, of Pop_op s]
  by simp_all

lemma view_run_scopes_other:
  "inj idx \<Longrightarrow> u \<noteq> t \<Longrightarrow> view idx (run_scopes idx t scs s) u = view idx s u"
  by (induction idx t scs s rule: run_scopes.induct) simp_all

section \<open>Properties\<close>

fun run_ops :: "(nat \<Rightarrow> nat) \<Rightarrow> (nat \<times> thread_op) list \<Rightarrow> threads \<Rightarrow> threads" where
  "run_ops idx [] s = s"
| "run_ops idx ((t, op) # ops) s = run_ops idx ops (do_op idx t op s)"

text \<open>
  C17. The threads are isolated: when timemory gives every thread an index of its own, then after any
  interleaving of the operations of any number of threads, below or above the size of the static
  array, each thread has the state and the history that its own operations alone leave in a private
  stack machine.
\<close>

theorem thread_states_isolated:
  assumes "inj idx"
  shows "view idx (run_ops idx ops s) t =
           fold own_op (map snd (filter (\<lambda>p. fst p = t) ops)) (view idx s t)"
  using assms
proof (induction idx ops s rule: run_ops.induct)
  case (2 idx u op ops s)
  then show ?case
    by (cases "u = t") (simp_all add: view_do_op view_do_op_other)
qed simp

theorem thread_states_isolated_witness:
  "view id (run_ops id [(0, Push_op TS_Internal), (5, Push_op TS_Disabled), (0, Pop_op), (5, Pop_op)]
     \<lparr>values_of = \<lambda>_. TS_Enabled, histories = [[], []], local_histories = \<lambda>_. []\<rparr>) 5
   = (TS_Disabled, [TS_Enabled])"
  by (subst thread_states_isolated [OF inj_on_id])
     (simp add: view_def get_thread_state_history_def less_eq_thread_state_def)

text \<open>
  Nested \<open>scoped_thread_state\<close> blocks restore the state and the history of the thread, and touch
  no other thread, unless one of them asks for \<open>Completed\<close> or \<open>Disabled\<close>: the first such block in
  the order of execution keeps its state for good, since its destructor ignores a thread whose state
  is at least \<open>Completed\<close>, and the states of the open blocks stay on the history.
\<close>

theorem scopes_restore_or_stick:
  assumes "inj idx" and "view idx s t = (c, h)" and "c < TS_Completed"
  shows "view idx (run_scopes idx t scs s) t =
           (case sticks c scs of None \<Rightarrow> (c, h) | Some (w, path) \<Rightarrow> (w, h @ path)) \<and>
         (\<forall>w path. sticks c scs = Some (w, path) \<longrightarrow> w \<ge> TS_Completed) \<and>
         (\<forall>u. u \<noteq> t \<longrightarrow> view idx (run_scopes idx t scs s) u = view idx s u)"
  using assms by (auto simp: view_run_scopes view_run_scopes_other not_le dest: sticks_completed)

theorem scopes_restore_or_stick_witness:
  "view id (run_scopes id 1 [Scope TS_Internal [Scope TS_Enabled []], Scope TS_Internal [Scope TS_Disabled []]]
     \<lparr>values_of = \<lambda>_. TS_Enabled, histories = [[], []], local_histories = \<lambda>_. []\<rparr>) 1
   = (TS_Disabled, [TS_Enabled, TS_Internal])"
  using scopes_restore_or_stick
    [of id "\<lparr>values_of = \<lambda>_. TS_Enabled, histories = [[], []], local_histories = \<lambda>_. []\<rparr>" 1
      TS_Enabled "[]" "[Scope TS_Internal [Scope TS_Enabled []], Scope TS_Internal [Scope TS_Disabled []]]"]
  by (simp add: view_def get_thread_state_history_def less_eq_thread_state_def less_thread_state_def)

end
