(* ===== verification/Progress_Points.thy ===== *)
theory Progress_Points
  imports Prelude
begin

text \<open>
  Progress points of the causal profiler: \<open>causal/components/progress_point\<close>, the bundle cache of
  \<open>thread_data.hpp\<close> that holds the open ones, and \<open>push_progress_point\<close>, \<open>pop_progress_point\<close> and
  \<open>mark_progress_point\<close> of \<open>causal/data.cpp\<close>.

  The counters are 64-bit numbers of events; they are integers here. A thread's map from hashes to
  points is an association list. The vectors of all threads are lists indexed by the thread. timemory
  is not part of the repository: the hash of a name is \<open>hash\<close>, and what its bundle does when it is
  destroyed is \<open>on_destroy\<close>, a function of the map.
\<close>

section \<open>A progress point\<close>

record progress_point =
  pp_hash :: u64
  pp_delta :: int
  pp_arrival :: int
  pp_departure :: int
  pp_iterator :: "u64 option"
  pp_running :: bool
  pp_invalid :: bool

definition new_point :: progress_point where
  "new_point = \<lparr>pp_hash = 0, pp_delta = 0, pp_arrival = 0, pp_departure = 0, pp_iterator = None,
     pp_running = False, pp_invalid = False\<rparr>"

text \<open>timemory marks a component it starts as running and one it stops as not running.\<close>

definition pp_start :: "progress_point \<Rightarrow> progress_point" where
  "pp_start p = p\<lparr>pp_arrival := pp_arrival p + 1, pp_running := True\<rparr>"

definition pp_stop :: "progress_point \<Rightarrow> progress_point" where
  "pp_stop p = p\<lparr>pp_departure := pp_departure p + 1, pp_running := False\<rparr>"

definition pp_mark :: "progress_point \<Rightarrow> progress_point" where
  "pp_mark p = p\<lparr>pp_delta := pp_delta p + 1\<rparr>"

definition set_value :: "int \<Rightarrow> progress_point \<Rightarrow> progress_point" where
  "set_value v p = p\<lparr>pp_delta := v, pp_arrival := v, pp_departure := v\<rparr>"

definition pp_add :: "progress_point \<Rightarrow> progress_point \<Rightarrow> progress_point" where
  "pp_add p v = p\<lparr>pp_delta := pp_delta p + pp_delta v, pp_arrival := pp_arrival p + pp_arrival v,
     pp_departure := pp_departure p + pp_departure v\<rparr>"

definition pp_sub :: "progress_point \<Rightarrow> progress_point \<Rightarrow> progress_point" where
  "pp_sub p v = p\<lparr>pp_delta := pp_delta p - pp_delta v, pp_arrival := pp_arrival p - pp_arrival v,
     pp_departure := pp_departure p - pp_departure v\<rparr>"

definition is_throughput_point :: "progress_point \<Rightarrow> bool" where
  "is_throughput_point p \<longleftrightarrow> pp_delta p \<noteq> 0"

definition is_latency_point :: "progress_point \<Rightarrow> bool" where
  "is_latency_point p \<longleftrightarrow> pp_arrival p \<noteq> 0 \<or> pp_departure p \<noteq> 0"

definition get_arrival :: "progress_point \<Rightarrow> int" where
  "get_arrival p =
     (if \<not> is_latency_point p then pp_arrival p
      else if pp_arrival p \<ge> pp_departure p then pp_arrival p + 1 else pp_arrival p)"

definition get_departure :: "progress_point \<Rightarrow> int" where
  "get_departure p = pp_departure p"

definition get_latency_delta :: "progress_point \<Rightarrow> int" where
  "get_latency_delta p = get_arrival p - get_departure p"

definition get_laps :: "progress_point \<Rightarrow> int" where
  "get_laps p = max (pp_delta p) (get_latency_delta p)"

section \<open>The maps of the threads\<close>

type_synonym progress_map = "(u64 \<times> progress_point) list"

text \<open>\<open>m[h] = p\<close> of an unordered map.\<close>

fun put :: "u64 \<Rightarrow> 'a \<Rightarrow> (u64 \<times> 'a) list \<Rightarrow> (u64 \<times> 'a) list" where
  "put h p [] = [(h, p)]"
| "put h p ((k, q) # m) = (if k = h then (h, p) # m else (k, q) # put h p m)"

definition point_at :: "progress_map \<Rightarrow> u64 \<Rightarrow> progress_point" where
  "point_at m h = (case map_of m h of None \<Rightarrow> new_point | Some p \<Rightarrow> p)"

definition push_node :: "u64 \<Rightarrow> progress_map \<Rightarrow> progress_point \<Rightarrow> progress_map \<times> progress_point" where
  "push_node h m obj =
     ((case map_of m h of None \<Rightarrow> put h (new_point\<lparr>pp_hash := h\<rparr>) m | Some _ \<Rightarrow> m),
      obj\<lparr>pp_hash := h, pp_iterator := Some h\<rparr>)"

definition pop_node :: "progress_map \<Rightarrow> progress_point \<Rightarrow> progress_map" where
  "pop_node m obj = (case pp_iterator obj of
     None \<Rightarrow> m
   | Some h \<Rightarrow> if pp_invalid obj \<or> pp_running obj then m else put h (pp_add (point_at m h) obj) m)"

fun collect_map :: "progress_map \<Rightarrow> progress_map \<Rightarrow> progress_map" where
  "collect_map [] data = data"
| "collect_map ((h, p) # m) data =
     collect_map m (put h ((pp_add (point_at data h) p)\<lparr>pp_hash := pp_hash p\<rparr>) data)"

text \<open>The sum over the threads; the counters of every thread start again from zero.\<close>

definition get_progress_points :: "progress_map list \<Rightarrow> progress_map \<times> progress_map list" where
  "get_progress_points maps =
     (fold collect_map maps [], map (map (\<lambda>(h, p). (h, set_value 0 p))) maps)"

section \<open>The bundle cache\<close>

text \<open>The bundles of one thread in the order of their construction.\<close>

definition cache_construct :: "'b \<Rightarrow> 'b list \<Rightarrow> 'b list" where
  "cache_construct b bundles = bundles @ [b]"

definition cache_pop_back :: "'b list \<Rightarrow> 'b list" where
  "cache_pop_back bundles = butlast bundles"

definition erase_at :: "nat \<Rightarrow> 'b list \<Rightarrow> 'b list" where
  "erase_at i xs = take i xs @ drop (Suc i) xs"

definition cache_destroy_index :: "nat \<Rightarrow> 'b list \<Rightarrow> 'b list" where
  "cache_destroy_index i bundles = erase_at i bundles"

text \<open>
  \<open>destroy\<close> of a reverse iterator at distance \<open>d\<close> from \<open>rbegin()\<close>: the forward iterator is advanced by
  that distance from \<open>begin()\<close>. The result also names the bundle that was destroyed.
\<close>

definition cache_destroy_reverse :: "nat \<Rightarrow> 'b list \<Rightarrow> ('b \<times> 'b list) option" where
  "cache_destroy_reverse d bundles =
     (if d \<ge> length bundles then None else Some (bundles ! d, erase_at d bundles))"

definition cache_destroy_forward :: "nat \<Rightarrow> 'b list \<Rightarrow> ('b \<times> 'b list) option" where
  "cache_destroy_forward i bundles =
     (if i \<ge> length bundles then None else Some (bundles ! i, erase_at i bundles))"

section \<open>Pushing, popping and marking\<close>

record progress_thread =
  pt_map :: progress_map
  pt_bundles :: "progress_point list"

record progress_env =
  end_to_end :: bool
  hash :: "string \<Rightarrow> u64"
  on_destroy :: "progress_point \<Rightarrow> progress_map \<Rightarrow> progress_map"

definition push_progress_point ::
  "progress_env \<Rightarrow> string \<Rightarrow> nat \<times> progress_thread \<Rightarrow> nat \<times> progress_thread" where
  "push_progress_point env name st = (let (num, t) = st in
     if end_to_end env then (num, t)
     else (let (m, b) = push_node (hash env name) (pt_map t) new_point
           in (num + 1, t\<lparr>pt_map := m, pt_bundles := cache_construct (pp_start b) (pt_bundles t)\<rparr>)))"

text \<open>The search from the back: the distance of the first bundle with the hash from \<open>rbegin()\<close>.\<close>

fun find_distance :: "u64 \<Rightarrow> progress_point list \<Rightarrow> nat option" where
  "find_distance h [] = None"
| "find_distance h (b # bs) = (if pp_hash b = h then Some 0 else map_option Suc (find_distance h bs))"

definition stop_and_pop :: "nat \<Rightarrow> progress_thread \<Rightarrow> progress_thread" where
  "stop_and_pop i t =
     (let b = pp_stop (pt_bundles t ! i)
      in t\<lparr>pt_map := pop_node (pt_map t) b, pt_bundles := (pt_bundles t)[i := b]\<rparr>)"

definition pop_progress_point :: "progress_env \<Rightarrow> string \<Rightarrow> progress_thread \<Rightarrow> progress_thread" where
  "pop_progress_point env name t =
     (if end_to_end env then t
      else if pt_bundles t = [] then t
      else if name = [] then
        (let t = stop_and_pop (length (pt_bundles t) - 1) t
         in t\<lparr>pt_map := on_destroy env (last (pt_bundles t)) (pt_map t),
              pt_bundles := cache_pop_back (pt_bundles t)\<rparr>)
      else case find_distance (hash env name) (rev (pt_bundles t)) of
        None \<Rightarrow> t
      | Some d \<Rightarrow>
         (let t = stop_and_pop (length (pt_bundles t) - 1 - d) t
          in case cache_destroy_reverse d (pt_bundles t) of
               None \<Rightarrow> t
             | Some (b, bs) \<Rightarrow> t\<lparr>pt_map := on_destroy env b (pt_map t), pt_bundles := bs\<rparr>))"

definition mark_progress_point ::
  "progress_env \<Rightarrow> string \<Rightarrow> bool \<Rightarrow> nat \<times> progress_thread \<Rightarrow> nat \<times> progress_thread" where
  "mark_progress_point env name force st = (let (num, t) = st in
     if end_to_end env \<and> \<not> force then (num, t)
     else (let (m, b) = push_node (hash env name) (pt_map t) new_point;
               b = pp_mark b;
               m = pop_node m b
           in (num + 1, t\<lparr>pt_map := on_destroy env b m,
                 pt_bundles := cache_pop_back (cache_construct b (pt_bundles t))\<rparr>)))"

section \<open>Lemmas\<close>

text \<open>The three counters of a point.\<close>

datatype counter = Delta | Arrival | Departure

fun tally :: "counter \<Rightarrow> progress_point \<Rightarrow> int" where
  "tally Delta p = pp_delta p"
| "tally Arrival p = pp_arrival p"
| "tally Departure p = pp_departure p"

definition count_at :: "counter \<Rightarrow> progress_map \<Rightarrow> u64 \<Rightarrow> int" where
  "count_at c m h = tally c (point_at m h)"

lemma map_of_put [simp]: "map_of (put h p m) k = (if k = h then Some p else map_of m k)"
  by (induction h p m rule: put.induct) auto

lemma keys_put: "fst ` set (put h p m) = insert h (fst ` set m)"
  by (induction h p m rule: put.induct) auto

lemma distinct_put: "distinct (map fst m) \<Longrightarrow> distinct (map fst (put h p m))"
  by (induction h p m rule: put.induct) (auto simp: keys_put)

lemma point_at_put [simp]: "point_at (put h p m) k = (if k = h then p else point_at m k)"
  by (simp add: point_at_def)

lemma tally_simps [simp]:
  "tally c (pp_add p q) = tally c p + tally c q"
  "tally c (pp_sub p q) = tally c p - tally c q"
  "tally c (set_value v p) = v"
  "tally c (p\<lparr>pp_hash := h\<rparr>) = tally c p"
  "tally c new_point = 0"
  by (cases c; simp add: pp_add_def pp_sub_def set_value_def new_point_def)+

lemma count_at_simps [simp]:
  "count_at c [] h = 0"
  "count_at c ((k, p) # m) h = (if k = h then tally c p else count_at c m h)"
  by (simp_all add: count_at_def point_at_def)

lemma count_at_put [simp]: "count_at c (put h p m) k = (if k = h then tally c p else count_at c m k)"
  by (simp add: count_at_def)

lemma count_at_absent: "h \<notin> fst ` set m \<Longrightarrow> count_at c m h = 0"
  by (induction m) auto

lemma count_at_collect:
  "distinct (map fst m) \<Longrightarrow> count_at c (collect_map m data) h = count_at c data h + count_at c m h"
proof (induction m data rule: collect_map.induct)
  case (2 k p m data)
  then have "count_at c m k = 0"
    by (intro count_at_absent) simp
  with 2 show ?case
    by (auto simp flip: count_at_def)
qed simp

lemma count_at_collect_all:
  "\<forall>m \<in> set maps. distinct (map fst m) \<Longrightarrow>
    count_at c (fold collect_map maps data) h = count_at c data h + (\<Sum>m\<leftarrow>maps. count_at c m h)"
  by (induction maps arbitrary: data) (simp_all add: count_at_collect)

lemma count_at_reset [simp]: "count_at c (map (\<lambda>(h, p). (h, set_value 0 p)) m) h = 0"
  by (induction m) auto

lemma get_progress_points_counts:
  assumes "\<forall>m \<in> set maps. distinct (map fst m)" and "get_progress_points maps = (data, maps')"
  shows "count_at c data h = (\<Sum>m\<leftarrow>maps. count_at c m h)"
    and "m \<in> set maps' \<Longrightarrow> count_at c m h = 0"
  using assms by (auto simp: get_progress_points_def count_at_collect_all)

lemma find_distance_Some:
  "find_distance h bs = Some d \<Longrightarrow> d < length bs \<and> pp_hash (bs ! d) = h \<and> (\<forall>i < d. pp_hash (bs ! i) \<noteq> h)"
proof (induction h bs arbitrary: d rule: find_distance.induct)
  case (2 h b bs)
  show ?case
  proof (cases "pp_hash b = h")
    case True
    with "2.prems" show ?thesis
      by auto
  next
    case False
    with "2.prems" obtain e where "d = Suc e" and "find_distance h bs = Some e"
      by auto
    with "2.IH" [OF False] False show ?thesis
      by (auto simp: less_Suc_eq_0_disj)
  qed
qed simp

lemma length_erase_at [simp]: "i < length xs \<Longrightarrow> length (erase_at i xs) = length xs - 1"
  by (simp add: erase_at_def)

lemma erase_at_set:
  assumes "distinct (map f xs)" and "i < length xs" and "j < length xs"
  shows "f (xs ! j) \<in> f ` set (erase_at i xs) \<longleftrightarrow> j \<noteq> i"
proof -
  have "distinct (take i (map f xs) @ map f xs ! i # drop (Suc i) (map f xs))"
    using assms(1,2) id_take_nth_drop [of i "map f xs"] by (metis length_map)
  moreover have "map f xs ! i \<in> f ` set (erase_at i xs) \<longleftrightarrow>
      map f xs ! i \<in> set (take i (map f xs)) \<union> set (drop (Suc i) (map f xs))"
    by (auto simp: erase_at_def take_map drop_map)
  ultimately have "f (xs ! i) \<notin> f ` set (erase_at i xs)"
    using assms(2) by auto
  moreover have "xs ! j \<in> set (erase_at i xs)" if "j \<noteq> i"
  proof (cases "j < i")
    case True
    then have "take i xs ! j = xs ! j" and "j < length (take i xs)"
      using assms(2) by simp_all
    then have "xs ! j \<in> set (take i xs)"
      by (metis nth_mem)
    then show ?thesis
      by (simp add: erase_at_def)
  next
    case False
    with that have "drop (Suc i) xs ! (j - Suc i) = xs ! j" and "j - Suc i < length (drop (Suc i) xs)"
      using assms(3) by simp_all
    then have "xs ! j \<in> set (drop (Suc i) xs)"
      by (metis nth_mem)
    then show ?thesis
      by (simp add: erase_at_def)
  qed
  ultimately show ?thesis
    using assms by (auto simp: image_iff)
qed

lemma stop_hash [simp]: "pp_hash (pp_stop b) = pp_hash b"
  by (simp add: pp_stop_def)

section \<open>Properties\<close>

text \<open>
  C16. Popping a progress point by its name stops and records the innermost open point of that name,
  which stands \<open>d\<close> places from the end, but destroys the one \<open>d\<close> places from the beginning. With
  open points of different names the popped point stays open unless it is in the middle: the
  innermost of several nested points always stays, and the outermost is destroyed instead.
\<close>

theorem pop_destroys_mirror:
  assumes "\<not> end_to_end env" and "name \<noteq> []" and "distinct (map pp_hash (pt_bundles t))"
    and "find_distance (hash env name) (rev (pt_bundles t)) = Some d"
  shows "pp_hash (pt_bundles t ! (length (pt_bundles t) - 1 - d)) = hash env name \<and>
    (hash env name \<in> pp_hash ` set (pt_bundles (pop_progress_point env name t)) \<longleftrightarrow>
       2 * d + 1 \<noteq> length (pt_bundles t)) \<and>
    pp_hash (pt_bundles t ! d) \<notin> pp_hash ` set (pt_bundles (pop_progress_point env name t))"
proof -
  define bs where "bs = pt_bundles t"
  define n where "n = length bs"
  define k where "k = n - 1 - d"
  define bs' where "bs' = bs[k := pp_stop (bs ! k)]"
  have d: "d < n" and at: "pp_hash (rev bs ! d) = hash env name"
    using find_distance_Some [OF assms(4)] by (simp_all add: bs_def n_def)
  then have k: "k < n" and hash_k: "pp_hash (bs ! k) = hash env name"
    by (simp_all add: k_def n_def rev_nth)
  have same: "map pp_hash bs' = map pp_hash bs"
    using k by (simp add: bs'_def n_def map_update list_update_same_conv)
  have len: "length bs' = n"
    by (simp add: bs'_def n_def)
  have nths: "pp_hash (bs' ! i) = pp_hash (bs ! i)" if "i < n" for i
    using that same len by (metis n_def nth_map)
  have popped: "pt_bundles (pop_progress_point env name t) = erase_at d bs'"
    using assms(1,2,4) d len
    by (auto simp: pop_progress_point_def stop_and_pop_def Let_def cache_destroy_reverse_def bs_def
        [symmetric] bs'_def k_def n_def)
  have dist: "distinct (map pp_hash bs')"
    using assms(3) by (simp add: same bs_def)
  have "hash env name \<in> pp_hash ` set (erase_at d bs') \<longleftrightarrow> k \<noteq> d"
    using erase_at_set [OF dist, of d k] d k len nths hash_k by simp
  moreover have "pp_hash (bs ! d) \<notin> pp_hash ` set (erase_at d bs')"
    using erase_at_set [OF dist, of d d] d len nths by simp
  moreover have "k \<noteq> d \<longleftrightarrow> 2 * d + 1 \<noteq> n"
    using d by (auto simp: k_def)
  ultimately show ?thesis
    using hash_k unfolding popped by (simp add: bs_def n_def k_def)
qed

definition sample_env :: progress_env where
  "sample_env = \<lparr>end_to_end = False, hash = (\<lambda>n. of_nat (length n)), on_destroy = (\<lambda>_ m. m)\<rparr>"

text \<open>Points \<open>a\<close> and \<open>bb\<close>, nested: the departure of the outer one is never counted.\<close>

theorem pop_destroys_mirror_witness:
  "let t = snd (push_progress_point sample_env ''bb'' (push_progress_point sample_env ''a''
                  (0, \<lparr>pt_map = [], pt_bundles = []\<rparr>)));
       inner = pop_progress_point sample_env ''bb'' t
   in pp_hash ` set (pt_bundles inner) = {2} \<and> 2 \<in> pp_hash ` set (pt_bundles inner) \<and>
      count_at Departure (pt_map (pop_progress_point sample_env ''a'' inner)) 1 = 0"
proof -
  define t where "t = snd (push_progress_point sample_env ''bb'' (push_progress_point sample_env ''a''
                  (0, \<lparr>pt_map = [], pt_bundles = []\<rparr>)))"
  have "2 \<in> pp_hash ` set (pt_bundles (pop_progress_point sample_env ''bb'' t))"
    using pop_destroys_mirror [of sample_env "''bb''" t 0]
    by (simp add: t_def sample_env_def push_progress_point_def push_node_def Let_def
        cache_construct_def new_point_def pp_start_def)
  moreover have "pp_hash ` set (pt_bundles (pop_progress_point sample_env ''bb'' t)) = {2} \<and>
      count_at Departure (pt_map (pop_progress_point sample_env ''a''
        (pop_progress_point sample_env ''bb'' t))) 1 = 0"
    by (simp add: t_def sample_env_def push_progress_point_def push_node_def Let_def
        cache_construct_def new_point_def pp_start_def pop_progress_point_def stop_and_pop_def
        cache_destroy_reverse_def erase_at_def pp_stop_def pop_node_def pp_add_def point_at_def)
  ultimately show ?thesis
    by (simp only: t_def Let_def)
qed

end
