(* ===== verification/Category_Region.thy ===== *)
theory Category_Region
  imports Runtime_State Progress_Points "HOL-Library.Product_Lexorder" "HOL-Library.List_Lexorder"
    "HOL-Library.Char_ord"
begin

text \<open>
  The regions of a thread: \<open>components/category_region.hpp\<close> with the cache of open regions, and the
  bookkeeping of \<open>tracing.hpp\<close> that it calls. The record is the state of one thread; its thread state
  and history are the private stack machine of \<open>Runtime_State\<close>. Categories are named by
  \<open>trait::name\<close>. A reading of the clock is an argument.

  The start of the tooling and the initialisation of the thread are functions of the environment, as
  are the settings; \<open>freed\<close> is what a read of an entry of the map yields after its erasure. The
  annotations of Perfetto events are left out.
\<close>

section \<open>State\<close>

datatype quirk = Quirk_causal | Quirk_perfetto | Quirk_timemory

datatype region_event =
    Cached string string u64 u64 u64
  | Thread_known u64
  | Trace_begin string string
  | Trace_end string
  | Profile_stop u64

record region_env =
  use_causal :: bool
  use_timemory :: bool
  use_perfetto :: bool
  init_tooling :: "state \<Rightarrow> bool \<times> state"
  thread_init :: "thread_state \<Rightarrow> thread_state"
  system_tid :: "u64 option"
  freed :: "u64 \<Rightarrow> u64"
  points_env :: progress_env

type_synonym entry_key = "string \<times> string"

record region_thread =
  process_state :: state
  own :: "thread_state \<times> thread_state list"
  enabled :: "string \<Rightarrow> bool"
  profile_stack :: "string \<Rightarrow> int"
  tracing_stack :: "string \<Rightarrow> int"
  push_count :: nat
  pop_count :: nat
  map_name_to_args :: "(entry_key \<times> u64) list"
  bundles :: "u64 list"
  points :: "nat \<times> progress_thread"
  events :: "region_event list"

definition emit :: "region_event \<Rightarrow> region_thread \<Rightarrow> region_thread" where
  "emit e s = s\<lparr>events := events s @ [e]\<rparr>"

definition tracing_count_categories :: "string list" where
  "tracing_count_categories =
     [''host'', ''mpi'', ''pthread'', ''rocm_hip_api'', ''rocm_hsa_api'', ''rccl'']"

definition causal_throughput_categories :: "string list" where
  "causal_throughput_categories =
     [''host'', ''kokkos'', ''rocm_ompt_api'', ''rocm_hip_api'', ''rocm_hsa_api'', ''rccl'',
      ''rocm_marker_api'']"

section \<open>The cache of open regions\<close>

fun assign :: "entry_key \<Rightarrow> u64 \<Rightarrow> (entry_key \<times> u64) list \<Rightarrow> (entry_key \<times> u64) list" where
  "assign k v [] = [(k, v)]"
| "assign k v ((l, w) # m) = (if k = l then (k, v) # m else if k < l then (k, v) # (l, w) # m
                              else (l, w) # assign k v m)"

definition cache_start :: "string \<Rightarrow> string \<Rightarrow> u64 \<Rightarrow> region_thread \<Rightarrow> region_thread" where
  "cache_start cat name now s = s\<lparr>map_name_to_args := assign (name, cat) now (map_name_to_args s)\<rparr>"

definition cache_region :: "u64 \<Rightarrow> string \<Rightarrow> u64 \<Rightarrow> u64 \<Rightarrow> string \<Rightarrow> region_thread \<Rightarrow> region_thread" where
  "cache_region tid name start_ts end_ts cat s = emit (Cached name cat tid start_ts end_ts) s"

definition known_tid :: "region_env \<Rightarrow> region_thread \<Rightarrow> u64 \<times> region_thread" where
  "known_tid env s = (case system_tid env of None \<Rightarrow> (0, s) | Some tid \<Rightarrow> (tid, emit (Thread_known tid) s))"

definition recorded_tid :: "region_env \<Rightarrow> u64" where
  "recorded_tid env = (case system_tid env of None \<Rightarrow> 0 | Some tid \<Rightarrow> tid)"

definition cache_stop :: "region_env \<Rightarrow> string \<Rightarrow> string \<Rightarrow> u64 \<Rightarrow> region_thread \<Rightarrow> region_thread" where
  "cache_stop env cat name now s =
     (case map_of (map_name_to_args s) (name, cat) of
        None \<Rightarrow> s
      | Some start_ts \<Rightarrow>
         (let s = s\<lparr>map_name_to_args := filter (\<lambda>(k, _). k \<noteq> (name, cat)) (map_name_to_args s)\<rparr>;
              timestamp = freed env start_ts;
              (tid, s) = known_tid env s
          in cache_region tid name timestamp now cat s))"

definition flush_pending_cached_entries :: "region_env \<Rightarrow> u64 \<Rightarrow> region_thread \<Rightarrow> region_thread" where
  "flush_pending_cached_entries env now s =
     (let (tid, s) = known_tid env s;
          s = fold (\<lambda>((name, cat), start_ts). cache_region tid name start_ts now cat) (map_name_to_args s) s
      in s\<lparr>map_name_to_args := []\<rparr>)"

section \<open>Categories and stacks\<close>

definition category_push_disabled :: "string \<Rightarrow> region_thread \<Rightarrow> bool" where
  "category_push_disabled cat s \<longleftrightarrow> \<not> enabled s cat"

definition category_pop_disabled :: "string \<Rightarrow> region_thread \<Rightarrow> bool" where
  "category_pop_disabled cat s \<longleftrightarrow> \<not> enabled s cat \<and> profile_stack s cat + tracing_stack s cat \<le> 0"

definition tracing_pop_disabled :: "string \<Rightarrow> region_thread \<Rightarrow> bool" where
  "tracing_pop_disabled cat s \<longleftrightarrow> \<not> enabled s cat \<and> tracing_stack s cat \<le> 0"

definition profile_pop_disabled :: "string \<Rightarrow> region_thread \<Rightarrow> bool" where
  "profile_pop_disabled cat s \<longleftrightarrow> \<not> enabled s cat \<and> profile_stack s cat \<le> 0"

definition name_hash :: "region_env \<Rightarrow> string \<Rightarrow> u64" where
  "name_hash env name = hash (points_env env) name"

definition push_timemory :: "region_env \<Rightarrow> string \<Rightarrow> string \<Rightarrow> region_thread \<Rightarrow> region_thread" where
  "push_timemory env cat name s =
     (if category_push_disabled cat s then s
      else s\<lparr>bundles := cache_construct (name_hash env name) (bundles s),
             profile_stack := (profile_stack s)(cat := profile_stack s cat + 1)\<rparr>)"

text \<open>The search from the back of the stack of bundles.\<close>

fun last_index :: "u64 \<Rightarrow> u64 list \<Rightarrow> nat \<Rightarrow> nat option" where
  "last_index h bs 0 = None"
| "last_index h bs (Suc i) = (if bs ! i = h then Some i else last_index h bs i)"

definition get_timemory :: "region_env \<Rightarrow> string \<Rightarrow> string \<Rightarrow> region_thread \<Rightarrow> nat option" where
  "get_timemory env cat name s =
     (if profile_pop_disabled cat s then None
      else last_index (name_hash env name) (bundles s) (length (bundles s)))"

definition pop_timemory :: "region_env \<Rightarrow> string \<Rightarrow> string \<Rightarrow> region_thread \<Rightarrow> region_thread" where
  "pop_timemory env cat name s =
     (if profile_pop_disabled cat s then s
      else case get_timemory env cat name s of
        None \<Rightarrow> s
      | Some i \<Rightarrow> (emit (Profile_stop (bundles s ! i)) s)\<lparr>bundles := cache_destroy_index i (bundles s)\<rparr>)"

definition push_perfetto :: "string \<Rightarrow> string \<Rightarrow> region_thread \<Rightarrow> region_thread" where
  "push_perfetto cat name s =
     (if category_push_disabled cat s then s
      else emit (Trace_begin cat name)
             (s\<lparr>tracing_stack := (tracing_stack s)(cat := tracing_stack s cat + 1)\<rparr>))"

definition pop_perfetto :: "string \<Rightarrow> string \<Rightarrow> region_thread \<Rightarrow> region_thread" where
  "pop_perfetto cat name s =
     (if tracing_pop_disabled cat s then s
      else emit (Trace_end cat)
             (s\<lparr>tracing_stack := (tracing_stack s)(cat := tracing_stack s cat - 1)\<rparr>))"

section \<open>Start, stop and mark\<close>

text \<open>A \<open>scoped_thread_state\<close> of \<open>Internal\<close> around the rest of the function.\<close>

definition scoped :: "(region_thread \<Rightarrow> region_thread) \<Rightarrow> region_thread \<Rightarrow> region_thread" where
  "scoped f s =
     (let s = f (s\<lparr>own := own_op (Push_op TS_Internal) (own s)\<rparr>)
      in s\<lparr>own := own_op Pop_op (own s)\<rparr>)"

definition uses :: "quirk \<Rightarrow> quirk list \<Rightarrow> bool" where
  "uses q opts \<longleftrightarrow> opts = [] \<or> q \<in> set opts"

definition start_active ::
  "region_env \<Rightarrow> quirk list \<Rightarrow> string \<Rightarrow> string \<Rightarrow> u64 \<Rightarrow> region_thread \<Rightarrow> region_thread" where
  "start_active env opts cat name now s =
     (let s = (if cat \<in> set tracing_count_categories then s\<lparr>push_count := push_count s + 1\<rparr> else s);
          s = (if uses Quirk_causal opts \<and> cat \<notin> set causal_throughput_categories \<and> use_causal env
               then s\<lparr>points := push_progress_point (points_env env) name (points s)\<rparr> else s);
          s = (if uses Quirk_timemory opts \<and> use_timemory env then push_timemory env cat name s else s);
          s = (if uses Quirk_perfetto opts \<and> use_perfetto env then push_perfetto cat name s else s)
      in cache_start cat name now s)"

definition region_start ::
  "region_env \<Rightarrow> quirk list \<Rightarrow> string \<Rightarrow> string \<Rightarrow> u64 \<Rightarrow> region_thread \<Rightarrow> region_thread" where
  "region_start env opts cat name now s =
     (if category_push_disabled cat s then s
      else if fst (own s) = TS_Disabled then s
      else if process_state s \<ge> Finalized then s
      else if name = [] then s
      else scoped (\<lambda>s.
        (let (ok, s) = (if process_state s \<noteq> Active
                        then (let (ok, st) = init_tooling env (process_state s)
                              in (ok, s\<lparr>process_state := st\<rparr>))
                        else (True, s))
         in if \<not> ok then s
            else (let s = s\<lparr>own := (thread_init env (fst (own s)), snd (own s))\<rparr>
                  in if fst (own s) = TS_Disabled then s
                     else start_active env opts cat name now s))) s)"

definition stop_active ::
  "region_env \<Rightarrow> quirk list \<Rightarrow> string \<Rightarrow> string \<Rightarrow> u64 \<Rightarrow> region_thread \<Rightarrow> region_thread" where
  "stop_active env opts cat name now s =
     (let s = (if cat \<in> set tracing_count_categories then s\<lparr>pop_count := pop_count s + 1\<rparr> else s);
          s = (if uses Quirk_perfetto opts \<and> use_perfetto env then pop_perfetto cat name s else s);
          s = (if uses Quirk_timemory opts \<and> use_timemory env then pop_timemory env cat name s else s);
          s = (if uses Quirk_causal opts \<and> use_causal env
               then (if cat \<in> set causal_throughput_categories
                     then s\<lparr>points := mark_progress_point (points_env env) name False (points s)\<rparr>
                     else s\<lparr>points := (fst (points s), pop_progress_point (points_env env) name (snd (points s)))\<rparr>)
               else s)
      in cache_stop env cat name now s)"

definition region_stop ::
  "region_env \<Rightarrow> quirk list \<Rightarrow> string \<Rightarrow> string \<Rightarrow> u64 \<Rightarrow> region_thread \<Rightarrow> region_thread" where
  "region_stop env opts cat name now s =
     (if category_pop_disabled cat s then s
      else if fst (own s) = TS_Disabled then s
      else scoped (\<lambda>s. if process_state s = Active then stop_active env opts cat name now s else s) s)"

definition region_mark :: "region_env \<Rightarrow> quirk list \<Rightarrow> string \<Rightarrow> string \<Rightarrow> region_thread \<Rightarrow> region_thread" where
  "region_mark env opts cat name s =
     (if \<not> uses Quirk_causal opts then s
      else if category_push_disabled cat s then s
      else (let (ok, s) = (if process_state s \<noteq> Active
                           then (let (ok, st) = init_tooling env (process_state s)
                                 in (ok, s\<lparr>process_state := st\<rparr>))
                           else (True, s))
            in if \<not> ok then s
               else if fst (own s) \<ge> TS_Completed then s
               else scoped (\<lambda>s. if use_causal env
                                 then s\<lparr>points := mark_progress_point (points_env env) name False (points s)\<rparr>
                                 else s) s))"

section \<open>The entry points\<close>

definition rocprofsys_push_trace :: "region_env \<Rightarrow> string \<Rightarrow> u64 \<Rightarrow> region_thread \<Rightarrow> region_thread" where
  "rocprofsys_push_trace env name now = region_start env [] ''host'' name now"

definition rocprofsys_pop_trace :: "region_env \<Rightarrow> string \<Rightarrow> u64 \<Rightarrow> region_thread \<Rightarrow> region_thread" where
  "rocprofsys_pop_trace env name now = region_stop env [] ''host'' name now"

definition rocprofsys_push_region :: "region_env \<Rightarrow> string \<Rightarrow> u64 \<Rightarrow> region_thread \<Rightarrow> region_thread" where
  "rocprofsys_push_region env name now = region_start env [] ''user'' name now"

definition rocprofsys_pop_region :: "region_env \<Rightarrow> string \<Rightarrow> u64 \<Rightarrow> region_thread \<Rightarrow> region_thread" where
  "rocprofsys_pop_region env name now = region_stop env [] ''user'' name now"

text \<open>
  The regions of the user library name their category by a number; a region of a category that is
  disabled by then is not stopped.
\<close>

definition rocprofsys_push_category_region ::
  "region_env \<Rightarrow> (nat \<Rightarrow> string option) \<Rightarrow> nat \<Rightarrow> string \<Rightarrow> u64 \<Rightarrow> region_thread \<Rightarrow> region_thread" where
  "rocprofsys_push_category_region env categories i name now s =
     (case categories i of
        None \<Rightarrow> s
      | Some cat \<Rightarrow> if \<not> enabled s cat then s else region_start env [] cat name now s)"

definition rocprofsys_pop_category_region ::
  "region_env \<Rightarrow> (nat \<Rightarrow> string option) \<Rightarrow> nat \<Rightarrow> string \<Rightarrow> u64 \<Rightarrow> region_thread \<Rightarrow> region_thread" where
  "rocprofsys_pop_category_region env categories i name now s =
     (case categories i of
        None \<Rightarrow> s
      | Some cat \<Rightarrow> if \<not> enabled s cat then s else region_stop env [] cat name now s)"

section \<open>Nested regions\<close>

text \<open>A thread that runs properly nested regions; the clock is read once at every start and stop.\<close>

datatype region = Region (reg_cat: string) (reg_name: string) (reg_body: "region list")

fun run_regions ::
  "region_env \<Rightarrow> quirk list \<Rightarrow> (nat \<Rightarrow> u64) \<Rightarrow> region list \<Rightarrow> nat \<times> region_thread \<Rightarrow> nat \<times> region_thread" where
  "run_regions env opts clk [] ks = ks"
| "run_regions env opts clk (Region cat name body # rest) (k, s) =
     (let (k, s) = run_regions env opts clk body (k + 1, region_start env opts cat name (clk k) s)
      in run_regions env opts clk rest (k + 1, region_stop env opts cat name (clk k) s))"

fun region_keys :: "region list \<Rightarrow> entry_key list" where
  "region_keys [] = []"
| "region_keys (Region cat name body # rest) = (name, cat) # region_keys body @ region_keys rest"

text \<open>
  The samples of the trace cache: one for each region, at its stop, unless a region inside it has the
  same name and category.
\<close>

fun cached_regions ::
  "u64 \<Rightarrow> (u64 \<Rightarrow> u64) \<Rightarrow> (nat \<Rightarrow> u64) \<Rightarrow> nat \<Rightarrow> region list \<Rightarrow> region_event list" where
  "cached_regions tid fr clk k [] = []"
| "cached_regions tid fr clk k (Region cat name body # rest) =
     (let stop = k + 1 + 2 * length (region_keys body)
      in cached_regions tid fr clk (k + 1) body @
         (if (name, cat) \<in> set (region_keys body) then []
          else [Cached name cat tid (fr (clk k)) (clk stop)]) @
         cached_regions tid fr clk (stop + 1) rest)"

fun is_cached :: "region_event \<Rightarrow> bool" where
  "is_cached (Cached _ _ _ _ _) = True"
| "is_cached _ = False"

definition cached_of :: "region_thread \<Rightarrow> region_event list" where
  "cached_of s = filter is_cached (events s)"

text \<open>A thread that measures: active, not disabled or completed, with every category enabled.\<close>

definition measuring :: "region_env \<Rightarrow> region_thread \<Rightarrow> bool" where
  "measuring env s \<longleftrightarrow> process_state s = Active \<and> fst (own s) < TS_Completed \<and>
     thread_init env TS_Internal = TS_Internal \<and> (\<forall>cat. enabled s cat)"

lemma map_of_assign [simp]: "map_of (assign k v m) l = (if l = k then Some v else map_of m l)"
  by (induction k v m rule: assign.induct) auto

lemma map_of_erase [simp]:
  "map_of (filter (\<lambda>(k, _). k \<noteq> key) m) l = (if l = key then None else map_of m l)"
  by (induction m) auto

lemma cached_of_emit [simp]:
  "cached_of (emit e s) = (if is_cached e then cached_of s @ [e] else cached_of s)"
  by (simp add: cached_of_def emit_def)

lemma cached_of_updates [simp]:
  "cached_of (s\<lparr>push_count := a\<rparr>) = cached_of s" "cached_of (s\<lparr>pop_count := a\<rparr>) = cached_of s"
  "cached_of (s\<lparr>points := p\<rparr>) = cached_of s" "cached_of (s\<lparr>bundles := b\<rparr>) = cached_of s"
  "cached_of (s\<lparr>profile_stack := f\<rparr>) = cached_of s" "cached_of (s\<lparr>tracing_stack := f\<rparr>) = cached_of s"
  "cached_of (s\<lparr>own := w\<rparr>) = cached_of s" "cached_of (s\<lparr>map_name_to_args := m\<rparr>) = cached_of s"
  by (simp_all add: cached_of_def)

lemma emit_fields [simp]:
  "process_state (emit e s) = process_state s" "own (emit e s) = own s" "enabled (emit e s) = enabled s"
  "profile_stack (emit e s) = profile_stack s" "tracing_stack (emit e s) = tracing_stack s"
  "push_count (emit e s) = push_count s" "pop_count (emit e s) = pop_count s"
  "map_name_to_args (emit e s) = map_name_to_args s" "bundles (emit e s) = bundles s"
  by (simp_all add: emit_def)

lemmas region_defs = category_push_disabled_def category_pop_disabled_def tracing_pop_disabled_def
  profile_pop_disabled_def push_perfetto_def pop_perfetto_def push_timemory_def pop_timemory_def
  get_timemory_def cache_start_def cache_stop_def cache_region_def known_tid_def
  recorded_tid_def

definition inner :: "region_thread \<Rightarrow> region_thread" where
  "inner s = s\<lparr>own := (TS_Internal, snd (own s) @ [fst (own s)])\<rparr>"

lemma inner_fields [simp]:
  "process_state (inner s) = process_state s" "enabled (inner s) = enabled s"
  "own (inner s) = (TS_Internal, snd (own s) @ [fst (own s)])"
  "profile_stack (inner s) = profile_stack s" "tracing_stack (inner s) = tracing_stack s"
  "push_count (inner s) = push_count s" "pop_count (inner s) = pop_count s"
  "map_name_to_args (inner s) = map_name_to_args s" "bundles (inner s) = bundles s"
  "cached_of (inner s) = cached_of s"
  by (simp_all add: inner_def)

lemma scoped_eq:
  assumes "fst (own s) < TS_Completed" and "own (f (inner s)) = own (inner s)"
  shows "scoped f s = (f (inner s))\<lparr>own := own s\<rparr>"
proof -
  obtain c h where s: "own s = (c, h)"
    by (cases "own s")
  have "\<not> TS_Completed \<le> c" and "\<not> TS_Completed \<le> TS_Internal"
    using assms(1) s by (simp_all add: leD) (simp add: less_eq_thread_state_def)
  with assms(2) s show ?thesis
    by (simp add: scoped_def Let_def inner_def)
qed

lemma start_active_fields [simp]:
  assumes "enabled s cat"
  shows "own (start_active env opts cat name now s) = own s"
    "process_state (start_active env opts cat name now s) = process_state s"
    "enabled (start_active env opts cat name now s) = enabled s"
    "map_name_to_args (start_active env opts cat name now s) = assign (name, cat) now (map_name_to_args s)"
    "cached_of (start_active env opts cat name now s) = cached_of s"
    "push_count (start_active env opts cat name now s) =
       push_count s + (if cat \<in> set tracing_count_categories then 1 else 0)"
    "pop_count (start_active env opts cat name now s) = pop_count s"
    "bundles (start_active env opts cat name now s) =
       bundles s @ (if uses Quirk_timemory opts \<and> use_timemory env then [name_hash env name] else [])"
    "profile_stack (start_active env opts cat name now s) = (if uses Quirk_timemory opts \<and> use_timemory env
       then (profile_stack s)(cat := profile_stack s cat + 1) else profile_stack s)"
    "tracing_stack (start_active env opts cat name now s) = (if uses Quirk_perfetto opts \<and> use_perfetto env
       then (tracing_stack s)(cat := tracing_stack s cat + 1) else tracing_stack s)"
  using assms by (simp_all add: start_active_def Let_def region_defs cache_construct_def)

lemma last_index_last [simp]:
  "bs \<noteq> [] \<Longrightarrow> last bs = h \<Longrightarrow> last_index h bs (length bs) = Some (length bs - 1)"
  by (cases "length bs") (auto simp: last_conv_nth)

lemma erase_at_last [simp]: "xs \<noteq> [] \<Longrightarrow> erase_at (length xs - 1) xs = butlast xs"
  by (simp add: erase_at_def butlast_conv_take)

lemma pop_timemory_fields [simp]:
  "own (pop_timemory env cat name s) = own s"
  "process_state (pop_timemory env cat name s) = process_state s"
  "enabled (pop_timemory env cat name s) = enabled s"
  "map_name_to_args (pop_timemory env cat name s) = map_name_to_args s"
  "cached_of (pop_timemory env cat name s) = cached_of s"
  "pop_count (pop_timemory env cat name s) = pop_count s"
  "push_count (pop_timemory env cat name s) = push_count s"
  "profile_stack (pop_timemory env cat name s) = profile_stack s"
  "tracing_stack (pop_timemory env cat name s) = tracing_stack s"
  by (simp_all add: pop_timemory_def split: option.splits)

lemma pop_timemory_bundles:
  "enabled s cat \<Longrightarrow> bundles s = bs @ [name_hash env name] \<Longrightarrow> bundles (pop_timemory env cat name s) = bs"
  by (simp add: region_defs cache_destroy_index_def erase_at_def)

lemma filter_absent: "map_of m key = None \<Longrightarrow> filter (\<lambda>(k, _). k \<noteq> key) m = m"
  by (induction m) (auto split: if_splits)

lemma cache_stop_fields [simp]:
  "own (cache_stop env cat name now s) = own s"
  "process_state (cache_stop env cat name now s) = process_state s"
  "enabled (cache_stop env cat name now s) = enabled s"
  "map_name_to_args (cache_stop env cat name now s) =
     filter (\<lambda>(k, _). k \<noteq> (name, cat)) (map_name_to_args s)"
  "cached_of (cache_stop env cat name now s) = cached_of s @
     (case map_of (map_name_to_args s) (name, cat) of None \<Rightarrow> []
      | Some t \<Rightarrow> [Cached name cat (recorded_tid env) (freed env t) now])"
  "pop_count (cache_stop env cat name now s) = pop_count s"
  "push_count (cache_stop env cat name now s) = push_count s"
  "bundles (cache_stop env cat name now s) = bundles s"
  "profile_stack (cache_stop env cat name now s) = profile_stack s"
  "tracing_stack (cache_stop env cat name now s) = tracing_stack s"
  by (simp_all add: region_defs Let_def filter_absent split: option.splits)

lemma stop_active_fields [simp]:
  assumes "enabled s cat"
  shows "own (stop_active env opts cat name now s) = own s"
    "process_state (stop_active env opts cat name now s) = process_state s"
    "enabled (stop_active env opts cat name now s) = enabled s"
    "map_name_to_args (stop_active env opts cat name now s) =
       filter (\<lambda>(k, _). k \<noteq> (name, cat)) (map_name_to_args s)"
    "cached_of (stop_active env opts cat name now s) = cached_of s @
       (case map_of (map_name_to_args s) (name, cat) of None \<Rightarrow> []
        | Some t \<Rightarrow> [Cached name cat (recorded_tid env) (freed env t) now])"
    "pop_count (stop_active env opts cat name now s) =
       pop_count s + (if cat \<in> set tracing_count_categories then 1 else 0)"
    "push_count (stop_active env opts cat name now s) = push_count s"
    "profile_stack (stop_active env opts cat name now s) = profile_stack s"
    "tracing_stack (stop_active env opts cat name now s) = (if uses Quirk_perfetto opts \<and> use_perfetto env
       then (tracing_stack s)(cat := tracing_stack s cat - 1) else tracing_stack s)"
  using assms
  by (simp_all add: stop_active_def Let_def pop_perfetto_def tracing_pop_disabled_def del: not_None_eq) blast

lemma stop_active_bundles:
  assumes "enabled s cat"
    and "uses Quirk_timemory opts \<and> use_timemory env \<Longrightarrow> bundles s = bs @ [name_hash env name]"
    and "\<not> (uses Quirk_timemory opts \<and> use_timemory env) \<Longrightarrow> bundles s = bs"
  shows "bundles (stop_active env opts cat name now s) = bs"
  using assms
  by (simp add: stop_active_def Let_def pop_perfetto_def tracing_pop_disabled_def pop_timemory_bundles)

lemma region_start_eq:
  assumes "measuring env s" and "name \<noteq> []"
  shows "region_start env opts cat name now s =
           (start_active env opts cat name now (inner s))\<lparr>own := own s\<rparr>"
proof -
  let ?f = "\<lambda>s. let s = s\<lparr>own := (thread_init env (fst (own s)), snd (own s))\<rparr>
                in if fst (own s) = TS_Disabled then s else start_active env opts cat name now s"
  have s: "process_state s = Active" "fst (own s) < TS_Completed" "enabled s cat"
    and init: "thread_init env TS_Internal = TS_Internal"
    using assms(1) by (simp_all add: measuring_def)
  have disabled: "fst (own s) \<noteq> TS_Disabled"
    using s(2) by (auto simp: less_thread_state_def)
  have f: "?f (inner s) = start_active env opts cat name now (inner s)"
    using init by (simp add: Let_def) (simp add: inner_def)
  have "region_start env opts cat name now s = scoped (\<lambda>s.
        (let (ok, s) = (if process_state s \<noteq> Active
                        then (let (ok, st) = init_tooling env (process_state s)
                              in (ok, s\<lparr>process_state := st\<rparr>))
                        else (True, s))
         in if \<not> ok then s else ?f s)) s"
    using s assms(2) disabled
    by (simp add: region_start_def category_push_disabled_def less_eq_state_def)
  also have "\<dots> = (start_active env opts cat name now (inner s))\<lparr>own := own s\<rparr>"
    using s f by (subst scoped_eq) simp_all
  finally show ?thesis .
qed

lemma region_stop_eq:
  assumes "measuring env s"
  shows "region_stop env opts cat name now s =
           (stop_active env opts cat name now (inner s))\<lparr>own := own s\<rparr>"
proof -
  have s: "process_state s = Active" "fst (own s) < TS_Completed" "enabled s cat"
    using assms by (simp_all add: measuring_def)
  have disabled: "fst (own s) \<noteq> TS_Disabled"
    using s(2) by (auto simp: less_thread_state_def)
  show ?thesis
    using s disabled
    by (simp add: region_stop_def category_pop_disabled_def) (subst scoped_eq, simp_all)
qed

lemma region_start_fields:
  assumes "measuring env s" and "name \<noteq> []"
  shows "measuring env (region_start env opts cat name now s)"
    and "own (region_start env opts cat name now s) = own s"
    and "map_name_to_args (region_start env opts cat name now s) = assign (name, cat) now (map_name_to_args s)"
    and "cached_of (region_start env opts cat name now s) = cached_of s"
    and "push_count (region_start env opts cat name now s) =
       push_count s + (if cat \<in> set tracing_count_categories then 1 else 0)"
    and "pop_count (region_start env opts cat name now s) = pop_count s"
    and "bundles (region_start env opts cat name now s) =
       bundles s @ (if uses Quirk_timemory opts \<and> use_timemory env then [name_hash env name] else [])"
    and "profile_stack (region_start env opts cat name now s) =
       (if uses Quirk_timemory opts \<and> use_timemory env
        then (profile_stack s)(cat := profile_stack s cat + 1) else profile_stack s)"
    and "tracing_stack (region_start env opts cat name now s) =
       (if uses Quirk_perfetto opts \<and> use_perfetto env
        then (tracing_stack s)(cat := tracing_stack s cat + 1) else tracing_stack s)"
  using assms(1) by (simp_all add: region_start_eq [OF assms] measuring_def)

lemma region_stop_fields:
  assumes "measuring env s"
  shows "measuring env (region_stop env opts cat name now s)"
    and "own (region_stop env opts cat name now s) = own s"
    and "map_name_to_args (region_stop env opts cat name now s) =
       filter (\<lambda>(k, _). k \<noteq> (name, cat)) (map_name_to_args s)"
    and "cached_of (region_stop env opts cat name now s) = cached_of s @
       (case map_of (map_name_to_args s) (name, cat) of None \<Rightarrow> []
        | Some t \<Rightarrow> [Cached name cat (recorded_tid env) (freed env t) now])"
    and "push_count (region_stop env opts cat name now s) = push_count s"
    and "pop_count (region_stop env opts cat name now s) =
       pop_count s + (if cat \<in> set tracing_count_categories then 1 else 0)"
    and "profile_stack (region_stop env opts cat name now s) = profile_stack s"
    and "tracing_stack (region_stop env opts cat name now s) =
       (if uses Quirk_perfetto opts \<and> use_perfetto env
        then (tracing_stack s)(cat := tracing_stack s cat - 1) else tracing_stack s)"
  using assms by (simp_all add: region_stop_eq [OF assms] measuring_def)

lemma region_stop_bundles:
  assumes "measuring env s"
    and "bundles s = bs @ (if uses Quirk_timemory opts \<and> use_timemory env then [name_hash env name] else [])"
  shows "bundles (region_stop env opts cat name now s) = bs"
  using assms
  by (simp add: region_stop_eq, subst stop_active_bundles [where bs = bs])
     (auto simp: measuring_def split: if_splits)

text \<open>What a forest of regions leaves behind, in one induction.\<close>

definition reg_count :: "(string \<Rightarrow> bool) \<Rightarrow> region list \<Rightarrow> nat" where
  "reg_count P regs = length (filter (\<lambda>(_, cat). P cat) (region_keys regs))"

lemma reg_count_simps [simp]:
  "reg_count P [] = 0"
  "reg_count P (Region cat name body # rest) = (if P cat then 1 else 0) + reg_count P body + reg_count P rest"
  by (simp_all add: reg_count_def)

lemma run_regions_fields:
  assumes "measuring env s" and "\<forall>(name, _) \<in> set (region_keys regs). name \<noteq> []"
    and "run_regions env opts clk regs (k, s) = (k', s')"
  shows "measuring env s' \<and> own s' = own s \<and> k' = k + 2 * length (region_keys regs) \<and>
    cached_of s' = cached_of s @ cached_regions (recorded_tid env) (freed env) clk k regs \<and>
    (\<forall>key. map_of (map_name_to_args s') key =
       (if key \<in> set (region_keys regs) then None else map_of (map_name_to_args s) key)) \<and>
    bundles s' = bundles s \<and>
    push_count s' = push_count s + reg_count (\<lambda>c. c \<in> set tracing_count_categories) regs \<and>
    pop_count s' = pop_count s + reg_count (\<lambda>c. c \<in> set tracing_count_categories) regs \<and>
    tracing_stack s' = tracing_stack s \<and>
    profile_stack s' = (\<lambda>c. profile_stack s c + (if uses Quirk_timemory opts \<and> use_timemory env
       then int (reg_count (\<lambda>d. d = c) regs) else 0))"
  using assms
proof (induction env opts clk regs "(k, s)" arbitrary: k s k' s' rule: run_regions.induct)
  case (1 env opts clk k s)
  then show ?case by auto
next
  case (2 env opts clk cat name body rest k s)
  define s1 where "s1 = region_start env opts cat name (clk k) s"
  obtain k2 s2 where body: "run_regions env opts clk body (k + 1, s1) = (k2, s2)"
    by (cases "run_regions env opts clk body (k + 1, s1)")
  define s3 where "s3 = region_stop env opts cat name (clk k2) s2"
  have name: "name \<noteq> []" and names: "\<forall>(name, _) \<in> set (region_keys body). name \<noteq> []"
    "\<forall>(name, _) \<in> set (region_keys rest). name \<noteq> []"
    using "2.prems"(2) by auto
  have rest: "run_regions env opts clk rest (k2 + 1, s3) = (k', s')"
    using "2.prems"(3) body by (simp add: s1_def s3_def)
  note start = region_start_fields [OF "2.prems"(1) name, of opts cat "clk k", folded s1_def]
  note IH1 = "2.hyps"(1) [OF start(1) [unfolded s1_def] names(1) body [unfolded s1_def], folded s1_def]
  then have m2: "measuring env s2" by simp
  note stop = region_stop_fields [OF m2, of opts cat name "clk k2", folded s3_def]
  have bundles: "bundles s3 = bundles s"
    unfolding s3_def using IH1 start(7) by (intro region_stop_bundles m2) simp
  note IH2 = "2.hyps"(2) [OF body [unfolded s1_def, symmetric] refl, folded s3_def, OF stop(1) names(2) rest]
  have args: "map_of (map_name_to_args s2) key =
      (if key \<in> set (region_keys body) then None
       else if key = (name, cat) then Some (clk k) else map_of (map_name_to_args s) key)" for key
    using IH1 start(3) by (cases key) simp
  have k2: "k2 = k + 1 + 2 * length (region_keys body)"
    using IH1 by simp
  have "cached_of s' = cached_of s @ cached_regions (recorded_tid env) (freed env) clk k (Region cat name body # rest)"
    using IH1 IH2 start(4) stop(4) args [of "(name, cat)"] by (simp add: k2 Let_def)
  moreover have "map_of (map_name_to_args s') key =
      (if key \<in> set (region_keys (Region cat name body # rest)) then None
       else map_of (map_name_to_args s) key)" for key
    using IH2 stop(3) args [of key] by (cases key) simp
  moreover have "push_count s' = push_count s
      + reg_count (\<lambda>c. c \<in> set tracing_count_categories) (Region cat name body # rest)"
    "pop_count s' = pop_count s
      + reg_count (\<lambda>c. c \<in> set tracing_count_categories) (Region cat name body # rest)"
    using IH1 IH2 start(5,6) stop(5,6) by simp_all
  moreover have "tracing_stack s' = tracing_stack s"
    using IH1 IH2 start(9) stop(8) by auto
  moreover have "profile_stack s' = (\<lambda>c. profile_stack s c + (if uses Quirk_timemory opts \<and> use_timemory env
       then int (reg_count (\<lambda>d. d = c) (Region cat name body # rest)) else 0))"
    using IH1 IH2 start(8) stop(7) by (auto simp: fun_eq_iff)
  moreover have "measuring env s'" "own s' = own s" "bundles s' = bundles s"
      "k' = k + 2 * length (region_keys (Region cat name body # rest))"
    using IH1 IH2 start(2) stop(2) bundles k2 by simp_all
  ultimately show ?case
    by blast
qed

text \<open>No region is open inside another of the same name and category.\<close>

fun no_recursion :: "region list \<Rightarrow> bool" where
  "no_recursion [] = True"
| "no_recursion (Region cat name body # rest) \<longleftrightarrow>
     (name, cat) \<notin> set (region_keys body) \<and> no_recursion body \<and> no_recursion rest"

lemma cached_regions_length:
  "length (cached_regions tid fr clk k regs) \<le> length (region_keys regs)"
  "length (cached_regions tid fr clk k regs) = length (region_keys regs) \<longleftrightarrow> no_recursion regs"
proof (induction tid fr clk k regs rule: cached_regions.induct)
  case (2 tid fr clk k cat name body rest)
  {
    case 1
    show ?case
      using "2"(1,3) by (simp add: Let_def)
  next
    case 2
    show ?case
      using "2.IH" by (auto simp: Let_def)
  }
qed simp_all

section \<open>Properties\<close>

text \<open>
  C15. Properly nested regions on a measuring thread: the trace cache gets one sample per region at its
  stop, with the times of its own start and stop, except that a region inside of which the same name
  and category was open again gets none: the cache holds one start per name and category, which the
  inner start overwrites and the inner stop removes. All regions are cached exactly when none recurses.
  The start time is what a read of the erased entry yields. The thread state, the open bundles and the
  starts of other regions are as before.
\<close>

theorem nested_regions_cached:
  assumes "measuring env s" and "\<forall>(name, _) \<in> set (region_keys regs). name \<noteq> []"
    and "run_regions env opts clk regs (k, s) = (k', s')"
  shows "cached_of s' = cached_of s @ cached_regions (recorded_tid env) (freed env) clk k regs \<and>
    (length (cached_regions (recorded_tid env) (freed env) clk k regs) = length (region_keys regs) \<longleftrightarrow>
       no_recursion regs) \<and>
    own s' = own s \<and> bundles s' = bundles s \<and>
    (\<forall>key. map_of (map_name_to_args s') key =
       (if key \<in> set (region_keys regs) then None else map_of (map_name_to_args s) key))"
  using run_regions_fields [OF assms] cached_regions_length(2) by simp

definition sample_region_env :: region_env where
  "sample_region_env = \<lparr>use_causal = False, use_timemory = True, use_perfetto = True,
     init_tooling = (\<lambda>st. (True, Active)), thread_init = id, system_tid = Some 7, freed = id,
     points_env = sample_env\<rparr>"

definition fresh_region_thread :: region_thread where
  "fresh_region_thread = \<lparr>process_state = Active, own = (TS_Enabled, []), enabled = (\<lambda>_. True),
     profile_stack = (\<lambda>_. 0), tracing_stack = (\<lambda>_. 0), push_count = 0, pop_count = 0,
     map_name_to_args = [], bundles = [], points = (0, \<lparr>pt_map = [], pt_bundles = []\<rparr>), events = []\<rparr>"

lemma measuring_sample: "measuring sample_region_env fresh_region_thread"
  by (simp add: measuring_def sample_region_env_def fresh_region_thread_def less_thread_state_def)

text \<open>A function that calls itself once: the outer call is lost.\<close>

theorem nested_regions_cached_witness:
  "length (cached_of (snd (run_regions sample_region_env [] (\<lambda>k. of_nat (100 + k))
     [Region ''host'' ''f'' [Region ''host'' ''f'' []]] (0, fresh_region_thread)))) = 1"
proof -
  let ?regs = "[Region ''host'' ''f'' [Region ''host'' ''f'' []]]"
  obtain k' s' where run: "run_regions sample_region_env [] (\<lambda>k. of_nat (100 + k)) ?regs (0, fresh_region_thread) = (k', s')"
    by (cases "run_regions sample_region_env [] (\<lambda>k. of_nat (100 + k)) ?regs (0, fresh_region_thread)")
  have "cached_of s' = cached_of fresh_region_thread @
      cached_regions (recorded_tid sample_region_env) (freed sample_region_env) (\<lambda>k. of_nat (100 + k)) 0 ?regs"
    using nested_regions_cached [OF measuring_sample _ run] by auto
  moreover have "cached_of fresh_region_thread = []"
    by (simp add: cached_of_def fresh_region_thread_def)
  ultimately show ?thesis
    unfolding run by simp
qed

text \<open>
  The stack counters of a category after properly nested regions: the counter of the trace is back
  at its value and as many pops as pushes are counted, but the counter of the profile has grown by the
  number of regions, since no pop takes it back. A thread that ever profiled a region of a category
  never treats its pops as disabled, also when the category is disabled and nothing is open.
\<close>

theorem profile_stack_grows:
  assumes "measuring env s" and "\<forall>(name, _) \<in> set (region_keys regs). name \<noteq> []"
    and "run_regions env [] clk regs (k, s) = (k', s')" and "use_timemory env"
  shows "profile_stack s' cat = profile_stack s cat + int (reg_count (\<lambda>d. d = cat) regs) \<and>
    tracing_stack s' = tracing_stack s \<and> push_count s' - push_count s = pop_count s' - pop_count s \<and>
    (profile_stack s cat = 0 \<and> tracing_stack s cat = 0 \<and> cat \<in> snd ` set (region_keys regs) \<longrightarrow>
       \<not> category_pop_disabled cat (s'\<lparr>enabled := \<lambda>_. False\<rparr>))"
proof -
  note run = run_regions_fields [OF assms(1-3)]
  have "reg_count (\<lambda>d. d = cat) regs \<noteq> 0" if "cat \<in> snd ` set (region_keys regs)"
    using that by (auto simp: reg_count_def filter_empty_conv)
  then show ?thesis
    using run assms(4) by (auto simp: uses_def category_pop_disabled_def)
qed

theorem profile_stack_grows_witness:
  "profile_stack (snd (run_regions sample_region_env [] (\<lambda>k. of_nat (100 + k))
     [Region ''host'' ''f'' [Region ''user'' ''g'' []]] (0, fresh_region_thread))) ''host'' = 1"
proof -
  let ?regs = "[Region ''host'' ''f'' [Region ''user'' ''g'' []]]"
  obtain k' s' where run: "run_regions sample_region_env [] (\<lambda>k. of_nat (100 + k)) ?regs (0, fresh_region_thread) = (k', s')"
    by (cases "run_regions sample_region_env [] (\<lambda>k. of_nat (100 + k)) ?regs (0, fresh_region_thread)")
  have "profile_stack s' ''host'' = profile_stack fresh_region_thread ''host'' + 1"
    using profile_stack_grows [OF measuring_sample _ run, of "''host''"]
    by (simp add: sample_region_env_def)
  then show ?thesis
    unfolding run by (simp add: fresh_region_thread_def)
qed

end
