(* ===== verification/Ordered_Map.thy ===== *)
theory Ordered_Map
  imports Main
begin

text \<open>
  \<open>std::map\<close> as the list of its entries in the order of the keys. \<open>map_update k z f\<close> is an assignment
  through \<open>map[k]\<close>, which inserts the value \<open>z\<close> first when the key is not there.
\<close>

fun map_update :: "'k :: linorder \<Rightarrow> 'v \<Rightarrow> ('v \<Rightarrow> 'v) \<Rightarrow> ('k \<times> 'v) list \<Rightarrow> ('k \<times> 'v) list" where
  "map_update k z f [] = [(k, f z)]"
| "map_update k z f ((l, v) # rest) =
     (if k < l then (k, f z) # (l, v) # rest
      else if k = l then (l, f v) # rest
      else (l, v) # map_update k z f rest)"

text \<open>The maps: their keys ascend, and an update changes the value of its key alone.\<close>

abbreviation ascending :: "('k :: linorder \<times> 'v) list \<Rightarrow> bool" where
  "ascending m \<equiv> sorted_wrt (<) (map fst m)"

lemma keys_map_update: "fst ` set (map_update k z f m) = insert k (fst ` set m)"
  by (induction k z f m rule: map_update.induct) auto

lemma ascending_map_update: "ascending m \<Longrightarrow> ascending (map_update k z f m)"
proof (induction k z f m rule: map_update.induct)
  case (2 k z f l v rest)
  then show ?case
    using keys_map_update [of k z f rest] by (auto simp flip: set_map)
qed simp

definition value_at :: "'v \<Rightarrow> ('k \<times> 'v) list \<Rightarrow> 'k \<Rightarrow> 'v" where
  "value_at z m k = (case map_of m k of None \<Rightarrow> z | Some v \<Rightarrow> v)"

lemma value_at_simps [simp]:
  "value_at z [] k = z"
  "value_at z ((l, v) # m) k = (if k = l then v else value_at z m k)"
  by (simp_all add: value_at_def)

lemma value_at_absent: "k \<notin> fst ` set m \<Longrightarrow> value_at z m k = z"
  by (induction m) auto

lemma value_at_map_update:
  "ascending m \<Longrightarrow> value_at z (map_update k z f m) l = (if l = k then f (value_at z m k) else value_at z m l)"
proof (induction k z f m rule: map_update.induct)
  case (2 k z f l' v rest)
  then have "k < l' \<Longrightarrow> value_at z rest k = z"
    by (intro value_at_absent) auto
  with 2 show ?case
    by auto
qed simp

lemma map_update_values:
  assumes "\<forall>v \<in> snd ` set m. P v" and "\<And>v. P v \<Longrightarrow> P (f v)" and "P z"
  shows "\<forall>v \<in> snd ` set (map_update k z f m). P v"
  using assms
proof (induction m)
  case (Cons p m)
  then show ?case
    by (cases p) simp
qed simp

end
