(* ===== verification/Causal_Selection.thy ===== *)
theory Causal_Selection
  imports Binary_Info
begin

text \<open>
  Where the causal profiler experiments: \<open>causal/data.cpp\<close> and \<open>causal/selected_entry.hpp\<close>. The filters
  made of the configuration, the part of the binaries that passes them, the ring of the program
  counters sampled last, the choice of one of them, its line information, and the choice of the
  virtual speedup.

  The configuration is a record; timemory's \<open>join\<close>, which makes one expression of several, is its field
  \<open>regex_or\<close>. Random numbers are arguments, the index the distribution returns. A \<open>throw\<close> is \<open>Inl\<close>.
\<close>

section \<open>Virtual speedups\<close>

text \<open>
  The values are unsigned 16-bit; the running sum is an \<open>int\<close>, narrowed when it is stored. No division
  is a division by zero: \<open>None\<close>.
\<close>

definition speedup_dist :: "u16 \<Rightarrow> u16 list option" where
  "speedup_dist divisions =
     (if divisions = 0 then None
      else (let n = max 1 (100 div unat divisions);
                v = map (\<lambda>i. of_nat (i * unat divisions)) [1..<n + 1];
                nzero = (length v + 3) div 4
            in Some (sort (v @ replicate nzero 0))))"

definition sample_virtual_speedup :: "nat \<Rightarrow> u16 list \<Rightarrow> u16" where
  "sample_virtual_speedup rnd dist =
     (if dist = [] then 0 else if length dist = 1 then hd dist else dist ! (rnd mod length dist))"

text \<open>\<open>start_experimenting\<close>: the speedups the user asks for replace the default ones.\<close>

definition user_speedups :: "int list \<Rightarrow> u16 list \<Rightarrow> u16 list" where
  "user_speedups user dist = (if user \<noteq> [] then map of_int user else dist)"

section \<open>Filters\<close>

datatype causal_mode = Line_mode | Function_mode

record causal_config =
  mode :: causal_mode
  exclude_defaults :: bool
  regex_or :: "string list \<Rightarrow> string"
  binary_scope :: "string list"
  source_scope :: "string list"
  function_scope :: "string list"
  binary_exclude :: "string list"
  source_exclude :: "string list"
  function_exclude :: "string list"

definition get_regex_or :: "causal_config \<Rightarrow> string list \<Rightarrow> string \<Rightarrow> string" where
  "get_regex_or cfg container fallback = (if container = [] then fallback else regex_or cfg container)"

definition get_regex_or_with ::
  "causal_config \<Rightarrow> string list \<Rightarrow> (string \<Rightarrow> string) \<Rightarrow> string \<Rightarrow> string" where
  "get_regex_or_with cfg container predicate fallback =
     (if container = [] then fallback else get_regex_or cfg (map predicate container) fallback)"

definition source_end_converter :: "string \<Rightarrow> string" where
  "source_end_converter v = v @ ''$''"

definition sf :: "u8 \<Rightarrow> u8 \<Rightarrow> string \<Rightarrow> scope_filter" where
  "sf m s e = \<lparr>sf_mode = m, sf_scope = s, sf_expression = e\<rparr>"

definition all_scopes :: "u8 list" where
  "all_scopes = [BINARY_FILTER, SOURCE_FILTER, FUNCTION_FILTER]"

definition default_filters :: "causal_config \<Rightarrow> u8 list \<Rightarrow> scope_filter list" where
  "default_filters cfg scopes =
     (if BINARY_FILTER \<in> set scopes
      then [sf FILTER_EXCLUDE BINARY_FILTER
              (''lib(rocprof-sys[-'' @ [CHR 0x5C] @ ''.]|dyninst|tbbmalloc|gotcha'' @ [CHR 0x5C] @
               ''.|unwind'' @ [CHR 0x5C] @ ''.so'' @ [CHR 0x5C] @ ''.99)'')]
      else []) @
     (if mode cfg = Function_mode \<and> FUNCTION_FILTER \<in> set scopes
      then [sf FILTER_EXCLUDE FUNCTION_FILTER
              (''( main'' @ [CHR 0x5C] @ ''(|^main$|^main'' @ [CHR 0x5C] @ ''.cold$)'')]
      else []) @
     (if exclude_defaults cfg \<and> FUNCTION_FILTER \<in> set scopes
      then sf FILTER_EXCLUDE FUNCTION_FILTER ''^_'' #
           (if mode cfg = Function_mode then [sf FILTER_EXCLUDE FUNCTION_FILTER ''::_M''] else [])
      else []) @
     (if mode cfg = Function_mode \<and> FUNCTION_FILTER \<in> set scopes
      then [sf FILTER_EXCLUDE FUNCTION_FILTER (''(^main$|^main.cold$|int main'' @ [CHR 0x5C] @ ''()'')]
      else [])"

definition user_filter :: "u8 list \<Rightarrow> u8 \<Rightarrow> u8 \<Rightarrow> string \<Rightarrow> scope_filter list" where
  "user_filter scopes m scope e = (if e \<noteq> [] \<and> scope \<in> set scopes then [sf m scope e] else [])"

definition get_filters :: "causal_config \<Rightarrow> u8 list \<Rightarrow> scope_filter list" where
  "get_filters cfg scopes =
     default_filters cfg scopes @
     user_filter scopes FILTER_INCLUDE BINARY_FILTER (get_regex_or cfg (binary_scope cfg) []) @
     user_filter scopes FILTER_INCLUDE SOURCE_FILTER
       (get_regex_or_with cfg (source_scope cfg) source_end_converter []) @
     user_filter scopes FILTER_INCLUDE FUNCTION_FILTER (get_regex_or cfg (function_scope cfg) []) @
     user_filter scopes FILTER_EXCLUDE BINARY_FILTER (get_regex_or cfg (binary_exclude cfg) []) @
     user_filter scopes FILTER_EXCLUDE SOURCE_FILTER
       (get_regex_or_with cfg (source_exclude cfg) source_end_converter []) @
     user_filter scopes FILTER_EXCLUDE FUNCTION_FILTER (get_regex_or cfg (function_exclude cfg) [])"

section \<open>Eligible lines\<close>

text \<open>\<open>get_inline_symbols\<close> and \<open>get_debug_line_info\<close> with the entries themselves as the result.\<close>

fun filter_entries :: "('a \<Rightarrow> symbol_error + bool) \<Rightarrow> 'a list \<Rightarrow> symbol_error + 'a list" where
  "filter_entries accepts [] = Inr []"
| "filter_entries accepts (x # xs) =
     (case accepts x of
        Inl e \<Rightarrow> Inl e
      | Inr b \<Rightarrow> map_sum id (\<lambda>ys. if b then x # ys else ys) (filter_entries accepts xs))"

definition inline_accepts :: "externals \<Rightarrow> scope_filter list \<Rightarrow> inlined_symbol \<Rightarrow> symbol_error + bool" where
  "inline_accepts ext filters i =
     (case satisfies_filter ext filters FUNCTION_FILTER (demangle ext (is_func i)) of
        Inl e \<Rightarrow> Inl e
      | Inr False \<Rightarrow> Inr False
      | Inr True \<Rightarrow> source_accepts ext filters (is_file i) (is_line i))"

definition inline_entries ::
  "externals \<Rightarrow> scope_filter list \<Rightarrow> symbol \<Rightarrow> symbol_error + inlined_symbol list" where
  "inline_entries ext filters s = filter_entries (inline_accepts ext filters) (inlines s)"

definition debug_entries ::
  "externals \<Rightarrow> scope_filter list \<Rightarrow> symbol \<Rightarrow> symbol_error + dwarf_entry list" where
  "debug_entries ext filters s =
     (case satisfies_filter ext filters FUNCTION_FILTER (demangle ext (func s)) of
        Inl e \<Rightarrow> Inl e
      | Inr False \<Rightarrow> Inr []
      | Inr True \<Rightarrow>
          filter_entries (\<lambda>d. source_accepts ext filters (de_file d) (de_line d)) (dwarf_info s))"

text \<open>
  \<open>compute_eligible_lines_impl\<close>: the symbols that pass the filters, or one of whose inlined functions
  or lines does, with the inlined functions and lines that pass.
\<close>

datatype selection_error =
    Selection_symbol symbol_error
  | Selection_range range_error
  | No_eligible_address
  | Line_outside_symbol u64

definition scope_symbol :: "externals \<Rightarrow> scope_filter list \<Rightarrow> symbol \<Rightarrow> symbol_error + symbol option" where
  "scope_symbol ext filters d =
     (case clone d of
        Inl e \<Rightarrow> Inl e
      | Inr s \<Rightarrow>
         (case inline_entries ext filters d of
            Inl e \<Rightarrow> Inl e
          | Inr is \<Rightarrow>
             (case debug_entries ext filters d of
                Inl e \<Rightarrow> Inl e
              | Inr ds \<Rightarrow>
                 (let s = s\<lparr>inlines := is, dwarf_info := ds\<rparr>
                  in case symbol_accepts ext d filters of
                       Inl e \<Rightarrow> Inl e
                     | Inr b \<Rightarrow> Inr (if b \<or> length is + length ds > 0 then Some s else None)))))"

fun scope_symbols ::
  "externals \<Rightarrow> scope_filter list \<Rightarrow> symbol list \<Rightarrow> symbol_error + symbol list" where
  "scope_symbols ext filters [] = Inr []"
| "scope_symbols ext filters (d # ds) =
     (case scope_symbol ext filters d of
        Inl e \<Rightarrow> Inl e
      | Inr None \<Rightarrow> scope_symbols ext filters ds
      | Inr (Some s) \<Rightarrow> map_sum id ((#) s) (scope_symbols ext filters ds))"

definition scope_binary ::
  "externals \<Rightarrow> (mapping list \<Rightarrow> mapping list) \<Rightarrow> scope_filter list \<Rightarrow> binary_info \<Rightarrow>
   symbol_error + binary_info" where
  "scope_binary ext sort_maps filters b =
     (case scope_symbols ext filters (symbols b) of
        Inl e \<Rightarrow> Inl e
      | Inr ss \<Rightarrow>
         (case filter_entries (\<lambda>d. source_accepts ext filters (de_file d) (de_line d)) (debug_info b) of
            Inl e \<Rightarrow> Inl e
          | Inr ds \<Rightarrow> Inr (binary_sort sort_maps
              (empty_binary_info\<lparr>bi_bfd := bi_bfd b, mappings := mappings b, sections := sections b,
                 symbols := ss, ranges := map ipaddr ss, debug_info := ds\<rparr>))))"

fun scope_binaries ::
  "externals \<Rightarrow> (mapping list \<Rightarrow> mapping list) \<Rightarrow> scope_filter list \<Rightarrow> binary_info list \<Rightarrow>
   symbol_error + binary_info list" where
  "scope_binaries ext sort_maps filters [] = Inr []"
| "scope_binaries ext sort_maps filters (b # bs) =
     (case scope_binary ext sort_maps filters b of
        Inl e \<Rightarrow> Inl e
      | Inr b \<Rightarrow> map_sum id ((#) b) (scope_binaries ext sort_maps filters bs))"

fun add_ranges :: "address_range list \<Rightarrow> address_multirange \<Rightarrow> range_error + address_multirange" where
  "add_ranges [] m = Inr m"
| "add_ranges (r # rs) m = (case add_range r m of Inl e \<Rightarrow> Inl e | Inr m \<Rightarrow> add_ranges rs m)"

definition compute_eligible_lines ::
  "externals \<Rightarrow> (mapping list \<Rightarrow> mapping list) \<Rightarrow> causal_config \<Rightarrow> binary_info list \<Rightarrow>
   selection_error + binary_info list \<times> address_multirange" where
  "compute_eligible_lines ext sort_maps cfg binaries =
     (case scope_binaries ext sort_maps (get_filters cfg all_scopes) binaries of
        Inl e \<Rightarrow> Inl (Selection_symbol e)
      | Inr scoped \<Rightarrow>
         (case add_ranges (concat (map (\<lambda>b. map ipaddr (symbols b) @ ranges b) scoped))
                 empty_multirange of
            Inl e \<Rightarrow> Inl (Selection_range e)
          | Inr m \<Rightarrow> if fine_ranges m = [] then Inl No_eligible_address else Inr (scoped, m)))"

section \<open>The program counters sampled last\<close>

text \<open>The ring has \<open>unwind_depth\<close> slots, a constant of the build; the counters count samples.\<close>

record selection_state =
  ring :: "u64 list"
  pc_idx :: nat
  pc_candidates :: nat

fun set_current_selection ::
  "address_multirange \<Rightarrow> u64 list \<Rightarrow> selection_state \<Rightarrow> nat \<times> selection_state" where
  "set_current_selection eligible [] s = (pc_idx s, s)"
| "set_current_selection eligible (pc # stack) s =
     (if pc = 0 then set_current_selection eligible stack s
      else (let s = s\<lparr>pc_candidates := pc_candidates s + 1\<rparr>;
                s = (if multi_contains eligible pc
                     then s\<lparr>ring := (ring s)[pc_idx s mod length (ring s) := pc], pc_idx := pc_idx s + 1\<rparr>
                     else s)
            in set_current_selection eligible stack s))"

definition reset_sample_selection :: "selection_state \<Rightarrow> selection_state" where
  "reset_sample_selection s =
     s\<lparr>ring := replicate (length (ring s)) 0, pc_idx := 0, pc_candidates := 0\<rparr>"

section \<open>Line information of an address\<close>

fun mapped_in :: "u64 \<Rightarrow> mapping list \<Rightarrow> selection_error + bool" where
  "mapped_in addr [] = Inr False"
| "mapped_in addr (m # ms) =
     (case make_range (mp_load_address m) (mp_last_address m) of
        Inl e \<Rightarrow> Inl (Selection_range e)
      | Inr r \<Rightarrow> if contains r addr then Inr True else mapped_in addr ms)"

fun check_lines ::
  "address_range \<Rightarrow> u64 \<Rightarrow> symbol list \<Rightarrow> selection_error + symbol list" where
  "check_lines ip addr [] = Inr []"
| "check_lines ip addr (l # ls) =
     (if \<not> contains_range ip (ipaddr l) then Inl (Line_outside_symbol (low (ipaddr l)))
      else map_sum id (\<lambda>found. if contains (ipaddr l) addr then l # found else found)
             (check_lines ip addr ls))"

definition lift_symbol :: "symbol_error + 'a \<Rightarrow> selection_error + 'a" where
  "lift_symbol r = map_sum Selection_symbol id r"

definition primary_and_inlined ::
  "externals \<Rightarrow> scope_filter list \<Rightarrow> symbol \<Rightarrow> selection_error + symbol list" where
  "primary_and_inlined ext filters d =
     (case symbol_accepts ext d filters of
        Inl e \<Rightarrow> Inl (Selection_symbol e)
      | Inr b \<Rightarrow> map_sum id (combine (if b then [d] else []))
          (lift_symbol (get_inline_symbols ext filters d (inlines d))))"

definition debug_matches ::
  "externals \<Rightarrow> scope_filter list \<Rightarrow> u64 \<Rightarrow> symbol \<Rightarrow> selection_error + symbol list" where
  "debug_matches ext filters addr d =
     (case get_debug_line_info ext filters d of
        Inl e \<Rightarrow> Inl (Selection_symbol e)
      | Inr ls \<Rightarrow> check_lines (ipaddr d) addr ls)"

definition symbol_matches ::
  "externals \<Rightarrow> causal_mode \<Rightarrow> bool \<Rightarrow> scope_filter list \<Rightarrow> u64 \<Rightarrow> symbol \<Rightarrow>
   selection_error + symbol list" where
  "symbol_matches ext md include_discarded filters addr d =
     (if addr < load_address d \<or> \<not> contains (ipaddr d) addr then Inr []
      else (case (if include_discarded \<or> md = Function_mode
                  then primary_and_inlined ext filters d else Inr []) of
              Inl e \<Rightarrow> Inl e
            | Inr ps \<Rightarrow> map_sum id (combine ps)
                (if include_discarded \<or> md = Line_mode then debug_matches ext filters addr d
                 else Inr [])))"

fun all_matches :: "('a \<Rightarrow> selection_error + symbol list) \<Rightarrow> 'a list \<Rightarrow> selection_error + symbol list" where
  "all_matches f [] = Inr []"
| "all_matches f (d # ds) =
     (case f d of Inl e \<Rightarrow> Inl e | Inr xs \<Rightarrow> map_sum id (combine xs) (all_matches f ds))"

text \<open>An address that a binary does not map ends the search: the lambda returns.\<close>

fun search_binaries ::
  "externals \<Rightarrow> causal_mode \<Rightarrow> bool \<Rightarrow> scope_filter list \<Rightarrow> u64 \<Rightarrow> binary_info list \<Rightarrow>
   selection_error + symbol list" where
  "search_binaries ext md include_discarded filters addr [] = Inr []"
| "search_binaries ext md include_discarded filters addr (b # bs) =
     (case mapped_in addr (mappings b) of
        Inl e \<Rightarrow> Inl e
      | Inr False \<Rightarrow> Inr []
      | Inr True \<Rightarrow>
         (case all_matches (symbol_matches ext md include_discarded filters addr) (symbols b) of
            Inl e \<Rightarrow> Inl e
          | Inr found \<Rightarrow>
             if found \<noteq> [] \<and> \<not> include_discarded then Inr found
             else map_sum id (combine found)
                    (search_binaries ext md include_discarded filters addr bs)))"

definition get_line_info ::
  "externals \<Rightarrow> causal_config \<Rightarrow> binary_info list \<times> binary_info list \<Rightarrow> u64 \<Rightarrow> bool \<Rightarrow>
   selection_error + symbol list" where
  "get_line_info ext cfg cached addr include_discarded =
     (if include_discarded
      then search_binaries ext (mode cfg) True (get_filters cfg [BINARY_FILTER]) addr (fst cached)
      else search_binaries ext (mode cfg) False (get_filters cfg all_scopes) addr (snd cached))"

section \<open>Selecting an address\<close>

record selected_entry =
  sel_address :: u64
  sel_symbol_address :: u64
  sel_symbol :: symbol

definition default_symbol :: symbol where
  "default_symbol = base_symbol.extend
     \<lparr>bs_binding = 0, bs_visibility = 0, bs_section = 0, bs_address = 0, bs_symsize = 0, bs_name = []\<rparr>
     (symbol.fields 0 0 default_range [] [] [] [] [])"

definition no_selection :: selected_entry where
  "no_selection = \<lparr>sel_address = 0, sel_symbol_address = 0, sel_symbol = default_symbol\<rparr>"

definition entry_valid :: "selected_entry \<Rightarrow> bool" where
  "entry_valid e \<longleftrightarrow> sel_address e > 0 \<and> is_valid (address (sel_symbol e))"

definition entry_contains :: "selected_entry \<Rightarrow> u64 \<Rightarrow> bool" where
  "entry_contains e v \<longleftrightarrow> v = sel_address e \<or> (sel_symbol_address e > 0 \<and> v = sel_symbol_address e) \<or>
     contains (ipaddr (sel_symbol e)) v"

text \<open>
  \<open>lines\<close> is \<open>get_line_info\<close>, \<open>symbol_start\<close> what the dynamic linker knows of the symbol at an
  address, \<open>rnd\<close> the random numbers; the history counts how often an address was drawn.
\<close>

lemma drawn_index: "0 < n \<Longrightarrow> r mod n + (n - Suc (r mod n)) < (n :: nat)"
  using mod_less_divisor [of n r] by linarith

function select_address ::
  "causal_mode \<Rightarrow> (u64 \<Rightarrow> selection_error + symbol list) \<Rightarrow> (u64 \<Rightarrow> u64 option) \<Rightarrow> (nat \<Rightarrow> nat) \<Rightarrow>
   u64 list \<Rightarrow> nat \<Rightarrow> (u64 \<Rightarrow> nat) \<Rightarrow> selection_error + selected_entry \<times> nat \<times> (u64 \<Rightarrow> nat)" where
  "select_address md lines symbol_start rnd addrs k hist =
     (if addrs = [] then Inr (no_selection, k, hist)
      else (let i = rnd k mod length addrs;
                addr = addrs ! i;
                rest = take i addrs @ drop (Suc i) addrs;
                hist = hist(addr := hist addr + 1);
                sym = (if md = Function_mode
                       then (case symbol_start addr of Some a \<Rightarrow> a | None \<Rightarrow> addr) else 0)
            in case lines addr of
                 Inl e \<Rightarrow> Inl e
               | Inr [] \<Rightarrow> select_address md lines symbol_start rnd rest (k + 1) hist
               | Inr (l # ls) \<Rightarrow>
                   Inr (\<lparr>sel_address = addr, sel_symbol_address = sym,
                          sel_symbol = (if md = Function_mode then l else last (l # ls))\<rparr>, k + 1, hist)))"
  by pat_completeness auto
termination
  by (relation "measure (\<lambda>(_, _, _, _, addrs, _, _). length addrs)") (auto simp: drawn_index)

declare select_address.simps [simp del]

text \<open>
  The threads that sample write the ring while it is read: \<open>reads\<close> holds what each round reads. Before
  the rounds the code waits until the index is not zero; \<open>idx\<close> is what it reads of it over time. The
  wait asks for nothing else, and does not end if the index stays zero.
\<close>

partial_function (option) wait_eligible :: "(nat \<Rightarrow> nat) \<Rightarrow> nat \<Rightarrow> nat option" where
  "wait_eligible idx n = (if idx n = 0 then wait_eligible idx (n + 1) else Some n)"

fun select_rounds ::
  "causal_mode \<Rightarrow> (u64 \<Rightarrow> selection_error + symbol list) \<Rightarrow> (u64 \<Rightarrow> u64 option) \<Rightarrow> (nat \<Rightarrow> nat) \<Rightarrow>
   u64 list list \<Rightarrow> nat \<Rightarrow> (u64 \<Rightarrow> nat) \<Rightarrow> selection_error + selected_entry \<times> (u64 \<Rightarrow> nat)" where
  "select_rounds md lines symbol_start rnd [] k hist = Inr (no_selection, hist)"
| "select_rounds md lines symbol_start rnd (r # reads) k hist =
     (let addrs = filter (\<lambda>a. a > 0) r
      in if addrs = [] then select_rounds md lines symbol_start rnd reads k hist
         else case select_address md lines symbol_start rnd addrs k hist of
           Inl e \<Rightarrow> Inl e
         | Inr (e, k, hist) \<Rightarrow>
             if entry_valid e then Inr (e, hist)
             else select_rounds md lines symbol_start rnd reads k hist)"

definition sample_selection ::
  "causal_mode \<Rightarrow> (u64 \<Rightarrow> selection_error + symbol list) \<Rightarrow> (u64 \<Rightarrow> u64 option) \<Rightarrow> (nat \<Rightarrow> nat) \<Rightarrow>
   (nat \<Rightarrow> nat) \<Rightarrow> u64 list list \<Rightarrow> (u64 \<Rightarrow> nat) \<Rightarrow>
   (selection_error + selected_entry \<times> (u64 \<Rightarrow> nat)) option" where
  "sample_selection md lines symbol_start rnd idx reads hist =
     (case wait_eligible idx 0 of
        None \<Rightarrow> None
      | Some _ \<Rightarrow> Some (select_rounds md lines symbol_start rnd reads 0 hist))"

section \<open>Lemmas\<close>

definition eligible_pcs :: "address_multirange \<Rightarrow> u64 list \<Rightarrow> u64 list" where
  "eligible_pcs m stack = filter (\<lambda>pc. pc \<noteq> 0 \<and> multi_contains m pc) stack"

text \<open>Slot \<open>j mod n\<close> holds the \<open>j\<close>-th program counter, until the one \<open>n\<close> later takes it.\<close>

definition ring_inv :: "u64 list \<Rightarrow> selection_state \<Rightarrow> bool" where
  "ring_inv pcs s \<longleftrightarrow> pc_idx s = length pcs \<and>
     (\<forall>j<length pcs. length pcs \<le> j + length (ring s) \<longrightarrow> ring s ! (j mod length (ring s)) = pcs ! j) \<and>
     (\<forall>i<length (ring s). length pcs \<le> i \<longrightarrow> ring s ! i = 0)"

lemma mod_differs:
  assumes "j < n" and "n < j + (k :: nat)"
  shows "j mod k \<noteq> n mod k"
proof
  assume "j mod k = n mod k"
  then have "k dvd n - j"
    using assms by (simp add: mod_eq_dvd_iff_nat [symmetric])
  then show False
    using assms by (auto dest: dvd_imp_le)
qed

lemma ring_inv_store:
  assumes "ring_inv pcs s" and "0 < length (ring s)"
  shows "ring_inv (pcs @ [pc])
    (s\<lparr>ring := (ring s)[pc_idx s mod length (ring s) := pc], pc_idx := pc_idx s + 1\<rparr>)"
proof -
  have idx: "pc_idx s = length pcs"
    using assms by (simp add: ring_inv_def)
  let ?n = "length (ring s)" and ?r = "(ring s)[length pcs mod length (ring s) := pc]"
  have "?r ! (j mod ?n) = (pcs @ [pc]) ! j" if "j < Suc (length pcs)" "Suc (length pcs) \<le> j + ?n" for j
  proof (cases "j = length pcs")
    case False
    then have "j mod ?n \<noteq> length pcs mod ?n"
      using that by (intro mod_differs) simp_all
    then show ?thesis
      using assms that False by (simp add: ring_inv_def nth_append)
  qed (use assms in simp)
  moreover have "?r ! i = 0" if "i < ?n" "Suc (length pcs) \<le> i" for i
    using assms that by (simp add: ring_inv_def)
  ultimately show ?thesis
    by (simp add: ring_inv_def idx)
qed

lemma set_current_selection_fst: "fst (set_current_selection m stack s) = pc_idx (snd (set_current_selection m stack s))"
  by (induction stack arbitrary: s) (simp_all add: Let_def)

lemma length_ring [simp]: "length (ring (snd (set_current_selection m stack s))) = length (ring s)"
  by (induction stack arbitrary: s) (simp_all add: Let_def)

lemma ring_inv_candidates [simp]: "ring_inv pcs (s\<lparr>pc_candidates := n\<rparr>) = ring_inv pcs s"
  by (simp add: ring_inv_def)

lemma ring_inv_stack:
  assumes "ring_inv pcs s" and "0 < length (ring s)"
  shows "ring_inv (pcs @ eligible_pcs m stack) (snd (set_current_selection m stack s))"
  using assms
proof (induction stack arbitrary: pcs s)
  case (Cons pc stack)
  show ?case
  proof (cases "pc = 0 \<or> \<not> multi_contains m pc")
    case True
    then show ?thesis
      using Cons.IH [of pcs s] Cons.IH [of pcs "s\<lparr>pc_candidates := pc_candidates s + 1\<rparr>"] Cons.prems
      by (auto simp: eligible_pcs_def)
  next
    case False
    then show ?thesis
      using Cons.prems ring_inv_store [of pcs "s\<lparr>pc_candidates := pc_candidates s + 1\<rparr>" pc]
        Cons.IH [of "pcs @ [pc]"]
      by (simp add: eligible_pcs_def)
  qed
qed (simp add: eligible_pcs_def)

definition sample_stacks :: "address_multirange \<Rightarrow> u64 list list \<Rightarrow> selection_state \<Rightarrow> selection_state" where
  "sample_stacks m stacks s = fold (\<lambda>stack s. snd (set_current_selection m stack s)) stacks s"

lemma ring_inv_stacks:
  assumes "ring_inv pcs s" and "0 < length (ring s)"
  shows "ring_inv (pcs @ eligible_pcs m (concat stacks)) (sample_stacks m stacks s) \<and>
    length (ring (sample_stacks m stacks s)) = length (ring s)"
  using assms
proof (induction stacks arbitrary: pcs s)
  case (Cons stack stacks)
  then show ?case
    using Cons.IH [OF ring_inv_stack [OF Cons.prems]]
    by (simp add: sample_stacks_def eligible_pcs_def)
qed (simp add: sample_stacks_def eligible_pcs_def)

lemma ring_inv_reset: "ring_inv [] (reset_sample_selection s)"
  by (simp add: ring_inv_def reset_sample_selection_def)

lemma in_set_drop:
  "x \<in> set (drop k xs) \<longleftrightarrow> (\<exists>j<length xs. k \<le> j \<and> x = xs ! j)"
proof
  assume "x \<in> set (drop k xs)"
  then obtain i where "i < length xs - k" "x = xs ! (k + i)"
    by (auto simp: in_set_conv_nth)
  then show "\<exists>j<length xs. k \<le> j \<and> x = xs ! j"
    by (intro exI [of _ "k + i"]) simp
next
  assume "\<exists>j<length xs. k \<le> j \<and> x = xs ! j"
  then obtain j where "j < length xs" "k \<le> j" "x = xs ! j"
    by blast
  then show "x \<in> set (drop k xs)"
    unfolding in_set_conv_nth by (intro exI [of _ "j - k"]) simp
qed

lemma ring_inv_latest:
  assumes inv: "ring_inv pcs s" and pos: "0 < length (ring s)" and nz: "0 \<notin> set pcs"
  shows "set (filter (\<lambda>a. a > 0) (ring s)) = set (drop (length pcs - length (ring s)) pcs)"
proof -
  let ?n = "length (ring s)"
  have stored: "ring s ! (j mod ?n) = pcs ! j" if "j < length pcs" "length pcs \<le> j + ?n" for j
    using inv that by (simp add: ring_inv_def)
  have "\<exists>j<length pcs. length pcs \<le> j + ?n \<and> j mod ?n = i" if "i < ?n" "i < length pcs" for i
  proof -
    let ?j = "i + ?n * ((length pcs - Suc i) div ?n)"
    have "?j \<le> i + (length pcs - Suc i)"
      by simp
    moreover have "length pcs - Suc i < ?n * ((length pcs - Suc i) div ?n) + ?n"
      using pos by (metis add.commute dividend_less_times_div)
    ultimately have "?j < length pcs" and "length pcs \<le> ?j + ?n"
      using that by linarith+
    moreover have "?j mod ?n = i"
      using that by simp
    ultimately show ?thesis
      by blast
  qed
  then have slots: "ring s ! i = 0 \<or> (\<exists>j<length pcs. length pcs \<le> j + ?n \<and> ring s ! i = pcs ! j)" if "i < ?n" for i
    using inv stored that unfolding ring_inv_def by (metis not_le)
  have tail: "x \<in> set (drop (length pcs - ?n) pcs) \<longleftrightarrow> (\<exists>j<length pcs. length pcs \<le> j + ?n \<and> x = pcs ! j)" for x
    by (simp add: in_set_drop le_diff_conv)
  show ?thesis
  proof (intro set_eqI iffI)
    fix x assume "x \<in> set (filter (\<lambda>a. a > 0) (ring s))"
    then show "x \<in> set (drop (length pcs - ?n) pcs)"
      using slots unfolding tail by (force simp: in_set_conv_nth)
  next
    fix x assume "x \<in> set (drop (length pcs - ?n) pcs)"
    then obtain j where j: "j < length pcs" "length pcs \<le> j + ?n" "x = pcs ! j"
      unfolding tail by blast
    then have "x \<noteq> 0"
      using nz nth_mem [of j pcs] by metis
    then show "x \<in> set (filter (\<lambda>a. a > 0) (ring s))"
      using stored [OF j(1,2)] j(3) nth_mem [of "j mod ?n" "ring s"] pos
      by (auto simp: word_neq_0_conv)
  qed
qed

text \<open>What a search that goes on to the next binary finds.\<close>

fun search_mapped ::
  "externals \<Rightarrow> causal_mode \<Rightarrow> bool \<Rightarrow> scope_filter list \<Rightarrow> u64 \<Rightarrow> binary_info list \<Rightarrow>
   selection_error + symbol list" where
  "search_mapped ext md include_discarded filters addr [] = Inr []"
| "search_mapped ext md include_discarded filters addr (b # bs) =
     (case all_matches (symbol_matches ext md include_discarded filters addr) (symbols b) of
        Inl e \<Rightarrow> Inl e
      | Inr found \<Rightarrow>
         if found \<noteq> [] \<and> \<not> include_discarded then Inr found
         else map_sum id (combine found) (search_mapped ext md include_discarded filters addr bs))"

lemma search_binaries_prefix:
  assumes "\<forall>b\<in>set bs. \<exists>r. mapped_in addr (mappings b) = Inr r"
  shows "search_binaries ext md inc filters addr bs =
    search_mapped ext md inc filters addr (takeWhile (\<lambda>b. mapped_in addr (mappings b) = Inr True) bs)"
  using assms
proof (induction bs)
  case (Cons b bs)
  then obtain r where "mapped_in addr (mappings b) = Inr r"
    by auto
  then show ?case
    using Cons by (cases r; cases inc) (simp_all split: sum.split)
qed simp

lemma select_address_nothing:
  assumes "\<forall>a\<in>set addrs. lines a = Inr []"
  shows "\<exists>k' h. select_address md lines symbol_start rnd addrs k hist = Inr (no_selection, k', h)"
  using assms
proof (induction md lines symbol_start rnd addrs k hist rule: select_address.induct)
  case (1 md lines symbol_start rnd addrs k hist)
  let ?i = "rnd k mod length addrs"
  show ?case
  proof (cases "addrs = []")
    case False
    then have "?i < length addrs"
      by simp
    then have "lines (addrs ! ?i) = Inr []"
      using "1.prems" by simp
    moreover have "\<forall>a\<in>set (take ?i addrs @ drop (Suc ?i) addrs). lines a = Inr []"
      using "1.prems" by (auto dest: in_set_takeD in_set_dropD)
    ultimately show ?thesis
      using "1.IH" [OF False refl refl refl refl refl] False
      by (subst select_address.simps) (simp add: Let_def fun_upd_def)
  qed (simp add: select_address.simps)
qed

definition selected_line ::
  "causal_mode \<Rightarrow> (u64 \<Rightarrow> selection_error + symbol list) \<Rightarrow> selected_entry \<Rightarrow> bool" where
  "selected_line md lines e \<longleftrightarrow> (\<exists>ls. lines (sel_address e) = Inr ls \<and> ls \<noteq> [] \<and>
    sel_symbol e = (if md = Function_mode then hd ls else last ls))"

lemma select_address_sound:
  assumes "select_address md lines symbol_start rnd addrs k hist = Inr (e, k', h)" and "entry_valid e"
  shows "sel_address e \<in> set addrs \<and> selected_line md lines e"
  using assms
proof (induction md lines symbol_start rnd addrs k hist rule: select_address.induct)
  case (1 md lines symbol_start rnd addrs k hist)
  let ?i = "rnd k mod length addrs"
  have ne: "addrs \<noteq> []"
    using "1.prems" by (auto simp: select_address.simps no_selection_def entry_valid_def)
  then have "?i < length addrs"
    by simp
  then have mem: "addrs ! ?i \<in> set addrs"
    by simp
  show ?case
  proof (cases "lines (addrs ! ?i)")
    case (Inr ls)
    show ?thesis
    proof (cases ls)
      case Nil
      then show ?thesis
        using "1.IH" [OF ne refl refl refl refl refl] "1.prems" ne Inr
        by (subst (asm) (2) select_address.simps)
          (auto simp: Let_def fun_upd_def selected_line_def dest: in_set_takeD in_set_dropD)
    next
      case (Cons l ls')
      then show ?thesis
        using "1.prems" ne Inr mem
        by (subst (asm) select_address.simps) (auto simp: Let_def selected_line_def)
    qed
  qed (use "1.prems" ne in \<open>subst (asm) select_address.simps, simp add: Let_def\<close>)
qed

lemma select_rounds_nothing:
  assumes "\<forall>r\<in>set reads. \<forall>a\<in>set r. a \<noteq> 0 \<longrightarrow> lines a = Inr []"
  shows "\<exists>h. select_rounds md lines symbol_start rnd reads k hist = Inr (no_selection, h)"
  using assms
proof (induction reads arbitrary: k hist)
  case (Cons r reads)
  let ?addrs = "filter (\<lambda>a. a > 0) r"
  obtain k' h where "select_address md lines symbol_start rnd ?addrs k hist = Inr (no_selection, k', h)"
    using Cons.prems select_address_nothing [of ?addrs lines md symbol_start rnd k hist]
    by (auto simp: word_neq_0_conv)
  moreover have "\<not> entry_valid no_selection"
    by (simp add: entry_valid_def no_selection_def)
  ultimately show ?case
    using Cons by (simp add: Let_def)
qed simp

lemma select_rounds_sound:
  assumes "select_rounds md lines symbol_start rnd reads k hist = Inr (e, h)" and "entry_valid e"
  shows "(\<exists>r\<in>set reads. sel_address e \<in> set r) \<and> selected_line md lines e"
  using assms
proof (induction reads arbitrary: k hist)
  case Nil
  then show ?case
    by (auto simp: entry_valid_def no_selection_def)
next
  case (Cons r reads)
  let ?addrs = "filter (\<lambda>a. a > 0) r"
  show ?case
  proof (cases "select_address md lines symbol_start rnd ?addrs k hist")
    case (Inl x)
    then show ?thesis
      using Cons by (auto simp: Let_def split: if_splits)
  next
    case (Inr t)
    then obtain e' k' h' where t: "select_address md lines symbol_start rnd ?addrs k hist = Inr (e', k', h')"
      by (cases t) auto
    show ?thesis
      using Cons.prems Cons.IH select_address_sound [OF t] t
      by (auto simp: Let_def split: if_splits)
  qed
qed

lemma wait_eligible_Some:
  assumes "wait_eligible idx n = Some k"
  shows "idx k \<noteq> 0"
  by (rule wait_eligible.raw_induct [where P = "\<lambda>idx n k. idx k \<noteq> 0", OF _ assms])
    (auto split: if_splits)

lemma wait_eligible_returns: "idx (n + m) \<noteq> 0 \<Longrightarrow> \<exists>k. wait_eligible idx n = Some k"
proof (induction m arbitrary: n)
  case 0
  then show ?case
    by (simp add: wait_eligible.simps)
next
  case (Suc m)
  then show ?case
    using Suc.IH [of "n + 1"] by (subst wait_eligible.simps) simp
qed

section \<open>Properties\<close>

text \<open>
  C20. The ring holds the program counters sampled last: after a reset, whatever stacks the threads
  sample, its slots that are not zero hold exactly the last n eligible program counters, n the size of the
  ring, and the index counts the eligible ones.
\<close>

theorem ring_holds_latest:
  assumes "0 < length (ring s)"
  shows "let pcs = eligible_pcs m (concat stacks); s' = sample_stacks m stacks (reset_sample_selection s)
    in pc_idx s' = length pcs \<and>
       set (filter (\<lambda>a. a > 0) (ring s')) = set (drop (length pcs - length (ring s)) pcs)"
proof -
  let ?s = "sample_stacks m stacks (reset_sample_selection s)"
  have len: "length (ring (reset_sample_selection s)) = length (ring s)"
    by (simp add: reset_sample_selection_def)
  have inv: "ring_inv (eligible_pcs m (concat stacks)) ?s" "length (ring ?s) = length (ring s)"
    using ring_inv_stacks [OF ring_inv_reset, of s m stacks] assms len by simp_all
  moreover have "0 \<notin> set (eligible_pcs m (concat stacks))"
    by (simp add: eligible_pcs_def)
  ultimately show ?thesis
    using ring_inv_latest [of _ ?s] assms by (simp add: Let_def ring_inv_def)
qed

definition ring_ex :: selection_state where
  "ring_ex = \<lparr>ring = [0, 0], pc_idx = 0, pc_candidates = 0\<rparr>"

definition eligible_ex :: address_multirange where
  "eligible_ex = \<lparr>coarse_range = \<lparr>low = 0, high = 64\<rparr>, fine_ranges = [\<lparr>low = 16, high = 64\<rparr>]\<rparr>"

lemma ring_holds_latest_witness:
  "set (filter (\<lambda>a. a > 0) (ring (sample_stacks eligible_ex [[17, 3], [18, 19]]
    (reset_sample_selection ring_ex)))) = {18, 19}"
  using ring_holds_latest [of ring_ex eligible_ex "[[17, 3], [18, 19]]"]
  by (simp add: Let_def ring_ex_def eligible_pcs_def eligible_ex_def multi_contains_def contains_def
      is_range_def)

text \<open>
  A selection that is valid is one of the addresses sampled last, and its symbol is the first of its
  line information in function mode, the last one otherwise.
\<close>

theorem selection_is_sampled:
  assumes "sample_selection md lines symbol_start rnd idx reads hist = Some (Inr (e, h))"
    and "entry_valid e"
  shows "(\<exists>r\<in>set reads. sel_address e \<in> set r) \<and> (\<exists>ls. lines (sel_address e) = Inr ls \<and> ls \<noteq> [] \<and>
    sel_symbol e = (if md = Function_mode then hd ls else last ls))"
proof -
  have "select_rounds md lines symbol_start rnd reads 0 hist = Inr (e, h)"
    using assms(1) by (simp add: sample_selection_def split: option.splits)
  from select_rounds_sound [OF this assms(2)] show ?thesis
    unfolding selected_line_def .
qed

definition symbol_ex :: symbol where
  "symbol_ex = default_symbol\<lparr>load_address := 0x5000, address := \<lparr>low = 16, high = 32\<rparr>, func := ''f''\<rparr>"

lemma selection_is_sampled_witness:
  "\<exists>e h. sample_selection Line_mode (\<lambda>a. if a = 17 then Inr [symbol_ex] else Inr []) (\<lambda>_. None) (\<lambda>_. 5)
      (\<lambda>_. 1) [[0, 17], []] (\<lambda>_. 0) = Some (Inr (e, h)) \<and> entry_valid e \<and> sel_symbol e = symbol_ex"
proof -
  let ?e = "\<lparr>sel_address = 17, sel_symbol_address = 0, sel_symbol = symbol_ex\<rparr>"
  let ?lines = "\<lambda>a. if a = 17 then Inr [symbol_ex] else Inr []"
  have valid: "entry_valid ?e"
    by (simp add: entry_valid_def symbol_ex_def is_valid_def is_range_def)
  have run: "sample_selection Line_mode ?lines (\<lambda>_. None) (\<lambda>_. 5) (\<lambda>_. 1) [[0, 17], []] (\<lambda>_. 0) =
      Some (Inr (?e, (\<lambda>_. 0)(17 := 1)))"
    using valid by (simp add: sample_selection_def wait_eligible.simps select_address.simps)
  from selection_is_sampled [OF run valid] show ?thesis
    using run valid by (intro exI conjI) (auto split: if_splits)
qed

text \<open>
  C21. Nothing but the first binary is ever selected. The search for the line information of an address
  leaves its loop at the first binary that does not map it, where it should go on to the next one. So if
  no sampled address lies in the first of the scoped binaries, no selection is made, whatever the
  other binaries hold, the random numbers, and the number of rounds.
\<close>

theorem later_binaries_never_selected:
  assumes "\<forall>r\<in>set reads. \<forall>a\<in>set r. a \<noteq> 0 \<longrightarrow> mapped_in a (mappings b) = Inr False"
    and "idx n \<noteq> 0"
  shows "\<exists>h. sample_selection md (\<lambda>a. get_line_info ext cfg (binaries, b # bs) a False)
    symbol_start rnd idx reads hist = Some (Inr (no_selection, h))"
proof -
  obtain k where "wait_eligible idx 0 = Some k"
    using wait_eligible_returns [of idx 0 n] assms by auto
  moreover have "get_line_info ext cfg (binaries, b # bs) a False = Inr []"
    if "mapped_in a (mappings b) = Inr False" for a
    using that by (simp add: get_line_info_def)
  ultimately show ?thesis
    using select_rounds_nothing assms(1) by (simp add: sample_selection_def)
qed

definition externals_ex :: externals where
  "externals_ex = \<lparr>regex_search = \<lambda>_ _. Some False, demangle = \<lambda>s. s, join_line = \<lambda>f _. f,
     realpath = \<lambda>s. s, basename = \<lambda>s. s, exe_realpath = [], dlopen_names = \<lambda>_ _. None\<rparr>"

definition config_ex :: causal_config where
  "config_ex = \<lparr>mode = Function_mode, exclude_defaults = True, regex_or = concat, binary_scope = [],
     source_scope = [], function_scope = [], binary_exclude = [], source_exclude = [],
     function_exclude = []\<rparr>"

definition binaries_ex :: "binary_info list" where
  "binaries_ex =
     [empty_binary_info\<lparr>mappings := [\<lparr>mp_pathname = ''exe'', mp_load_address = 0x1000, mp_last_address = 0x2000\<rparr>]\<rparr>,
      empty_binary_info\<lparr>mappings := [\<lparr>mp_pathname = ''lib'', mp_load_address = 0x5000, mp_last_address = 0x6000\<rparr>],
        symbols := [symbol_ex]\<rparr>]"

lemma later_binaries_never_selected_witness:
  "(\<exists>h. sample_selection Function_mode (\<lambda>a. get_line_info externals_ex config_ex ([], binaries_ex) a False)
      (\<lambda>_. None) (\<lambda>_. 0) (\<lambda>_. 1) [[0x5011], [0x5012]] (\<lambda>_. 0) = Some (Inr (no_selection, h))) \<and>
   get_line_info externals_ex config_ex ([], tl binaries_ex) 0x5011 False = Inr [symbol_ex]"
proof -
  have "get_line_info externals_ex config_ex ([], tl binaries_ex) 0x5011 False = Inr [symbol_ex]"
    by (simp add: get_line_info_def binaries_ex_def config_ex_def make_range_def contains_def is_range_def
        is_valid_def symbol_matches_def symbol_ex_def default_symbol_def ipaddr_def range_add_def primary_and_inlined_def
        symbol_accepts_def get_filters_def default_filters_def user_filter_def get_regex_or_def
        get_regex_or_with_def sf_def filter_value_def search_def externals_ex_def all_scopes_def
        BINARY_FILTER_def SOURCE_FILTER_def FUNCTION_FILTER_def FILTER_EXCLUDE_def FILTER_INCLUDE_def
        lift_symbol_def combine_def base_symbol.defs symbol.defs)
  then show ?thesis
    using later_binaries_never_selected [of "[[0x5011], [0x5012]]" "hd binaries_ex" "\<lambda>_. 1" 0
        Function_mode externals_ex config_ex "[]" "tl binaries_ex" "\<lambda>_. None" "\<lambda>_. 0" "\<lambda>_. 0"]
    by (simp add: binaries_ex_def make_range_def contains_def is_range_def)
qed

text \<open>
  Without an eligible sample the selection does not return: it waits for the index of the ring and
  asks for nothing else, not even for the end of the program. So the experiment thread never reports
  that no experiment was started.
\<close>

theorem selection_waits_forever:
  "sample_selection md lines symbol_start rnd idx reads hist = None \<longleftrightarrow> (\<forall>n. idx n = 0)"
  using wait_eligible_Some wait_eligible_returns [of idx 0]
  by (fastforce simp: sample_selection_def split: option.splits)

end
