(* ===== verification/Causal_Delay.thy ===== *)
theory Causal_Delay
  imports Runtime_State
begin

text \<open>
  The delays of the causal profiler: \<open>causal/delay.cpp\<close>, and the wrappers of blocking and waking
  functions of \<open>causal/components/blocking_gotcha.cpp\<close> and \<open>unblocking_gotcha.cpp\<close>.

  The profiler makes a line virtually faster by pausing the other threads. One global counter holds
  the delay every thread owes, each thread has the delay it has paid. The counters are nanoseconds in
  \<open>int64_t\<close>; they are integers here. The slots of the threads are a function of the thread; a slot is
  set when its thread first uses it (\<open>thr_init\<close>). What a sleep took is an argument.
\<close>

section \<open>The operations\<close>

record delays =
  global_delay :: int
  local_delay :: "nat \<Rightarrow> int"
  constructed :: "nat \<Rightarrow> bool"
  available :: bool

definition thr_init :: "nat \<Rightarrow> delays \<Rightarrow> delays" where
  "thr_init t d =
     (if constructed d t then d
      else d\<lparr>local_delay := (local_delay d)(t := global_delay d), constructed := (constructed d)(t := True)\<rparr>)"

definition add_local :: "nat \<Rightarrow> int \<Rightarrow> delays \<Rightarrow> delays" where
  "add_local t v d = d\<lparr>local_delay := (local_delay d)(t := local_delay d t + v)\<rparr>"

text \<open>\<open>active\<close>: an experiment runs; \<open>slept\<close>: how long a sleep of that many nanoseconds took.\<close>

definition process :: "bool \<Rightarrow> (int \<Rightarrow> int) \<Rightarrow> nat \<Rightarrow> delays \<Rightarrow> delays" where
  "process active slept t d =
     (let d = thr_init t d in
      if \<not> available d then d
      else if active then
        (if global_delay d < local_delay d t
         then d\<lparr>global_delay := global_delay d + (local_delay d t - global_delay d)\<rparr>
         else if global_delay d > local_delay d t
         then add_local t (slept (global_delay d - local_delay d t)) d
         else d)
      else d\<lparr>local_delay := (local_delay d)(t := global_delay d)\<rparr>)"

definition credit :: "nat \<Rightarrow> delays \<Rightarrow> delays" where
  "credit t d =
     (let d = thr_init t d in
      if \<not> available d then d
      else (let diff = global_delay d - local_delay d t in if diff > 0 then add_local t diff d else d))"

definition preblock :: "nat \<Rightarrow> delays \<Rightarrow> delays" where
  "preblock t d =
     (let d = thr_init t d in
      if \<not> available d then d
      else (let diff = global_delay d - local_delay d t in if diff > 0 then add_local t diff d else d))"

definition postblock :: "int \<Rightarrow> nat \<Rightarrow> delays \<Rightarrow> delays" where
  "postblock before t d =
     (let d = thr_init t d in
      if \<not> available d then d else add_local t (global_delay d - before) d)"

definition sync :: "delays \<Rightarrow> int \<times> delays" where
  "sync d = (global_delay d,
     if available d then d\<lparr>local_delay := \<lambda>_. global_delay d\<rparr> else d)"

definition compute_total_delay :: "u64 \<Rightarrow> delays \<Rightarrow> u64" where
  "compute_total_delay baseline d = of_int (global_delay d) - baseline"

section \<open>Blocking and waking functions\<close>

datatype block_kind = Always_post | Maybe_post

text \<open>
  The wrapped call is a function of the delays: while it blocks, other threads change them. \<open>ts\<close> is the
  state of the thread behind the call.
\<close>

definition blocking ::
  "block_kind \<Rightarrow> (delays \<Rightarrow> int \<times> delays) \<Rightarrow> thread_state \<Rightarrow> nat \<Rightarrow> delays \<Rightarrow> int \<times> delays" where
  "blocking kind call ts t d =
     (let before = global_delay d;
          (ret, d) = call d
      in (ret, if ts < TS_Internal
               then (case kind of
                       Always_post \<Rightarrow> postblock before t d
                     | Maybe_post \<Rightarrow> if ret = 0 then postblock before t d else d)
               else d))"

text \<open>\<open>sigwaitinfo\<close> and \<open>sigtimedwait\<close>; the call also yields the process that sent the signal.\<close>

definition signal_wait ::
  "(delays \<Rightarrow> int \<times> int \<times> delays) \<Rightarrow> int \<Rightarrow> thread_state \<Rightarrow> nat \<Rightarrow> delays \<Rightarrow> int \<times> delays" where
  "signal_wait call pid ts t d =
     (let active = ts < TS_Internal;
          before = (if active then global_delay d else 0);
          (ret, sender, d) = call d
      in (ret, if active \<and> ret > 0 \<and> sender = pid then postblock before t d else d))"

datatype wake_kind = Wake_plain | Wake_barrier

definition unblocking ::
  "wake_kind \<Rightarrow> (delays \<Rightarrow> int \<times> delays) \<Rightarrow> bool \<Rightarrow> (int \<Rightarrow> int) \<Rightarrow> thread_state \<Rightarrow> nat \<Rightarrow> delays \<Rightarrow> int \<times> delays" where
  "unblocking kind call active slept ts t d =
     (if ts < TS_Internal
      then (let d = process active slept t d
            in case kind of
                 Wake_barrier \<Rightarrow>
                   (let before = global_delay d; (ret, d) = call d in (ret, postblock before t d))
               | Wake_plain \<Rightarrow> call d)
      else call d)"

definition unblocking_kill ::
  "(delays \<Rightarrow> int \<times> delays) \<Rightarrow> int \<Rightarrow> int \<Rightarrow> bool \<Rightarrow> (int \<Rightarrow> int) \<Rightarrow> thread_state \<Rightarrow> nat \<Rightarrow> delays \<Rightarrow>
   int \<times> delays" where
  "unblocking_kill call pid own_pid active slept ts t d =
     call (if ts < TS_Internal \<and> pid = own_pid then process active slept t d else d)"

section \<open>Threads that process at the same time\<close>

text \<open>
  \<open>process\<close> of an active experiment in its atomic steps: the comparison reads the global counter; if it
  is behind, the difference reads it again, and the addition is one atomic operation; otherwise a
  second comparison and the argument of the sleep read it.
\<close>

datatype delay_pc = D_start | D_diff | D_add int | D_compare | D_sleep | D_done

inductive delay_step ::
  "(int \<Rightarrow> int) \<Rightarrow> nat \<Rightarrow> delays \<times> (nat \<Rightarrow> delay_pc) \<Rightarrow> delays \<times> (nat \<Rightarrow> delay_pc) \<Rightarrow> bool"
  for slept t where
  behind: "pc t = D_start \<Longrightarrow> global_delay d < local_delay d t \<Longrightarrow>
    delay_step slept t (d, pc) (d, pc(t := D_diff))"
| not_behind: "pc t = D_start \<Longrightarrow> \<not> global_delay d < local_delay d t \<Longrightarrow>
    delay_step slept t (d, pc) (d, pc(t := D_compare))"
| difference: "pc t = D_diff \<Longrightarrow>
    delay_step slept t (d, pc) (d, pc(t := D_add (local_delay d t - global_delay d)))"
| fetch_add: "pc t = D_add v \<Longrightarrow>
    delay_step slept t (d, pc) (d\<lparr>global_delay := global_delay d + v\<rparr>, pc(t := D_done))"
| ahead: "pc t = D_compare \<Longrightarrow> global_delay d > local_delay d t \<Longrightarrow>
    delay_step slept t (d, pc) (d, pc(t := D_sleep))"
| equal: "pc t = D_compare \<Longrightarrow> \<not> global_delay d > local_delay d t \<Longrightarrow>
    delay_step slept t (d, pc) (d, pc(t := D_done))"
| pause: "pc t = D_sleep \<Longrightarrow>
    delay_step slept t (d, pc)
      (add_local t (slept (global_delay d - local_delay d t)) d, pc(t := D_done))"

text \<open>A schedule: which thread takes the next step.\<close>

inductive delay_run ::
  "(int \<Rightarrow> int) \<Rightarrow> nat list \<Rightarrow> delays \<times> (nat \<Rightarrow> delay_pc) \<Rightarrow> delays \<times> (nat \<Rightarrow> delay_pc) \<Rightarrow> bool"
  for slept where
  run_Nil: "delay_run slept [] s s"
| run_Cons: "delay_step slept t s s' \<Longrightarrow> delay_run slept ts s' s'' \<Longrightarrow> delay_run slept (t # ts) s s''"

inductive_simps delay_run_simps [simp]:
  "delay_run slept [] s s'"
  "delay_run slept (t # ts) s s'"

lemma delay_step_simps:
  "pc t = D_start \<Longrightarrow> delay_step slept t (d, pc) s' \<longleftrightarrow>
     s' = (d, pc(t := (if global_delay d < local_delay d t then D_diff else D_compare)))"
  "pc t = D_diff \<Longrightarrow> delay_step slept t (d, pc) s' \<longleftrightarrow>
     s' = (d, pc(t := D_add (local_delay d t - global_delay d)))"
  "pc t = D_add v \<Longrightarrow> delay_step slept t (d, pc) s' \<longleftrightarrow>
     s' = (d\<lparr>global_delay := global_delay d + v\<rparr>, pc(t := D_done))"
  "pc t = D_compare \<Longrightarrow> delay_step slept t (d, pc) s' \<longleftrightarrow>
     s' = (d, pc(t := (if global_delay d > local_delay d t then D_sleep else D_done)))"
  "pc t = D_sleep \<Longrightarrow> delay_step slept t (d, pc) s' \<longleftrightarrow>
     s' = (add_local t (slept (global_delay d - local_delay d t)) d, pc(t := D_done))"
  by (auto simp: delay_step.simps)

section \<open>Lemmas\<close>

definition ready :: "delays \<Rightarrow> bool" where
  "ready d \<longleftrightarrow> available d \<and> (\<forall>t. constructed d t)"

lemma thr_init_ready [simp]: "ready d \<Longrightarrow> thr_init t d = d"
  by (simp add: ready_def thr_init_def)

lemma add_local_fields [simp]:
  "global_delay (add_local t v d) = global_delay d" "constructed (add_local t v d) = constructed d"
  "available (add_local t v d) = available d" "ready (add_local t v d) = ready d"
  "local_delay (add_local t v d) u = (if u = t then local_delay d t + v else local_delay d u)"
  by (simp_all add: add_local_def ready_def)

lemma ready_available [simp]: "ready d \<Longrightarrow> available d"
  by (simp add: ready_def)

lemma process_fields:
  assumes "ready d"
  shows "ready (process True slept t d)"
    and "global_delay (process True slept t d) = max (global_delay d) (local_delay d t)"
    and "local_delay (process True slept t d) u =
      (if u = t \<and> local_delay d t < global_delay d
       then local_delay d t + slept (global_delay d - local_delay d t) else local_delay d u)"
  using assms by (auto simp: process_def Let_def ready_def thr_init_def)

text \<open>The steps of one thread without a step of another are the operation.\<close>

lemma process_steps:
  assumes "ready d" and "pc t = D_start"
  shows "\<exists>n. delay_run slept (replicate n t) (d, pc) (process True slept t d, pc(t := D_done))"
proof -
  consider "global_delay d < local_delay d t" | "local_delay d t < global_delay d"
    | "global_delay d = local_delay d t"
    by linarith
  then show ?thesis
  proof cases
    case 1
    then have "delay_run slept (replicate 3 t) (d, pc) (process True slept t d, pc(t := D_done))"
      using assms by (simp add: numeral_3_eq_3 delay_step_simps process_def)
    then show ?thesis ..
  next
    case 2
    then have "delay_run slept (replicate 3 t) (d, pc) (process True slept t d, pc(t := D_done))"
      using assms by (simp add: numeral_3_eq_3 delay_step_simps process_def)
    then show ?thesis ..
  next
    case 3
    then have "delay_run slept (replicate 2 t) (d, pc) (process True slept t d, pc(t := D_done))"
      using assms by (simp add: numeral_2_eq_2 delay_step_simps process_def)
    then show ?thesis ..
  qed
qed

text \<open>
  Threads that call \<open>process\<close> one after another, each with the time by which its sleep, if it sleeps,
  takes longer than what was asked for: \<open>sleep_for\<close> returns no earlier, and the code adds what it measured.
\<close>

definition process_all :: "(nat \<times> int) list \<Rightarrow> delays \<Rightarrow> delays" where
  "process_all xs d = fold (\<lambda>(t, extra). process True (\<lambda>v. v + extra) t) xs d"

lemma process_all_simps [simp]:
  "process_all [] d = d"
  "process_all ((t, extra) # xs) d = process_all xs (process True (\<lambda>v. v + extra) t d)"
  "process_all (xs @ ys) d = process_all ys (process_all xs d)"
  by (simp_all add: process_all_def)

abbreviation overshoot :: "(nat \<times> int) list \<Rightarrow> int" where
  "overshoot xs \<equiv> sum_list (map snd xs)"

lemma process_all_ready [simp]: "ready d \<Longrightarrow> ready (process_all xs d)"
  by (induction xs arbitrary: d) (auto simp: process_fields)

text \<open>Sleeps that take longer raise a bound of all delays by no more than their overshoot.\<close>

lemma process_all_upper:
  assumes "ready d" and "\<forall>x\<in>set xs. 0 \<le> snd x"
    and "global_delay d \<le> m" and "\<forall>u\<in>us. local_delay d u \<le> m" and "fst ` set xs \<subseteq> us"
  shows "global_delay (process_all xs d) \<le> m + overshoot xs \<and>
    (\<forall>u\<in>us. local_delay (process_all xs d) u \<le> m + overshoot xs)"
  using assms
proof (induction xs arbitrary: d m)
  case (Cons x xs)
  obtain t extra where x: "x = (t, extra)"
    by (cases x)
  let ?d = "process True (\<lambda>v. v + extra) t d"
  have "global_delay ?d \<le> m + extra" and "\<forall>u\<in>us. local_delay ?d u \<le> m + extra"
    using Cons.prems by (auto simp: process_fields x)
  then show ?case
    using Cons.IH [of ?d "m + extra"] Cons.prems by (simp add: process_fields(1) x add.assoc)
qed simp

text \<open>No delay falls; the global delay reaches the delay of each thread that processes, and such a
  thread reaches the global delay from before.\<close>

lemma process_all_mono:
  assumes "ready d" and "\<forall>x\<in>set xs. 0 \<le> snd x"
  shows "global_delay d \<le> global_delay (process_all xs d) \<and>
    local_delay d u \<le> local_delay (process_all xs d) u"
  using assms
proof (induction xs arbitrary: d)
  case (Cons x xs)
  obtain t extra where x: "x = (t, extra)"
    by (cases x)
  let ?d = "process True (\<lambda>v. v + extra) t d"
  have "global_delay d \<le> global_delay ?d" and "local_delay d u \<le> local_delay ?d u"
    using Cons.prems by (auto simp: process_fields x)
  then show ?case
    using Cons.IH [of ?d] Cons.prems by (simp add: process_fields(1) x)
qed simp

lemma process_all_lower:
  assumes "ready d" and "\<forall>x\<in>set xs. 0 \<le> snd x" and "u \<in> fst ` set xs"
  shows "local_delay d u \<le> global_delay (process_all xs d) \<and>
    global_delay d \<le> local_delay (process_all xs d) u"
  using assms
proof (induction xs arbitrary: d)
  case (Cons x xs)
  obtain t extra where x: "x = (t, extra)"
    by (cases x)
  let ?d = "process True (\<lambda>v. v + extra) t d"
  have r: "ready ?d" and le: "global_delay d \<le> global_delay ?d" "local_delay d u \<le> local_delay ?d u"
    using Cons.prems by (auto simp: process_fields x)
  show ?case
  proof (cases "u = t")
    case True
    have "local_delay d u \<le> global_delay ?d" and "global_delay d \<le> local_delay ?d u"
      using Cons.prems True by (auto simp: process_fields x)
    then show ?thesis
      using process_all_mono [OF r, of xs u] Cons.prems(2) by (simp add: x)
  next
    case False
    then show ?thesis
      using Cons.IH [OF r] Cons.prems le by (auto simp: x)
  qed
qed simp

lemma call_fields:
  assumes "ready d" and "call d = (ret, d')" and "ready d'" and "local_delay d' t = local_delay d t"
  shows "global_delay (postblock (global_delay d) t d') - local_delay (postblock (global_delay d) t d') t =
    global_delay d - local_delay d t"
  using assms by (simp add: postblock_def)

section \<open>Properties\<close>

text \<open>
  C18. In an active experiment, let each thread of a set call \<open>process\<close>, one after another, in two rounds,
  no sleep being shorter than what it was asked for. Then the delays settle: the global delay and the
  local delays of all these threads are at least the largest of the delays before, and above it by no
  more than the time by which the sleeps of both rounds took longer. With sleeps of the length asked for
  they are all equal to it. So a line that one thread made faster is paid for by each other thread.
\<close>

theorem two_rounds_settle:
  assumes "ready d" and "\<forall>x\<in>set (xs @ ys). 0 \<le> snd x" and "fst ` set ys = fst ` set xs"
  shows "let largest = Max (insert (global_delay d) (local_delay d ` fst ` set xs));
      range = {largest .. largest + overshoot (xs @ ys)};
      d' = process_all (xs @ ys) d
    in global_delay d' \<in> range \<and> (\<forall>t \<in> fst ` set xs. local_delay d' t \<in> range)"
proof -
  define m where "m = Max (insert (global_delay d) (local_delay d ` fst ` set xs))"
  have le: "global_delay d \<le> m" "\<forall>t\<in>fst ` set xs. local_delay d t \<le> m"
    by (simp_all add: m_def)
  have low: "m \<le> global_delay (process_all xs d)"
    using process_all_mono [OF assms(1)] process_all_lower [OF assms(1)] assms(2) by (auto simp: m_def)
  have "m \<le> global_delay (process_all (xs @ ys) d)"
    "\<forall>t\<in>fst ` set xs. m \<le> local_delay (process_all (xs @ ys) d) t"
    using low process_all_mono [of "process_all xs d" ys] process_all_lower [of "process_all xs d" ys] assms
    by fastforce+
  then show ?thesis
    using process_all_upper [OF assms(1,2) le] assms(3) by (auto simp: Let_def m_def [symmetric])
qed

definition delays_ex :: "int \<Rightarrow> int \<Rightarrow> delays" where
  "delays_ex a b = \<lparr>global_delay = 0, local_delay = (\<lambda>_. 0)(1 := a, 2 := b), constructed = (\<lambda>_. True),
     available = True\<rparr>"

lemma delays_ex_ready [simp]: "ready (delays_ex a b)"
  by (simp add: ready_def delays_ex_def)

lemma delays_ex_fields [simp]:
  "global_delay (delays_ex a b) = 0"
  "local_delay (delays_ex a b) t = (if t = 1 then a else if t = 2 then b else 0)"
  by (simp_all add: delays_ex_def)

text \<open>Thread 2 is ahead by 7, and in the first round the others sleep 3 and 1 too long.\<close>

lemma two_rounds_settle_witness:
  "local_delay (process_all ([(2, 0), (0, 3), (1, 1)] @ [(0, 0), (1, 0), (2, 0)]) (delays_ex 5 7)) 1 \<in> {7 .. 11}"
  using two_rounds_settle [of "delays_ex 5 7" "[(2, 0), (0, 3), (1, 1)]" "[(0, 0), (1, 0), (2, 0)]"]
  by (simp add: Let_def insert_commute del: process_all_simps)

text \<open>
  A blocked thread does not pay for the delays the others insert while it waits, and does not lose
  the debt it had: through a wrapper that always posts, or a timed call that succeeded, the difference
  of global and local delay is the same before and after, whatever the wrapped call does to the other
  threads and the global delay. A timed call that fails is charged in full: its thread owes all that was
  inserted while it waited.
\<close>

theorem blocked_thread_keeps_debt:
  assumes "ready d" and "call d = (ret, d')" and "ready d'" and "local_delay d' t = local_delay d t"
    and "ts < TS_Internal"
  shows "blocking kind call ts t d =
      (ret, if kind = Always_post \<or> ret = 0 then postblock (global_delay d) t d' else d') \<and>
    (let d2 = snd (blocking kind call ts t d)
     in global_delay d2 - local_delay d2 t =
        global_delay d - local_delay d t +
          (if kind = Always_post \<or> ret = 0 then 0 else global_delay d' - global_delay d))"
  using call_fields [of d call ret d' t] assms
  by (cases kind) (simp_all add: blocking_def Let_def)

lemma blocked_thread_keeps_debt_witness:
  "let d2 = snd (blocking Maybe_post (\<lambda>d. (110, d\<lparr>global_delay := 9\<rparr>)) TS_Enabled 1 (delays_ex 5 7))
   in global_delay d2 - local_delay d2 1 = 4"
  using blocked_thread_keeps_debt [of "delays_ex 5 7" "\<lambda>d. (110, d\<lparr>global_delay := 9\<rparr>)" 110
      "delays_ex 5 7\<lparr>global_delay := 9\<rparr>" 1 TS_Enabled Maybe_post]
  by (simp add: ready_def delays_ex_def Let_def less_thread_state_def)

text \<open>
  C19. \<open>process\<close> is not atomic, and threads that process at the same time miscount. From a global delay
  of 0, with thread 1 ahead by a and thread 2 by b, 0 < a < b, one thread after the other ends with the
  global delay b. But both may take their differences before either adds: the result is a + b, and all
  other threads pay for both. Or thread 2 finishes between the comparison and the difference of thread
  1, which reads the counter again: the difference is negative, and the global delay falls back to a.
\<close>

theorem concurrent_process_miscounts:
  assumes "0 < a" and "a < b"
  shows "\<forall>(sched, g) \<in> {([1, 1, 1, 2, 2, 2], b), ([1, 2, 1, 2, 1, 2], a + b), ([1, 2, 2, 2, 1, 1], a)}.
    \<exists>d pc. delay_run slept sched (delays_ex a b, \<lambda>_. D_start) (d, pc) \<and>
      pc 1 = D_done \<and> pc 2 = D_done \<and> global_delay d = g \<and> local_delay d 1 = a \<and> local_delay d 2 = b"
  using assms by (simp add: delay_step_simps delays_ex_def)

lemma concurrent_process_miscounts_witness:
  "\<exists>d pc. delay_run (\<lambda>v. v) [1, 2, 1, 2, 1, 2] (delays_ex 3 5, \<lambda>_. D_start) (d, pc) \<and>
    pc 1 = D_done \<and> pc 2 = D_done \<and> global_delay d = 8 \<and> local_delay d 1 = 3 \<and> local_delay d 2 = 5"
  using concurrent_process_miscounts [of 3 5 "\<lambda>v. v"] by simp

end
