(* ===== verification/Causal_Experiment.thy ===== *)
theory Causal_Experiment
  imports Complex_Main Ordered_Map Causal_Selection Causal_Delay Progress_Points
begin

text \<open>
  An experiment of the causal profiler: \<open>causal/experiment.cpp\<close>. It is started with a line and a
  speedup, waits, and is stopped: then the delays and the progress points of the time between are
  recorded, the length of the next experiments is adapted, and at the end all records are written.

  The times are unsigned 64-bit nanoseconds and wrap. The products with the scaling, a \<open>double\<close>, are
  fields of \<open>experiment_env\<close>; \<open>delay_scaling\<close> is always the speedup over 100 and is not stored. The
  readings of the clock, and what \<open>sample_selection\<close> and \<open>sample_virtual_speedup\<close> return, are
  arguments. Undefined behaviour is \<open>None\<close>.
\<close>

section \<open>Experiments\<close>

record causal_experiment =
  running :: bool
  virtual_speedup :: u16
  exp_index :: u32
  sampling_period :: u64
  start_time :: u64
  end_time :: u64
  experiment_time :: u64
  duration :: u64
  batch_size :: u64
  scaling_factor :: u64
  sample_delay :: u64
  total_delay :: u64
  selected :: u64
  end_delay :: u64
  selection :: selected_entry
  init_progress :: progress_map
  fini_progress :: progress_map

definition new_experiment :: causal_experiment where
  "new_experiment = \<lparr>running = False, virtual_speedup = 0, exp_index = 0, sampling_period = 0,
     start_time = 0, end_time = 0, experiment_time = 0, duration = 0, batch_size = 10,
     scaling_factor = 100, sample_delay = 0, total_delay = 0, selected = 0, end_delay = 0,
     selection = no_selection, init_progress = [], fini_progress = []\<rparr>"

record experiment_env =
  period :: u64
  use_exp_speedup_scaling :: bool
  times_scaling :: "u64 \<Rightarrow> u16 \<Rightarrow> u64"
  grow_scaling :: "u64 \<Rightarrow> u16 \<Rightarrow> u64"

record experiment_globals =
  current_value :: causal_experiment
  current_selected_count :: u64
  current_experiment :: bool
  experiment_history :: "causal_experiment list"
  global_scaling :: int
  scaling_increments :: int
  the_delays :: delays
  the_points :: "progress_map list"
  process_state :: state

fun experiment_start ::
  "experiment_env \<Rightarrow> u64 \<Rightarrow> selected_entry \<Rightarrow> u16 \<Rightarrow> u64 \<Rightarrow> causal_experiment \<times> experiment_globals \<Rightarrow>
   bool \<times> causal_experiment \<times> experiment_globals" where
  "experiment_start env now0 sel speedup now (x, g) =
     (if running x \<and> now0 < start_time x + experiment_time x then (False, x, g)
      else (let x = x\<lparr>selection := sel\<rparr>
            in if \<not> entry_valid (selection x) then (False, x, g)
               else (let x = x\<lparr>sampling_period := period env\<rparr>;
                         x = x\<lparr>exp_index := of_nat (length (experiment_history g)) + 1\<rparr>;
                         x = x\<lparr>virtual_speedup := speedup\<rparr>;
                         x = (if use_exp_speedup_scaling env
                              then x\<lparr>scaling_factor := grow_scaling env (scaling_factor x) speedup\<rparr>
                              else x);
                         x = x\<lparr>experiment_time := of_int (global_scaling g) * scaling_factor x *
                                 sampling_period x * batch_size x\<rparr>;
                         x = x\<lparr>sample_delay := times_scaling env (sampling_period x) speedup\<rparr>;
                         (v, d) = sync (the_delays g);
                         x = x\<lparr>total_delay := of_int v\<rparr>;
                         (points, maps) = get_progress_points (the_points g);
                         x = x\<lparr>init_progress := points, start_time := now\<rparr>;
                         g = g\<lparr>the_delays := d, the_points := maps\<rparr>
                     in if process_state g < Finalized
                        then (True, x, g\<lparr>current_value := x, current_selected_count := 0,
                                current_experiment := True\<rparr>)
                        else (False, x, g))))"

text \<open>\<open>wait\<close>: the end it waits for and the length of its sleeps, then its loop over what it reads.\<close>

definition wait_times :: "causal_experiment \<Rightarrow> u64 \<Rightarrow> u64 \<times> u64" where
  "wait_times x now =
     (let w = experiment_time x - (now - start_time x) in (now + w, min (w div 100) 1000000))"

partial_function (option) wait_loop :: "u64 \<Rightarrow> (nat \<Rightarrow> u64) \<Rightarrow> (nat \<Rightarrow> state) \<Rightarrow> nat \<Rightarrow> nat option" where
  "wait_loop finish clock states n =
     (if clock n < finish \<and> states n < Finalized then wait_loop finish clock states (n + 1) else Some n)"

definition experiment_wait ::
  "u64 \<Rightarrow> (nat \<Rightarrow> u64) \<Rightarrow> (nat \<Rightarrow> state) \<Rightarrow> causal_experiment \<Rightarrow> bool option" where
  "experiment_wait now clock states x =
     (let finish = fst (wait_times x now)
      in map_option (\<lambda>n. clock (n + 1) \<ge> finish) (wait_loop finish clock states 0))"

section \<open>The end of an experiment\<close>

text \<open>\<open>init_progress[hash]\<close> inserts a point that is not there.\<close>

definition touch_points :: "progress_map \<Rightarrow> progress_map \<Rightarrow> progress_map" where
  "touch_points fini init = fold (\<lambda>(h, _) m. put h (point_at m h) m) fini init"

definition progress_value :: "progress_map \<Rightarrow> u64 \<times> progress_point \<Rightarrow> int" where
  "progress_value init hp = (case hp of (h, p) \<Rightarrow>
     (let pt = pp_sub p (point_at init h) in max (get_laps pt) (max (get_arrival pt) (get_departure pt))))"

definition progress_values :: "progress_map \<Rightarrow> progress_map \<Rightarrow> int list" where
  "progress_values init fini = sort (filter (\<lambda>v. v > 0) (map (progress_value init) fini))"

text \<open>
  The factor of the next experiments, and the number of times it was doubled. The median of the empty
  vector is undefined. The mean is compared through the sum; its rounding does not matter for fewer
  than \<open>2 ^ 49\<close> values.
\<close>

definition next_scaling :: "int list \<Rightarrow> int \<times> int \<Rightarrow> (int \<times> int) option" where
  "next_scaling vals sc = (case sc of (scaling, increments) \<Rightarrow>
     if vals = [] then None
     else (let n = length vals;
               medi = (if n > 2 then vals ! (n div 2) else hd vals);
               total = sum_list vals;
               lowv = hd vals
           in Some (if lowv \<le> 3 \<and> (total < 5 * int n \<or> medi < 5) then (scaling * 2, increments + 1)
                    else if total > 10 * int n \<and> lowv \<ge> 8 \<and> scaling > 1 then (scaling div 2, 0)
                    else (scaling, increments))))"

fun experiment_stop ::
  "u64 \<Rightarrow> causal_experiment \<times> experiment_globals \<Rightarrow>
   (bool \<times> causal_experiment \<times> experiment_globals) option" where
  "experiment_stop now (x, g) =
    (if now < start_time x + experiment_time x then Some (False, x, g)
     else (let g = g\<lparr>current_experiment := False\<rparr>;
               x = x\<lparr>selected := current_selected_count g, running := False, end_time := now\<rparr>;
               x = x\<lparr>experiment_time := end_time x - start_time x\<rparr>;
               x = x\<lparr>end_delay := compute_total_delay 0 (the_delays g)\<rparr>;
               x = x\<lparr>total_delay := end_delay x - total_delay x\<rparr>;
               x = x\<lparr>duration := (if experiment_time x > total_delay x
                                   then experiment_time x - total_delay x else 0)\<rparr>;
               (points, maps) = get_progress_points (the_points g);
               x = x\<lparr>fini_progress := points\<rparr>;
               g = g\<lparr>the_points := maps, the_delays := snd (sync (the_delays g))\<rparr>;
               vals = progress_values (init_progress x) (fini_progress x);
               x = x\<lparr>init_progress := touch_points (fini_progress x) (init_progress x)\<rparr>
           in case next_scaling vals (global_scaling g, scaling_increments g) of
                None \<Rightarrow> None
              | Some (scaling, increments) \<Rightarrow>
                 (let g = g\<lparr>global_scaling := scaling, scaling_increments := increments\<rparr>
                  in Some (True, x,
                       (if last vals > 0
                        then g\<lparr>experiment_history := experiment_history g @ [x]\<rparr> else g)))))"

section \<open>Queries while an experiment runs\<close>

definition get_delay :: "experiment_globals \<Rightarrow> u64" where
  "get_delay g = (if \<not> current_experiment g then 0 else sample_delay (current_value g))"

definition get_delay_scaling :: "experiment_globals \<Rightarrow> rat" where
  "get_delay_scaling g =
     (if \<not> current_experiment g then 0 else of_nat (unat (virtual_speedup (current_value g))) / 100)"

definition is_active :: "experiment_globals \<Rightarrow> bool" where
  "is_active g = current_experiment g"

definition get_index :: "experiment_globals \<Rightarrow> u32" where
  "get_index g = (if \<not> is_active g then 0 else exp_index (current_value g))"

definition is_selected :: "u64 \<Rightarrow> experiment_globals \<Rightarrow> bool" where
  "is_selected addr g \<longleftrightarrow> is_active g \<and> entry_contains (selection (current_value g)) addr"

definition is_selected_stack :: "u64 list \<Rightarrow> experiment_globals \<Rightarrow> bool" where
  "is_selected_stack stack g \<longleftrightarrow>
     is_active g \<and> list_ex (\<lambda>a. a > 0 \<and> entry_contains (selection (current_value g)) a) stack"

definition add_selected :: "experiment_globals \<Rightarrow> experiment_globals" where
  "add_selected g =
     (if \<not> current_experiment g then g else g\<lparr>current_selected_count := current_selected_count g + 1\<rparr>)"

declare experiment_start.simps [simp del] experiment_stop.simps [simp del]

section \<open>Samples\<close>

text \<open>
  \<open>causal/sample_data.cpp\<close>: for each experiment the number of samples of each address. \<open>at\<close> of an absent
  experiment throws.
\<close>

type_synonym samples = "(u32 \<times> (u64 \<times> u64) list) list"

definition add_count :: "u64 \<Rightarrow> u64 \<Rightarrow> (u64 \<times> u64) list \<Rightarrow> (u64 \<times> u64) list" where
  "add_count a n t = map_update a 0 (\<lambda>m. m + n) t"

definition add_sample :: "u32 \<Rightarrow> u64 \<Rightarrow> u64 \<Rightarrow> samples \<Rightarrow> samples" where
  "add_sample i a n s = map_update i [] (add_count a n) s"

definition add_samples :: "u32 \<Rightarrow> u64 list \<Rightarrow> samples \<Rightarrow> samples" where
  "add_samples i v s = fold (\<lambda>a s. add_sample i a 1 s) v s"

definition add_sample_counts :: "u32 \<Rightarrow> (u64 \<times> u64) list \<Rightarrow> samples \<Rightarrow> samples" where
  "add_sample_counts i v s = fold (\<lambda>(a, n) s. add_sample i a n s) v s"

definition get_samples_of :: "u32 \<Rightarrow> samples \<Rightarrow> (u64 \<times> u64) list option" where
  "get_samples_of i s = map_of s i"

text \<open>The samples of all experiments, summed by address.\<close>

definition total_samples :: "samples \<Rightarrow> (u64 \<times> u64) list" where
  "total_samples s = fold (\<lambda>(_, t) acc. fold (\<lambda>(a, n) acc. add_count a n acc) t acc) s []"

section \<open>Saving\<close>

text \<open>
  The lines of the coz file. \<open>name_of\<close> is what timemory knows of a hash, \<open>lookup\<close> its entry of an
  address: the line number, the file and the name. The points of an unordered map are in the order of
  the list.
\<close>

record exp_record =
  startup :: int
  runtime :: u64
  experiments :: "causal_experiment list"
  exp_samples :: "(string \<times> u64) list"

definition kept :: "causal_experiment list \<Rightarrow> causal_experiment list" where
  "kept history = filter (\<lambda>x. \<not> (duration x = 0 \<or> experiment_time x = 0)) history"

definition record_runtime :: "causal_experiment list \<Rightarrow> u64" where
  "record_runtime xs =
     (let beg = fold (\<lambda>x b. min b (start_time x)) xs (- 1);
          end' = fold (\<lambda>x e. max e (end_time x)) xs 0
      in end' - beg)"

definition sample_identifier :: "externals \<Rightarrow> u32 \<times> string \<times> string \<Rightarrow> string" where
  "sample_identifier ext entry = (case entry of (line, location, name) \<Rightarrow>
     if line > 0 \<and> location \<noteq> [] then join_line ext location line else demangle ext name)"

definition make_record ::
  "externals \<Rightarrow> (u64 \<Rightarrow> (u32 \<times> string \<times> string) option) \<Rightarrow> int \<Rightarrow> samples \<Rightarrow>
   causal_experiment list \<Rightarrow> exp_record" where
  "make_record ext lookup start samples history =
     \<lparr>startup = start, runtime = record_runtime (kept history), experiments = kept history,
      exp_samples = concat (map (\<lambda>(a, n). case lookup a of
          None \<Rightarrow> [] | Some entry \<Rightarrow> [(sample_identifier ext entry, n)]) (total_samples samples))\<rparr>"

datatype coz_line =
    Coz_startup int
  | Coz_experiment string u16 u64 u64
  | Coz_throughput string int
  | Coz_latency string int int int
  | Coz_runtime u64
  | Coz_samples string u64

text \<open>\<open>ppts[hash] -= point\<close> for the points of the start.\<close>

definition subtract_points :: "progress_map \<Rightarrow> progress_map \<Rightarrow> progress_map" where
  "subtract_points init fini = fold (\<lambda>(h, p) m. put h (pp_sub (point_at m h) p) m) init fini"

fun point_lines :: "(u64 \<Rightarrow> string) \<Rightarrow> bool \<Rightarrow> progress_map \<Rightarrow> coz_line list" where
  "point_lines name_of e2e [] = []"
| "point_lines name_of e2e ((h, p) # ps) =
     (if e2e \<and> get_laps p > 1 then point_lines name_of e2e ps
      else if is_throughput_point p \<and> pp_delta p \<noteq> 0 \<and> e2e
      then [Coz_throughput (name_of h) (pp_delta p)]
      else (if is_throughput_point p \<and> pp_delta p \<noteq> 0
            then [Coz_throughput (name_of h) (pp_delta p)] else []) @
           (if is_latency_point p \<and> \<not> e2e
            then [Coz_latency (name_of h) (get_arrival p) (get_departure p)
                   (max (get_latency_delta p) 1)]
            else []) @
           point_lines name_of e2e ps)"

definition experiment_name :: "externals \<Rightarrow> selected_entry \<Rightarrow> string" where
  "experiment_name ext sel =
     (if sel_symbol_address sel > 0 then func (sel_symbol sel)
      else join_line ext (sy_file (sel_symbol sel)) (sy_line (sel_symbol sel)))"

fun experiment_lines ::
  "externals \<Rightarrow> (u64 \<Rightarrow> string) \<Rightarrow> bool \<Rightarrow> causal_experiment list \<Rightarrow> coz_line list option" where
  "experiment_lines ext name_of e2e [] = Some []"
| "experiment_lines ext name_of e2e (x # xs) =
     (let name = experiment_name ext (selection x)
      in if name = [] then None
         else map_option (\<lambda>rest.
             Coz_experiment (demangle ext name) (virtual_speedup x) (duration x) (selected x) #
             point_lines name_of e2e (subtract_points (init_progress x) (fini_progress x)) @ rest)
           (experiment_lines ext name_of e2e xs))"

text \<open>An experiment without a name is a \<open>throw\<close>: \<open>None\<close>. \<open>existing\<close> are the lines already in the file.\<close>

definition coz_file ::
  "externals \<Rightarrow> (u64 \<Rightarrow> string) \<Rightarrow> bool \<Rightarrow> exp_record \<Rightarrow> coz_line list \<Rightarrow> coz_line list option" where
  "coz_file ext name_of e2e r existing =
     map_option (\<lambda>body. existing @ [Coz_startup (startup r)] @ body @ [Coz_runtime (runtime r)] @
         map (\<lambda>(location, n). Coz_samples location n) (exp_samples r))
       (experiment_lines ext name_of e2e (experiments r))"

section \<open>Lemmas\<close>

lemma add_count_simps [simp]:
  "ascending t \<Longrightarrow> ascending (add_count a n t)"
  "ascending t \<Longrightarrow> value_at 0 (add_count a n t) b = value_at 0 t b + (if b = a then n else 0)"
  by (simp_all add: add_count_def ascending_map_update value_at_map_update)

definition samples_ok :: "samples \<Rightarrow> bool" where
  "samples_ok s \<longleftrightarrow> ascending s \<and> (\<forall>t \<in> snd ` set s. ascending t)"

definition samples_at :: "samples \<Rightarrow> u64 \<Rightarrow> u64" where
  "samples_at s a = (\<Sum>t\<leftarrow>map snd s. value_at 0 t a)"

lemma samples_ok_add: "samples_ok s \<Longrightarrow> samples_ok (add_sample i a n s)"
  unfolding samples_ok_def add_sample_def
  by (intro conjI map_update_values ascending_map_update) auto

lemma samples_at_add:
  assumes "samples_ok s"
  shows "samples_at (add_sample i a n s) b = samples_at s b + (if b = a then n else 0)"
proof -
  have "\<forall>t \<in> snd ` set m. ascending t \<Longrightarrow>
      samples_at (map_update i [] (add_count a n) m) b = samples_at m b + (if b = a then n else 0)" for m
    by (induction m) (auto simp: samples_at_def)
  then show ?thesis
    using assms by (simp add: samples_ok_def add_sample_def)
qed

lemma fold_add_count:
  "ascending acc \<Longrightarrow> ascending (fold (\<lambda>(a, n) acc. add_count a n acc) t acc) \<and>
    value_at 0 (fold (\<lambda>(a, n) acc. add_count a n acc) t acc) b =
      value_at 0 acc b + (\<Sum>(a, n)\<leftarrow>t. if b = a then n else 0)"
  by (induction t arbitrary: acc) (auto simp: add.assoc)

lemma sum_ascending: "ascending t \<Longrightarrow> (\<Sum>(a, n)\<leftarrow>t. if b = a then n else 0) = value_at (0 :: u64) t b"
proof (induction t)
  case (Cons p t)
  have "b = fst p \<Longrightarrow> value_at 0 t b = 0"
    using Cons.prems by (intro value_at_absent) auto
  with Cons show ?case
    by (cases p) auto
qed simp

lemma total_samples_at:
  assumes "samples_ok s"
  shows "value_at 0 (total_samples s) a = samples_at s a"
proof -
  have "ascending acc \<Longrightarrow> \<forall>t \<in> snd ` set s. ascending t \<Longrightarrow>
      value_at 0 (fold (\<lambda>(_, t) acc. fold (\<lambda>(a, n) acc. add_count a n acc) t acc) s acc) a =
      value_at 0 acc a + samples_at s a" for acc
    by (induction s arbitrary: acc)
      (auto simp: samples_at_def fold_add_count sum_ascending add.assoc)
  from this [of "[]"] show ?thesis
    using assms by (simp add: total_samples_def samples_ok_def)
qed

text \<open>A sequence of samples: the experiment, the address and the count of each.\<close>

definition take_samples :: "(u32 \<times> u64 \<times> u64) list \<Rightarrow> samples \<Rightarrow> samples" where
  "take_samples xs s = fold (\<lambda>(i, a, n) s. add_sample i a n s) xs s"

lemma take_samples_at:
  "samples_ok s \<Longrightarrow> samples_ok (take_samples xs s) \<and>
    samples_at (take_samples xs s) b = samples_at s b + (\<Sum>(i, a, n)\<leftarrow>xs. if b = a then n else 0)"
  by (induction xs arbitrary: s)
    (auto simp: take_samples_def samples_ok_add samples_at_add add.assoc)

section \<open>Properties of the records\<close>

text \<open>
  No sample is lost or counted twice: the count written for an address is the sum of the counts with
  which it was added, over all experiments, modulo \<open>2 ^ 64\<close>.
\<close>

theorem samples_conserved:
  "value_at 0 (total_samples (take_samples xs [])) a = (\<Sum>(i, b, n)\<leftarrow>xs. if a = b then n else 0)"
  using take_samples_at [of "[]" xs a] total_samples_at [of "take_samples xs []" a]
  by (simp add: samples_ok_def samples_at_def)

section \<open>Properties of the end\<close>

lemma next_scaling_cases:
  assumes "next_scaling vals (scaling, n) = Some (sc, n')"
  shows "sc = scaling * 2 \<and> n' = n + 1 \<or> sc = scaling \<and> n' = n \<or> scaling > 1 \<and> sc = scaling div 2 \<and> n' = 0"
  using assms by (auto simp: next_scaling_def Let_def split: if_splits)

text \<open>The factor of the experiments stays a power of two.\<close>

lemma next_scaling_power:
  assumes "next_scaling vals (2 ^ k, n) = Some (sc, n')"
  shows "\<exists>k'. sc = 2 ^ k'"
proof -
  have "(2 :: int) ^ k div 2 = 2 ^ (k - 1)" if "(1 :: int) < 2 ^ k"
    using that by (cases k) simp_all
  moreover have "(2 :: int) ^ k * 2 = 2 ^ Suc k"
    by simp
  ultimately show ?thesis
    using next_scaling_cases [OF assms] by metis
qed

text \<open>Without an experiment to keep, the run time of the record wraps to one nanosecond.\<close>

lemma record_runtime_nothing: "record_runtime [] = 1"
  by (simp add: record_runtime_def)

lemma progress_values_positive: "v \<in> set (progress_values init fini) \<Longrightarrow> v > 0"
  by (simp add: progress_values_def)

lemma experiment_stop_undefined:
  assumes "\<not> now < start_time x + experiment_time x"
  shows "experiment_stop now (x, g) = None \<longleftrightarrow>
    progress_values (init_progress x) (fst (get_progress_points (the_points g))) = []"
  using assms
  by (auto simp: experiment_stop.simps Let_def next_scaling_def split: prod.splits)

text \<open>Marks of one point by one thread.\<close>

definition marked :: "progress_env \<Rightarrow> string \<Rightarrow> progress_map \<Rightarrow> progress_map" where
  "marked penv name m = pt_map (snd (mark_progress_point penv name False (0, \<lparr>pt_map = m, pt_bundles = []\<rparr>)))"

definition only_marks :: "u64 \<Rightarrow> int \<Rightarrow> progress_point" where
  "only_marks h n = new_point\<lparr>pp_hash := h, pp_delta := n\<rparr>"

lemma marked_simps:
  assumes "\<not> end_to_end penv" and "on_destroy penv = (\<lambda>_ m. m)"
  shows "marked penv name [] = [(hash penv name, only_marks (hash penv name) 1)]"
    and "marked penv name [(hash penv name, only_marks (hash penv name) n)] =
      [(hash penv name, only_marks (hash penv name) (n + 1))]"
  using assms
  by (simp_all add: marked_def mark_progress_point_def push_node_def pop_node_def pp_mark_def pp_add_def
      point_at_def only_marks_def new_point_def Let_def)

lemma marked_many:
  assumes "\<not> end_to_end penv" and "on_destroy penv = (\<lambda>_ m. m)"
  shows "(marked penv name ^^ n) [(hash penv name, only_marks (hash penv name) k)] =
      [(hash penv name, only_marks (hash penv name) (k + int n))]"
    and "(marked penv name ^^ n) [] =
      (if n = 0 then [] else [(hash penv name, only_marks (hash penv name) (int n))])"
proof -
  show "(marked penv name ^^ n) [(hash penv name, only_marks (hash penv name) k)] =
      [(hash penv name, only_marks (hash penv name) (k + int n))]"
    by (induction n) (simp_all add: marked_simps assms algebra_simps)
  show "(marked penv name ^^ n) [] =
      (if n = 0 then [] else [(hash penv name, only_marks (hash penv name) (int n))])"
  proof (induction n)
    case (Suc n)
    then show ?case
      by (cases n) (simp_all add: marked_simps assms)
  qed simp
qed

lemma collect_marks:
  "get_progress_points [[(h, only_marks h n)]] = ([(h, only_marks h n)], [[(h, only_marks h 0)]])"
  "get_progress_points [[]] = ([], [[]])"
  by (simp_all add: get_progress_points_def point_at_def only_marks_def new_point_def pp_add_def
      set_value_def)

lemma progress_value_marks:
  "progress_values [(h, only_marks h k)] [(h, only_marks h n)] = (if k < n then [n - k] else [])"
  "progress_values [] [(h, only_marks h n)] = (if 0 < n then [n] else [])"
  by (simp_all add: progress_values_def progress_value_def point_at_def only_marks_def new_point_def
      pp_sub_def get_laps_def get_latency_delta_def get_arrival_def get_departure_def
      is_latency_point_def)

lemma experiment_start_fields:
  assumes "experiment_start env now0 sel v now (x, g) = (True, x', g')"
  shows "init_progress x' = fst (get_progress_points (the_points g))"
    and "the_points g' = snd (get_progress_points (the_points g))"
    and "total_delay x' = of_int (global_delay (the_delays g))"
    and "the_delays g' = snd (sync (the_delays g))"
    and "start_time x' = now"
  using assms by (auto simp: experiment_start.simps Let_def sync_def split: prod.splits if_splits)

text \<open>
  C22. What a progress point counted before an experiment is subtracted from what it counts during it. The
  start of an experiment sets all points to zero, and the stop subtracts the counts of the start all
  the same. With one point that is marked k times before the start and n times during the
  experiment, n - k is recorded, where n is meant; and if n is at most k, the stop takes the
  front of an empty vector, which is undefined.
\<close>

theorem marks_before_subtracted:
  assumes "\<not> end_to_end penv" and "on_destroy penv = (\<lambda>_ m. m)"
    and "the_points g = [(marked penv name ^^ k) []]"
    and "experiment_start env now0 sel v now (x, g) = (True, x1, g1)"
    and "the_points g2 = map (marked penv name ^^ n) (the_points g1)"
    and "\<not> now2 < start_time x1 + experiment_time x1"
  shows "progress_values (init_progress x1) (fst (get_progress_points (the_points g2))) =
      (if k < n then [int n - int k] else []) \<and>
    (experiment_stop now2 (x1, g2) = None \<longleftrightarrow> n \<le> k)"
proof -
  let ?h = "hash penv name"
  have "progress_values (init_progress x1) (fst (get_progress_points (the_points g2))) =
      (if k < n then [int n - int k] else [])"
  proof (cases k)
    case 0
    then have "init_progress x1 = []" and "the_points g1 = [[]]"
      using experiment_start_fields [OF assms(4)] assms(3) by (simp_all add: collect_marks)
    then show ?thesis
      using assms(5) 0 marked_many(2) [OF assms(1,2), of n name]
      by (cases "n = 0") (simp_all add: collect_marks progress_value_marks(2) progress_values_def [of _ "[]"])
  next
    case (Suc j)
    then have "init_progress x1 = [(?h, only_marks ?h (int k))]" and "the_points g1 = [[(?h, only_marks ?h 0)]]"
      using experiment_start_fields [OF assms(4)] assms(3) marked_many(2) [OF assms(1,2), of k name]
      by (simp_all add: collect_marks)
    then show ?thesis
      using assms(5) marked_many(1) [OF assms(1,2), of n name 0]
      by (simp add: collect_marks progress_value_marks)
  qed
  then show ?thesis
    using experiment_stop_undefined [OF assms(6)] by simp
qed

definition experiment_env_ex :: experiment_env where
  "experiment_env_ex = \<lparr>period = 1, use_exp_speedup_scaling = False,
     times_scaling = (\<lambda>p v. p * ucast v div 100), grow_scaling = (\<lambda>f v. f)\<rparr>"

definition globals_ex :: "progress_map list \<Rightarrow> experiment_globals" where
  "globals_ex points = \<lparr>current_value = new_experiment, current_selected_count = 0,
     current_experiment = False, experiment_history = [], global_scaling = 1, scaling_increments = 0,
     the_delays = delays_ex 5 7, the_points = points, process_state = Active\<rparr>"

definition selection_ex :: selected_entry where
  "selection_ex = \<lparr>sel_address = 0x5011, sel_symbol_address = 0x5010, sel_symbol = symbol_ex\<rparr>"

lemma selection_ex_valid [simp]: "entry_valid selection_ex"
  by (simp add: selection_ex_def symbol_ex_def entry_valid_def is_valid_def is_range_def)

text \<open>An experiment of 1000 ns, a point with ten marks before it and seven in it.\<close>

lemma marks_before_subtracted_witness:
  "let (started, x1, g1) = experiment_start experiment_env_ex 0 selection_ex 50 0
         (new_experiment, globals_ex [(marked sample_env ''p'' ^^ 10) []])
   in started \<and> experiment_stop 5000 (x1, g1\<lparr>the_points := map (marked sample_env ''p'' ^^ 7) (the_points g1)\<rparr>) = None"
proof -
  obtain started x1 g1 where s: "experiment_start experiment_env_ex 0 selection_ex 50 0
      (new_experiment, globals_ex [(marked sample_env ''p'' ^^ 10) []]) = (started, x1, g1)"
    using prod_cases3 by blast
  have True_is_started: "started = True" and t: "start_time x1 + experiment_time x1 = 1000"
    using s by (auto simp: experiment_start.simps Let_def new_experiment_def globals_ex_def
        experiment_env_ex_def sync_def less_state_def split: prod.splits)
  show ?thesis
    using True_is_started t marks_before_subtracted [where penv = sample_env and name = "''p''" and k = 10 and n = 7 and ?now2.0 = 5000
        and ?g2.0 = "g1\<lparr>the_points := map (marked sample_env ''p'' ^^ 7) (the_points g1)\<rparr>",
        OF _ _ _ s [unfolded True_is_started]] s
    by (simp add: sample_env_def globals_ex_def)
qed

lemma experiment_stop_fields:
  assumes "experiment_stop now (x, g) = Some (True, x', g')"
  shows "experiment_time x' = now - start_time x"
    and "total_delay x' = of_int (global_delay (the_delays g)) - total_delay x"
    and "duration x' = (if experiment_time x' > total_delay x' then experiment_time x' - total_delay x' else 0)"
  using assms
  by (auto simp: experiment_stop.simps Let_def compute_total_delay_def split: prod.splits if_splits
      option.splits)

lemma uint_of_int_diff:
  "uint (of_int a - of_int b :: u64) = (a - b) mod 2 ^ 64"
  by (simp only: uint_word_of_int flip: of_int_diff) simp

text \<open>
  C23. The duration recorded for an experiment is the time it took less the delay inserted in it, and
  zero when the delay is longer. When the global delay fell in between, which processing by several
  threads at once can cause, the difference wraps, the duration is zero and the experiment is
  left out when the records are saved.
\<close>

theorem recorded_duration:
  assumes "experiment_start env now0 sel v now (x, g) = (True, x1, g1)"
    and "experiment_stop now2 (x1, g2) = Some (True, x2, g3)"
    and "{global_delay (the_delays g), global_delay (the_delays g2), uint (now2 - now)} \<subseteq> {0 ..< 2 ^ 63}"
  shows "let d = global_delay (the_delays g2) - global_delay (the_delays g)
    in uint (duration x2) = (if d \<ge> 0 then max 0 (uint (now2 - now) - d) else 0) \<and>
       (d < 0 \<longrightarrow> kept [x2] = [])"
proof -
  let ?d = "global_delay (the_delays g2) - global_delay (the_delays g)"
  let ?e = "uint (now2 - now)"
  have e: "uint (experiment_time x2) = ?e"
    using experiment_stop_fields [OF assms(2)] experiment_start_fields [OF assms(1)] by simp
  have "uint (total_delay x2) = ?d mod 2 ^ 64"
    using experiment_stop_fields [OF assms(2)] experiment_start_fields [OF assms(1)]
    by (simp add: uint_of_int_diff)
  moreover have "?d mod 2 ^ 64 = (if ?d \<ge> 0 then ?d else ?d + 2 ^ 64)"
    using assms(3) mod_pos_pos_trivial [of "?d + 2 ^ 64" "2 ^ 64"] by simp
  ultimately have t: "uint (total_delay x2) = (if ?d \<ge> 0 then ?d else ?d + 2 ^ 64)"
    by simp
  have "uint (duration x2) =
      (if uint (total_delay x2) < ?e then ?e - uint (total_delay x2) else 0)"
    using experiment_stop_fields(3) [OF assms(2)] e
      uint_minus_simple_alt [THEN iffD1, of "total_delay x2" "experiment_time x2"]
    by (auto simp: word_less_def word_le_def)
  then have "uint (duration x2) = (if ?d \<ge> 0 then max 0 (?e - ?d) else 0)"
    using t assms(3) by auto
  then show ?thesis
    by (auto simp: Let_def kept_def simp flip: uint_0_iff)
qed

lemma recorded_duration_witness:
  "let (_, x1, g1) = experiment_start experiment_env_ex 0 selection_ex 50 0 (new_experiment, globals_ex [[]]);
       g2 = g1\<lparr>the_delays := (the_delays g1)\<lparr>global_delay := 300\<rparr>,
         the_points := map (marked sample_env ''p'' ^^ 3) (the_points g1)\<rparr>
   in map_option (\<lambda>(_, x, _). uint (duration x)) (experiment_stop 5000 (x1, g2)) = Some 4700"
proof -
  obtain started x1 g1 where s: "experiment_start experiment_env_ex 0 selection_ex 50 0
      (new_experiment, globals_ex [[]]) = (started, x1, g1)"
    using prod_cases3 by blast
  have st: "started = True" and t: "start_time x1 + experiment_time x1 = 1000"
      and p: "init_progress x1 = []" "the_points g1 = [[]]"
    using s by (auto simp: experiment_start.simps Let_def new_experiment_def globals_ex_def collect_marks
        experiment_env_ex_def sync_def less_state_def split: prod.splits)
  define g2 where "g2 = g1\<lparr>the_delays := (the_delays g1)\<lparr>global_delay := 300\<rparr>,
      the_points := map (marked sample_env ''p'' ^^ 3) (the_points g1)\<rparr>"
  have "\<exists>x2 g3. experiment_stop 5000 (x1, g2) = Some (True, x2, g3)"
    using t p marked_many(2) [of sample_env 3 "''p''"]
    by (simp add: experiment_stop.simps g2_def Let_def sample_env_def collect_marks progress_value_marks
        next_scaling_def)
  then obtain x2 g3 where stop: "experiment_stop 5000 (x1, g2) = Some (True, x2, g3)"
    by blast
  have "uint (duration x2) = 4700"
    using recorded_duration [OF s [unfolded st] stop]
    by (simp add: g2_def globals_ex_def delays_ex_def)
  then show ?thesis
    using s stop by (auto simp: g2_def)
qed

end
