(* ===== verification/Causal_Sample.thy ===== *)
theory Causal_Sample
  imports Causal_Experiment
begin

text \<open>
  The signal handlers of the causal profiler, \<open>causal/components/backtrace.cpp\<close>: what a sample of a
  thread does to the selection of lines, to the experiment that runs and to the delays.

  The stack the unwinder finds and the records of the kernel's ring are arguments, and so is what a sleep
  took. A \<open>throw\<close> leaves the handler where it is; the result says whether it did.
\<close>

section \<open>The handlers\<close>

text \<open>\<open>protect_flag\<close>, \<open>select_count\<close> and \<open>select_zeros\<close> are per thread.\<close>

record sampler_thread =
  protect_flag :: nat
  select_count :: nat
  select_zeros :: nat

definition new_sampler :: sampler_thread where
  "new_sampler = \<lparr>protect_flag = 0, select_count = 2 ^ 64 - 1, select_zeros = 0\<rparr>"

record sampler =
  own :: sampler_thread
  globals :: experiment_globals
  sel_state :: selection_state

record sampler_env =
  realtime_signal :: int
  cputime_signal :: int
  eligible :: address_multirange
  slept :: "int \<Rightarrow> int"
  select_ival :: nat

definition update_selection :: "sampler_env \<Rightarrow> u64 list \<Rightarrow> sampler \<Rightarrow> sampler" where
  "update_selection env stack s =
     (let former = select_count (own s);
          (n, st) = set_current_selection (eligible env) stack (sel_state s);
          o1 = (own s)\<lparr>select_count := n\<rparr>;
          o2 = (if former > select_count o1 then o1\<lparr>select_zeros := 0\<rparr> else o1);
          o3 = (if select_count o2 = 0 then o2\<lparr>select_zeros := select_zeros o2 + 1\<rparr> else o2)
      in s\<lparr>own := o3, sel_state := st\<rparr>)"

definition process_delays :: "sampler_env \<Rightarrow> nat \<Rightarrow> sampler \<Rightarrow> sampler" where
  "process_delays env t s =
     s\<lparr>globals := (globals s)\<lparr>the_delays :=
        process (is_active (globals s)) (slept env) t (the_delays (globals s))\<rparr>\<rparr>"

text \<open>\<open>add_selected\<close>, and \<open>get_local() += get_delay()\<close>.\<close>

definition count_selected :: "nat \<Rightarrow> experiment_globals \<Rightarrow> experiment_globals" where
  "count_selected t g =
     (let g = add_selected g
      in g\<lparr>the_delays := add_local t (uint (get_delay g)) (thr_init t (the_delays g))\<rparr>)"

record sample_result =
  thrown :: bool
  res_index :: u32
  res_stack :: "u64 list"
  res_selected :: bool

definition backtrace_sample ::
  "sampler_env \<Rightarrow> bool \<Rightarrow> nat \<Rightarrow> int \<Rightarrow> u64 list \<Rightarrow> sampler \<Rightarrow> sample_result option \<times> sampler" where
  "backtrace_sample env enabled t sig stack s =
     (if odd (protect_flag (own s)) \<or> \<not> enabled then (None, s)
      else (let s = s\<lparr>own := (own s)\<lparr>protect_flag := protect_flag (own s) + 1\<rparr>\<rparr>;
                r = \<lparr>thrown = False, res_index = get_index (globals s), res_stack = stack,
                     res_selected = False\<rparr>;
                (r, s) =
                  (if sig = cputime_signal env
                   then (r, if is_active (globals s) then process_delays env t s
                            else update_selection env stack s)
                   else if sig = realtime_signal env
                   then (if is_active (globals s) \<and> is_selected_stack stack (globals s)
                         then (r\<lparr>res_selected := True\<rparr>, s\<lparr>globals := count_selected t (globals s)\<rparr>)
                         else if \<not> is_active (globals s) \<and> select_count (own s) = 0 \<and>
                                 select_zeros (own s) \<ge> select_ival env
                         then (r, update_selection env stack s)
                         else (r, s))
                   else (r\<lparr>thrown := True\<rparr>, s))
            in (Some r,
                if thrown r then s
                else s\<lparr>own := (own s)\<lparr>protect_flag := protect_flag (own s) + 1\<rparr>\<rparr>)))"

text \<open>
  The handler of the perf backend. A record has the sampled address and its call chain; the chain is a
  vector of fixed size \<open>cap\<close>, its bound is looked at after an address is added.
\<close>

fun take_chain :: "nat \<Rightarrow> u64 \<Rightarrow> u64 list \<Rightarrow> u64 list \<Rightarrow> u64 list" where
  "take_chain cap ip data [] = data"
| "take_chain cap ip data (a # as) =
     (let data = (if a \<noteq> ip then data @ [a] else data)
      in if length data = cap then data else take_chain cap ip data as)"

record overflow_result =
  ov_index :: u32
  ov_selected :: nat
  ov_stacks :: "u64 list list"

fun overflow_records ::
  "sampler_env \<Rightarrow> nat \<Rightarrow> nat \<Rightarrow> (u64 \<times> u64 list) option list \<Rightarrow> overflow_result \<Rightarrow> sampler \<Rightarrow>
   overflow_result \<times> sampler" where
  "overflow_records env cap t [] r s = (r, s)"
| "overflow_records env cap t (None # rs) r s = overflow_records env cap t rs r s"
| "overflow_records env cap t (Some (ip, chain) # rs) r s =
     (let data = take_chain cap ip [ip] chain;
          (r, s) =
            (if is_active (globals s) \<and> is_selected_stack data (globals s)
             then (r\<lparr>ov_selected := ov_selected r + 1\<rparr>, s\<lparr>globals := count_selected t (globals s)\<rparr>)
             else if \<not> is_active (globals s)
             then (r, s\<lparr>sel_state := snd (set_current_selection (eligible env) data (sel_state s))\<rparr>)
             else (r, s))
      in overflow_records env cap t rs (r\<lparr>ov_stacks := ov_stacks r @ [data]\<rparr>) s)"

definition overflow_sample ::
  "sampler_env \<Rightarrow> nat \<Rightarrow> nat \<Rightarrow> int \<Rightarrow> (u64 \<times> u64 list) option list option \<Rightarrow> overflow_result \<Rightarrow> sampler \<Rightarrow>
   overflow_result \<times> sampler" where
  "overflow_sample env cap t sig perf_event r s = (case perf_event of
     None \<Rightarrow> (r, s)
   | Some rs \<Rightarrow>
      (let (r, s) = overflow_records env cap t rs (r\<lparr>ov_index := get_index (globals s)\<rparr>) s
       in (r, if sig = cputime_signal env then process_delays env t s else s)))"

text \<open>\<open>get_period\<close>: 1 ms in nanoseconds, over the unit.\<close>

definition get_period :: "u64 \<Rightarrow> real" where
  "get_period units = (real_of_int (1000000 mod 1000000000)) / real (unat units)"

section \<open>Lemmas\<close>

lemma count_selected_fields:
  assumes "ready (the_delays g)" and "current_experiment g"
  shows "ready (the_delays (count_selected t g))"
    and "current_experiment (count_selected t g)" and "current_value (count_selected t g) = current_value g"
    and "current_selected_count (count_selected t g) = current_selected_count g + 1"
    and "global_delay (the_delays (count_selected t g)) = global_delay (the_delays g)"
    and "local_delay (the_delays (count_selected t g)) u =
      local_delay (the_delays g) u + (if u = t then uint (sample_delay (current_value g)) else 0)"
  using assms by (simp_all add: count_selected_def add_selected_def Let_def get_delay_def)

text \<open>A number of realtime samples of one thread, all in the selected line.\<close>

definition selected_samples :: "sampler_env \<Rightarrow> nat \<Rightarrow> u64 list list \<Rightarrow> sampler \<Rightarrow> sampler" where
  "selected_samples env t stacks s =
     fold (\<lambda>stack s. snd (backtrace_sample env True t (realtime_signal env) stack s)) stacks s"

lemma backtrace_sample_selected:
  assumes "even (protect_flag (own s))" and "realtime_signal env \<noteq> cputime_signal env"
    and "is_selected_stack stack (globals s)"
  shows "globals (snd (backtrace_sample env True t (realtime_signal env) stack s)) = count_selected t (globals s)"
    and "even (protect_flag (own (snd (backtrace_sample env True t (realtime_signal env) stack s))))"
  using assms by (simp_all add: backtrace_sample_def Let_def is_selected_stack_def)

lemma selected_samples_fields:
  assumes "ready (the_delays (globals s))" and "even (protect_flag (own s))"
    and "realtime_signal env \<noteq> cputime_signal env"
    and "\<forall>stack\<in>set stacks. is_selected_stack stack (globals s)"
  shows "let s' = selected_samples env t stacks s; g = globals s; g' = globals s'
    in even (protect_flag (own s')) \<and> ready (the_delays g') \<and> current_experiment g' = current_experiment g \<and>
       current_selected_count g' = current_selected_count g + of_nat (length stacks) \<and>
       global_delay (the_delays g') = global_delay (the_delays g) \<and>
       (\<forall>u. local_delay (the_delays g') u = local_delay (the_delays g) u +
         (if u = t then int (length stacks) * uint (sample_delay (current_value g)) else 0))"
  using assms
proof (induction stacks arbitrary: s)
  case Nil
  then show ?case
    by (simp add: selected_samples_def Let_def)
next
  case (Cons stack stacks)
  let ?s = "snd (backtrace_sample env True t (realtime_signal env) stack s)"
  have act: "current_experiment (globals s)"
    using Cons.prems(4) by (simp add: is_selected_stack_def is_active_def)
  have g: "globals ?s = count_selected t (globals s)" and e: "even (protect_flag (own ?s))"
    using backtrace_sample_selected [of s env stack t] Cons.prems by simp_all
  note f = count_selected_fields [OF Cons.prems(1) act]
  have "is_selected_stack st (globals ?s)" if "is_selected_stack st (globals s)" for st
    using that act by (simp add: g is_selected_stack_def is_active_def f)
  then have "let s' = selected_samples env t stacks ?s; g = globals ?s; g' = globals s'
    in even (protect_flag (own s')) \<and> ready (the_delays g') \<and> current_experiment g' = current_experiment g \<and>
       current_selected_count g' = current_selected_count g + of_nat (length stacks) \<and>
       global_delay (the_delays g') = global_delay (the_delays g) \<and>
       (\<forall>u. local_delay (the_delays g') u = local_delay (the_delays g) u +
         (if u = t then int (length stacks) * uint (sample_delay (current_value g)) else 0))"
    using Cons.prems f(1) e by (intro Cons.IH) (simp_all add: g)
  then show ?case
    using act f by (simp add: selected_samples_def Let_def g algebra_simps)
qed

lemma process_delays_fields:
  assumes "ready (the_delays (globals s))" and "current_experiment (globals s)"
  shows "the_delays (globals (process_delays env t s)) = process True (slept env) t (the_delays (globals s))"
  using assms by (simp add: process_delays_def is_active_def)

lemma backtrace_sample_process:
  assumes "even (protect_flag (own s))" and "current_experiment (globals s)"
  shows "globals (snd (backtrace_sample env True t (cputime_signal env) stack s)) = globals (process_delays env t s)"
    and "even (protect_flag (own (snd (backtrace_sample env True t (cputime_signal env) stack s))))"
  using assms by (simp_all add: backtrace_sample_def Let_def is_active_def process_delays_def)

section \<open>Properties\<close>

text \<open>
  C24. The virtual speedup. Let all delays be settled when an experiment runs, let thread t be sampled n
  times in the selected line by the realtime signal, then receive the CPU time signal, and then another
  thread u. The experiment counts n samples, and the global delay and the delay of t grow by n times the
  delay of a sample. If that is not 0, u asks for a sleep of exactly that length, as if the line had been
  faster by that much for t, and its own delay grows by what the sleep took: that long at least, since
  \<open>sleep_for\<close> returns no earlier, and more by the overshoot of the sleep.
\<close>

theorem selected_samples_delay_others:
  assumes "ready (the_delays (globals s))" and "even (protect_flag (own s))"
    and "realtime_signal env \<noteq> cputime_signal env" and "\<forall>v. v \<le> slept env v" and "t \<noteq> u"
    and "\<forall>v. local_delay (the_delays (globals s)) v = global_delay (the_delays (globals s))"
    and "stacks \<noteq> []" and "\<forall>stack\<in>set stacks. is_selected_stack stack (globals s)"
  shows "let g0 = globals s; d = int (length stacks) * uint (sample_delay (current_value g0));
      s1 = selected_samples env t stacks s;
      s2 = snd (backtrace_sample env True t (cputime_signal env) stack1 s1);
      s3 = snd (backtrace_sample env True u (cputime_signal env) stack2 s2)
    in current_selected_count (globals s1) = current_selected_count g0 + of_nat (length stacks) \<and>
       global_delay (the_delays (globals s3)) = global_delay (the_delays g0) + d \<and>
       local_delay (the_delays (globals s3)) t = local_delay (the_delays g0) t + d \<and>
       local_delay (the_delays (globals s3)) u = local_delay (the_delays g0) u + (if d = 0 then 0 else slept env d) \<and>
       local_delay (the_delays g0) u + d \<le> local_delay (the_delays (globals s3)) u"
proof -
  define s1 where "s1 = selected_samples env t stacks s"
  define s2 where "s2 = snd (backtrace_sample env True t (cputime_signal env) stack1 s1)"
  define s3 where "s3 = snd (backtrace_sample env True u (cputime_signal env) stack2 s2)"
  define d where "d = int (length stacks) * uint (sample_delay (current_value (globals s)))"
  let ?G = "global_delay (the_delays (globals s))"
  have act: "current_experiment (globals s)"
    using assms(7,8) by (cases stacks) (simp_all add: is_selected_stack_def is_active_def)
  have 1: "even (protect_flag (own s1))" "ready (the_delays (globals s1))" "current_experiment (globals s1)"
      "current_selected_count (globals s1) = current_selected_count (globals s) + of_nat (length stacks)"
      "global_delay (the_delays (globals s1)) = ?G"
      "\<And>v. local_delay (the_delays (globals s1)) v = ?G + (if v = t then d else 0)"
    using selected_samples_fields [OF assms(1-3,8), of t] act assms(6) by (simp_all add: s1_def Let_def d_def)
  have 2: "even (protect_flag (own s2))" "the_delays (globals s2) = process True (slept env) t (the_delays (globals s1))"
      "current_experiment (globals s2)"
    using backtrace_sample_process [OF 1(1,3)] process_delays_fields [OF 1(2,3)] 1(3)
    by (simp_all add: s2_def process_delays_def)
  have 3: "the_delays (globals s3) = process True (slept env) u (the_delays (globals s2))"
    using backtrace_sample_process [OF 2(1,3)] process_delays_fields [OF _ 2(3)] process_fields(1) [OF 1(2)]
    by (simp add: s3_def 2(2))
  have d: "0 \<le> d"
    by (simp add: d_def)
  note p1 = process_fields [OF 1(2), where t = t]
  have "ready (the_delays (globals s2))"
    by (simp add: 2(2) p1)
  note p2 = process_fields [OF this, where t = u]
  have "global_delay (the_delays (globals s2)) = ?G + d"
      "local_delay (the_delays (globals s2)) v = ?G + (if v = t then d else 0)" for v
    using d by (simp_all add: 2(2) p1 1(5,6))
  then have "global_delay (the_delays (globals s3)) = ?G + d"
      "local_delay (the_delays (globals s3)) t = ?G + d"
      "local_delay (the_delays (globals s3)) u = ?G + (if d = 0 then 0 else slept env d)"
    using d assms(5) by (auto simp: 3 p2)
  moreover have "d \<le> (if d = 0 then 0 else slept env d)"
    using assms(4) by simp
  ultimately show ?thesis
    unfolding Let_def s1_def [symmetric] s2_def [symmetric] s3_def [symmetric] d_def [symmetric]
    using 1(4) assms(6) by simp
qed

definition sampler_env_ex :: sampler_env where
  "sampler_env_ex = \<lparr>realtime_signal = 34, cputime_signal = 35, eligible = eligible_ex,
     slept = (\<lambda>v. v + 60), select_ival = 5\<rparr>"

definition sampler_ex :: sampler where
  "sampler_ex = \<lparr>own = new_sampler,
     globals = (globals_ex [])\<lparr>current_experiment := True, the_delays := delays_ex 0 0,
       current_value := new_experiment\<lparr>sample_delay := 500, selection := selection_ex\<rparr>\<rparr>,
     sel_state = ring_ex\<rparr>"

text \<open>Two samples in the line, a delay of 500 ns, and a sleep that takes 60 ns too long.\<close>

lemma selected_samples_delay_others_witness:
  "let s1 = selected_samples sampler_env_ex 1 [[0x5011, 7], [8, 0x5012]] sampler_ex;
       s2 = snd (backtrace_sample sampler_env_ex True 1 35 [] s1);
       s3 = snd (backtrace_sample sampler_env_ex True 2 35 [] s2)
   in local_delay (the_delays (globals s3)) 2 = 1060 \<and> current_selected_count (globals s1) = 2"
proof -
  have "contains (ipaddr symbol_ex) 0x5012"
    by (simp add: symbol_ex_def default_symbol_def ipaddr_def range_add_def contains_def is_range_def is_valid_def
        base_symbol.defs symbol.defs)
  then have "\<forall>stack\<in>set [[0x5011, 7], [8, 0x5012]]. is_selected_stack stack (globals sampler_ex)"
    by (simp add: is_selected_stack_def sampler_ex_def is_active_def entry_contains_def selection_ex_def)
  then show ?thesis
    using selected_samples_delay_others [of sampler_ex sampler_env_ex 1 2 "[[0x5011, 7], [8, 0x5012]]" "[]" "[]"]
    by (simp add: sampler_ex_def sampler_env_ex_def new_sampler_def globals_ex_def Let_def)
qed

text \<open>
  A signal that comes while a sample of its thread is taken changes nothing; and a signal the handler
  does not know leaves the flag behind as if a sample were taken, so every later sample of the thread
  is ignored.
\<close>

theorem unknown_signal_disables_sampling:
  assumes "even (protect_flag (own s))" and "sig \<notin> {realtime_signal env, cputime_signal env}"
  shows "let (r, s') = backtrace_sample env True t sig stack s
    in map_option thrown r = Some True \<and>
       (\<forall>sig' stack'. backtrace_sample env True t sig' stack' s' = (None, s'))"
  using assms by (simp add: backtrace_sample_def Let_def)

lemma unknown_signal_disables_sampling_witness:
  "let (r, s') = backtrace_sample sampler_env_ex True 1 11 [] sampler_ex
   in map_option thrown r = Some True \<and>
      (\<forall>sig' stack'. backtrace_sample sampler_env_ex True 1 sig' stack' s' = (None, s'))"
  using unknown_signal_disables_sampling [of sampler_ex 11 sampler_env_ex 1 "[]"]
  by (simp add: sampler_ex_def sampler_env_ex_def new_sampler_def)

end
