(* ===== verification/Perf_Event.thy ===== *)
theory Perf_Event
  imports Prelude Regular_Expression
begin

text \<open>
  The perf backend of the causal profiler: the ring buffer the kernel fills with records and the fields
  of a sample (\<open>library/perf.cpp\<close>), and the events of \<open>core/perf.cpp\<close>.

  The constants and layouts are those the Linux manual page of \<open>perf_event_open\<close> documents. The ring
  is the bytes of the data pages; positions in it are unbounded numbers, as the kernel's counters are.
  Memory the code must not read, and an \<open>abort\<close>, is \<open>None\<close>.
\<close>

section \<open>Events\<close>

datatype event_type = ET_hardware | ET_software | ET_tracepoint | ET_hw_cache | ET_raw | ET_breakpoint | ET_max

datatype perf_error = Unknown_hw_config string | Unknown_sw_config string | Unknown_cache_config string
  | Unsupported_type

definition get_event_type :: "string \<Rightarrow> event_type" where
  "get_event_type v =
     (if std_regex_search v (Lit ''PERF_COUNT_SW_'') then ET_software
      else if std_regex_search v (Lit ''PERF_COUNT_SW_'') \<and>
        \<not> std_regex_search v (seqs [Lit ''PERF_COUNT_HW_CACHE_'', lits [''MISSES'', ''REFERENCES''], Eol])
      then ET_hw_cache
      else if std_regex_search v (Lit ''PERF_COUNT_HW_'') then ET_hardware
      else ET_max)"

text \<open>The first key whose pattern is found.\<close>

fun first_key :: "(string \<Rightarrow> regex) \<Rightarrow> string \<Rightarrow> (string \<times> 'v) list \<Rightarrow> 'v option" where
  "first_key pat v [] = None"
| "first_key pat v ((k, x) # ks) = (if std_regex_search v (pat k) then Some x else first_key pat v ks)"

definition hw_keys :: "(string \<times> int) list" where
  "hw_keys = [(''CPU_CYCLES'', 0), (''INSTRUCTIONS'', 1), (''CACHE_REFERENCES'', 2), (''CACHE_MISSES'', 3),
     (''BRANCH_INSTRUCTIONS'', 4), (''BRANCH_MISSES'', 5), (''BUS_CYCLES'', 6),
     (''STALLED_CYCLES_FRONTEND'', 7), (''STALLED_CYCLES_BACKEND'', 8), (''REF_CPU_CYCLES'', 9)]"

definition get_hw_config :: "string \<Rightarrow> perf_error + int" where
  "get_hw_config v = (case first_key (\<lambda>k. Seq (Lit (''HW_'' @ k)) Eol) v hw_keys of
     None \<Rightarrow> Inl (Unknown_hw_config v) | Some c \<Rightarrow> Inr c)"

definition sw_keys :: "(string \<times> int) list" where
  "sw_keys = [(''CPU_CLOCK'', 0), (''TASK_CLOCK'', 1), (''PAGE_FAULTS'', 2), (''CONTEXT_SWITCHES'', 3),
     (''CPU_MIGRATIONS'', 4), (''PAGE_FAULTS_MIN'', 5), (''PAGE_FAULTS_MAJ'', 6), (''ALIGNMENT_FAULTS'', 7),
     (''EMULATION_FAULTS'', 8)]"

definition get_sw_config :: "string \<Rightarrow> perf_error + int" where
  "get_sw_config v = (case first_key (\<lambda>k. Seq (Lit (''SW_'' @ k)) Eol) v sw_keys of
     None \<Rightarrow> Inl (Unknown_sw_config v) | Some c \<Rightarrow> Inr c)"

definition cache_keys :: "(string \<times> int) list" where
  "cache_keys = [(''L1D'', 0), (''L1I'', 1), (''LL'', 2), (''DTLB'', 3), (''ITLB'', 4), (''BPU'', 5), (''NODE'', 6)]"

text \<open>\<open>HW_CACHE_([A-Z1]+):KEY\<close>\<close>

definition cache_op :: "string \<Rightarrow> regex" where
  "cache_op k = seqs [Lit ''HW_CACHE_'', plus (Class [(CHR ''A'', CHR ''Z''), (CHR ''1'', CHR ''1'')]), Lit '':'', Lit k]"

definition get_hw_cache_config :: "string \<Rightarrow> perf_error + int" where
  "get_hw_cache_config v = (case first_key (\<lambda>k. Lit (''HW_CACHE_'' @ k)) v cache_keys of
     None \<Rightarrow> Inl (Unknown_cache_config v)
   | Some c \<Rightarrow>
      (let oper = (case first_key cache_op v [(''READ'', 0), (''WRITE'', 1), (''PREFETCH'', 2)] of
                   None \<Rightarrow> 0 | Some x \<Rightarrow> x);
           res = (case first_key cache_op v [(''READ'', 0), (''WRITE'', 1)] of None \<Rightarrow> 0 | Some x \<Rightarrow> x)
       in Inr (c OR (oper * 2 ^ 8) OR (res * 2 ^ 16))))"

text \<open>\<open>period\<close> and \<open>freq\<close>: the nanoseconds of a cycle and the frequency, narrowed.\<close>

definition config_overflow_sampling ::
  "u64 \<Rightarrow> u64 \<Rightarrow> string \<Rightarrow> perf_error + event_type \<times> int \<times> u64" where
  "config_overflow_sampling period freq v =
     (let t = get_event_type v
      in case (case t of ET_hardware \<Rightarrow> get_hw_config v | ET_software \<Rightarrow> get_sw_config v
             | ET_hw_cache \<Rightarrow> get_hw_cache_config v | _ \<Rightarrow> Inl Unsupported_type) of
           Inl e \<Rightarrow> Inl e
         | Inr c \<Rightarrow> Inr (t, c, if t = ET_software \<and> (c = 0 \<or> c = 1) then period else freq))"

section \<open>The ring buffer\<close>

definition copy_from_ring_buffer :: "bytes \<Rightarrow> nat \<Rightarrow> nat \<Rightarrow> bytes option" where
  "copy_from_ring_buffer ring index n =
     (let beg = index mod length ring;
          fin = beg + n
      in if fin \<le> length ring then Some (slice beg fin ring)
         else (let chunk2 = fin - length ring;
                   chunk1 = n - chunk2
               in if chunk2 \<le> length ring
                  then Some (slice beg (beg + chunk1) ring @ slice 0 chunk2 ring) else None))"

text \<open>The header of a record: type, flags and size.\<close>

definition header_size :: nat where "header_size = 8"

definition record_type :: "bytes \<Rightarrow> u32" where
  "record_type r = bytes_word (slice 0 4 r)"

definition record_size :: "bytes \<Rightarrow> nat" where
  "record_size r = unat (bytes_word (slice 6 8 r) :: u16)"

text \<open>The mapping is the ring, its \<open>data_tail\<close> and its \<open>data_head\<close>.\<close>

record perf_mapping =
  pm_ring :: bytes
  pm_tail :: nat
  pm_head :: nat

definition has_data :: "bytes option \<Rightarrow> nat \<Rightarrow> nat \<Rightarrow> bool" where
  "has_data mapping index head = (case mapping of
     None \<Rightarrow> False
   | Some ring \<Rightarrow>
      if index + header_size \<ge> head then False
      else (case copy_from_ring_buffer ring index header_size of
              None \<Rightarrow> False
            | Some hdr \<Rightarrow> \<not> index + record_size hdr > head))"

text \<open>The record is copied to a buffer of 4096 bytes behind its own header.\<close>

definition get_record :: "bytes \<Rightarrow> nat \<Rightarrow> bytes option" where
  "get_record ring index =
     (case copy_from_ring_buffer ring index header_size of
        None \<Rightarrow> None
      | Some hdr \<Rightarrow>
         if record_size hdr > 4096 then None
         else map_option (\<lambda>r. r @ drop (length r) hdr) (copy_from_ring_buffer ring index (record_size hdr)))"

definition next_index :: "bytes \<Rightarrow> nat \<Rightarrow> nat option" where
  "next_index ring index =
     map_option (\<lambda>hdr. index + record_size hdr) (copy_from_ring_buffer ring index header_size)"

text \<open>
  The loop over the records. \<open>Some None\<close> is a record that does not fit the buffer; \<open>None\<close> is a loop that
  does not end, at a record of size zero. The destructor of the iterator moves the tail.
\<close>

partial_function (option) perf_loop ::
  "bytes \<Rightarrow> nat \<Rightarrow> nat \<Rightarrow> bytes list \<Rightarrow> (bytes list \<times> nat) option option" where
  "perf_loop ring head index acc =
     (if has_data (Some ring) index head
      then (case get_record ring index of
              None \<Rightarrow> Some None
            | Some r \<Rightarrow> (case next_index ring index of
                None \<Rightarrow> Some None
              | Some index' \<Rightarrow> perf_loop ring head index' (acc @ [r])))
      else Some (Some (acc, index)))"

definition read_records :: "perf_mapping option \<Rightarrow> (bytes list \<times> perf_mapping option) option option" where
  "read_records mapping = (case mapping of
     None \<Rightarrow> Some (Some ([], None))
   | Some m \<Rightarrow> map_option (map_option (\<lambda>(rs, i). (rs, Some (m\<lparr>pm_tail := i\<rparr>))))
       (perf_loop (pm_ring m) (pm_head m) (pm_tail m) []))"

section \<open>The fields of a sample\<close>

datatype sample_field = S_ip | S_pid_tid | S_time | S_addr | S_id | S_stream_id | S_cpu | S_period | S_read
  | S_callchain | S_raw | S_branch_stack | S_regs | S_stack

fun field_bit :: "sample_field \<Rightarrow> nat" where
  "field_bit S_ip = 0" | "field_bit S_pid_tid = 1" | "field_bit S_time = 2" | "field_bit S_addr = 3"
| "field_bit S_read = 4" | "field_bit S_callchain = 5" | "field_bit S_id = 6" | "field_bit S_cpu = 7"
| "field_bit S_period = 8" | "field_bit S_stream_id = 9" | "field_bit S_raw = 10"
| "field_bit S_branch_stack = 11" | "field_bit S_regs = 12" | "field_bit S_stack = 13"

record perf_source =
  sample_type :: u64
  read_format :: u64

definition is_sampling :: "perf_source \<Rightarrow> sample_field \<Rightarrow> bool" where
  "is_sampling src f = bit (sample_type src) (field_bit f)"

definition TOTAL_TIME_ENABLED :: nat where "TOTAL_TIME_ENABLED = 0"
definition TOTAL_TIME_RUNNING :: nat where "TOTAL_TIME_RUNNING = 1"
definition FORMAT_ID :: nat where "FORMAT_ID = 2"
definition FORMAT_GROUP :: nat where "FORMAT_GROUP = 3"

definition read_word :: "bytes \<Rightarrow> nat \<Rightarrow> 'a::len word option" where
  "read_word r p = (if p + LENGTH('a) div 8 \<le> length r
     then Some (bytes_word (slice p (p + LENGTH('a) div 8) r)) else None)"

text \<open>The order in which \<open>locate_field\<close> walks, and the size of a field that is present.\<close>

definition field_order :: "sample_field list" where
  "field_order = [S_ip, S_pid_tid, S_time, S_addr, S_id, S_stream_id, S_cpu, S_period, S_read, S_callchain,
     S_raw, S_branch_stack, S_regs, S_stack]"

definition read_size :: "u64 \<Rightarrow> bytes \<Rightarrow> nat \<Rightarrow> nat option" where
  "read_size fmt r p =
     map_option (\<lambda>n. n + (if bit fmt TOTAL_TIME_ENABLED then 8 else 0) +
         (if bit fmt TOTAL_TIME_RUNNING then 8 else 0))
       (if bit fmt FORMAT_GROUP
        then map_option (\<lambda>nr :: u64. 8 + unat nr * (8 + (if bit fmt FORMAT_ID then 8 else 0))) (read_word r p)
        else Some (8 + (if bit fmt FORMAT_ID then 8 else 0)))"

definition field_size :: "perf_source \<Rightarrow> bytes \<Rightarrow> nat \<Rightarrow> sample_field \<Rightarrow> nat option" where
  "field_size src r p f = (case f of
     S_read \<Rightarrow> read_size (read_format src) r p
   | S_callchain \<Rightarrow> map_option (\<lambda>nr :: u64. 8 + unat nr * 8) (read_word r p)
   | S_raw \<Rightarrow> map_option (\<lambda>n :: u32. 4 + unat n) (read_word r p)
   | S_branch_stack \<Rightarrow> None | S_regs \<Rightarrow> None | S_stack \<Rightarrow> None
   | _ \<Rightarrow> Some 8)"

fun walk_fields :: "perf_source \<Rightarrow> bytes \<Rightarrow> sample_field \<Rightarrow> sample_field list \<Rightarrow> nat \<Rightarrow> nat option" where
  "walk_fields src r target [] p = None"
| "walk_fields src r target (f # fs) p =
     (if f = target then Some p
      else if is_sampling src f
      then (case field_size src r p f of None \<Rightarrow> None | Some n \<Rightarrow> walk_fields src r target fs (p + n))
      else walk_fields src r target fs p)"

definition locate_field :: "perf_source \<Rightarrow> bytes \<Rightarrow> sample_field \<Rightarrow> nat option" where
  "locate_field src r target = walk_fields src r target field_order header_size"

definition is_sample :: "bytes \<Rightarrow> bool" where
  "is_sample r \<longleftrightarrow> record_type r = 9"

definition field_at :: "perf_source \<Rightarrow> bytes \<Rightarrow> sample_field \<Rightarrow> nat \<Rightarrow> 'a::len word option" where
  "field_at src r f off =
     (if \<not> is_sample r \<or> \<not> is_sampling src f then None
      else (case locate_field src r f of None \<Rightarrow> None | Some p \<Rightarrow> read_word r (p + off)))"

definition get_ip :: "perf_source \<Rightarrow> bytes \<Rightarrow> u64 option" where
  "get_ip src r = field_at src r S_ip 0"

definition get_pid :: "perf_source \<Rightarrow> bytes \<Rightarrow> u32 option" where
  "get_pid src r = field_at src r S_pid_tid 0"

definition get_tid :: "perf_source \<Rightarrow> bytes \<Rightarrow> u32 option" where
  "get_tid src r = field_at src r S_pid_tid 4"

definition get_time :: "perf_source \<Rightarrow> bytes \<Rightarrow> u64 option" where
  "get_time src r = field_at src r S_time 0"

definition get_sample_period :: "perf_source \<Rightarrow> bytes \<Rightarrow> u64 option" where
  "get_sample_period src r = field_at src r S_period 0"

definition get_cpu :: "perf_source \<Rightarrow> bytes \<Rightarrow> u32 option" where
  "get_cpu src r = field_at src r S_cpu 0"

fun read_words :: "bytes \<Rightarrow> nat \<Rightarrow> nat \<Rightarrow> u64 list option" where
  "read_words r 0 p = Some []"
| "read_words r (Suc n) p = (case read_word r p of
     None \<Rightarrow> None | Some w \<Rightarrow> map_option ((#) w) (read_words r n (p + 8)))"

definition get_callchain :: "perf_source \<Rightarrow> bytes \<Rightarrow> u64 list option" where
  "get_callchain src r =
     (case field_at src r S_callchain 0 of
        None \<Rightarrow> None
      | Some (n :: u64) \<Rightarrow> (case locate_field src r S_callchain of
          None \<Rightarrow> None | Some p \<Rightarrow> read_words r (unat n) (p + 8)))"

section \<open>What the kernel writes\<close>

text \<open>
  The kernel writes a stream of records. The ring holds the bytes of it from \<open>tail\<close> on, as many as fit.
\<close>

definition ring_holds :: "bytes \<Rightarrow> nat \<Rightarrow> bytes \<Rightarrow> bool" where
  "ring_holds ring tail s \<longleftrightarrow> ring \<noteq> [] \<and> length s \<le> length ring \<and>
     (\<forall>i<length s. ring ! ((tail + i) mod length ring) = s ! i)"

lemma ring_holds_all:
  "ring_holds ring tail s \<longleftrightarrow> ring \<noteq> [] \<and> length s \<le> length ring \<and>
     list_all (\<lambda>i. ring ! ((tail + i) mod length ring) = s ! i) [0..<length s]"
  by (auto simp: ring_holds_def list_all_iff)

definition record_ok :: "bytes \<Rightarrow> bool" where
  "record_ok r \<longleftrightarrow> header_size \<le> length r \<and> length r \<le> 4096 \<and> record_size r = length r"

lemma nth_slice: "i < hi - lo \<Longrightarrow> hi \<le> length m \<Longrightarrow> slice lo hi m ! i = m ! (lo + i)"
  by (simp add: slice_def)

text \<open>A copy from the ring is a copy from the stream, also when it wraps.\<close>

lemma copy_from_ring:
  assumes "ring_holds ring tail s" and "k + n \<le> length s"
  shows "copy_from_ring_buffer ring (tail + k) n = Some (slice k (k + n) s)"
proof (cases "n = 0")
  case True
  have "(tail + k) mod length ring < length ring"
    using assms by (simp add: ring_holds_def)
  then show ?thesis
    using True by (simp add: copy_from_ring_buffer_def Let_def)
next
  case False
  let ?d = "length ring"
  let ?b = "(tail + k) mod ?d"
  have d: "n \<le> ?d" "0 < ?d"
    using assms False by (auto simp: ring_holds_def)
  then have b: "?b < ?d"
    by simp
  have s: "ring ! ((?b + i) mod ?d) = s ! (k + i)" if "i < n" for i
  proof -
    have "(?b + i) mod ?d = (tail + (k + i)) mod ?d"
      by (simp add: mod_add_left_eq add.assoc)
    then show ?thesis
      using assms that by (simp add: ring_holds_def)
  qed
  show ?thesis
  proof (cases "?b + n \<le> ?d")
    case True
    have "slice ?b (?b + n) ring = slice k (k + n) s"
      using True assms(2) s by (intro nth_equalityI) (auto simp: nth_slice)
    then show ?thesis
      using True by (simp add: copy_from_ring_buffer_def Let_def)
  next
    case False
    define c2 where "c2 = ?b + n - ?d"
    define c1 where "c1 = n - c2"
    have c: "?b + c1 = ?d" "c2 \<le> ?d" "c1 + c2 = n"
      using False d b unfolding c1_def c2_def by linarith+
    have len: "length (slice ?b (?b + c1) ring) = c1"
      using length_slice [of "?b + c1" ring ?b] c(1) by linarith
    have "slice ?b (?b + c1) ring @ slice 0 c2 ring = slice k (k + n) s"
    proof (rule nth_equalityI)
      show "length (slice ?b (?b + c1) ring @ slice 0 c2 ring) = length (slice k (k + n) s)"
        using len c(2,3) assms(2) by simp
    next
      fix i assume "i < length (slice ?b (?b + c1) ring @ slice 0 c2 ring)"
      then have i: "i < n"
        using len c(2,3) by simp
      have at: "slice k (k + n) s ! i = ring ! ((?b + i) mod ?d)"
        using i assms(2) s by (simp add: nth_slice)
      show "(slice ?b (?b + c1) ring @ slice 0 c2 ring) ! i = slice k (k + n) s ! i"
      proof (cases "i < c1")
        case True
        then have "?b + i < ?d" and "slice ?b (?b + c1) ring ! i = ring ! (?b + i)"
          using c(1) by (linarith, intro nth_slice) linarith+
        then show ?thesis
          using True by (simp add: nth_append len at)
      next
        case False
        then have at1: "?b + i = ?d + (i - c1)" and at2: "i - c1 < c2"
          using c(1,3) i by linarith+
        have "(?b + i) mod ?d = i - c1"
          using at2 c(2) unfolding at1 by simp
        then show ?thesis
          using False c(2) at2 by (simp add: nth_append nth_slice len at)
      qed
    qed
    then show ?thesis
      using c(2) by (simp only: copy_from_ring_buffer_def Let_def False if_False if_True c1_def c2_def)
  qed
qed

lemma slice_record: "slice (length a) (length a + n) (a @ r @ b) = take n r" if "n \<le> length r"
  using that by (simp add: slice_def)

lemma record_size_take: "header_size \<le> n \<Longrightarrow> record_size (take n r) = record_size r"
  by (simp add: record_size_def header_size_def slice_def drop_take min_def)

lemma get_record_ok:
  assumes "ring_holds ring tail (a @ r @ b)" and "record_ok r"
  shows "get_record ring (tail + length a) = Some r"
    and "next_index ring (tail + length a) = Some (tail + length a + length r)"
    and "copy_from_ring_buffer ring (tail + length a) header_size = Some (take header_size r)"
proof -
  show hdr: "copy_from_ring_buffer ring (tail + length a) header_size = Some (take header_size r)"
    using copy_from_ring [OF assms(1), of "length a" header_size] assms(2)
    by (simp add: record_ok_def slice_record)
  have "copy_from_ring_buffer ring (tail + length a) (length r) = Some r"
    using copy_from_ring [OF assms(1), of "length a" "length r"] by (simp add: slice_record)
  then show "get_record ring (tail + length a) = Some r"
    using hdr assms(2) by (simp add: get_record_def record_ok_def record_size_take)
  show "next_index ring (tail + length a) = Some (tail + length a + length r)"
    using hdr assms(2) by (simp add: next_index_def record_ok_def record_size_take)
qed

text \<open>A last record that is only a header stays in the ring: the space left is compared with \<open>\<ge>\<close>.\<close>

fun readable :: "bytes list \<Rightarrow> bytes list" where
  "readable [] = []"
| "readable [r] = (if length r = header_size then [] else [r])"
| "readable (r # rs) = r # readable rs"

lemma perf_loop_records:
  assumes "ring_holds ring tail (a @ concat rs)" and "\<forall>r\<in>set rs. record_ok r"
  shows "perf_loop ring (tail + length (a @ concat rs)) (tail + length a) acc =
    Some (Some (acc @ readable rs, tail + length a + length (concat (readable rs))))"
  using assms
proof (induction rs arbitrary: a acc)
  case Nil
  then show ?case
    by (subst perf_loop.simps) (simp add: has_data_def)
next
  case (Cons r rs)
  have ok: "record_ok r"
    using Cons.prems(2) by simp
  note g = get_record_ok [OF _ ok, of ring tail a "concat rs"]
  have more: "has_data (Some ring) (tail + length a) (tail + length (a @ concat (r # rs))) \<longleftrightarrow>
      \<not> (rs = [] \<and> length r = header_size)"
  proof -
    have "concat rs = [] \<longleftrightarrow> rs = []"
      using Cons.prems(2) by (cases rs) (auto simp: record_ok_def header_size_def)
    moreover have "length r + length (concat rs) \<le> header_size \<longleftrightarrow>
        length (concat rs) = 0 \<and> length r = header_size"
      using ok unfolding record_ok_def by linarith
    ultimately show ?thesis
      using Cons.prems(1) g(3) ok
      by (auto simp: has_data_def record_size_take record_ok_def)
  qed
  show ?case
  proof (cases "rs = [] \<and> length r = header_size")
    case True
    then show ?thesis
      using more by (subst perf_loop.simps) simp
  next
    case False
    have rd: "readable (r # rs) = r # readable rs"
      using False by (cases rs) simp_all
    have "perf_loop ring (tail + length (a @ concat (r # rs))) (tail + length a) acc =
        perf_loop ring (tail + length ((a @ r) @ concat rs)) (tail + length (a @ r)) (acc @ [r])"
      using more False Cons.prems(1) g by (subst perf_loop.simps) (simp add: add.assoc)
    also have "\<dots> = Some (Some ((acc @ [r]) @ readable rs, tail + length (a @ r) + length (concat (readable rs))))"
      using Cons.prems by (intro Cons.IH) simp_all
    finally show ?thesis
      using rd by (simp add: add.assoc)
  qed
qed

section \<open>The layout of a sample\<close>

text \<open>The values of the fields; a value of the read format has an id and the number of lost samples.\<close>

record sample_values =
  v_ip :: u64
  v_pid :: u32
  v_tid :: u32
  v_time :: u64
  v_addr :: u64
  v_id :: u64
  v_stream_id :: u64
  v_cpu :: u32
  v_res :: u32
  v_period :: u64
  v_values :: "(u64 \<times> u64 \<times> u64) list"
  v_enabled :: u64
  v_running :: u64
  v_callchain :: "u64 list"
  v_raw :: bytes

definition encode_read :: "u64 \<Rightarrow> sample_values \<Rightarrow> bytes" where
  "encode_read fmt v =
     (let times = (if bit fmt TOTAL_TIME_ENABLED then word_bytes (v_enabled v) else []) @
                  (if bit fmt TOTAL_TIME_RUNNING then word_bytes (v_running v) else []);
          entry = (\<lambda>(x :: u64, i :: u64, lost :: u64). ((word_bytes x,
            (if bit fmt FORMAT_ID then word_bytes i else []) @ (if bit fmt 4 then word_bytes lost else []))))
      in if bit fmt FORMAT_GROUP
         then word_bytes (of_nat (length (v_values v)) :: u64) @ times @
              concat (map ((\<lambda>(x, i). x @ i) \<circ> entry) (v_values v))
         else (let (x, i) = entry (hd (v_values v)) in x @ times @ i))"

text \<open>
  The fields of a sample as the manual page lists them: the bit of \<open>sample_type\<close> that asks for the field,
  and its bytes. What comes behind the raw data (\<open>rest\<close>) is not read by the code.
\<close>

definition kernel_layout :: "u64 \<Rightarrow> sample_values \<Rightarrow> (nat \<times> bytes) list" where
  "kernel_layout fmt v =
    [(16, word_bytes (v_id v)),
     (0, word_bytes (v_ip v)),
     (1, word_bytes (v_pid v) @ word_bytes (v_tid v)),
     (2, word_bytes (v_time v)),
     (3, word_bytes (v_addr v)),
     (6, word_bytes (v_id v)),
     (9, word_bytes (v_stream_id v)),
     (7, word_bytes (v_cpu v) @ word_bytes (v_res v)),
     (8, word_bytes (v_period v)),
     (4, encode_read fmt v),
     (5, word_bytes (of_nat (length (v_callchain v)) :: u64) @ concat (map word_bytes (v_callchain v))),
     (10, word_bytes (of_nat (length (v_raw v)) :: u32) @ v_raw v)]"

definition kernel_sample :: "u64 \<Rightarrow> u64 \<Rightarrow> sample_values \<Rightarrow> bytes \<Rightarrow> bytes" where
  "kernel_sample asked fmt v rest =
    concat (map (\<lambda>(i, field). if bit asked i then field else []) (kernel_layout fmt v)) @ rest"

definition values_fit :: "sample_values \<Rightarrow> bool" where
  "values_fit v \<longleftrightarrow> v_values v \<noteq> [] \<and> length (v_values v) < 2 ^ 64 \<and> length (v_callchain v) < 2 ^ 64 \<and>
     length (v_raw v) < 2 ^ 32"

text \<open>
  The code does not know two things a kernel may put in front of these fields or into them:
  \<open>PERF_SAMPLE_IDENTIFIER\<close>, the first word of a sample, and \<open>PERF_FORMAT_LOST\<close>.
\<close>

definition supported :: "perf_source \<Rightarrow> bool" where
  "supported src \<longleftrightarrow> \<not> bit (sample_type src) 16 \<and> \<not> bit (read_format src) 4"

text \<open>The same bytes along a list of fields, for the proofs.\<close>

definition encode_field :: "perf_source \<Rightarrow> sample_values \<Rightarrow> sample_field \<Rightarrow> bytes" where
  "encode_field src v f = (case map_of (kernel_layout (read_format src) v) (field_bit f) of
     None \<Rightarrow> [] | Some field \<Rightarrow> field)"

definition encode_fields :: "perf_source \<Rightarrow> sample_values \<Rightarrow> sample_field list \<Rightarrow> bytes" where
  "encode_fields src v fs = concat (map (encode_field src v) (filter (is_sampling src) fs))"

definition known_fields :: "sample_field list" where
  "known_fields = filter (\<lambda>f. f \<notin> {S_branch_stack, S_regs, S_stack}) field_order"

lemma encode_field_simps [simp]:
  "encode_field src v S_ip = word_bytes (v_ip v)"
  "encode_field src v S_pid_tid = word_bytes (v_pid v) @ word_bytes (v_tid v)"
  "encode_field src v S_time = word_bytes (v_time v)"
  "encode_field src v S_addr = word_bytes (v_addr v)"
  "encode_field src v S_id = word_bytes (v_id v)"
  "encode_field src v S_stream_id = word_bytes (v_stream_id v)"
  "encode_field src v S_cpu = word_bytes (v_cpu v) @ word_bytes (v_res v)"
  "encode_field src v S_period = word_bytes (v_period v)"
  "encode_field src v S_read = encode_read (read_format src) v"
  "encode_field src v S_callchain =
     word_bytes (of_nat (length (v_callchain v)) :: u64) @ concat (map word_bytes (v_callchain v))"
  "encode_field src v S_raw = word_bytes (of_nat (length (v_raw v)) :: u32) @ v_raw v"
  by (simp_all add: encode_field_def kernel_layout_def)

text \<open>The order of the code is the one of the kernel.\<close>

lemma field_order_known: "field_order = known_fields @ [S_branch_stack, S_regs, S_stack]"
  by (simp add: field_order_def known_fields_def)

lemma kernel_sample_fields:
  assumes "supported src"
  shows "kernel_sample (sample_type src) (read_format src) v rest = encode_fields src v known_fields @ rest"
  using assms by (simp add: supported_def kernel_sample_def kernel_layout_def encode_fields_def known_fields_def field_order_def is_sampling_def)

lemma read_word_at:
  assumes "8 dvd LENGTH('a::len)" and "p = length a"
  shows "read_word (a @ word_bytes (w :: 'a word) @ b) p = Some w"
  using assms by (simp add: read_word_def slice_def)

lemma length_concat_same: "(\<And>x. length (f x) = k) \<Longrightarrow> length (concat (map f xs)) = length xs * k"
  by (induction xs) simp_all

lemma field_size_encode:
  assumes "values_fit v" and "supported src" and "f \<notin> {S_branch_stack, S_regs, S_stack}" and "p = length a"
  shows "field_size src (a @ encode_field src v f @ b) p f = Some (length (encode_field src v f))"
proof -
  have n: "unat (of_nat (length (v_values v)) :: u64) = length (v_values v)"
      "unat (of_nat (length (v_callchain v)) :: u64) = length (v_callchain v)"
      "unat (of_nat (length (v_raw v)) :: u32) = length (v_raw v)"
    using assms(1) by (simp_all add: values_fit_def unat_of_nat)
  show ?thesis
  proof (cases f)
    case S_read
    define g where "g = (\<lambda>(x :: u64, i :: u64, lost :: u64). word_bytes x @
        (if bit (read_format src) FORMAT_ID then word_bytes i else []))"
    have "length (concat (map g (v_values v))) =
      length (v_values v) * (8 + (if bit (read_format src) FORMAT_ID then 8 else 0))"
      by (intro length_concat_same) (auto simp: g_def split: prod.splits)
    moreover have "encode_read (read_format src) v =
      (let times = (if bit (read_format src) TOTAL_TIME_ENABLED then word_bytes (v_enabled v) else []) @
          (if bit (read_format src) TOTAL_TIME_RUNNING then word_bytes (v_running v) else [])
       in if bit (read_format src) FORMAT_GROUP
          then word_bytes (of_nat (length (v_values v)) :: u64) @ times @ concat (map g (v_values v))
          else word_bytes (fst (hd (v_values v))) @ times @
            (if bit (read_format src) FORMAT_ID then word_bytes (fst (snd (hd (v_values v)))) else []))"
      using assms(2) by (auto simp: encode_read_def supported_def Let_def g_def intro!: arg_cong [of _ _ concat] split: prod.splits)
    ultimately show ?thesis
      using S_read assms(4) n
      by (simp add: field_size_def read_size_def Let_def read_word_at
          split del: if_split cong: if_cong) (simp split: if_split)
  next
    case S_callchain
    then show ?thesis
      using assms(4) n by (simp add: field_size_def read_word_at length_concat_same [where k = 8])
  next
    case S_raw
    then show ?thesis
      using assms(4) n by (simp add: field_size_def read_word_at)
  qed (use assms in \<open>simp_all add: field_size_def\<close>)
qed

lemma walk_fields_encode:
  assumes "values_fit v" and "supported src" and "set fs \<inter> {S_branch_stack, S_regs, S_stack} = {}" and "target \<in> set fs"
    and "p = length a"
  shows "walk_fields src (a @ encode_fields src v fs @ b) target (fs @ gs) p =
    Some (length a + length (encode_fields src v (takeWhile (\<lambda>f. f \<noteq> target) fs)))"
  using assms(3-5)
proof (induction fs arbitrary: a p)
  case (Cons f fs)
  show ?case
  proof (cases "f = target")
    case True
    then show ?thesis
      using Cons.prems by (simp add: encode_fields_def)
  next
    case False
    show ?thesis
    proof (cases "is_sampling src f")
      case True
      then have "f \<notin> {S_branch_stack, S_regs, S_stack}"
        using Cons.prems(1) by auto
      then have "field_size src (a @ encode_fields src v (f # fs) @ b) p f = Some (length (encode_field src v f))"
        using field_size_encode [OF assms(1,2), of f p a "encode_fields src v fs @ b"] Cons.prems True
        by (simp add: encode_fields_def)
      then show ?thesis
        using Cons.IH [of "p + length (encode_field src v f)" "a @ encode_field src v f"] Cons.prems False True
        by (simp add: encode_fields_def)
    qed (use Cons False in \<open>simp add: encode_fields_def\<close>)
  qed
qed simp

section \<open>Properties\<close>

text \<open>
  C25. Reading the ring yields the records the kernel wrote, each once and in order, wherever they wrap,
  and moves the tail behind them; only a last record that is nothing but a header is left for the next
  time.
\<close>

theorem ring_yields_records:
  assumes "ring_holds (pm_ring m) (pm_tail m) (concat rs)" and "\<forall>r\<in>set rs. record_ok r"
    and "pm_head m = pm_tail m + length (concat rs)"
  shows "read_records (Some m) =
    Some (Some (readable rs, Some (m\<lparr>pm_tail := pm_tail m + length (concat (readable rs))\<rparr>)))"
  using perf_loop_records [of "pm_ring m" "pm_tail m" "[]" rs "[]"] assms by (simp add: read_records_def)

definition record_ex :: "u8 \<Rightarrow> bytes \<Rightarrow> bytes" where
  "record_ex n payload = [9, 0, 0, 0, 0, 0, n, 0] @ payload"

text \<open>A ring of 32 bytes with two records from position 60 on: the first one wraps.\<close>

lemma ring_yields_records_witness:
  "read_records (Some \<lparr>pm_ring = [0, 0, 10, 0, 1, 2] @ record_ex 12 [3, 4, 5, 6] @ [7, 7, 7, 7, 7, 7, 7, 7, 7, 7, 9, 0, 0, 0],
     pm_tail = 60, pm_head = 82\<rparr>) =
   Some (Some ([record_ex 10 [1, 2], record_ex 12 [3, 4, 5, 6]],
     Some \<lparr>pm_ring = [0, 0, 10, 0, 1, 2] @ record_ex 12 [3, 4, 5, 6] @ [7, 7, 7, 7, 7, 7, 7, 7, 7, 7, 9, 0, 0, 0],
       pm_tail = 82, pm_head = 82\<rparr>))"
proof -
  let ?rs = "[record_ex 10 [1, 2], record_ex 12 [3, 4, 5, 6]]"
  let ?m = "\<lparr>pm_ring = [0, 0, 10, 0, 1, 2] @ record_ex 12 [3, 4, 5, 6] @ [7, 7, 7, 7, 7, 7, 7, 7, 7, 7, 9, 0, 0, 0],
     pm_tail = 60, pm_head = 82\<rparr>"
  have "ring_holds (pm_ring ?m) (pm_tail ?m) (concat ?rs)"
    by (simp add: ring_holds_all record_ex_def upt_conv_Cons)
  moreover have "\<forall>r\<in>set ?rs. record_ok r"
    by (simp add: record_ok_def record_ex_def header_size_def record_size_def slice_def bytes_word_def)
  ultimately show ?thesis
    using ring_yields_records [of ?m ?rs] by (simp add: record_ex_def header_size_def)
qed

lemma locate_field_encode:
  assumes "values_fit v" and "supported src" and "length hdr = header_size" and "f \<in> set known_fields"
  shows "locate_field src (hdr @ encode_fields src v known_fields @ rest) f =
    Some (length hdr + length (encode_fields src v (takeWhile (\<lambda>g. g \<noteq> f) known_fields)))"
  using walk_fields_encode [of v src known_fields f header_size hdr rest "[S_branch_stack, S_regs, S_stack]"] assms
  by (auto simp: locate_field_def field_order_known) (auto simp: known_fields_def)

text \<open>The sample around a field.\<close>

lemma split_at_field:
  assumes "f \<in> set fs" and "is_sampling src f"
  shows "\<exists>post. encode_fields src v fs =
    encode_fields src v (takeWhile (\<lambda>g. g \<noteq> f) fs) @ encode_field src v f @ post"
  using assms by (induction fs) (auto simp: encode_fields_def)

lemma record_type_append: "length hdr = header_size \<Longrightarrow> record_type (hdr @ x) = record_type hdr"
  by (simp add: record_type_def slice_def header_size_def)

lemma field_at_encode:
  assumes "values_fit v" and "supported src" and "record_type hdr = 9" and "length hdr = header_size"
    and "is_sampling src f" and "f \<in> set known_fields"
    and "encode_field src v f = a @ word_bytes (w :: 'a::len word) @ b" and "8 dvd LENGTH('a)"
  shows "field_at src (hdr @ encode_fields src v known_fields @ rest) f (length a) = Some w"
proof -
  let ?pre = "hdr @ encode_fields src v (takeWhile (\<lambda>g. g \<noteq> f) known_fields)"
  obtain post where "hdr @ encode_fields src v known_fields @ rest = (?pre @ a) @ word_bytes w @ b @ post @ rest"
    using split_at_field [OF assms(6,5), of v] assms(7) by auto
  then show ?thesis
    using locate_field_encode [OF assms(1,2,4,6), of rest] assms
      read_word_at [OF assms(8), of "length (?pre @ a)" "?pre @ a" w "b @ post @ rest"]
    by (simp add: field_at_def is_sample_def record_type_append add.assoc)
qed

lemma read_words_at:
  "p = length a \<Longrightarrow> read_words (a @ concat (map word_bytes ws) @ b) (length ws) p = Some ws"
proof (induction ws arbitrary: a p)
  case (Cons w ws)
  then show ?case
    using Cons.IH [of "p + 8" "a @ word_bytes w"] read_word_at [of p a w "concat (map word_bytes ws) @ b"]
    by simp
qed simp

lemma get_callchain_encode:
  assumes "values_fit v" and "supported src" and "record_type hdr = 9" and "length hdr = header_size"
    and "is_sampling src S_callchain"
  shows "get_callchain src (hdr @ encode_fields src v known_fields @ rest) = Some (v_callchain v)"
proof -
  let ?n = "of_nat (length (v_callchain v)) :: u64"
  let ?pre = "hdr @ encode_fields src v (takeWhile (\<lambda>g. g \<noteq> S_callchain) known_fields)"
  have ord: "S_callchain \<in> set known_fields"
    by (simp add: known_fields_def field_order_def)
  have enc: "encode_field src v S_callchain = [] @ word_bytes ?n @ concat (map word_bytes (v_callchain v))"
    by simp
  obtain post where "hdr @ encode_fields src v known_fields @ rest =
      (?pre @ word_bytes ?n) @ concat (map word_bytes (v_callchain v)) @ post @ rest"
    using split_at_field [OF ord assms(5), of v] enc by auto
  moreover have "field_at src (hdr @ encode_fields src v known_fields @ rest) S_callchain 0 = Some ?n"
    using field_at_encode [OF assms(1-5) ord enc] by simp
  moreover have "unat ?n = length (v_callchain v)"
    using assms(1) by (simp add: values_fit_def unat_of_nat)
  ultimately show ?thesis
    using locate_field_encode [OF assms(1,2,4) ord, of rest]
      read_words_at [of "length ?pre + 8" "?pre @ word_bytes ?n" "v_callchain v" "post @ rest"]
    by (simp add: get_callchain_def)
qed

text \<open>
  C26. What the accessors read of a sample is what the kernel put there. The kernel's layout is the one the
  manual page of \<open>perf_event_open\<close> lists, stated independently of the code, for every set of fields asked
  for and every read format except those with \<open>PERF_SAMPLE_IDENTIFIER\<close> or \<open>PERF_FORMAT_LOST\<close>, and
  whatever stands behind the raw data.
\<close>

theorem sample_fields_roundtrip:
  assumes "values_fit v" and "supported src" and "record_type hdr = 9" and "length hdr = header_size"
  shows "let r = hdr @ kernel_sample (sample_type src) (read_format src) v rest in
    (is_sampling src S_ip \<longrightarrow> get_ip src r = Some (v_ip v)) \<and>
    (is_sampling src S_pid_tid \<longrightarrow> get_pid src r = Some (v_pid v) \<and> get_tid src r = Some (v_tid v)) \<and>
    (is_sampling src S_time \<longrightarrow> get_time src r = Some (v_time v)) \<and>
    (is_sampling src S_period \<longrightarrow> get_sample_period src r = Some (v_period v)) \<and>
    (is_sampling src S_cpu \<longrightarrow> get_cpu src r = Some (v_cpu v)) \<and>
    (is_sampling src S_callchain \<longrightarrow> get_callchain src r = Some (v_callchain v))"
proof -
  note at = field_at_encode [OF assms, where rest = rest]
  have tid: "encode_field src v S_pid_tid = word_bytes (v_pid v) @ word_bytes (v_tid v) @ []"
    by simp
  show ?thesis
    unfolding Let_def kernel_sample_fields [OF assms(2)]
    using at [of S_ip "[]" "v_ip v" "[]"] at [of S_pid_tid "[]" "v_pid v" "word_bytes (v_tid v)"]
      at [OF _ _ tid] at [of S_time "[]" "v_time v" "[]"] at [of S_period "[]" "v_period v" "[]"]
      at [of S_cpu "[]" "v_cpu v" "word_bytes (v_res v)"] get_callchain_encode [OF assms]
    by (simp add: get_ip_def get_pid_def get_tid_def get_time_def get_sample_period_def get_cpu_def
        known_fields_def field_order_def)
qed

definition values_ex :: sample_values where
  "values_ex = \<lparr>v_ip = 4711, v_pid = 1, v_tid = 2, v_time = 3, v_addr = 4, v_id = 5, v_stream_id = 6,
     v_cpu = 7, v_res = 0, v_period = 8, v_values = [(9, 10, 0)], v_enabled = 11, v_running = 12,
     v_callchain = [4711, 815], v_raw = []\<rparr>"

text \<open>The address and the call chain, which is what the profiler asks for, behind a value with its id.\<close>

lemma sample_fields_roundtrip_witness:
  "let src = \<lparr>sample_type = 0x31, read_format = 4\<rparr>;
       r = [9, 0, 0, 0, 0, 0, 56, 0] @ kernel_sample 0x31 4 values_ex []
   in get_ip src r = Some 4711 \<and> get_callchain src r = Some [4711, 815]"
proof -
  have "is_sampling \<lparr>sample_type = 0x31, read_format = 4\<rparr> S_ip" "is_sampling \<lparr>sample_type = 0x31, read_format = 4\<rparr> S_callchain"
      "supported \<lparr>sample_type = 0x31, read_format = 4\<rparr>"
    by (simp_all add: is_sampling_def supported_def bit_numeral_rec)
  then show ?thesis
    using sample_fields_roundtrip [of values_ex "\<lparr>sample_type = 0x31, read_format = 4\<rparr>" "[9, 0, 0, 0, 0, 0, 56, 0]" "[]"]
    by (simp add: Let_def values_fit_def values_ex_def record_type_def header_size_def slice_def bytes_word_def)
qed

text \<open>With the identifier in front, the address that is read is the identifier.\<close>

lemma identifier_read_as_address:
  assumes "is_sampling src S_ip" and "bit (sample_type src) 16" and "record_type hdr = 9"
    and "length hdr = header_size"
  shows "get_ip src (hdr @ kernel_sample (sample_type src) (read_format src) v rest) = Some (v_id v)"
  using assms read_word_at [of "length hdr" hdr "v_id v"]
  by (simp add: get_ip_def field_at_def locate_field_def field_order_def is_sample_def record_type_append
      kernel_sample_def kernel_layout_def)

text \<open>
  Events of the hardware caches: the test for them repeats the test for software events, which comes
  first, so no event is ever of their type.
\<close>

theorem no_event_is_hw_cache: "get_event_type v \<noteq> ET_hw_cache"
  by (simp add: get_event_type_def)

end
