(* ===== verification/Code_Coverage.thy ===== *)
theory Code_Coverage
  imports Complex_Main Runtime_State Ordered_Set Ordered_Map
begin

text \<open>
  Code coverage, \<open>library/coverage.cpp\<close> and \<open>coverage/impl.hpp\<close>: the instrumented program registers
  its lines once and then each time it reaches one; at the end the counts of the threads are put
  together.

  The nested maps from modules, functions and addresses to counts are maps from the triples, as lists
  in the order of their keys; where the code walks an unordered map the order does not matter. The cache
  of the search for an entry of the details is left out, it holds what the search finds. Counts are
  natural numbers. A \<open>std::sort\<close> whose comparison is not an order on what it sorts is undefined:
  \<open>None\<close>.
\<close>

section \<open>The data\<close>

record coverage_data =
  cov_count :: nat
  cov_address :: u64
  cov_line :: nat
  cov_module :: string
  cov_function :: string
  cov_source :: string

type_synonym cov_key = "string \<times> string \<times> u64"

definition key_of :: "coverage_data \<Rightarrow> cov_key" where
  "key_of d = (cov_module d, cov_function d, cov_address d)"

definition cov_eq :: "coverage_data \<Rightarrow> coverage_data \<Rightarrow> bool" where
  "cov_eq a b \<longleftrightarrow> key_of a = key_of b"

definition cov_less :: "coverage_data \<Rightarrow> coverage_data \<Rightarrow> bool" where
  "cov_less a b =
     (if cov_count a \<noteq> cov_count b then cov_count a < cov_count b
      else if cov_module a \<noteq> cov_module b then cov_module a < cov_module b
      else if cov_function a \<noteq> cov_function b then cov_function a < cov_function b
      else if cov_address a \<noteq> cov_address b then cov_address a < cov_address b
      else if cov_line a \<noteq> cov_line b then cov_line a < cov_line b
      else cov_source a < cov_source b)"

definition cov_less_eq :: "coverage_data \<Rightarrow> coverage_data \<Rightarrow> bool" where
  "cov_less_eq a b \<longleftrightarrow> cov_eq a b \<or> cov_less a b"

definition cov_greater :: "coverage_data \<Rightarrow> coverage_data \<Rightarrow> bool" where
  "cov_greater a b \<longleftrightarrow> \<not> cov_eq a b \<and> \<not> cov_less a b"

definition cov_greater_eq :: "coverage_data \<Rightarrow> coverage_data \<Rightarrow> bool" where
  "cov_greater_eq a b \<longleftrightarrow> \<not> cov_less a b"

definition cov_add :: "coverage_data \<Rightarrow> coverage_data \<Rightarrow> coverage_data" where
  "cov_add a b = a\<lparr>cov_count := cov_count a + cov_count b\<rparr>"

record coverage_sets =
  addresses :: "u64 set"
  modules :: "string set"
  routines :: "string set"

definition no_sets :: coverage_sets where
  "no_sets = \<lparr>addresses = {}, modules = {}, routines = {}\<rparr>"

text \<open>\<open>operator+=\<close> adds the addresses, the modules, and the modules again.\<close>

definition sets_add :: "coverage_sets \<Rightarrow> coverage_sets \<Rightarrow> coverage_sets" where
  "sets_add s rhs = s\<lparr>addresses := addresses s \<union> addresses rhs,
     modules := modules s \<union> modules rhs \<union> modules rhs\<rparr>"

record code_coverage =
  cc_count :: nat
  cc_size :: nat
  covered :: coverage_sets
  possible :: coverage_sets

datatype coverage_category = Standard | By_address | By_module | By_function

text \<open>The ratios; zero over zero is not a number in C++, and zero here.\<close>

definition ratio :: "code_coverage \<Rightarrow> coverage_category \<Rightarrow> real" where
  "ratio c cat = (case cat of
     Standard \<Rightarrow> real (cc_count c) / real (cc_size c)
   | By_address \<Rightarrow> real (card (addresses (covered c))) / real (card (addresses (possible c)))
   | By_module \<Rightarrow> real (card (modules (covered c))) / real (card (modules (possible c)))
   | By_function \<Rightarrow> real (card (routines (covered c))) / real (card (routines (possible c))))"

definition get_uncovered :: "'a set \<Rightarrow> 'a set \<Rightarrow> 'a set" where
  "get_uncovered cov pos = Set.filter (\<lambda>x. x \<notin> cov) pos"

definition get_uncovered_list :: "'a list \<Rightarrow> 'a list \<Rightarrow> 'a list" where
  "get_uncovered_list cov pos = filter (\<lambda>x. \<not> list_ex (\<lambda>y. y = x) cov) pos"

record coverage_state =
  post_processed :: bool
  summary :: code_coverage
  details :: "coverage_data list"
  thread_counts :: "(cov_key \<times> nat) list list"

section \<open>Registering\<close>

definition register_source ::
  "string \<Rightarrow> string \<Rightarrow> nat \<Rightarrow> u64 \<Rightarrow> string option \<Rightarrow> coverage_state \<Rightarrow> coverage_state" where
  "register_source file fn line addr source st =
     (if post_processed st then st
      else (let d = \<lparr>cov_count = 0, cov_address = addr, cov_line = line, cov_module = file,
                     cov_function = fn,
                     cov_source = (case source of Some s \<Rightarrow> if s \<noteq> [] then s else fn | None \<Rightarrow> fn)\<rparr>;
                c = summary st;
                p = possible c;
                c = c\<lparr>cc_size := cc_size c + 1,
                      possible := p\<lparr>modules := insert file (modules p), routines := insert fn (routines p),
                        addresses := insert addr (addresses p)\<rparr>\<rparr>
            in st\<lparr>details := details st @ [d], summary := c,
                 thread_counts := map (map_update (file, fn, addr) 0 id) (thread_counts st)\<rparr>))"

text \<open>\<open>now\<close> is the state of the process, \<open>init_ok\<close> what starting the tooling returns.\<close>

definition register_coverage ::
  "state \<Rightarrow> bool \<Rightarrow> nat \<Rightarrow> string \<Rightarrow> string \<Rightarrow> u64 \<Rightarrow> coverage_state \<Rightarrow> coverage_state" where
  "register_coverage now init_ok t file fn addr st =
     (if post_processed st then st
      else if now < Active \<and> \<not> init_ok then st
      else if \<not> now < Active \<and> now \<ge> Finalized then st
      else st\<lparr>thread_counts := (thread_counts st)
          [t := map_update (file, fn, addr) 0 Suc (thread_counts st ! t)]\<rparr>)"

section \<open>Putting the counts together\<close>

definition order_on :: "('a \<Rightarrow> 'a \<Rightarrow> bool) \<Rightarrow> 'a list \<Rightarrow> bool" where
  "order_on lt xs \<longleftrightarrow>
     list_all (\<lambda>x. \<not> lt x x \<and> list_all (\<lambda>y. list_all (\<lambda>z.
        (lt x y \<and> lt y z \<longrightarrow> lt x z) \<and> (\<not> lt x y \<and> \<not> lt y z \<longrightarrow> \<not> lt x z)) xs) xs) xs"

definition std_sort :: "('a \<Rightarrow> 'a \<Rightarrow> bool) \<Rightarrow> 'a list \<Rightarrow> 'a list option" where
  "std_sort lt xs = (if order_on lt xs then Some (sort_by lt xs) else None)"

definition add_total :: "(cov_key \<times> nat) list \<Rightarrow> (cov_key \<times> nat) list \<Rightarrow> (cov_key \<times> nat) list" where
  "add_total t data = fold (\<lambda>(k, n). map_update k 0 (\<lambda>m. m + n)) t data"

text \<open>The first entry of the details with the key takes the count.\<close>

fun count_entry :: "cov_key \<Rightarrow> nat \<Rightarrow> coverage_data list \<Rightarrow> coverage_data list" where
  "count_entry k n [] = []"
| "count_entry k n (d # ds) =
     (if key_of d = k then d\<lparr>cov_count := cov_count d + n\<rparr> # ds else d # count_entry k n ds)"

definition count_entries :: "(cov_key \<times> nat) list \<Rightarrow> coverage_data list \<Rightarrow> coverage_data list" where
  "count_entries t ds = fold (\<lambda>(k, n). count_entry k n) t ds"

definition cover :: "cov_key \<times> nat \<Rightarrow> code_coverage \<Rightarrow> code_coverage" where
  "cover kn c = (case kn of ((m, f, a), n) \<Rightarrow>
     if n > 0
     then c\<lparr>cc_count := cc_count c + 1,
            covered := (covered c)\<lparr>modules := insert m (modules (covered c)),
              routines := insert f (routines (covered c)), addresses := insert a (addresses (covered c))\<rparr>\<rparr>
     else c)"

text \<open>An entry is dropped for one of another address with its source and its count.\<close>

fun merge_entries :: "cov_key list \<Rightarrow> coverage_data list \<Rightarrow> coverage_data list \<Rightarrow> coverage_data list" where
  "merge_entries cached tmp [] = tmp"
| "merge_entries cached tmp (d # ds) =
     (if key_of d \<in> set cached then merge_entries cached tmp ds
      else if list_ex (\<lambda>t. cov_source t = cov_source d \<and> cov_address t \<noteq> cov_address d \<and>
                cov_count t = cov_count d) tmp
      then merge_entries (key_of d # cached) tmp ds
      else merge_entries cached (tmp @ [d]) ds)"

definition post_process :: "bool \<Rightarrow> coverage_state \<Rightarrow> coverage_state option" where
  "post_process use_coverage st =
     (if post_processed st then Some st
      else (let st = st\<lparr>post_processed := True\<rparr>
            in if \<not> use_coverage \<or> cc_size (summary st) = 0 then Some st
               else (let data = fold add_total (thread_counts st) [];
                         ds = fold count_entries (thread_counts st) (details st);
                         c = fold cover data (summary st)
                     in case std_sort cov_greater ds of
                          None \<Rightarrow> None
                        | Some ds \<Rightarrow> (case std_sort cov_greater (merge_entries [] [] ds) of
                            None \<Rightarrow> None
                          | Some ds \<Rightarrow> Some (st\<lparr>summary := c, details := ds\<rparr>)))))"


section \<open>The order of the entries\<close>

definition cov_rank :: "coverage_data \<Rightarrow> nat \<times> string \<times> string \<times> u64 \<times> nat \<times> string" where
  "cov_rank d = (cov_count d, cov_module d, cov_function d, cov_address d, cov_line d, cov_source d)"

lemma cov_less_rank: "cov_less a b \<longleftrightarrow> cov_rank a < cov_rank b"
  unfolding cov_less_def cov_rank_def by (auto simp: less_pair)

lemma cov_rank_key: "cov_rank a = cov_rank b \<Longrightarrow> key_of a = key_of b"
  unfolding cov_rank_def key_of_def by simp

text \<open>Entries with different keys are ordered by their ranks.\<close>

abbreviation distinct_keys :: "coverage_data list \<Rightarrow> bool" where
  "distinct_keys ds \<equiv> distinct (map key_of ds)"

lemma cov_greater_rank:
  assumes "distinct_keys ds" and "a \<in> set ds" and "b \<in> set ds"
  shows "cov_greater a b \<longleftrightarrow> cov_rank b < cov_rank a"
proof -
  have "a = b" if "key_of a = key_of b"
    using assms that by (auto simp: distinct_map inj_on_def)
  then show ?thesis
    unfolding cov_greater_def cov_eq_def cov_less_rank using cov_rank_key [of a b] linorder_less_linear [of "cov_rank a" "cov_rank b"] by auto
qed

lemma order_on_distinct: "distinct_keys ds \<Longrightarrow> order_on cov_greater ds"
  unfolding order_on_def by (auto simp: list_all_iff cov_greater_rank)

lemma std_sort_distinct: "distinct_keys ds \<Longrightarrow> std_sort cov_greater ds = Some (sort_by cov_greater ds)"
  unfolding std_sort_def by (simp add: order_on_distinct)

lemma distinct_keys_sort: "distinct_keys ds \<Longrightarrow> distinct_keys (sort_by lt ds)"
  using mset_sort_by [of lt ds] by (metis mset_eq_imp_distinct_iff mset_map)

interpretation descending: weak_order "\<lambda>a b. cov_rank b < cov_rank a"
  by unfold_locales auto

lemma ordered_sort: "distinct_keys ds \<Longrightarrow> ordered_by cov_greater (sort_by cov_greater ds)"
proof -
  assume d: "distinct_keys ds"
  have "sort_by cov_greater ds = sort_by (\<lambda>a b. cov_rank b < cov_rank a) ds"
    by (rule sort_by_cong) (simp add: cov_greater_rank [OF d])
  moreover have "ordered_by (\<lambda>a b. cov_rank b < cov_rank a) (sort_by (\<lambda>a b. cov_rank b < cov_rank a) ds)"
    by (rule descending.sort_by_ordered)
  moreover have "set (sort_by (\<lambda>a b. cov_rank b < cov_rank a) ds) = set ds"
    by simp
  ultimately show ?thesis
    unfolding ordered_by_def by (auto simp: cov_greater_rank [OF d] elim!: sorted_wrt_mono_rel [rotated])
qed

text \<open>One entry twice with different counts, and another between: no order.\<close>

lemma no_order:
  assumes "a \<in> set ds" and "b \<in> set ds" and "x \<in> set ds"
    and "key_of a = key_of b" and "key_of x \<noteq> key_of a"
    and "cov_count b < cov_count x" and "cov_count x < cov_count a"
  shows "std_sort cov_greater ds = None"
proof -
  have "cov_greater a x" "cov_greater x b" "\<not> cov_greater a b"
    using assms unfolding cov_greater_def cov_eq_def cov_less_def by auto
  then have "\<not> order_on cov_greater ds"
    using assms(1-3) unfolding order_on_def list_all_iff by blast
  then show ?thesis
    unfolding std_sort_def by simp
qed

section \<open>The counts\<close>

text \<open>How often all threads reached a line.\<close>

definition total_of :: "(cov_key \<times> nat) list list \<Rightarrow> cov_key \<Rightarrow> nat" where
  "total_of ts k = (\<Sum>t \<leftarrow> ts. value_at 0 t k)"

text \<open>The entries with the counts: the first with a key takes all.\<close>

fun counted :: "(cov_key \<Rightarrow> nat) \<Rightarrow> cov_key set \<Rightarrow> coverage_data list \<Rightarrow> coverage_data list" where
  "counted f S [] = []"
| "counted f S (d # ds) =
     (if key_of d \<in> S then d else d\<lparr>cov_count := cov_count d + f (key_of d)\<rparr>) #
     counted f (insert (key_of d) S) ds"

lemma key_of_count [simp]: "key_of (d\<lparr>cov_count := n\<rparr>) = key_of d"
  unfolding key_of_def by simp

lemma counted_zero: "\<forall>k. k \<notin> S \<longrightarrow> f k = 0 \<Longrightarrow> counted f S ds = ds"
proof (induction ds arbitrary: S)
  case (Cons d ds)
  have "key_of d \<notin> S \<Longrightarrow> f (key_of d) = 0"
    using Cons.prems by blast
  with Cons show ?case
    by simp
qed simp

lemma counted_twice: "counted f S (counted g S ds) = counted (\<lambda>k. g k + f k) S ds"
  by (induction ds arbitrary: S) (auto simp: add.assoc)

lemma count_entry_counted:
  "k \<notin> S \<Longrightarrow> count_entry k n ds = counted (\<lambda>l. if l = k then n else 0) S ds"
proof (induction ds arbitrary: S)
  case (Cons d ds)
  then show ?case
    using Cons.IH [of "insert (key_of d) S"] by (cases "key_of d = k") (simp_all add: counted_zero)
qed simp

lemma count_entries_counted:
  "distinct (map fst t) \<Longrightarrow> count_entries t ds = counted (value_at 0 t) {} ds"
proof (induction t arbitrary: ds)
  case Nil
  then show ?case
    by (simp add: count_entries_def counted_zero)
next
  case (Cons p t)
  obtain k n where p: "p = (k, n)"
    by (cases p) blast
  have "value_at 0 t k = 0"
    using Cons.prems p by (intro value_at_absent) (simp flip: set_map)
  then have "value_at 0 ((k, n) # t) = (\<lambda>l. if l = k then n else value_at 0 t l)"
      and "(\<lambda>l. (if l = k then n else 0) + value_at 0 t l) = (\<lambda>l. if l = k then n else value_at 0 t l)"
    by (intro ext; simp)+
  then show ?case
    using Cons count_entry_counted [of k "{}" n ds] unfolding p count_entries_def
    by (simp add: counted_twice)
qed

lemma ascending_distinct: "ascending m \<Longrightarrow> distinct (map fst m)"
  by (simp add: strict_sorted_iff)

lemma fold_count_entries:
  "\<forall>t \<in> set ts. ascending t \<Longrightarrow> fold count_entries ts ds = counted (total_of ts) {} ds"
proof (induction ts arbitrary: ds)
  case Nil
  then show ?case
    by (simp add: total_of_def counted_zero)
next
  case (Cons t ts)
  then show ?case
    by (simp add: count_entries_counted ascending_distinct counted_twice)
      (simp add: total_of_def)
qed

lemma counted_distinct:
  "distinct_keys ds \<Longrightarrow> key_of ` set ds \<inter> S = {} \<Longrightarrow>
    counted f S ds = map (\<lambda>d. d\<lparr>cov_count := cov_count d + f (key_of d)\<rparr>) ds"
  by (induction ds arbitrary: S) auto

lemma counted_append: "counted f S (xs @ ys) = counted f S xs @ counted f (S \<union> key_of ` set xs) ys"
  by (induction xs arbitrary: S) auto

lemma counted_keeps: "b \<in> set ds \<Longrightarrow> key_of b \<in> S \<Longrightarrow> b \<in> set (counted f S ds)"
  by (induction ds arbitrary: S) auto

lemma ascending_add_total: "ascending data \<Longrightarrow> ascending (add_total t data)"
  unfolding add_total_def by (induction t arbitrary: data) (auto simp: ascending_map_update split: prod.splits)

lemma value_at_add_total:
  "ascending data \<Longrightarrow> distinct (map fst t) \<Longrightarrow>
    value_at 0 (add_total t data) k = value_at 0 data k + value_at 0 t k"
proof (induction t arbitrary: data)
  case (Cons p t)
  obtain l n where p: "p = (l, n)"
    by (cases p) blast
  have "value_at 0 t l = 0"
    using Cons.prems p by (intro value_at_absent) (simp flip: set_map)
  with Cons show ?case
    unfolding p add_total_def by (simp add: ascending_map_update value_at_map_update)
qed (simp add: add_total_def)

lemma fold_add_total:
  "\<forall>t \<in> set ts. ascending t \<Longrightarrow> ascending data \<Longrightarrow>
    ascending (fold add_total ts data) \<and>
    value_at 0 (fold add_total ts data) k = value_at 0 data k + total_of ts k"
proof (induction ts arbitrary: data)
  case (Cons t ts)
  then show ?case
    by (simp add: ascending_add_total value_at_add_total ascending_distinct total_of_def)
qed (simp add: total_of_def)

text \<open>The lines that are covered.\<close>

lemma value_at_positive:
  "distinct (map fst m) \<Longrightarrow> {k. 0 < value_at 0 m k} = fst ` {p \<in> set m. 0 < (snd p :: nat)}"
proof (induction m)
  case (Cons p m)
  obtain l n where p: "p = (l, n)"
    by (cases p) blast
  have "value_at 0 m l = 0"
    using Cons.prems p by (intro value_at_absent) (simp flip: set_map)
  then have "{k. 0 < value_at 0 (p # m) k} = (if 0 < n then insert l {k. 0 < value_at 0 m k} else {k. 0 < value_at 0 m k})"
    unfolding p by auto
  moreover have "{q \<in> set (p # m). 0 < snd q} = (if 0 < n then insert p {q \<in> set m. 0 < snd q} else {q \<in> set m. 0 < snd q})"
    unfolding p by auto
  ultimately show ?case
    using Cons p by simp
qed simp

lemma fold_cover:
  "distinct (map fst data) \<Longrightarrow>
    cc_count (fold cover data c) = cc_count c + card {k. 0 < value_at 0 data k} \<and>
    modules (covered (fold cover data c)) = modules (covered c) \<union> fst ` {k. 0 < value_at 0 data k} \<and>
    routines (covered (fold cover data c)) = routines (covered c) \<union> (fst \<circ> snd) ` {k. 0 < value_at 0 data k} \<and>
    addresses (covered (fold cover data c)) = addresses (covered c) \<union> (snd \<circ> snd) ` {k. 0 < value_at 0 data k} \<and>
    cc_size (fold cover data c) = cc_size c \<and> possible (fold cover data c) = possible c"
proof (induction data arbitrary: c)
  case (Cons p data)
  obtain m f a n where p: "p = ((m, f, a), n)"
    by (metis prod.exhaust)
  have zero: "value_at 0 data (m, f, a) = 0"
    using Cons.prems p by (intro value_at_absent) (simp flip: set_map)
  have fin: "finite {k. 0 < value_at 0 data k}"
    using Cons.prems by (simp add: value_at_positive)
  have "{k. 0 < value_at 0 (p # data) k} =
      (if 0 < n then insert (m, f, a) {k. 0 < value_at 0 data k} else {k. 0 < value_at 0 data k})"
    unfolding p using zero by auto
  then show ?case
    using Cons zero fin unfolding p by (simp add: cover_def)
qed simp

section \<open>Merging\<close>

lemma merge_entries_spec:
  assumes "distinct_keys (tmp @ ds)" and "set cached \<inter> key_of ` set ds = {}"
  shows "distinct_keys (merge_entries cached tmp ds) \<and>
    set tmp \<subseteq> set (merge_entries cached tmp ds) \<and>
    set (merge_entries cached tmp ds) \<subseteq> set (tmp @ ds) \<and>
    (\<forall>d \<in> set ds. \<exists>e \<in> set (merge_entries cached tmp ds).
       cov_source e = cov_source d \<and> cov_count e = cov_count d)"
  using assms
proof (induction cached tmp ds rule: merge_entries.induct)
  case (2 cached tmp d ds)
  let ?found = "list_ex (\<lambda>t. cov_source t = cov_source d \<and> cov_address t \<noteq> cov_address d \<and> cov_count t = cov_count d) tmp"
  have new: "key_of d \<notin> set cached"
    using 2 by auto
  show ?case
  proof (cases ?found)
    case True
    have IH: "distinct_keys (merge_entries (key_of d # cached) tmp ds) \<and>
      set tmp \<subseteq> set (merge_entries (key_of d # cached) tmp ds) \<and>
      set (merge_entries (key_of d # cached) tmp ds) \<subseteq> set (tmp @ ds) \<and>
      (\<forall>d' \<in> set ds. \<exists>e \<in> set (merge_entries (key_of d # cached) tmp ds).
         cov_source e = cov_source d' \<and> cov_count e = cov_count d')"
      using 2 new True by auto
    obtain t where "t \<in> set tmp" "cov_source t = cov_source d" "cov_count t = cov_count d"
      using True by (auto simp: list_ex_iff)
    with IH show ?thesis
      using new True by auto
  next
    case False
    have "distinct_keys ((tmp @ [d]) @ ds)" "set cached \<inter> key_of ` set ds = {}"
      using 2 by auto
    then show ?thesis
      using 2(3) [OF new False] new False by auto
  qed
qed simp

text \<open>
  C27. When no source is registered twice, the end of the run orders the entries by what they count and
  tells the truth: the lines covered are the lines some thread reached, and every entry that is left
  has the sum of what the threads counted for it; one that is dropped is represented by an entry
  of the same source and count.
\<close>

theorem coverage_is_counted:
  assumes "\<not> post_processed st" and "cc_size (summary st) \<noteq> 0"
    and "\<forall>t \<in> set (thread_counts st). ascending t" and "distinct_keys (details st)"
  shows "\<exists>st'. post_process True st = Some st' \<and> post_processed st' \<and>
    cc_count (summary st') = cc_count (summary st) + card {k. 0 < total_of (thread_counts st) k} \<and>
    addresses (covered (summary st')) =
      addresses (covered (summary st)) \<union> {a. \<exists>m f. 0 < total_of (thread_counts st) (m, f, a)} \<and>
    ordered_by cov_greater (details st') \<and>
    (\<forall>d \<in> set (details st'). \<exists>e \<in> set (details st).
       d = e\<lparr>cov_count := cov_count e + total_of (thread_counts st) (key_of e)\<rparr>) \<and>
    (\<forall>e \<in> set (details st). \<exists>d \<in> set (details st').
       cov_source d = cov_source e \<and> cov_count d = cov_count e + total_of (thread_counts st) (key_of e))"
proof -
  let ?ts = "thread_counts st"
  let ?add = "\<lambda>d. d\<lparr>cov_count := cov_count d + total_of ?ts (key_of d)\<rparr>"
  define data where "data = fold add_total ?ts []"
  define ds where "ds = fold count_entries ?ts (details st)"
  define sorted_ds where "sorted_ds = sort_by cov_greater ds"
  define kept where "kept = merge_entries [] [] sorted_ds"
  have data: "distinct (map fst data)" and val: "value_at 0 data k = total_of ?ts k" for k
    using fold_add_total [OF assms(3), of "[]"] by (auto simp: data_def ascending_distinct)
  have ds: "ds = map ?add (details st)"
    unfolding ds_def using fold_count_entries [OF assms(3)] counted_distinct [OF assms(4), of "{}"] by simp
  have dk: "distinct_keys ds"
    using assms(4) by (simp add: ds comp_def)
  note merged = merge_entries_spec [of "[]" sorted_ds "[]", folded kept_def]
  have dk': "distinct_keys sorted_ds" "distinct_keys kept"
    using dk merged by (auto simp: sorted_ds_def distinct_keys_sort)
  define st' where "st' = st\<lparr>post_processed := True, summary := fold cover data (summary st),
    details := sort_by cov_greater kept\<rparr>"
  have run: "post_process True st = Some st'"
    using assms(1,2) dk dk' std_sort_distinct [OF dk] std_sort_distinct [OF dk'(2)]
    by (simp add: post_process_def Let_def st'_def flip: data_def ds_def sorted_ds_def kept_def)
  have "(snd \<circ> snd) ` {k. 0 < total_of ?ts k} = {a. \<exists>m f. 0 < total_of ?ts (m, f, a)}"
    by (force simp: image_iff)
  moreover have "set kept \<subseteq> ?add ` set (details st)"
    using merged dk' by (auto simp: sorted_ds_def ds)
  moreover have "\<forall>e \<in> set (details st). \<exists>d \<in> set kept. cov_source d = cov_source e \<and>
      cov_count d = cov_count (?add e)"
    using merged dk' by (auto simp: sorted_ds_def ds)
  moreover have "ordered_by cov_greater (sort_by cov_greater kept)"
    using dk'(2) by (rule ordered_sort)
  ultimately show ?thesis
    using fold_cover [OF data, of "summary st"] run by (auto simp: st'_def val)
qed

text \<open>A run of one thread: three lines, the second reached twice.\<close>

definition one_thread :: coverage_state where
  "one_thread = \<lparr>post_processed = False,
     summary = \<lparr>cc_count = 0, cc_size = 0, covered = no_sets, possible = no_sets\<rparr>,
     details = [], thread_counts = [[]]\<rparr>"

definition three_lines :: "coverage_state \<Rightarrow> coverage_state" where
  "three_lines = register_source ''m'' ''h'' 9 3 None \<circ> register_source ''m'' ''g'' 5 2 (Some ''g'') \<circ>
     register_source ''m'' ''f'' 1 1 None"

definition three_hits :: "coverage_state \<Rightarrow> coverage_state" where
  "three_hits = register_coverage Active True 0 ''m'' ''g'' 2 \<circ>
     register_coverage Active True 0 ''m'' ''g'' 2 \<circ> register_coverage Active True 0 ''m'' ''f'' 1"

lemmas run_defs = one_thread_def three_lines_def three_hits_def register_source_def register_coverage_def
  no_sets_def key_of_def less_state_def less_eq_state_def

lemma one_run:
  "\<not> post_processed (three_hits (three_lines one_thread))"
  "cc_size (summary (three_hits (three_lines one_thread))) = 3"
  "cc_count (summary (three_hits (three_lines one_thread))) = 0"
  "thread_counts (three_hits (three_lines one_thread)) =
    [[((''m'', ''f'', 1), 1), ((''m'', ''g'', 2), 2), ((''m'', ''h'', 3), 0)]]"
  "map key_of (details (three_hits (three_lines one_thread))) = [(''m'', ''f'', 1), (''m'', ''g'', 2), (''m'', ''h'', 3)]"
  by (simp_all add: run_defs less_pair less_char_def)

theorem coverage_is_counted_witness:
  "\<exists>st'. post_process True (three_hits (three_lines one_thread)) = Some st' \<and> cc_count (summary st') = 2"
proof -
  let ?st = "three_hits (three_lines one_thread)"
  have "{k. 0 < total_of (thread_counts ?st) k} = {(''m'', ''f'', 1), (''m'', ''g'', 2)}"
    by (auto simp: one_run total_of_def split: if_splits)
  then show ?thesis
    using coverage_is_counted [of ?st] by (auto simp: one_run less_pair)
qed

text \<open>
  C28. When a source is registered twice, as for a function that is inlined twice at an address, its count
  goes to the first entry alone. As soon as some line's count lies between those of the two
  entries, the comparison the entries are sorted by is no order, and the sort undefined.
\<close>

theorem source_registered_twice:
  assumes "\<not> post_processed st" and "cc_size (summary st) \<noteq> 0"
    and "\<forall>t \<in> set (thread_counts st). ascending t"
    and "details st = xs @ a # ys" and "key_of a \<notin> key_of ` set xs"
    and "b \<in> set ys" and "key_of b = key_of a"
    and "details st = us @ x # vs" and "key_of x \<notin> key_of ` set us" and "key_of x \<noteq> key_of a"
    and "cov_count b < cov_count x + total_of (thread_counts st) (key_of x)"
    and "cov_count x + total_of (thread_counts st) (key_of x) <
      cov_count a + total_of (thread_counts st) (key_of a)"
  shows "post_process True st = None"
proof -
  let ?f = "total_of (thread_counts st)"
  let ?add = "\<lambda>d. d\<lparr>cov_count := cov_count d + ?f (key_of d)\<rparr>"
  have ds: "fold count_entries (thread_counts st) (details st) = counted ?f {} (details st)"
    by (rule fold_count_entries [OF assms(3)])
  have "?add a \<in> set (counted ?f {} (details st))" "?add x \<in> set (counted ?f {} (details st))"
    using assms(5,9) by (simp add: assms(4) counted_append, simp add: assms(8) counted_append)
  moreover have "b \<in> set (counted ?f {} (details st))"
    using assms(5-7) by (simp add: assms(4) counted_append counted_keeps)
  ultimately have "std_sort cov_greater (counted ?f {} (details st)) = None"
    using assms(7,10-12) by (intro no_order [of "?add a" _ b "?add x"]) simp_all
  then show ?thesis
    using assms(1,2) by (simp add: post_process_def Let_def ds)
qed

theorem source_registered_twice_witness:
  "post_process True (three_hits (register_source ''m'' ''g'' 5 2 (Some ''g'') (three_lines one_thread))) = None"
proof -
  let ?st = "three_hits (register_source ''m'' ''g'' 5 2 (Some ''g'') (three_lines one_thread))"
  obtain d1 d2 d3 d4 where d: "details ?st = [d1, d2, d3, d4]" and k: "key_of d1 = (''m'', ''f'', 1)"
      "key_of d2 = (''m'', ''g'', 2)" "key_of d4 = (''m'', ''g'', 2)"
      "cov_count d1 = 0" "cov_count d2 = 0" "cov_count d4 = 0"
    by (simp add: run_defs)
  have t: "\<not> post_processed ?st" "cc_size (summary ?st) = 4" "thread_counts ?st =
      [[((''m'', ''f'', 1), 1), ((''m'', ''g'', 2), 2), ((''m'', ''h'', 3), 0)]]"
    by (simp_all add: run_defs less_pair less_char_def)
  show ?thesis
    by (rule source_registered_twice [of _ "[d1]" d2 "[d3, d4]" d4 "[]" d1 "[d2, d3, d4]"])
      (simp_all add: d k t total_of_def less_pair)
qed

end
