(* ===== verification/Containers.thy ===== *)
theory Containers
  imports Prelude
begin

text \<open>
  The containers of \<open>lib/core/containers\<close>: \<open>static_vector\<close> and \<open>aligned_static_vector\<close>, an array with a
  size, which have the same operations; \<open>stable_vector\<close>, a list of such chunks; \<open>c_array\<close>, a pointer
  with a size; and the operators derived from a few for the iterators.

  \<open>d\<close> is the value \<open>Tp{}\<close>, \<open>N\<close> the size of a chunk. An index outside an array is undefined: \<open>None\<close>.
  The sizes of single vectors are words; the numbers of chunks are natural numbers. The atomic sizes are
  used by one thread at a time.
\<close>

datatype container_error = Out_of_range

section \<open>The vector in an array\<close>

record 'a static_vector =
  sv_size :: u64
  sv_data :: "'a list"

definition sv_new :: "nat \<Rightarrow> 'a \<Rightarrow> 'a static_vector" where
  "sv_new N d = \<lparr>sv_size = 0, sv_data = replicate N d\<rparr>"

definition sv_filled :: "nat \<Rightarrow> u64 \<Rightarrow> 'a \<Rightarrow> 'a static_vector" where
  "sv_filled N n v = \<lparr>sv_size = n, sv_data = replicate N v\<rparr>"

definition sv_of_array :: "nat \<Rightarrow> 'a \<Rightarrow> 'a list \<Rightarrow> 'a static_vector" where
  "sv_of_array N d xs = (let n = min N (length xs)
     in \<lparr>sv_size = of_nat n, sv_data = take n xs @ replicate (N - n) d\<rparr>)"

text \<open>The size is incremented before it is looked at.\<close>

definition sv_emplace_back :: "'a \<Rightarrow> 'a static_vector \<Rightarrow> 'a static_vector \<times> container_error option" where
  "sv_emplace_back x s =
     (let idx = unat (sv_size s);
          s = s\<lparr>sv_size := sv_size s + 1\<rparr>
      in if idx \<ge> length (sv_data s) then (s, Some Out_of_range)
         else (s\<lparr>sv_data := (sv_data s)[idx := x]\<rparr>, None))"

definition sv_pop_back :: "'a static_vector \<Rightarrow> 'a static_vector" where
  "sv_pop_back s = s\<lparr>sv_size := sv_size s - 1\<rparr>"

definition sv_clear :: "'a static_vector \<Rightarrow> 'a static_vector" where
  "sv_clear s = s\<lparr>sv_size := 0\<rparr>"

definition sv_capacity :: "'a static_vector \<Rightarrow> nat" where
  "sv_capacity s = length (sv_data s)"

definition sv_empty :: "'a static_vector \<Rightarrow> bool" where
  "sv_empty s \<longleftrightarrow> sv_size s = 0"

definition sv_index :: "nat \<Rightarrow> 'a static_vector \<Rightarrow> 'a option" where
  "sv_index i s = (if i < length (sv_data s) then Some (sv_data s ! i) else None)"

definition sv_store :: "nat \<Rightarrow> 'a \<Rightarrow> 'a static_vector \<Rightarrow> 'a static_vector option" where
  "sv_store i x s = (if i < length (sv_data s) then Some (s\<lparr>sv_data := (sv_data s)[i := x]\<rparr>) else None)"

text \<open>\<open>at\<close> is that of the array: it does not look at the size of the vector.\<close>

definition sv_at :: "nat \<Rightarrow> 'a static_vector \<Rightarrow> container_error + 'a" where
  "sv_at i s = (if i < length (sv_data s) then Inr (sv_data s ! i) else Inl Out_of_range)"

definition sv_front :: "'a static_vector \<Rightarrow> 'a option" where
  "sv_front s = sv_index 0 s"

definition sv_back :: "'a static_vector \<Rightarrow> 'a option" where
  "sv_back s = sv_index (unat (sv_size s - 1)) s"

text \<open>An initializer list that is too long is refused before anything is changed.\<close>

definition sv_assign :: "'a list \<Rightarrow> 'a static_vector \<Rightarrow> 'a static_vector \<times> container_error option" where
  "sv_assign xs s =
     (if length xs > length (sv_data s) then (s, Some Out_of_range)
      else (s\<lparr>sv_size := of_nat (length xs), sv_data := xs @ drop (length xs) (sv_data s)\<rparr>, None))"

definition sv_assign_pair :: "'a list \<times> u64 \<Rightarrow> 'a static_vector \<Rightarrow> 'a static_vector" where
  "sv_assign_pair p s = s\<lparr>sv_size := snd p, sv_data := fst p\<rparr>"

definition sv_swap ::
  "'a static_vector \<Rightarrow> 'a static_vector \<Rightarrow> 'a static_vector \<times> 'a static_vector" where
  "sv_swap a b = (a\<lparr>sv_size := sv_size b, sv_data := sv_data b\<rparr>, b\<lparr>sv_size := sv_size a, sv_data := sv_data a\<rparr>)"

text \<open>From \<open>begin()\<close> to \<open>end()\<close>.\<close>

definition sv_iterate :: "'a static_vector \<Rightarrow> 'a option list" where
  "sv_iterate s = map (\<lambda>i. sv_index i s) [0..<unat (sv_size s)]"

section \<open>The vector of chunks\<close>

type_synonym 'a stable_vector = "'a static_vector list"

definition stable_empty :: "'a stable_vector \<Rightarrow> bool" where
  "stable_empty v \<longleftrightarrow> length v = 0"

definition stable_size :: "nat \<Rightarrow> 'a stable_vector \<Rightarrow> nat" where
  "stable_size N v = (if stable_empty v then 0 else (length v - 1) * N + unat (sv_size (last v)))"

definition stable_capacity :: "nat \<Rightarrow> 'a stable_vector \<Rightarrow> nat" where
  "stable_capacity N v = length v * N"

definition add_chunk :: "nat \<Rightarrow> 'a \<Rightarrow> 'a stable_vector \<Rightarrow> 'a stable_vector" where
  "add_chunk N d v = v @ [sv_new N d]"

definition with_last_chunk :: "nat \<Rightarrow> 'a \<Rightarrow> 'a stable_vector \<Rightarrow> 'a stable_vector" where
  "with_last_chunk N d v =
     (if stable_empty v \<or> unat (sv_size (last v)) = N then add_chunk N d v else v)"

definition stable_emplace_back ::
  "nat \<Rightarrow> 'a \<Rightarrow> 'a \<Rightarrow> 'a stable_vector \<Rightarrow> 'a stable_vector \<times> container_error option" where
  "stable_emplace_back N d x v =
     (let v = with_last_chunk N d v
      in case sv_emplace_back x (last v) of (c, r) \<Rightarrow> (butlast v @ [c], r))"

function reserve_loop :: "nat \<Rightarrow> 'a \<Rightarrow> int \<Rightarrow> 'a stable_vector \<Rightarrow> 'a stable_vector" where
  "reserve_loop N d i v =
     (if 0 < i \<and> 0 < N then reserve_loop N d (i - int N) (add_chunk N d v) else v)"
  by pat_completeness auto
termination
  by (relation "measure (\<lambda>(N, d, i, v). nat i)") auto

declare reserve_loop.simps [simp del]

definition stable_reserve :: "nat \<Rightarrow> 'a \<Rightarrow> nat \<Rightarrow> 'a stable_vector \<Rightarrow> 'a stable_vector" where
  "stable_reserve N d n v = reserve_loop N d (int n - int (stable_capacity N v)) v"

definition stable_index :: "nat \<Rightarrow> nat \<Rightarrow> 'a stable_vector \<Rightarrow> 'a option" where
  "stable_index N i v = (if i div N < length v then sv_index (i mod N) (v ! (i div N)) else None)"

definition stable_store :: "nat \<Rightarrow> nat \<Rightarrow> 'a \<Rightarrow> 'a stable_vector \<Rightarrow> 'a stable_vector option" where
  "stable_store N i x v =
     (if i div N < length v
      then map_option (\<lambda>c. v[i div N := c]) (sv_store (i mod N) x (v ! (i div N))) else None)"

definition stable_at :: "nat \<Rightarrow> nat \<Rightarrow> 'a stable_vector \<Rightarrow> container_error + 'a option" where
  "stable_at N i v = (if i \<ge> stable_size N v then Inl Out_of_range else Inr (stable_index N i v))"

definition stable_front :: "'a stable_vector \<Rightarrow> 'a option" where
  "stable_front v = (case v of [] \<Rightarrow> None | c # cs \<Rightarrow> sv_front c)"

definition stable_iterate :: "nat \<Rightarrow> 'a stable_vector \<Rightarrow> 'a option list" where
  "stable_iterate N v = map (\<lambda>i. stable_index N i v) [0..<stable_size N v]"

definition stable_equal :: "nat \<Rightarrow> 'a stable_vector \<Rightarrow> 'a stable_vector \<Rightarrow> bool" where
  "stable_equal N v w \<longleftrightarrow>
     stable_size N v = stable_size N w \<and> list_all2 (=) (stable_iterate N v) (stable_iterate N w)"

text \<open>The constructors: a number of values, a range, a list, a copy.\<close>

fun emplace_all ::
  "nat \<Rightarrow> 'a \<Rightarrow> 'a list \<Rightarrow> 'a stable_vector \<Rightarrow> 'a stable_vector \<times> container_error option" where
  "emplace_all N d [] v = (v, None)"
| "emplace_all N d (x # xs) v = (case stable_emplace_back N d x v of
     (v', Some e) \<Rightarrow> (v', Some e)
   | (v', None) \<Rightarrow> emplace_all N d xs v')"

definition stable_of_count :: "nat \<Rightarrow> 'a \<Rightarrow> nat \<Rightarrow> 'a \<Rightarrow> 'a stable_vector \<times> container_error option" where
  "stable_of_count N d n x = emplace_all N d (replicate n x) []"

definition stable_of_range :: "nat \<Rightarrow> 'a \<Rightarrow> 'a list \<Rightarrow> 'a stable_vector \<times> container_error option" where
  "stable_of_range N d xs = emplace_all N d xs []"

text \<open>\<open>resize\<close>: the loop emplaces until the size is reached.\<close>

partial_function (option) emplace_until ::
  "nat \<Rightarrow> 'a \<Rightarrow> nat \<Rightarrow> 'a \<Rightarrow> 'a stable_vector \<Rightarrow> ('a stable_vector \<times> container_error option) option" where
  "emplace_until N d n x v =
     (if stable_size N v < n
      then case stable_emplace_back N d x v of
        (v', Some e) \<Rightarrow> Some (v', Some e)
      | (v', None) \<Rightarrow> emplace_until N d n x v'
      else Some (v, None))"

definition stable_resize ::
  "nat \<Rightarrow> 'a \<Rightarrow> nat \<Rightarrow> 'a \<Rightarrow> 'a stable_vector \<Rightarrow> ('a stable_vector \<times> container_error option) option" where
  "stable_resize N d n x v =
     emplace_until N d n x (if n > stable_capacity N v then stable_reserve N d n v else v)"

section \<open>Iterators\<close>

text \<open>An iterator is an index into its container.\<close>

definition iter_add :: "u64 \<Rightarrow> u64 \<Rightarrow> u64" where
  "iter_add it i = it + i"

definition iter_sub :: "u64 \<Rightarrow> u64 \<Rightarrow> u64" where
  "iter_sub it i = it - i"

definition iter_distance :: "u64 \<Rightarrow> u64 \<Rightarrow> int" where
  "iter_distance a b = sint (a - b)"

definition iter_less :: "u64 \<Rightarrow> u64 \<Rightarrow> bool" where
  "iter_less a b \<longleftrightarrow> a < b"

text \<open>\<open>operators.hpp\<close> derives the others.\<close>

definition op_greater :: "('a \<Rightarrow> 'a \<Rightarrow> bool) \<Rightarrow> 'a \<Rightarrow> 'a \<Rightarrow> bool" where
  "op_greater lt x y = lt y x"

definition op_less_eq :: "('a \<Rightarrow> 'a \<Rightarrow> bool) \<Rightarrow> 'a \<Rightarrow> 'a \<Rightarrow> bool" where
  "op_less_eq lt x y \<longleftrightarrow> \<not> lt y x"

definition op_greater_eq :: "('a \<Rightarrow> 'a \<Rightarrow> bool) \<Rightarrow> 'a \<Rightarrow> 'a \<Rightarrow> bool" where
  "op_greater_eq lt x y \<longleftrightarrow> \<not> lt x y"

definition op_unequal :: "('a \<Rightarrow> 'a \<Rightarrow> bool) \<Rightarrow> 'a \<Rightarrow> 'a \<Rightarrow> bool" where
  "op_unequal eq x y \<longleftrightarrow> \<not> eq x y"

definition post_increment :: "('a \<Rightarrow> 'a) \<Rightarrow> 'a \<Rightarrow> 'a \<times> 'a" where
  "post_increment inc x = (x, inc x)"

definition iter_index :: "nat \<Rightarrow> 'a stable_vector \<Rightarrow> u64 \<Rightarrow> u64 \<Rightarrow> 'a option" where
  "iter_index N v it n = stable_index N (unat (iter_add it n)) v"

section \<open>A pointer with a size\<close>

record c_array =
  ca_base :: nat
  ca_size :: u64

definition ca_index :: "'a list \<Rightarrow> c_array \<Rightarrow> nat \<Rightarrow> 'a option" where
  "ca_index mem a i = (if ca_base a + i < length mem then Some (mem ! (ca_base a + i)) else None)"

definition ca_at :: "'a list \<Rightarrow> c_array \<Rightarrow> u64 \<Rightarrow> container_error + 'a option" where
  "ca_at mem a i = (if i < ca_size a then Inr (ca_index mem a (unat i)) else Inl Out_of_range)"

definition ca_slice :: "u64 \<Rightarrow> u64 \<Rightarrow> c_array \<Rightarrow> c_array" where
  "ca_slice start stop a = \<lparr>ca_base = ca_base a + unat start, ca_size = stop - start\<rparr>"

definition ca_pop_front :: "c_array \<Rightarrow> c_array" where
  "ca_pop_front a = \<lparr>ca_base = ca_base a + 1, ca_size = ca_size a - 1\<rparr>"

definition ca_pop_back :: "c_array \<Rightarrow> c_array" where
  "ca_pop_back a = a\<lparr>ca_size := ca_size a - 1\<rparr>"

definition ca_iterate :: "'a list \<Rightarrow> c_array \<Rightarrow> 'a option list" where
  "ca_iterate mem a = map (ca_index mem a) [0..<unat (ca_size a)]"

section \<open>Static vectors hold a list\<close>

text \<open>A vector in order: its size is within its array, and the rest of the array is untouched.\<close>

definition sv_elems :: "'a static_vector \<Rightarrow> 'a list" where
  "sv_elems s = take (unat (sv_size s)) (sv_data s)"

definition sv_ok :: "nat \<Rightarrow> 'a \<Rightarrow> 'a static_vector \<Rightarrow> bool" where
  "sv_ok N d s \<longleftrightarrow> unat (sv_size s) \<le> N \<and> length (sv_data s) = N \<and>
     drop (unat (sv_size s)) (sv_data s) = replicate (N - unat (sv_size s)) d"

lemma sv_ok_data: "sv_ok N d s \<Longrightarrow> sv_data s = sv_elems s @ replicate (N - unat (sv_size s)) d"
  unfolding sv_ok_def sv_elems_def by (metis append_take_drop_id)

lemma length_sv_elems: "sv_ok N d s \<Longrightarrow> length (sv_elems s) = unat (sv_size s)"
  unfolding sv_elems_def sv_ok_def by simp

lemma sv_ok_new [simp]: "sv_ok N d (sv_new N d)" "sv_elems (sv_new N d) = []"
  "sv_size (sv_new N d) = 0"
  by (simp_all add: sv_ok_def sv_new_def sv_elems_def)

lemma unat_suc: "unat (w :: u64) < N \<Longrightarrow> N < 2 ^ 64 \<Longrightarrow> unat (w + 1) = Suc (unat w)"
  by (simp add: unat_add_lem [THEN iffD1])

lemma sv_emplace_back_ok:
  assumes "sv_ok N d s" and "unat (sv_size s) < N" and "N < 2 ^ 64"
  shows "\<exists>s'. sv_emplace_back x s = (s', None) \<and> sv_ok N d s' \<and> sv_elems s' = sv_elems s @ [x] \<and>
    unat (sv_size s') = Suc (unat (sv_size s))"
proof -
  define k where "k = unat (sv_size s)"
  have data: "sv_data s = sv_elems s @ d # replicate (N - Suc k) d"
    using sv_ok_data [OF assms(1)] assms(2) unfolding k_def by (metis Suc_diff_Suc replicate_Suc)
  have k: "length (sv_elems s) = k"
    using length_sv_elems [OF assms(1)] by (simp add: k_def)
  define s' where "s' = s\<lparr>sv_size := sv_size s + 1, sv_data := sv_elems s @ x # replicate (N - Suc k) d\<rparr>"
  have "(sv_data s)[k := x] = sv_elems s @ x # replicate (N - Suc k) d"
    unfolding data by (simp add: list_update_append k)
  then have "sv_emplace_back x s = (s', None)"
    using assms(1,2) by (simp add: sv_emplace_back_def s'_def sv_ok_def flip: k_def)
  moreover have "unat (sv_size s') = Suc k"
    using unat_suc [OF assms(2,3)] by (simp add: s'_def k_def)
  moreover have "sv_elems s' = sv_elems s @ [x]"
    using \<open>unat (sv_size s') = Suc k\<close> k unfolding sv_elems_def [of s'] by (simp add: s'_def)
  ultimately show ?thesis
    using assms(2) k unfolding sv_ok_def by (auto simp: s'_def k_def)
qed

lemma sv_index_ok: "sv_ok N d s \<Longrightarrow> i < unat (sv_size s) \<Longrightarrow> sv_index i s = Some (sv_elems s ! i)"
  unfolding sv_index_def sv_elems_def sv_ok_def by auto

section \<open>Stable vectors hold a list\<close>

definition stable_elems :: "'a stable_vector \<Rightarrow> 'a list" where
  "stable_elems v = concat (map sv_elems v)"

definition stable_ok :: "nat \<Rightarrow> 'a \<Rightarrow> 'a stable_vector \<Rightarrow> bool" where
  "stable_ok N d v \<longleftrightarrow> (\<forall>c \<in> set v. sv_ok N d c) \<and> (\<forall>c \<in> set (butlast v). unat (sv_size c) = N)"

lemma length_full_chunks:
  "\<forall>c \<in> set v. sv_ok N d c \<and> unat (sv_size c) = N \<Longrightarrow> length (stable_elems v) = length v * N"
  by (induction v) (simp_all add: stable_elems_def length_sv_elems [of N d])

lemma stable_ok_snoc:
  "stable_ok N d (us @ [c]) \<longleftrightarrow> (\<forall>u \<in> set us. sv_ok N d u \<and> unat (sv_size u) = N) \<and> sv_ok N d c"
  unfolding stable_ok_def by auto

lemma stable_size_snoc: "stable_size N (us @ [c]) = length us * N + unat (sv_size c)"
  by (simp add: stable_size_def stable_empty_def)

lemma stable_elems_simps [simp]:
  "stable_elems [] = []"
  "stable_elems (us @ vs) = stable_elems us @ stable_elems vs"
  "stable_elems [c] = sv_elems c"
  by (simp_all add: stable_elems_def)

lemma stable_size_length: "stable_ok N d v \<Longrightarrow> stable_size N v = length (stable_elems v)"
proof (cases v rule: rev_cases)
  case (snoc us c)
  assume "stable_ok N d v"
  then show ?thesis
    using length_full_chunks [of us N d] length_sv_elems [of N d c]
    by (simp add: snoc stable_ok_snoc stable_size_snoc)
qed (simp add: stable_size_def stable_empty_def)

lemma stable_ok_Nil [simp]: "stable_ok N d []"
  by (simp add: stable_ok_def)

text \<open>The chunk the next element goes to: it has room, and the list is the same.\<close>

lemma with_last_chunk_ok:
  assumes "stable_ok N d v" and "0 < N"
  obtains us c where "with_last_chunk N d v = us @ [c]" and "stable_ok N d (us @ [c])"
    and "unat (sv_size c) < N" and "stable_elems (us @ [c]) = stable_elems v"
proof (cases v rule: rev_cases)
  case Nil
  then show ?thesis
    using that [of "[]" "sv_new N d"] assms
    by (simp add: with_last_chunk_def stable_empty_def add_chunk_def stable_ok_snoc [of N d "[]", simplified])
next
  case (snoc us c)
  show ?thesis
  proof (cases "unat (sv_size c) = N")
    case True
    then show ?thesis
      using that [of v "sv_new N d"] assms snoc
      by (simp add: with_last_chunk_def add_chunk_def stable_ok_snoc ball_Un
          stable_elems_simps(2) [of "us @ [c]" "[_]"] del: append_assoc)
  next
    case False
    then have "unat (sv_size c) < N"
      using assms snoc by (simp add: stable_ok_snoc sv_ok_def)
    then show ?thesis
      using that [of us c] assms snoc by (simp add: with_last_chunk_def stable_empty_def)
  qed
qed

lemma stable_emplace_back_ok:
  assumes "stable_ok N d v" and "0 < N" and "N < 2 ^ 64"
  shows "\<exists>v'. stable_emplace_back N d x v = (v', None) \<and> stable_ok N d v' \<and>
    stable_elems v' = stable_elems v @ [x]"
proof -
  obtain us c where last: "with_last_chunk N d v = us @ [c]" and ok: "stable_ok N d (us @ [c])"
      and room: "unat (sv_size c) < N" and same: "stable_elems (us @ [c]) = stable_elems v"
    using with_last_chunk_ok [OF assms(1,2)] .
  obtain c' where c': "sv_emplace_back x c = (c', None)" "sv_ok N d c'" "sv_elems c' = sv_elems c @ [x]"
    using sv_emplace_back_ok [OF _ room assms(3), of d x] ok by (auto simp: stable_ok_snoc)
  show ?thesis
    using last c' ok same by (auto simp: stable_emplace_back_def stable_ok_snoc)
qed

lemma emplace_all_ok:
  "stable_ok N d v \<Longrightarrow> 0 < N \<Longrightarrow> N < 2 ^ 64 \<Longrightarrow>
    \<exists>v'. emplace_all N d xs v = (v', None) \<and> stable_ok N d v' \<and> stable_elems v' = stable_elems v @ xs"
proof (induction xs arbitrary: v)
  case (Cons x xs)
  then obtain v1 where "stable_emplace_back N d x v = (v1, None)" "stable_ok N d v1"
      "stable_elems v1 = stable_elems v @ [x]"
    using stable_emplace_back_ok [of N d v x] by blast
  then show ?case
    using Cons.IH [of v1] Cons.prems by auto
qed simp

text \<open>An index is a chunk and a place in it.\<close>

lemma chunk_index:
  assumes "\<forall>u \<in> set us. length u = N" and "0 < N" and "i < length us * N"
  shows "concat us ! i = us ! (i div N) ! (i mod N)" and "i div N < length us"
proof -
  show "i div N < length us"
    using assms by (simp add: less_mult_imp_div_less)
  show "concat us ! i = us ! (i div N) ! (i mod N)"
    using assms
  proof (induction us arbitrary: i)
    case (Cons u us)
    show ?case
    proof (cases "i < N")
      case False
      then have "i div N = Suc ((i - N) div N)" and "i mod N = (i - N) mod N"
        using Cons.prems by (simp_all add: le_div_geq le_mod_geq)
      then show ?thesis
        using Cons False by (simp add: nth_append)
    qed (use Cons in \<open>simp add: nth_append\<close>)
  qed simp
qed

lemma stable_index_ok:
  assumes "stable_ok N d v" and "0 < N" and "i < stable_size N v"
  shows "stable_index N i v = Some (stable_elems v ! i)"
proof (cases v rule: rev_cases)
  case (snoc us c)
  have full: "\<forall>u \<in> set us. sv_ok N d u \<and> unat (sv_size u) = N" and c: "sv_ok N d c"
    using assms(1) by (simp_all add: snoc stable_ok_snoc)
  have len: "length (stable_elems us) = length us * N"
    by (rule length_full_chunks [OF full])
  show ?thesis
  proof (cases "i < length us * N")
    case True
    have "\<forall>u \<in> set (map sv_elems us). length u = N"
      using full by (simp add: length_sv_elems [of N d])
    note at = chunk_index [OF this assms(2), of i]
    have "i div N < length us" "concat (map sv_elems us) ! i = sv_elems (us ! (i div N)) ! (i mod N)"
      using at True by simp_all
    then show ?thesis
      using full assms(2) len True
      by (simp add: stable_index_def snoc nth_append stable_elems_def sv_index_ok [of N d])
  next
    case False
    then obtain j where i: "i = length us * N + j"
      using le_Suc_ex [of "length us * N" i] by auto
    have j: "j < unat (sv_size c)" "j < N"
      using assms(3) c i by (simp_all add: snoc stable_size_snoc sv_ok_def)
    then have "i div N = length us" "i mod N = j"
      by (simp_all add: i)
    then show ?thesis
      using j len sv_index_ok [OF c j(1)] by (simp add: stable_index_def snoc nth_append i)
  qed
qed (use assms in \<open>simp add: stable_size_def stable_empty_def\<close>)

lemma stable_chunk_size:
  assumes "stable_ok N d v" and "0 < N" and "i < stable_size N v"
  shows "i mod N < unat (sv_size (v ! (i div N)))"
proof (cases v rule: rev_cases)
  case (snoc us c)
  show ?thesis
  proof (cases "i < length us * N")
    case True
    then have "i div N < length us"
      using assms(2) by (simp add: div_less_iff_less_mult)
    then show ?thesis
      using assms(1,2) by (simp add: snoc stable_ok_snoc nth_append)
  next
    case False
    then obtain j where i: "i = length us * N + j"
      using le_Suc_ex [of "length us * N" i] by auto
    have j: "j < unat (sv_size c)" "j < N"
      using assms(1,3) i by (simp_all add: snoc stable_size_snoc stable_ok_snoc sv_ok_def)
    then have "i div N = length us" "i mod N = j"
      by (simp_all add: i)
    then show ?thesis
      using j by (simp add: snoc)
  qed
qed (use assms in \<open>simp add: stable_size_def stable_empty_def\<close>)

lemma stable_index_slack:
  assumes "stable_ok N d v" and "0 < N" and "i < stable_capacity N v" and "stable_size N v \<le> i"
  shows "stable_index N i v = Some d"
proof (cases v rule: rev_cases)
  case (snoc us c)
  obtain j where i: "i = length us * N + j"
    using assms(4) le_Suc_ex [of "length us * N" i] by (auto simp: snoc stable_size_snoc)
  have j: "j < N" "unat (sv_size c) \<le> j" and c: "sv_ok N d c"
    using assms by (simp_all add: snoc stable_capacity_def stable_size_snoc i stable_ok_snoc)
  then have "sv_data c ! j = d"
    using sv_ok_data [OF c] length_sv_elems [OF c] by (simp add: nth_append)
  moreover have "i div N = length us" "i mod N = j"
    using j by (simp_all add: i)
  ultimately show ?thesis
    using c j by (simp add: stable_index_def sv_index_def snoc sv_ok_def)
qed (use assms in \<open>simp add: stable_capacity_def\<close>)

lemma stable_size_capacity: "stable_ok N d v \<Longrightarrow> stable_size N v \<le> stable_capacity N v"
  by (cases v rule: rev_cases)
    (auto simp: stable_size_snoc stable_capacity_def stable_ok_snoc sv_ok_def stable_size_def stable_empty_def)

lemma length_sv_store [simp]: "sv_store i x c = Some c' \<Longrightarrow> sv_size c' = sv_size c"
  by (auto simp: sv_store_def split: if_splits)

section \<open>Reserving\<close>

lemma reserve_loop_chunks:
  "0 < N \<Longrightarrow> reserve_loop N d i v = v @ replicate (nat ((i + int N - 1) div int N)) (sv_new N d)"
proof (induction N d i v rule: reserve_loop.induct)
  case (1 N d i v)
  show ?case
  proof (cases "0 < i")
    case True
    define k where "k = (i - int N + int N - 1) div int N"
    have "(i + int N - 1) div int N = k + 1"
      using 1(2) div_add_self2 [of "int N" "i - 1"] by (simp add: k_def algebra_simps)
    moreover have "- 1 < k"
      using True 1(2) unfolding k_def by (simp add: pos_imp_zdiv_nonneg_iff less_le_trans [of "- 1" 0])
    ultimately have "nat ((i + int N - 1) div int N) = Suc (nat k)"
      by linarith
    then show ?thesis
      using 1 True by (subst reserve_loop.simps) (simp add: k_def add_chunk_def)
  next
    case False
    then have "(i + int N - 1) div int N \<le> (int N - 1) div int N"
      using 1(2) by (intro zdiv_mono1) simp_all
    also have "\<dots> = 0"
      using 1(2) by simp
    finally have "(i + int N - 1) div int N \<le> 0" .
    then show ?thesis
      using False by (subst reserve_loop.simps) simp
  qed
qed

lemma stable_reserve_chunks:
  assumes "0 < N" and "stable_capacity N v < n"
  shows "stable_reserve N d n v = v @ replicate (Suc ((n - 1) div N) - length v) (sv_new N d)"
proof -
  have n: "int (n - 1) = int n - 1"
    using assms(2) by simp
  have "int n - int (stable_capacity N v) + int N - 1 = int (n - 1) + (1 - int (length v)) * int N"
    unfolding n stable_capacity_def by (simp add: algebra_simps)
  then have "(int n - int (stable_capacity N v) + int N - 1) div int N = int ((n - 1) div N) + (1 - int (length v))"
    using assms(1) by (simp add: zdiv_int)
  then show ?thesis
    using reserve_loop_chunks [OF assms(1), of d "int n - int (stable_capacity N v)" v]
    unfolding stable_reserve_def by (simp only:) (rule arg_cong [where f = "\<lambda>k. v @ replicate k (sv_new N d)"], simp)
qed

section \<open>Resizing\<close>

lemma emplace_until_fills:
  assumes "sv_ok N d c" and "0 < N" and "N < 2 ^ 64"
    and "unat (sv_size c) + m \<le> N" and "n = length us * N + unat (sv_size c) + m"
  shows "\<exists>c'. emplace_until N d n x (us @ [c]) = Some (us @ [c'], None) \<and> sv_ok N d c' \<and>
    sv_elems c' = sv_elems c @ replicate m x"
  using assms
proof (induction m arbitrary: c)
  case 0
  then show ?case
    by (subst emplace_until.simps) (simp add: stable_size_snoc)
next
  case (Suc m)
  obtain c' where c': "sv_emplace_back x c = (c', None)" "sv_ok N d c'" "sv_elems c' = sv_elems c @ [x]"
      "unat (sv_size c') = Suc (unat (sv_size c))"
    using sv_emplace_back_ok [OF Suc.prems(1) _ Suc.prems(3), of x] Suc.prems by auto
  have "stable_emplace_back N d x (us @ [c]) = (us @ [c'], None)"
    using Suc.prems c' by (simp add: stable_emplace_back_def with_last_chunk_def stable_empty_def)
  then show ?case
    using Suc.IH [OF c'(2) assms(2,3)] Suc.prems c'
    by (subst emplace_until.simps) (simp add: stable_size_snoc replicate_append_same [symmetric])
qed

text \<open>
  C29. A vector of chunks is a list: whatever was emplaced is there in order, its size is the number of
  elements, an access is that of the list or refused, and a walk from begin to end sees the
  elements. Emplacing never fails.
\<close>

theorem stable_vector_refines_list:
  assumes "stable_ok N d v" and "0 < N" and "N < 2 ^ 64"
  shows "\<exists>v'. emplace_all N d xs v = (v', None) \<and> stable_ok N d v' \<and>
    stable_elems v' = stable_elems v @ xs \<and>
    stable_size N v' = length (stable_elems v @ xs) \<and>
    stable_iterate N v' = map Some (stable_elems v @ xs) \<and>
    (\<forall>i. stable_at N i v' = (if i < length (stable_elems v @ xs)
       then Inr (Some ((stable_elems v @ xs) ! i)) else Inl Out_of_range))"
proof -
  obtain v' where v': "emplace_all N d xs v = (v', None)" "stable_ok N d v'"
      "stable_elems v' = stable_elems v @ xs"
    using emplace_all_ok [OF assms] by blast
  have at: "stable_index N i v' = Some ((stable_elems v @ xs) ! i)" if "i < length (stable_elems v @ xs)" for i
    using stable_index_ok [OF v'(2) assms(2)] stable_size_length [OF v'(2)] that v'(3) by simp
  then have "stable_iterate N v' = map Some (stable_elems v @ xs)"
    using stable_size_length [OF v'(2)] v'(3) unfolding stable_iterate_def
    by (intro nth_equalityI) (simp_all del: map_append)
  then show ?thesis
    using v' stable_size_length [OF v'(2)] at by (auto simp: stable_at_def not_less)
qed

theorem stable_vector_refines_list_witness:
  "\<exists>v. emplace_all 2 0 [5, 6, 7] [] = (v, None) \<and> stable_size 2 v = 3 \<and>
    stable_at 2 2 v = Inr (Some (7 :: nat)) \<and> stable_at 2 3 v = Inl Out_of_range"
  using stable_vector_refines_list [of 2 0 "[]" "[5, 6, 7]"] by auto

lemma reserved_index:
  assumes "stable_ok N d v" and "0 < N" and "length v \<le> q" and "sv_ok N d c" and "sv_elems c = replicate m x"
    and "us = v @ replicate (q - length v) (sv_new N d)" and "i < q * N + m" and "m \<le> N"
  shows "stable_index N i (us @ [c]) =
    Some (if i < stable_size N v then stable_elems v ! i else if i div N < q then d else x)"
proof -
  have us: "length us = q"
    using assms by simp
  have size: "unat (sv_size c) = m"
    using length_sv_elems [OF assms(4)] assms(5) by simp
  have cap: "stable_size N v \<le> length v * N"
    using stable_size_capacity [OF assms(1)] by (simp add: stable_capacity_def)
  have "i < Suc q * N"
    using assms(7,8) by simp
  then have le: "i div N < Suc q"
    by (rule less_mult_imp_div_less)
  consider (old) "i div N < length v" | (skipped) "length v \<le> i div N" "i div N < q" | (last) "i div N = q"
    using le by linarith
  then show ?thesis
  proof cases
    case old
    then have "i < stable_capacity N v"
      using assms(2) by (simp add: stable_capacity_def div_less_iff_less_mult)
    moreover have "stable_index N i (us @ [c]) = stable_index N i v"
      using old us assms(3) by (simp add: stable_index_def nth_append assms(6))
    ultimately show ?thesis
      using stable_index_ok [OF assms(1,2), of i] stable_index_slack [OF assms(1,2), of i] old assms(3)
      by (auto simp: not_less)
  next
    case skipped
    have "stable_size N v \<le> i"
      using cap skipped(1) assms(2) by (simp add: less_eq_div_iff_mult_less_eq)
    then show ?thesis
      using skipped us assms(2) diff_less_mono [OF skipped(2,1)]
      by (simp add: stable_index_def nth_append assms(6) sv_index_def sv_new_def)
  next
    case last
    have "i mod N < m"
      using assms(7) div_mult_mod_eq [of i N] unfolding last by linarith
    moreover have "stable_size N v \<le> i"
      using cap last assms(2,3) by (metis le_trans less_eq_div_iff_mult_less_eq)
    ultimately show ?thesis
      using last us sv_index_ok [OF assms(4), of "i mod N"] by (simp add: stable_index_def nth_append size assms(5))
  qed
qed

lemma resize_reserves:
  assumes "stable_ok N d v" and "0 < N" and "N < 2 ^ 64" and "stable_capacity N v < n"
  shows "\<exists>v'. stable_resize N d n x v = Some (v', None) \<and> stable_size N v' = n \<and>
    (\<forall>i < n. stable_index N i v' = Some
       (if i < stable_size N v then stable_elems v ! i else if i div N < (n - 1) div N then d else x))"
proof -
  define q where "q = (n - 1) div N"
  have "length v * N \<le> n - 1"
    using assms(4) by (simp add: stable_capacity_def)
  then have q: "length v \<le> q"
    using assms(2) by (simp add: less_eq_div_iff_mult_less_eq q_def)
  define us where "us = v @ replicate (q - length v) (sv_new N d)"
  have us: "length us = q"
    using q by (simp add: us_def)
  have res: "stable_reserve N d n v = us @ [sv_new N d]"
    using stable_reserve_chunks [OF assms(2,4), of d, folded q_def] q
    by (simp add: us_def Suc_diff_le replicate_append_same)
  define m where "m = Suc ((n - 1) mod N)"
  have n: "n = q * N + m" "m \<le> N"
    using assms(4) mod_less_divisor [OF assms(2), of "n - 1"] div_mult_mod_eq [of "n - 1" N]
    unfolding q_def m_def by linarith+
  obtain c where c: "emplace_until N d n x (us @ [sv_new N d]) = Some (us @ [c], None)" "sv_ok N d c"
      "sv_elems c = replicate m x"
    using emplace_until_fills [of N d "sv_new N d" m n us x] assms n us by auto
  have "stable_size N (us @ [c]) = n"
    using length_sv_elems [OF c(2)] c(3) us n(1) by (simp add: stable_size_snoc)
  moreover have "\<forall>i < n. stable_index N i (us @ [c]) = Some
       (if i < stable_size N v then stable_elems v ! i else if i div N < q then d else x)"
    using reserved_index [OF assms(1,2) q c(2,3) us_def _ n(2)] n(1) by simp
  moreover have "stable_resize N d n x v = Some (us @ [c], None)"
    using c(1) assms(4) by (simp add: stable_resize_def res)
  ultimately show ?thesis
    unfolding q_def [symmetric] by blast
qed

lemma resize_has_room:
  assumes "stable_ok N d v" and "0 < N" and "N < 2 ^ 64"
    and "n \<le> stable_capacity N v" and "stable_size N v < n"
  shows "\<exists>v'. stable_resize N d n x v = Some (v', None) \<and> stable_ok N d v' \<and>
    stable_elems v' = stable_elems v @ replicate (n - stable_size N v) x"
proof -
  obtain us c where v: "v = us @ [c]"
    using assms(4,5) by (cases v rule: rev_cases) (auto simp: stable_capacity_def)
  define m where "m = n - stable_size N v"
  have ok: "sv_ok N d c" and m: "unat (sv_size c) + m \<le> N" "n = length us * N + unat (sv_size c) + m"
    using assms by (simp_all add: v stable_ok_snoc m_def stable_size_snoc stable_capacity_def)
  obtain c' where c': "emplace_until N d n x (us @ [c]) = Some (us @ [c'], None)" "sv_ok N d c'"
      "sv_elems c' = sv_elems c @ replicate m x"
    using emplace_until_fills [OF ok assms(2,3) m] by blast
  have "stable_ok N d (us @ [c'])"
    using assms(1) c'(2) by (simp add: v stable_ok_snoc)
  moreover have "stable_elems (us @ [c']) = stable_elems v @ replicate m x"
    by (simp add: c'(3) v)
  moreover have "stable_resize N d n x v = Some (us @ [c'], None)"
    using assms(4) c'(1) by (simp add: stable_resize_def v)
  ultimately show ?thesis
    unfolding m_def by blast
qed

text \<open>
  Resizing returns, and the vector then has the size asked for, or its own if that is larger. But when
  it is reserved for first, the chunks before the last one are only counted, not filled: where they
  were not full, the elements are the default and not the value given.
\<close>

theorem resize_skips_chunks:
  assumes "stable_ok N d v" and "0 < N" and "N < 2 ^ 64"
  shows "\<exists>v'. stable_resize N d n x v = Some (v', None) \<and>
    stable_size N v' = max n (stable_size N v) \<and>
    (\<forall>i < max n (stable_size N v). stable_index N i v' = Some
       (if i < stable_size N v then stable_elems v ! i
        else if stable_capacity N v < n \<and> i div N < (n - 1) div N then d else x))"
proof -
  note cap = stable_size_capacity [OF assms(1)]
  consider (grow) "stable_capacity N v < n" | (room) "n \<le> stable_capacity N v" "stable_size N v < n"
    | (enough) "n \<le> stable_size N v"
    by linarith
  then show ?thesis
  proof cases
    case grow
    then show ?thesis
      using resize_reserves [OF assms grow, of x] cap by (auto simp: max_def)
  next
    case room
    obtain v' where v': "stable_resize N d n x v = Some (v', None)" "stable_ok N d v'"
        "stable_elems v' = stable_elems v @ replicate (n - stable_size N v) x"
      using resize_has_room [OF assms room] by blast
    have size: "stable_size N v' = n"
      using stable_size_length [OF v'(2)] stable_size_length [OF assms(1)] room(2) v'(3) by simp
    have "stable_index N i v' = Some (if i < stable_size N v then stable_elems v ! i else x)" if "i < n" for i
      using stable_index_ok [OF v'(2) assms(2), of i] that stable_size_length [OF assms(1)]
      by (simp add: size v'(3) nth_append)
    then show ?thesis
      using v'(1) size room by (auto simp: max_def)
  next
    case enough
    then show ?thesis
      using cap stable_index_ok [OF assms(1,2)] emplace_until.simps [of N d n x v]
      by (simp add: stable_resize_def max_def)
  qed
qed

theorem resize_skips_chunks_witness:
  "\<exists>v. stable_resize 2 (0 :: nat) 5 7 [] = Some (v, None) \<and> stable_size 2 v = 5 \<and>
    stable_index 2 0 v = Some 0 \<and> stable_index 2 4 v = Some 7"
proof -
  have "stable_size 2 ([] :: nat stable_vector) = 0" "stable_capacity 2 ([] :: nat stable_vector) = 0"
    by (simp_all add: stable_size_def stable_empty_def stable_capacity_def)
  then obtain v where "stable_resize 2 (0 :: nat) 5 7 [] = Some (v, None)" "stable_size 2 v = 5"
      and at: "\<forall>i < 5. stable_index 2 i v = Some (if i div 2 < (5 - 1) div 2 then 0 else 7)"
    using resize_skips_chunks [of 2 0 "[]" 5 "7 :: nat"] by auto
  then show ?thesis
    using at [rule_format, of 0] at [rule_format, of 4] by simp
qed

section \<open>Past the end\<close>

lemma sv_emplace_back_full:
  "length (sv_data s) \<le> unat (sv_size s) \<Longrightarrow>
    sv_emplace_back x s = (s\<lparr>sv_size := sv_size s + 1\<rparr>, Some Out_of_range)"
  by (simp add: sv_emplace_back_def)

lemma overrun_size:
  "unat (sv_size s) = length (sv_data s) \<Longrightarrow> length (sv_data s) + m < 2 ^ 64 \<Longrightarrow>
    ((\<lambda>s. fst (sv_emplace_back x s)) ^^ m) s = s\<lparr>sv_size := sv_size s + of_nat m\<rparr>"
proof (induction m)
  case (Suc m)
  have "unat (sv_size s + of_nat m) = length (sv_data s) + m"
    using Suc.prems by (simp add: unat_word_ariths unat_of_nat)
  then show ?case
    using Suc by (simp add: sv_emplace_back_full algebra_simps)
qed simp

lemma pop_backs: "(sv_pop_back ^^ m) s = s\<lparr>sv_size := sv_size s - of_nat m\<rparr>"
  by (induction m) (simp_all add: sv_pop_back_def algebra_simps)

text \<open>
  A full vector refuses every further element, but counts it: after m of them its size is m more than
  its capacity, a walk over it leaves the array, and only m calls of \<open>pop_back\<close> repair it. An empty
  vector that is popped counts the largest number of elements.
\<close>

theorem full_vector_keeps_counting:
  assumes "unat (sv_size s) = sv_capacity s" and "sv_capacity s + m < 2 ^ 64"
  shows "((\<lambda>s. fst (sv_emplace_back x s)) ^^ m) s = s\<lparr>sv_size := sv_size s + of_nat m\<rparr> \<and>
    unat (sv_size (s\<lparr>sv_size := sv_size s + of_nat m\<rparr>)) = sv_capacity s + m \<and>
    snd (sv_emplace_back x (s\<lparr>sv_size := sv_size s + of_nat m\<rparr>)) = Some Out_of_range \<and>
    sv_iterate (s\<lparr>sv_size := sv_size s + of_nat m\<rparr>) = map Some (sv_data s) @ replicate m None \<and>
    (sv_pop_back ^^ m) (s\<lparr>sv_size := sv_size s + of_nat m\<rparr>) = s \<and>
    unat (sv_size (sv_pop_back (sv_clear s))) = 2 ^ 64 - 1"
proof -
  have size: "unat (sv_size s + of_nat m) = length (sv_data s) + m"
    using assms by (simp add: unat_word_ariths unat_of_nat sv_capacity_def)
  have "sv_iterate (s\<lparr>sv_size := sv_size s + of_nat m\<rparr>) = map Some (sv_data s) @ replicate m None"
    unfolding sv_iterate_def by (intro nth_equalityI) (auto simp: size sv_index_def nth_append)
  then show ?thesis
    using assms overrun_size [of s m x] size
    by (simp add: sv_capacity_def sv_emplace_back_full pop_backs)
      (simp add: sv_pop_back_def sv_clear_def unsigned_minus_1_eq_mask mask_eq_exp_minus_1)
qed

theorem full_vector_keeps_counting_witness:
  "unat (sv_size (fst (sv_emplace_back (9 :: nat) \<lparr>sv_size = 2, sv_data = [7, 8]\<rparr>))) = 3"
  using full_vector_keeps_counting [of "\<lparr>sv_size = 2, sv_data = [7, 8]\<rparr>" 1 "9 :: nat"]
  by (simp add: sv_capacity_def)

text \<open>A slice is a view of its range, as long as it ends behind its start.\<close>

lemma ca_slice_at:
  assumes "start \<le> stop" and "i < stop - start"
  shows "ca_at mem (ca_slice start stop a) i = Inr (ca_index mem a (unat start + unat i))"
  using assms by (simp add: ca_at_def ca_slice_def ca_index_def add.assoc)

end
