(* ===== verification/Thread_Data.thy ===== *)
theory Thread_Data
  imports Containers
begin

text \<open>
  Data per thread, \<open>library/thread_data.hpp\<close> and \<open>thread_data_growth.hpp\<close>: a vector of chunks with one
  element for the index of each thread, that grows by a chunk when a thread has an index beyond
  it (\<open>grow_data\<close> of \<open>thread_info.cpp\<close>).

  \<open>N\<close> is \<open>max_supported_threads\<close>, which is both the size of a chunk and the first number of elements. A
  container is registered for growth when it is first used, as the list \<open>grown\<close> of the state has it.
\<close>

section \<open>Data constructed once per thread\<close>

record 'a thread_data =
  td_values :: "'a stable_vector"
  td_constructed :: "bool stable_vector"

definition constructed_index :: "nat \<Rightarrow> nat \<Rightarrow> 'a stable_vector \<Rightarrow> (container_error + 'a) option" where
  "constructed_index N i v = (case stable_at N i v of
     Inl e \<Rightarrow> Some (Inl e)
   | Inr r \<Rightarrow> map_option Inr r)"

text \<open>The first use: \<open>construct_on_init\<close>, and the flags of \<open>construct\<close>.\<close>

definition thread_data_init ::
  "nat \<Rightarrow> 'a \<Rightarrow> ('a thread_data \<times> container_error option) option" where
  "thread_data_init N d = do {
     (values, r) \<leftarrow> stable_resize N d N d [];
     (flags, r') \<leftarrow> stable_resize N False N False [];
     Some (\<lparr>td_values = values, td_constructed = flags\<rparr>, if r = None then r' else r)
   }"

text \<open>\<open>construct(construct_on_thread)\<close> and the reference it returns: the value of the index.\<close>

definition thread_construct ::
  "nat \<Rightarrow> nat \<Rightarrow> 'a \<Rightarrow> 'a thread_data \<Rightarrow> ('a thread_data \<times> (container_error + 'a)) option" where
  "thread_construct N i x s = do {
     flag \<leftarrow> constructed_index N i (td_constructed s);
     case flag of
       Inl e \<Rightarrow> Some (s, Inl e)
     | Inr True \<Rightarrow> do {
         v \<leftarrow> constructed_index N i (td_values s);
         Some (s, v)
       }
     | Inr False \<Rightarrow> do {
         old \<leftarrow> constructed_index N i (td_values s);
         case old of
           Inl e \<Rightarrow> Some (s, Inl e)
         | Inr _ \<Rightarrow> do {
             values \<leftarrow> stable_store N i x (td_values s);
             flags \<leftarrow> stable_store N i True (td_constructed s);
             v \<leftarrow> constructed_index N i values;
             Some (\<lparr>td_values = values, td_constructed = flags\<rparr>, v)
           }
       }
   }"

text \<open>Without flags, as for pointers: what is there is not null.\<close>

definition thread_construct_ptr ::
  "nat \<Rightarrow> nat \<Rightarrow> 'a \<Rightarrow> 'a option stable_vector \<Rightarrow>
    ('a option stable_vector \<times> (container_error + 'a option)) option" where
  "thread_construct_ptr N i x v = do {
     old \<leftarrow> constructed_index N i v;
     case old of
       Inl e \<Rightarrow> Some (v, Inl e)
     | Inr (Some y) \<Rightarrow> Some (v, Inr (Some y))
     | Inr None \<Rightarrow> do {
         v \<leftarrow> stable_store N i (Some x) v;
         r \<leftarrow> constructed_index N i v;
         Some (v, r)
       }
   }"

section \<open>Growing\<close>

text \<open>What every container registers: one chunk more when an index is asked for that it has not.\<close>

definition grow_functor ::
  "nat \<Rightarrow> 'a \<Rightarrow> nat \<Rightarrow> 'a stable_vector \<Rightarrow> ('a stable_vector \<times> container_error option) option" where
  "grow_functor N d n v =
     (if stable_capacity N v < n + 1
      then (let v = stable_reserve N d (stable_capacity N v + 1) v
            in stable_resize N d (stable_capacity N v) d v)
      else Some (v, None))"

definition grow_flags ::
  "nat \<Rightarrow> nat \<Rightarrow> bool stable_vector \<Rightarrow> (bool stable_vector \<times> container_error option) option" where
  "grow_flags N n v =
     (if n \<ge> stable_size N v
      then (let v = stable_reserve N False (stable_capacity N v + 1) v
            in stable_resize N False (stable_capacity N v) False v)
      else Some (v, None))"

record 'a growth =
  peak :: nat
  grown :: "'a stable_vector list"

fun grow_all :: "nat \<Rightarrow> 'a \<Rightarrow> nat \<Rightarrow> 'a stable_vector list \<Rightarrow> 'a stable_vector list option" where
  "grow_all N d n [] = Some []"
| "grow_all N d n (v # vs) = do {
     (v', r) \<leftarrow> grow_functor N d n v;
     vs' \<leftarrow> grow_all N d n vs;
     Some (v' # vs')
   }"

definition grow_data :: "nat \<Rightarrow> 'a \<Rightarrow> nat \<Rightarrow> 'a growth \<Rightarrow> 'a growth option" where
  "grow_data N d tid g =
     (if tid \<ge> peak g
      then do {
        vs \<leftarrow> grow_all N d (tid + 1) (grown g);
        Some (g\<lparr>grown := vs, peak := peak g + N\<rparr>)
      }
      else Some g)"

text \<open>A container that is used for the first time.\<close>

definition register_container :: "nat \<Rightarrow> 'a \<Rightarrow> 'a growth \<Rightarrow> 'a growth option" where
  "register_container N d g = do {
     (v, r) \<leftarrow> stable_resize N d N d [];
     Some (g\<lparr>grown := grown g @ [v]\<rparr>)
   }"

section \<open>Slots\<close>

text \<open>What the data of threads need of a container: the elements, read and replaced by index.\<close>

locale slots =
  fixes ok :: "'v \<Rightarrow> bool"
    and elems :: "'v \<Rightarrow> 'a list"
    and get :: "nat \<Rightarrow> 'v \<Rightarrow> (container_error + 'a) option"
    and put :: "nat \<Rightarrow> 'a \<Rightarrow> 'v \<Rightarrow> 'v option"
  assumes get: "ok v \<Longrightarrow> get i v = Some (if i < length (elems v) then Inr (elems v ! i) else Inl Out_of_range)"
    and put: "ok v \<Longrightarrow> i < length (elems v) \<Longrightarrow>
      \<exists>v'. put i x v = Some v' \<and> ok v' \<and> elems v' = (elems v)[i := x]"
begin

lemma put_get:
  assumes "ok v" and "i < length (elems v)"
  shows "\<exists>v'. put i x v = Some v' \<and> ok v' \<and> elems v' = (elems v)[i := x] \<and> get i v' = Some (Inr x)"
  using put [OF assms] get assms(2) by fastforce

end

lemma stable_store_index:
  assumes "stable_ok N d v" and "0 < N" and "i < stable_size N v"
  shows "\<exists>v'. stable_store N i x v = Some v' \<and> stable_ok N d v' \<and> stable_size N v' = stable_size N v \<and>
    (\<forall>j. stable_index N j v' = (if j = i then Some x else stable_index N j v))"
proof -
  define q where "q = i div N"
  have cap: "i < stable_capacity N v"
    using assms(3) stable_size_capacity [OF assms(1)] by linarith
  then have q: "q < length v"
    using assms(2) by (simp add: q_def stable_capacity_def div_less_iff_less_mult)
  have ok: "sv_ok N d (v ! q)"
    using assms(1) q by (simp add: stable_ok_def)
  define c where "c = (v ! q)\<lparr>sv_data := (sv_data (v ! q))[i mod N := x]\<rparr>"
  have inside: "i mod N < unat (sv_size (v ! q))"
    using stable_chunk_size [OF assms] by (simp add: q_def)
  have okc: "sv_ok N d c"
    using ok inside by (simp add: sv_ok_def c_def)
  have len: "i mod N < length (sv_data (v ! q))"
    using ok assms(2) by (auto simp: sv_ok_def)
  then have "sv_store (i mod N) x (v ! q) = Some c"
    unfolding sv_store_def c_def by simp
  then have res: "stable_store N i x v = Some (v[q := c])"
    unfolding stable_store_def q_def [symmetric] using q by simp
  have sizes: "map sv_size (v[q := c]) = map sv_size v"
    using q by (simp add: map_update c_def list_update_same_conv)
  have full: "(\<forall>u \<in> set (butlast w). unat (sv_size u) = N) \<longleftrightarrow> (\<forall>z \<in> set (butlast (map sv_size w)). unat z = N)"
    for w :: "'a stable_vector"
    by (simp flip: map_butlast)
  have "stable_ok N d (v[q := c])"
    using okc assms(1) set_update_subset_insert [of v q c] unfolding stable_ok_def full sizes by blast
  moreover have "stable_size N (v[q := c]) = stable_size N v"
    using q by (cases "q = length v - 1")
      (simp_all add: stable_size_def stable_empty_def last_conv_nth nth_list_update c_def)
  moreover have "stable_index N j (v[q := c]) = (if j = i then Some x else stable_index N j v)" for j
  proof (cases "j div N = q")
    case True
    have "j mod N = i mod N \<longleftrightarrow> j = i"
      using True unfolding q_def by (metis div_mult_mod_eq)
    moreover have "j mod N < length (sv_data (v ! q))"
      using ok assms(2) by (auto simp: sv_ok_def)
    ultimately show ?thesis
      using True q len unfolding stable_index_def sv_index_def True by (auto simp: c_def nth_list_update)
  next
    case False
    then show ?thesis
      by (auto simp: stable_index_def q_def)
  qed
  ultimately show ?thesis
    using res by blast
qed

interpretation chunks: slots "\<lambda>v. 0 < N \<and> stable_ok N d v" stable_elems "constructed_index N" "stable_store N"
proof
  fix v :: "'a stable_vector" and i x
  assume ok: "0 < N \<and> stable_ok N d v"
  then show "constructed_index N i v =
      Some (if i < length (stable_elems v) then Inr (stable_elems v ! i) else Inl Out_of_range)"
    using stable_index_ok [of N d v i] stable_size_length [of N d v]
    by (simp add: constructed_index_def stable_at_def)
  assume i: "i < length (stable_elems v)"
  obtain v' where v': "stable_store N i x v = Some v'" "stable_ok N d v'" "stable_size N v' = stable_size N v"
      and at: "\<And>j. stable_index N j v' = (if j = i then Some x else stable_index N j v)"
    using stable_store_index [of N d v i x] ok i stable_size_length [of N d v] by auto
  have len: "length (stable_elems v') = length (stable_elems v)"
    using stable_size_length [OF v'(2)] stable_size_length [of N d v] ok v'(3) by simp
  have "stable_elems v' = (stable_elems v)[i := x]"
  proof (rule nth_equalityI)
    fix j
    assume "j < length (stable_elems v')"
    then show "stable_elems v' ! j = (stable_elems v)[i := x] ! j"
      using at [of j] stable_index_ok [OF v'(2), of j] stable_index_ok [of N d v j] ok i len
        stable_size_length [OF v'(2)] v'(3) by (auto simp: nth_list_update split: if_splits)
  qed (simp add: len)
  then show "\<exists>v'. stable_store N i x v = Some v' \<and> (0 < N \<and> stable_ok N d v') \<and>
      stable_elems v' = (stable_elems v)[i := x]"
    using v' ok by blast
qed

section \<open>Once per thread\<close>

definition thread_data_ok :: "nat \<Rightarrow> 'a \<Rightarrow> 'a thread_data \<Rightarrow> bool" where
  "thread_data_ok N d s \<longleftrightarrow> 0 < N \<and> stable_ok N d (td_values s) \<and> stable_ok N False (td_constructed s) \<and>
     length (stable_elems (td_values s)) = length (stable_elems (td_constructed s))"

lemma stable_resize_empty:
  assumes "0 < N" and "N < 2 ^ 64"
  shows "\<exists>v. stable_resize N d N x [] = Some (v, None) \<and> stable_ok N d v \<and> stable_elems v = replicate N x \<and>
    stable_capacity N v = N"
proof -
  have reserve: "stable_reserve N d N [] = [sv_new N d]"
    using stable_reserve_chunks [of N "[]" N d] assms(1) by (simp add: stable_capacity_def)
  obtain c where c: "emplace_until N d N x ([] @ [sv_new N d]) = Some ([] @ [c], None)" "sv_ok N d c"
      "sv_elems c = replicate N x"
    using emplace_until_fills [of N d "sv_new N d" N N "[]" x] assms by auto
  have "stable_resize N d N x [] = Some ([c], None)"
    using c(1) assms(1) by (simp add: stable_resize_def stable_capacity_def reserve)
  moreover have "stable_ok N d [c]"
    using stable_ok_snoc [of N d "[]" c] c(2) by simp
  ultimately show ?thesis
    using c(3) by (intro exI [of _ "[c]"]) (simp add: stable_capacity_def)
qed

lemma thread_data_init_ok:
  assumes "0 < N" and "N < 2 ^ 64"
  shows "\<exists>s. thread_data_init N d = Some (s, None) \<and> thread_data_ok N d s \<and>
    stable_elems (td_values s) = replicate N d \<and> stable_elems (td_constructed s) = replicate N False"
proof -
  obtain v where "stable_resize N d N d [] = Some (v, None)" "stable_ok N d v" "stable_elems v = replicate N d"
    using stable_resize_empty [OF assms, of d d] by blast
  moreover obtain f where "stable_resize N False N False [] = Some (f, None)" "stable_ok N False f"
      "stable_elems f = replicate N False"
    using stable_resize_empty [OF assms, of False False] by blast
  ultimately show ?thesis
    using assms(1) by (auto simp: thread_data_init_def thread_data_ok_def)
qed

lemma thread_construct_spec:
  assumes "thread_data_ok N d s"
  shows "\<exists>s'. thread_construct N i x s = Some (s',
      if i < length (stable_elems (td_values s)) then Inr (stable_elems (td_values s') ! i) else Inl Out_of_range) \<and>
    thread_data_ok N d s' \<and>
    (let new = i < length (stable_elems (td_values s)) \<and> \<not> stable_elems (td_constructed s) ! i
     in stable_elems (td_values s') = (if new then (stable_elems (td_values s))[i := x] else stable_elems (td_values s)) \<and>
        stable_elems (td_constructed s') =
          (if new then (stable_elems (td_constructed s))[i := True] else stable_elems (td_constructed s)))"
proof -
  have ok: "0 < N \<and> stable_ok N d (td_values s)" "0 < N \<and> stable_ok N False (td_constructed s)"
      and len: "length (stable_elems (td_constructed s)) = length (stable_elems (td_values s))"
    using assms by (simp_all add: thread_data_ok_def)
  note get = chunks.get [OF ok(1), of i] chunks.get [OF ok(2), of i]
  consider (out) "\<not> i < length (stable_elems (td_values s))"
    | (old) "i < length (stable_elems (td_values s))" "stable_elems (td_constructed s) ! i"
    | (new) "i < length (stable_elems (td_values s))" "\<not> stable_elems (td_constructed s) ! i"
    by blast
  then show ?thesis
  proof cases
    case new
    obtain v where v: "stable_store N i x (td_values s) = Some v" "stable_ok N d v"
        "stable_elems v = (stable_elems (td_values s))[i := x]" "constructed_index N i v = Some (Inr x)"
      using chunks.put_get [OF ok(1) new(1)] by blast
    obtain f where f: "stable_store N i True (td_constructed s) = Some f" "stable_ok N False f"
        "stable_elems f = (stable_elems (td_constructed s))[i := True]"
      using chunks.put_get [OF ok(2), of i True] new(1) len by auto
    show ?thesis
      using new get len v f ok
      by (intro exI [of _ "\<lparr>td_values = v, td_constructed = f\<rparr>"]) (simp add: thread_construct_def thread_data_ok_def)
  qed (use get len assms in \<open>auto simp: thread_construct_def\<close>)
qed

fun constructs :: "nat \<Rightarrow> (nat \<times> 'a) list \<Rightarrow> 'a thread_data \<Rightarrow> 'a thread_data option" where
  "constructs N [] s = Some s"
| "constructs N ((i, x) # ops) s = do {
     (s', r) \<leftarrow> thread_construct N i x s;
     constructs N ops s'
   }"

text \<open>What calls leave in a slot: what was constructed, or else what the first of them gives.\<close>

definition slot_after :: "'a list \<Rightarrow> bool list \<Rightarrow> (nat \<times> 'a) list \<Rightarrow> nat \<Rightarrow> 'a" where
  "slot_after vals flags ops i =
     (if flags ! i then vals ! i else case map_of ops i of None \<Rightarrow> vals ! i | Some x \<Rightarrow> x)"

lemma slot_after_Cons:
  "j < length vals \<Longrightarrow> length flags = length vals \<Longrightarrow>
    slot_after vals flags ((i, x) # ops) j =
      (if \<not> flags ! i then slot_after (vals[i := x]) (flags[i := True]) ops j else slot_after vals flags ops j)"
  by (auto simp: slot_after_def nth_list_update split: option.split)

lemma constructs_spec:
  assumes "thread_data_ok N d s"
  shows "\<exists>s'. constructs N ops s = Some s' \<and> thread_data_ok N d s' \<and>
    length (stable_elems (td_values s')) = length (stable_elems (td_values s)) \<and>
    (\<forall>j < length (stable_elems (td_values s)). stable_elems (td_values s') ! j =
       slot_after (stable_elems (td_values s)) (stable_elems (td_constructed s)) ops j)"
  using assms
proof (induction ops arbitrary: s)
  case (Cons op ops)
  obtain i x where op: "op = (i, x)"
    by (cases op)
  let ?vals = "stable_elems (td_values s)" and ?flags = "stable_elems (td_constructed s)"
  obtain s1 r where s1: "thread_construct N i x s = Some (s1, r)" "thread_data_ok N d s1"
      and vals: "stable_elems (td_values s1) = (if i < length ?vals \<and> \<not> ?flags ! i then ?vals[i := x] else ?vals)"
        "stable_elems (td_constructed s1) = (if i < length ?vals \<and> \<not> ?flags ! i then ?flags[i := True] else ?flags)"
    using thread_construct_spec [OF Cons.prems, of i x] by (auto simp: Let_def)
  have len: "length ?flags = length ?vals"
    using Cons.prems by (simp add: thread_data_ok_def)
  have "slot_after (stable_elems (td_values s1)) (stable_elems (td_constructed s1)) ops j =
      slot_after ?vals ?flags ((i, x) # ops) j" if "j < length ?vals" for j
    using slot_after_Cons [OF that len, of i x ops] that len
    by (auto simp: vals slot_after_def list_update_beyond not_less split: option.split)
  moreover have "length (stable_elems (td_values s1)) = length ?vals"
    by (simp add: vals)
  ultimately show ?case
    using Cons.IH [OF s1(2)] s1(1) unfolding op by auto
qed (auto simp: slot_after_def)

text \<open>
  C30. The data of a thread are constructed once: after any calls, for any threads, the element of an index is
  what the first call for that index gave, or the default without one. An index outside is refused
  and changes nothing.
\<close>

theorem first_construct_wins:
  assumes "0 < N" and "N < 2 ^ 64"
  shows "\<exists>s s'. thread_data_init N d = Some (s, None) \<and> constructs N ops s = Some s' \<and>
    (\<forall>i. constructed_index N i (td_values s') = Some (if i < N
       then Inr (case map_of ops i of None \<Rightarrow> d | Some x \<Rightarrow> x) else Inl Out_of_range))"
proof -
  obtain s where s: "thread_data_init N d = Some (s, None)" "thread_data_ok N d s"
      "stable_elems (td_values s) = replicate N d" "stable_elems (td_constructed s) = replicate N False"
    using thread_data_init_ok [OF assms, of d] by blast
  obtain s' where s': "constructs N ops s = Some s'" "thread_data_ok N d s'"
      "length (stable_elems (td_values s')) = N"
      and vals: "\<And>i. i < N \<Longrightarrow> stable_elems (td_values s') ! i = slot_after (replicate N d) (replicate N False) ops i"
    using constructs_spec [OF s(2), of ops] unfolding s(3,4) by auto
  have "slot_after (replicate N d) (replicate N False) ops i = (case map_of ops i of None \<Rightarrow> d | Some x \<Rightarrow> x)"
    if "i < N" for i
    using that by (simp add: slot_after_def split: option.split)
  moreover have "0 < N \<and> stable_ok N d (td_values s')"
    using s'(2) by (simp add: thread_data_ok_def)
  ultimately have "\<forall>i. constructed_index N i (td_values s') = Some (if i < N
      then Inr (case map_of ops i of None \<Rightarrow> d | Some x \<Rightarrow> x) else Inl Out_of_range)"
    using chunks.get [of N d "td_values s'"] vals unfolding s'(3) by simp
  then show ?thesis
    using s(1) s'(1) by blast
qed

theorem first_construct_wins_witness:
  "\<exists>s s'. thread_data_init 2 0 = Some (s, None) \<and>
    constructs 2 [(1, 5), (1, 6), (7, 8)] s = Some s' \<and>
    constructed_index 2 1 (td_values s') = Some (Inr (5 :: nat)) \<and>
    constructed_index 2 7 (td_values s') = Some (Inl Out_of_range)"
  using first_construct_wins [of 2 0 "[(1, 5), (1, 6), (7, 8)]"] by auto

section \<open>Growing in step\<close>

text \<open>All containers have an element for every thread up to the peak, in full chunks.\<close>

definition in_step :: "nat \<Rightarrow> 'a \<Rightarrow> 'a growth \<Rightarrow> bool" where
  "in_step N d g \<longleftrightarrow> 0 < N \<and>
     (\<forall>v \<in> set (grown g). stable_ok N d v \<and> stable_size N v = peak g \<and> stable_capacity N v = peak g)"

lemma grow_functor_spec:
  assumes "0 < N" and "N < 2 ^ 64" and "stable_ok N d v" and "stable_size N v = stable_capacity N v"
    and "stable_capacity N v < n + 1"
  shows "\<exists>v'. grow_functor N d n v = Some (v', None) \<and> stable_ok N d v' \<and>
    stable_size N v' = stable_capacity N v + N \<and> stable_capacity N v' = stable_capacity N v + N \<and>
    stable_elems v' = stable_elems v @ replicate N d"
proof -
  let ?cap = "stable_capacity N v"
  define w where "w = v @ [sv_new N d]"
  have q: "(?cap + 1 - 1) div N = length v"
    using assms(1) by (simp add: stable_capacity_def)
  have reserve: "stable_reserve N d (?cap + 1) v = w"
    using stable_reserve_chunks [OF assms(1), of v "?cap + 1" d] unfolding q by (simp add: w_def)
  have cap: "stable_capacity N w = ?cap + N"
    by (simp add: w_def stable_capacity_def)
  obtain c where c: "emplace_until N d (?cap + N) d (v @ [sv_new N d]) = Some (v @ [c], None)" "sv_ok N d c"
      "sv_elems c = replicate N d"
    using emplace_until_fills [of N d "sv_new N d" N "?cap + N" v d] assms(1,2)
    by (auto simp: stable_capacity_def)
  have full: "\<forall>u \<in> set v. sv_ok N d u \<and> unat (sv_size u) = N"
  proof (cases v rule: rev_cases)
    case (snoc us u)
    then show ?thesis
      using assms(3,4) by (simp add: stable_ok_snoc stable_size_snoc stable_capacity_def)
  qed simp
  have "grow_functor N d n v = Some (v @ [c], None)"
    using assms(5) c(1) by (simp add: grow_functor_def reserve [simplified] cap stable_resize_def Let_def flip: w_def)
  moreover have "stable_ok N d (v @ [c])"
    using full c(2) by (simp add: stable_ok_snoc)
  moreover have "stable_size N (v @ [c]) = ?cap + N"
    using length_sv_elems [OF c(2)] c(3) by (simp add: stable_size_snoc stable_capacity_def)
  ultimately show ?thesis
    using c(3) by (auto simp: stable_capacity_def)
qed

lemma grow_all_spec:
  assumes "0 < N" and "N < 2 ^ 64" and "p < n + 1"
    and "\<forall>v \<in> set vs. stable_ok N d v \<and> stable_size N v = p \<and> stable_capacity N v = p"
  shows "\<exists>vs'. grow_all N d n vs = Some vs' \<and>
    (\<forall>v \<in> set vs'. stable_ok N d v \<and> stable_size N v = p + N \<and> stable_capacity N v = p + N) \<and>
    map stable_elems vs' = map (\<lambda>v. stable_elems v @ replicate N d) vs"
  using assms(4)
proof (induction vs)
  case (Cons v vs)
  obtain v' where "grow_functor N d n v = Some (v', None)" "stable_ok N d v'" "stable_size N v' = p + N"
      "stable_capacity N v' = p + N" "stable_elems v' = stable_elems v @ replicate N d"
    using grow_functor_spec [OF assms(1,2), of d v n] Cons.prems assms(3) by auto
  then show ?case
    using Cons by auto
qed simp

lemma grow_all_last:
  "grow_all N d n (vs @ [v]) = Some ws \<Longrightarrow> \<exists>us v'. ws = us @ [v'] \<and> (\<exists>r. grow_functor N d n v = Some (v', r))"
proof (induction vs arbitrary: ws)
  case (Cons u us)
  then obtain ws' w where "ws = w # ws'" "grow_all N d n (us @ [v]) = Some ws'"
    by (auto split: bind_splits)
  then show ?case
    using Cons.IH by (metis append_Cons)
qed (auto split: bind_splits)

text \<open>
  Containers that were there when the first thread started stay in step with the peak: after
  \<open>grow_data\<close> of an index at most a chunk beyond it, every one has a slot for the index, and what it
  held is kept.
\<close>

theorem growth_keeps_step:
  assumes "in_step N d g" and "N < 2 ^ 64" and "tid < peak g + N"
  shows "\<exists>g'. grow_data N d tid g = Some g' \<and> in_step N d g' \<and> tid < peak g' \<and>
    (\<exists>k. map stable_elems (grown g') = map (\<lambda>v. stable_elems v @ replicate k d) (grown g)) \<and>
    (\<forall>v \<in> set (grown g'). \<exists>x. constructed_index N tid v = Some (Inr x))"
proof -
  have slots: "\<exists>x. constructed_index N i v = Some (Inr x)"
    if "0 < N" "stable_ok N d v" "i < stable_size N v" for v i
    using chunks.get [of N d v i] stable_size_length [OF that(2)] that by auto
  show ?thesis
  proof (cases "peak g \<le> tid")
    case True
    obtain vs where vs: "grow_all N d (tid + 1) (grown g) = Some vs"
        "\<forall>v \<in> set vs. stable_ok N d v \<and> stable_size N v = peak g + N \<and> stable_capacity N v = peak g + N"
        "map stable_elems vs = map (\<lambda>v. stable_elems v @ replicate N d) (grown g)"
      using grow_all_spec [of N "peak g" "tid + 1" "grown g" d] assms(1,2) True by (auto simp: in_step_def)
    then show ?thesis
      using True assms slots by (auto simp: grow_data_def in_step_def)
  next
    case False
    then show ?thesis
      using assms slots by (auto simp: grow_data_def in_step_def intro!: exI [of _ 0])
  qed
qed

definition two_containers :: "nat growth" where
  "two_containers = \<lparr>peak = 2, grown = [[\<lparr>sv_size = 2, sv_data = [5, 6]\<rparr>], [\<lparr>sv_size = 2, sv_data = [0, 0]\<rparr>]]\<rparr>"

lemma two_containers_in_step: "in_step 2 0 two_containers"
  by (simp add: in_step_def two_containers_def stable_ok_def sv_ok_def stable_size_def stable_empty_def
      stable_capacity_def)

theorem growth_keeps_step_witness:
  "\<exists>g'. grow_data 2 0 3 two_containers = Some g' \<and> in_step 2 0 g' \<and> 3 < peak g'"
  using growth_keeps_step [OF two_containers_in_step, of 3] by (auto simp: two_containers_def)

text \<open>
  C31. A container that is first used after the threads outgrew \<open>max_supported_threads\<close> has a chunk too few for
  ever: it refuses every index from there to the peak, and the growth, which is due only beyond
  the peak, does not help.
\<close>

theorem late_container_too_small:
  assumes "in_step N d g" and "N < 2 ^ 64" and "N < peak g"
  shows "\<exists>g' v. register_container N d g = Some g' \<and> grown g' = grown g @ [v] \<and>
    (\<forall>tid. N \<le> tid \<and> tid < peak g \<longrightarrow>
       grow_data N d tid g' = Some g' \<and> constructed_index N tid v = Some (Inl Out_of_range)) \<and>
    (\<forall>g''. grow_data N d (peak g) g' = Some g'' \<longrightarrow> peak g'' = peak g + N \<and> stable_size N (last (grown g'')) = 2 * N)"
proof -
  have N: "0 < N"
    using assms(1) by (simp add: in_step_def)
  obtain v where v: "stable_resize N d N d [] = Some (v, None)" "stable_ok N d v" "stable_elems v = replicate N d"
      and cap: "stable_capacity N v = N"
    using stable_resize_empty [OF N assms(2), of d d] by blast
  define g' where "g' = g\<lparr>grown := grown g @ [v]\<rparr>"
  have size: "stable_size N v = N"
    using stable_size_length [OF v(2)] v(3) by simp
  have "register_container N d g = Some g'"
    by (simp add: register_container_def v(1) g'_def)
  moreover have "grow_data N d tid g' = Some g' \<and> constructed_index N tid v = Some (Inl Out_of_range)"
    if "N \<le> tid \<and> tid < peak g" for tid
    using that chunks.get [of N d v tid] N v(2,3) by (simp add: grow_data_def g'_def)
  moreover have "peak g'' = peak g + N \<and> stable_size N (last (grown g'')) = 2 * N"
    if run: "grow_data N d (peak g) g' = Some g''" for g''
  proof -
    obtain vs where vs: "grow_all N d (peak g + 1) (grown g @ [v]) = Some vs" "g'' = g'\<lparr>grown := vs, peak := peak g + N\<rparr>"
      using run by (auto simp: grow_data_def g'_def bind_eq_Some_conv)
    obtain ws v' where "vs = ws @ [v']" "\<exists>r. grow_functor N d (peak g + 1) v = Some (v', r)"
      using grow_all_last [OF vs(1)] by blast
    then show ?thesis
      using grow_functor_spec [OF N assms(2) v(2), of "peak g + 1"] size cap assms(3) vs(2) by (auto simp: g'_def)
  qed
  moreover have "grown g' = grown g @ [v]"
    by (simp add: g'_def)
  ultimately show ?thesis
    by blast
qed

theorem late_container_too_small_witness:
  "\<exists>g' v. register_container 1 (0 :: nat) \<lparr>peak = 3, grown = []\<rparr> = Some g' \<and> grown g' = [v] \<and>
    constructed_index 1 2 v = Some (Inl Out_of_range)"
  using late_container_too_small [of 1 0 "\<lparr>peak = 3, grown = []\<rparr>"] by (auto simp: in_step_def)

end
