(* ===== verification/Thread_Info.thy ===== *)
theory Thread_Info
  imports Thread_Data Runtime_State
begin

text \<open>
  What is known of each thread, \<open>library/thread_info.cpp\<close>: its identifiers and its lifetime, in the
  data per thread of \<open>Thread_Data\<close>, here as the lists they are shown to hold.

  A thread is a number; \<open>thread_ids\<close> gives its identifiers, which come from the operating system and
  from timemory, and what timemory answers for its offset. \<open>N\<close> is \<open>max_supported_threads\<close>.
\<close>

section \<open>The data\<close>

record thread_index_data =
  internal_value :: nat
  system_value :: nat
  sequent_value :: nat
  pthread_value :: u64
  stl_value :: u64

datatype causal_count = Delay_local nat | Offset_causal_count

record thread_info =
  ti_offset :: bool
  ti_causal :: "causal_count option"
  index_data :: "thread_index_data option"
  lifetime :: "u64 \<times> u64"

datatype info_error = Wrong_thread nat nat | No_slot | Unsupported_id | Not_there

record info_table =
  infos :: "thread_info option list option"
  indexes :: "thread_index_data option list"
  info_peak :: nat
  started :: "nat \<Rightarrow> bool"
  info_threads :: threads

record thread_ids =
  ids :: thread_index_data
  offset_this_id :: "bool \<Rightarrow> bool"

definition default_info :: thread_info where
  "default_info = \<lparr>ti_offset = False, ti_causal = None, index_data = None, lifetime = (0, 0)\<rparr>"

definition info_exists :: "info_table \<Rightarrow> bool" where
  "info_exists tab \<longleftrightarrow> infos tab \<noteq> None"

text \<open>\<open>get_info_data(tid)\<close>: the element, or the error of the vector or of the null pointer.\<close>

definition info_at :: "nat \<Rightarrow> info_table \<Rightarrow> info_error + thread_info option" where
  "info_at i tab = (case infos tab of
     None \<Rightarrow> Inl Not_there
   | Some v \<Rightarrow> if i < length v then Inr (v ! i) else Inl No_slot)"

definition put_info :: "nat \<Rightarrow> thread_info \<Rightarrow> info_table \<Rightarrow> info_table" where
  "put_info i x tab = tab\<lparr>infos := map_option (\<lambda>v. v[i := Some x]) (infos tab)\<rparr>"

text \<open>\<open>grow_data\<close> for the two tables.\<close>

definition grow_infos :: "nat \<Rightarrow> nat \<Rightarrow> info_table \<Rightarrow> info_table" where
  "grow_infos N tid tab =
     (if tid \<ge> info_peak tab
      then tab\<lparr>infos := map_option (\<lambda>v. v @ replicate N None) (infos tab),
               indexes := indexes tab @ replicate N None, info_peak := info_peak tab + N\<rparr>
      else tab)"

definition init_index_data ::
  "nat \<Rightarrow> thread_ids \<Rightarrow> info_table \<Rightarrow> info_table \<times> (info_error + thread_index_data)" where
  "init_index_data tid env tab =
     (if tid \<ge> length (indexes tab) then (tab, Inl No_slot)
      else case indexes tab ! tid of
        Some d \<Rightarrow> (tab, Inr d)
      | None \<Rightarrow> (let tab = tab\<lparr>indexes := (indexes tab)[tid := Some (ids env)]\<rparr>
          in if internal_value (ids env) \<noteq> tid
             then (tab, Inl (Wrong_thread tid (internal_value (ids env))))
             else (tab, Inr (ids env))))"

section \<open>Starting\<close>

text \<open>\<open>thread_info::init\<close> of the thread \<open>t\<close> with the index \<open>tid\<close>, at the time \<open>now\<close>.\<close>

definition info_init ::
  "nat \<Rightarrow> nat \<Rightarrow> nat \<Rightarrow> thread_ids \<Rightarrow> u64 \<Rightarrow> bool \<Rightarrow> info_table \<Rightarrow>
    info_table \<times> (info_error + thread_info option)" where
  "info_init N t tid env now offset tab =
     (if \<not> info_exists tab then (tab, Inr None)
      else if started tab t then (tab, info_at tid tab)
      else (let tab = grow_infos N tid (tab\<lparr>started := (started tab)(t := True)\<rparr>)
            in case info_at tid tab of
              Inl e \<Rightarrow> (tab, Inl e)
            | Inr _ \<Rightarrow>
               (let off = offset_this_id env offset;
                    info = default_info\<lparr>ti_offset := off\<rparr>;
                    tab = put_info tid info tab
                in case init_index_data tid env tab of
                   (tab, Inl e) \<Rightarrow> (tab, Inl e)
                 | (tab, Inr d) \<Rightarrow>
                    (let info = info\<lparr>index_data := Some d, lifetime := (now, 0),
                            ti_causal := Some (if \<not> off \<and> sequent_value d < info_peak tab
                              then Delay_local (sequent_value d) else Offset_causal_count)\<rparr>;
                         tab = put_info tid info tab;
                         tab = (if off then tab\<lparr>info_threads := snd (set_thread_state t TS_Disabled (info_threads tab))\<rparr>
                                else tab)
                     in (tab, info_at tid tab)))))"

section \<open>Finding a thread\<close>

definition info_get :: "nat \<Rightarrow> info_table \<Rightarrow> info_error + thread_info option" where
  "info_get tid tab = (if \<not> info_exists tab then Inr None else info_at tid tab)"

definition find_info :: "(thread_index_data \<Rightarrow> bool) \<Rightarrow> info_table \<Rightarrow> thread_info option" where
  "find_info p tab = (case infos tab of
     None \<Rightarrow> None
   | Some v \<Rightarrow> (case List.find (\<lambda>x. case x of
       None \<Rightarrow> False
     | Some i \<Rightarrow> (case index_data i of None \<Rightarrow> False | Some d \<Rightarrow> p d)) v of
         None \<Rightarrow> None
       | Some x \<Rightarrow> x))"

text \<open>\<open>pthread_equal\<close> is zero for different threads.\<close>

definition pthread_equal :: "u64 \<Rightarrow> u64 \<Rightarrow> int" where
  "pthread_equal a b = (if a = b then 1 else 0)"

definition info_get_native :: "u64 \<Rightarrow> info_table \<Rightarrow> thread_info option" where
  "info_get_native h tab = find_info (\<lambda>d. pthread_equal (pthread_value d) h = 0) tab"

definition info_get_stl :: "u64 \<Rightarrow> info_table \<Rightarrow> thread_info option" where
  "info_get_stl i tab = find_info (\<lambda>d. stl_value d = i) tab"

datatype thread_id_type = InternalTID | SystemTID | SequentTID | PthreadID | StlThreadID

definition info_get_by ::
  "nat \<Rightarrow> thread_id_type \<Rightarrow> info_table \<Rightarrow> info_error + thread_info option" where
  "info_get_by tid ty tab = (case ty of
     InternalTID \<Rightarrow> info_at tid tab
   | SystemTID \<Rightarrow> Inr (find_info (\<lambda>d. system_value d = tid) tab)
   | SequentTID \<Rightarrow> Inr (find_info (\<lambda>d. sequent_value d = tid) tab)
   | PthreadID \<Rightarrow> Inl Unsupported_id
   | StlThreadID \<Rightarrow> Inl Unsupported_id)"

section \<open>Lifetimes\<close>

definition set_start ::
  "nat \<Rightarrow> nat \<Rightarrow> nat \<Rightarrow> thread_ids \<Rightarrow> u64 \<Rightarrow> u64 \<Rightarrow> bool \<Rightarrow> info_table \<Rightarrow> info_table \<times> info_error option" where
  "set_start N t tid env now ts force tab = (case info_at tid tab of
     Inl e \<Rightarrow> (tab, Some e)
   | Inr x \<Rightarrow>
      (let (tab, r) = (if x = None then info_init N t tid env now False tab else (tab, Inr x))
       in case r of
         Inl e \<Rightarrow> (tab, Some e)
       | Inr _ \<Rightarrow> (case info_at tid tab of
           Inr (Some v) \<Rightarrow>
             (if force \<or> (ts > 0 \<and> (fst (lifetime v) = 0 \<or> ts < fst (lifetime v)))
              then (put_info tid (v\<lparr>lifetime := (ts, snd (lifetime v))\<rparr>) tab, None)
              else (tab, None))
         | _ \<Rightarrow> (tab, Some Not_there))))"

definition end_child :: "nat \<Rightarrow> u64 \<Rightarrow> thread_info option \<Rightarrow> thread_info option" where
  "end_child tid stop x = (case x of
     None \<Rightarrow> None
   | Some i \<Rightarrow> (case index_data i of
       None \<Rightarrow> Some i
     | Some d \<Rightarrow> if internal_value d \<noteq> tid \<and> (snd (lifetime i) > stop \<or> snd (lifetime i) = 0)
         then Some (i\<lparr>lifetime := (fst (lifetime i), stop)\<rparr>) else Some i))"

definition set_stop :: "nat \<Rightarrow> u64 \<Rightarrow> info_table \<Rightarrow> info_table \<times> info_error option" where
  "set_stop tid ts tab = (case info_at tid tab of
     Inl e \<Rightarrow> (tab, Some e)
   | Inr None \<Rightarrow> (tab, None)
   | Inr (Some v) \<Rightarrow>
      (let tab = put_info tid (v\<lparr>lifetime := (fst (lifetime v), ts)\<rparr>) tab
       in if tid = 0 then (tab\<lparr>infos := map_option (map (end_child tid ts)) (infos tab)\<rparr>, None)
          else (tab, None)))"

definition is_valid_time :: "u64 \<Rightarrow> thread_info \<Rightarrow> bool" where
  "is_valid_time ts i \<longleftrightarrow> ts \<ge> fst (lifetime i) \<and> ts \<le> snd (lifetime i)"

definition is_valid_lifetime :: "u64 \<times> u64 \<Rightarrow> thread_info \<Rightarrow> bool" where
  "is_valid_lifetime v i \<longleftrightarrow> is_valid_time (fst v) i \<and> is_valid_time (snd v) i"

definition get_valid_lifetime :: "u64 \<times> u64 \<Rightarrow> thread_info \<Rightarrow> u64 \<times> u64" where
  "get_valid_lifetime v i =
     (let v = (if \<not> is_valid_time (fst v) i then (fst (lifetime i), snd v) else v)
      in if \<not> is_valid_time (snd v) i then (fst v, snd (lifetime i)) else v)"

section \<open>What starting does\<close>

text \<open>The tables have a slot for every index below the peak.\<close>

definition tables_ok :: "info_table \<Rightarrow> bool" where
  "tables_ok tab \<longleftrightarrow> (case infos tab of None \<Rightarrow> True | Some v \<Rightarrow> length v = info_peak tab) \<and>
     length (indexes tab) = info_peak tab"

lemma grow_infos_ok:
  assumes "tables_ok tab" and "tid < info_peak tab + N"
  shows "tables_ok (grow_infos N tid tab)" and "tid < info_peak (grow_infos N tid tab)"
  using assms by (auto simp: grow_infos_def tables_ok_def split: option.splits)

lemma grow_infos_fields [simp]:
  "started (grow_infos N tid tab) = started tab"
  "infos (grow_infos N tid tab) = None \<longleftrightarrow> infos tab = None"
  by (simp_all add: grow_infos_def)

lemma grow_infos_at:
  "i < info_peak tab \<Longrightarrow> tables_ok tab \<Longrightarrow> info_at i (grow_infos N tid tab) = info_at i tab"
  by (auto simp: grow_infos_def info_at_def tables_ok_def nth_append split: option.split)

lemma grow_infos_index:
  assumes "tables_ok tab" and "tid < info_peak tab \<Longrightarrow> indexes tab ! tid = None"
    and "tid < info_peak tab + N"
  shows "indexes (grow_infos N tid tab) ! tid = None"
  using assms by (auto simp: grow_infos_def tables_ok_def nth_append)

lemma info_at_put:
  "info_at i (put_info j x tab) = (case info_at i tab of
     Inl e \<Rightarrow> Inl e | Inr y \<Rightarrow> Inr (if i = j then Some x else y))"
  by (auto simp: info_at_def put_info_def split: option.split)

lemma put_info_fields [simp]:
  "indexes (put_info i x tab) = indexes tab" "info_peak (put_info i x tab) = info_peak tab"
  "started (put_info i x tab) = started tab" "info_threads (put_info i x tab) = info_threads tab"
  by (simp_all add: put_info_def)

lemma info_at_update [simp]:
  "info_at i (tab\<lparr>indexes := x\<rparr>) = info_at i tab" "info_at i (tab\<lparr>started := y\<rparr>) = info_at i tab"
  "info_at i (tab\<lparr>info_threads := z\<rparr>) = info_at i tab"
  by (simp_all add: info_at_def)

lemma tables_ok_update [simp]: "tables_ok (tab\<lparr>started := y\<rparr>) = tables_ok tab"
  by (auto simp: tables_ok_def split: option.split)

text \<open>
  The first call of \<open>init\<close> of a thread gives it the slot of its index, growing the tables when there is
  none: its identifiers, a lifetime that begins now and has no end, and the count of its delays. The other
  slots stay, and every later call of the thread returns the same and changes nothing.
\<close>

theorem init_registers_thread:
  assumes "tables_ok tab" and "info_exists tab" and "\<not> started tab t"
    and "tid < info_peak tab + N" and "tid < info_peak tab \<Longrightarrow> indexes tab ! tid = None"
    and "internal_value (ids env) = tid"
  shows "\<exists>tab' info. info_init N t tid env now offset tab = (tab', Inr (Some info)) \<and>
    index_data info = Some (ids env) \<and> lifetime info = (now, 0) \<and>
    ti_offset info = offset_this_id env offset \<and>
    (\<forall>i < info_peak tab. i \<noteq> tid \<longrightarrow> info_at i tab' = info_at i tab) \<and>
    (\<forall>now' offset'. info_init N t tid env now' offset' tab' = (tab', Inr (Some info)))"
proof -
  define tab0 where "tab0 = tab\<lparr>started := (started tab)(t := True)\<rparr>"
  define tab1 where "tab1 = grow_infos N tid tab0"
  have ok: "tables_ok tab0" "info_peak tab0 = info_peak tab" "info_at i tab0 = info_at i tab"
      "indexes tab0 = indexes tab" "infos tab0 = infos tab" for i
    using assms(1) by (simp_all add: tab0_def)
  have tab1: "tables_ok tab1" "tid < info_peak tab1" "indexes tab1 ! tid = None" "started tab1 t" "infos tab1 \<noteq> None"
    using grow_infos_ok [OF ok(1)] grow_infos_index [OF ok(1)] assms(2,4,5) ok
    by (simp_all add: tab1_def info_exists_def) (simp add: tab0_def)
  obtain v where v: "infos tab1 = Some v" "tid < length v" "tid < length (indexes tab1)"
    using tab1 by (auto simp: tables_ok_def)
  have others: "info_at i tab1 = info_at i tab" if "i < info_peak tab" for i
    using grow_infos_at [of i tab0] ok that by (simp add: tab1_def)
  define off where "off = offset_this_id env offset"
  define info where "info = default_info\<lparr>ti_offset := off, index_data := Some (ids env), lifetime := (now, 0),
    ti_causal := Some (if \<not> off \<and> sequent_value (ids env) < info_peak tab1
      then Delay_local (sequent_value (ids env)) else Offset_causal_count)\<rparr>"
  define tab2 where "tab2 = put_info tid info (put_info tid (default_info\<lparr>ti_offset := off\<rparr>) tab1
    \<lparr>indexes := (indexes tab1)[tid := Some (ids env)]\<rparr>)"
  define tab' where "tab' = (if off
    then tab2\<lparr>info_threads := snd (set_thread_state t TS_Disabled (info_threads tab2))\<rparr> else tab2)"
  have at1: "info_at tid tab1 = Inr (v ! tid)"
    using v by (simp add: info_at_def)
  have at': "info_at i tab' = (if i = tid then Inr (Some info) else info_at i tab1)" for i
    using at1 by (auto simp: tab'_def tab2_def info_at_put split: sum.split)
  have "info_init N t tid env now offset tab = (tab', Inr (Some info))"
    using assms(2,3,6) tab1 v at1 at' [of tid]
    by (simp add: info_init_def init_index_data_def Let_def flip: tab0_def tab1_def off_def)
      (simp add: tab'_def tab2_def info_def info_at_put at1)
  moreover have "info_init N t tid env now' offset' tab' = (tab', Inr (Some info))" for now' offset'
    using tab1(4,5) at' by (simp add: info_init_def info_exists_def tab'_def tab2_def put_info_def)
  ultimately show ?thesis
    using at' others by (intro exI [of _ tab'] exI [of _ info]) (simp add: info_def off_def)
qed

definition sample_ids :: "nat \<Rightarrow> u64 \<Rightarrow> thread_ids" where
  "sample_ids i h = \<lparr>ids = \<lparr>internal_value = i, system_value = i + 100, sequent_value = i, pthread_value = h,
     stl_value = h\<rparr>, offset_this_id = id\<rparr>"

definition empty_table :: info_table where
  "empty_table = \<lparr>infos = Some [None, None], indexes = [None, None], info_peak = 2, started = (\<lambda>t. False),
     info_threads = \<lparr>values_of = (\<lambda>t. TS_Enabled), histories = [], local_histories = (\<lambda>t. [])\<rparr>\<rparr>"

theorem init_registers_thread_witness:
  "\<exists>tab info. info_init 2 7 2 (sample_ids 2 55) 1000 False empty_table = (tab, Inr (Some info)) \<and>
    lifetime info = (1000, 0)"
  using init_registers_thread [of empty_table 7 2 2 "sample_ids 2 55" 1000 False]
  by (auto simp: empty_table_def tables_ok_def info_exists_def sample_ids_def)

section \<open>Finding by handle\<close>

lemma find_info_Some:
  "find_info p tab = Some i \<Longrightarrow> \<exists>d v. infos tab = Some v \<and> Some i \<in> set v \<and> index_data i = Some d \<and> p d"
  unfolding find_info_def
  by (auto split: option.splits simp: find_Some_iff in_set_conv_nth)

lemma find_info_None:
  assumes "infos tab = Some v" and "Some i \<in> set v" and "index_data i = Some d" and "p d"
  shows "find_info p tab \<noteq> None"
proof -
  let ?q = "\<lambda>x. case x of None \<Rightarrow> False | Some i \<Rightarrow> (case index_data i of None \<Rightarrow> False | Some d \<Rightarrow> p d)"
  have "List.find ?q v \<noteq> None"
    using assms(2-4) by (auto simp: find_None_iff)
  then obtain x where x: "List.find ?q v = Some x"
    by blast
  then have "?q x"
    by (auto simp: find_Some_iff)
  then show ?thesis
    using x assms(1) by (auto simp: find_info_def split: option.splits)
qed

text \<open>
  C32. Looking a thread up by its native handle finds a thread with another handle: never the thread asked
  for, and some other whenever there is one. So the only thread there is is not found.
\<close>

theorem native_handle_finds_others:
  "(\<forall>i. info_get_native h tab = Some i \<longrightarrow> (\<exists>d. index_data i = Some d \<and> pthread_value d \<noteq> h)) \<and>
   ((\<exists>v i d. infos tab = Some v \<and> Some i \<in> set v \<and> index_data i = Some d \<and> pthread_value d \<noteq> h) \<longrightarrow>
     info_get_native h tab \<noteq> None)"
proof (intro conjI allI impI)
  show "\<exists>d. index_data i = Some d \<and> pthread_value d \<noteq> h" if "info_get_native h tab = Some i" for i
    using find_info_Some [OF that [unfolded info_get_native_def]] by (auto simp: pthread_equal_def split: if_splits)
  show "info_get_native h tab \<noteq> None"
    if "\<exists>v i d. infos tab = Some v \<and> Some i \<in> set v \<and> index_data i = Some d \<and> pthread_value d \<noteq> h"
    using that find_info_None [of tab _ _ _ "\<lambda>d. pthread_equal (pthread_value d) h = 0"]
    unfolding info_get_native_def by (fastforce simp: pthread_equal_def)
qed

definition two_threads :: info_table where
  "two_threads = empty_table\<lparr>infos := Some
     [Some (default_info\<lparr>index_data := Some (ids (sample_ids 0 40)), lifetime := (10, 0)\<rparr>),
      Some (default_info\<lparr>index_data := Some (ids (sample_ids 1 41)), lifetime := (20, 90)\<rparr>)]\<rparr>"

theorem native_handle_finds_others_witness:
  "\<exists>i d. info_get_native 40 two_threads = Some i \<and> index_data i = Some d \<and> pthread_value d \<noteq> 40"
  using native_handle_finds_others [of 40 two_threads]
  by (auto simp: two_threads_def sample_ids_def)

section \<open>Ending\<close>

lemma nth_end_child: "i < length v \<Longrightarrow> map (end_child tid ts) v ! i = end_child tid ts (v ! i)"
  by simp

text \<open>
  C33. When the main thread stops at \<open>ts\<close>, every other thread with identifiers stops no later: one that
  runs still, or stopped later, now stops at \<open>ts\<close>. From then on, every interval is clipped into the
  lifetime of a thread that started before \<open>ts\<close>.
\<close>

theorem main_stop_ends_threads:
  assumes "infos tab = Some v" and "v ! 0 = Some m" and "i < length v" and "v ! i = Some x"
    and "index_data x = Some d" and "internal_value d \<noteq> 0" and "i \<noteq> 0"
  shows "\<exists>tab' w y. set_stop 0 ts tab = (tab', None) \<and> infos tab' = Some w \<and> w ! i = Some y \<and>
    lifetime y = (fst (lifetime x),
      if snd (lifetime x) = 0 \<or> ts < snd (lifetime x) then ts else snd (lifetime x)) \<and>
    snd (lifetime y) \<le> ts \<and>
    (fst (lifetime y) \<le> snd (lifetime y) \<longrightarrow> is_valid_lifetime (get_valid_lifetime span y) y)"
proof -
  define w where "w = map (end_child 0 ts) (v[0 := Some (m\<lparr>lifetime := (fst (lifetime m), ts)\<rparr>)])"
  define y where "y = (if snd (lifetime x) > ts \<or> snd (lifetime x) = 0
    then x\<lparr>lifetime := (fst (lifetime x), ts)\<rparr> else x)"
  have "set_stop 0 ts tab = (put_info 0 (m\<lparr>lifetime := (fst (lifetime m), ts)\<rparr>) tab\<lparr>infos := Some w\<rparr>, None)"
    using assms(1-3) by (auto simp: set_stop_def info_at_def put_info_def w_def)
  moreover have "w ! i = Some y"
    using assms(3-7) by (simp add: w_def end_child_def y_def)
  moreover have "lifetime y = (fst (lifetime x),
      if snd (lifetime x) = 0 \<or> ts < snd (lifetime x) then ts else snd (lifetime x))"
    by (cases "lifetime x") (simp add: y_def)
  moreover have "is_valid_lifetime (get_valid_lifetime span y) y" if "fst (lifetime y) \<le> snd (lifetime y)"
    using that by (simp add: is_valid_lifetime_def get_valid_lifetime_def is_valid_time_def Let_def)
  ultimately show ?thesis
    by (auto simp: not_less)
qed

theorem main_stop_ends_threads_witness:
  "\<exists>tab w y. set_stop 0 50 two_threads = (tab, None) \<and> infos tab = Some w \<and> w ! 1 = Some y \<and>
    lifetime y = (20, 50) \<and> is_valid_lifetime (get_valid_lifetime (5, 70) y) y"
  using main_stop_ends_threads [of two_threads _ _ 1 _ _ 50 "(5, 70)"]
  by (fastforce simp: two_threads_def sample_ids_def)

end
