(* ===== verification/Metadata_Registry.thy ===== *)
theory Metadata_Registry
  imports Ordered_Set
begin

text \<open>
  What the cache knows beside the samples: the process, its threads, tracks, counters and the rest
  (\<open>core/trace_cache/metadata_registry.cpp\<close>), the agents (\<open>core/agent.hpp\<close>, \<open>agent_manager.cpp\<close>),
  and how a child process hands them to the root process through a JSON file.

  The JSON library makes texts of values and back; both directions are arguments (a text that is not
  UTF-8 cannot be written). Its conversions of numbers are the casts of C++. Unordered sets are lists
  in some order. A missing key, a value of another type and an exception of the library are \<open>None\<close>.
\<close>

section \<open>JSON values\<close>

datatype json = J_null | J_int int | J_string string | J_array "json list" | J_object "(string \<times> json) list"

fun json_field :: "string \<Rightarrow> json \<Rightarrow> json option" where
  "json_field k (J_object kv) = map_of kv k"
| "json_field k _ = None"

fun json_items :: "json \<Rightarrow> json list" where
  "json_items (J_array xs) = xs"
| "json_items (J_object kv) = map snd kv"
| "json_items J_null = []"
| "json_items x = [x]"

fun json_int :: "json \<Rightarrow> int option" where
  "json_int (J_int n) = Some n"
| "json_int _ = None"

fun json_string :: "json \<Rightarrow> string option" where
  "json_string (J_string s) = Some s"
| "json_string _ = None"

text \<open>\<open>get<int32_t>\<close> and \<open>get<long long>\<close>: the number cast to the type.\<close>

definition get_i32 :: "string \<Rightarrow> json \<Rightarrow> u32 option" where
  "get_i32 k j = map_option word_of_int (Option.bind (json_field k j) json_int)"

definition get_i64 :: "string \<Rightarrow> json \<Rightarrow> u64 option" where
  "get_i64 k j = map_option word_of_int (Option.bind (json_field k j) json_int)"

definition get_text :: "string \<Rightarrow> json \<Rightarrow> string option" where
  "get_text k j = Option.bind (json_field k j) json_string"

text \<open>An unsigned of 64 bits assigned from a signed of 32, and cast to it.\<close>

definition widen :: "u32 \<Rightarrow> u64" where
  "widen w = scast w"

definition narrow :: "u64 \<Rightarrow> u32" where
  "narrow w = ucast w"

definition J_signed :: "'a :: len word \<Rightarrow> json" where
  "J_signed w = J_int (sint w)"

definition J_unsigned :: "'a :: len word \<Rightarrow> json" where
  "J_unsigned w = J_int (uint w)"

section \<open>What is registered\<close>

record process_info =
  proc_pid :: u32
  proc_ppid :: u32
  proc_command :: string
  proc_start :: u32
  proc_end :: u32

datatype agent_type = CPU_agent | GPU_agent

fun agent_type_value :: "agent_type \<Rightarrow> int" where
  "agent_type_value CPU_agent = 0"
| "agent_type_value GPU_agent = 1"

definition agent_type_of :: "int \<Rightarrow> agent_type option" where
  "agent_type_of n = (if n = 0 then Some CPU_agent else if n = 1 then Some GPU_agent else None)"

record pmc_info =
  pmc_type :: agent_type
  pmc_agent_type_index :: u64
  pmc_target_arch :: string
  pmc_event_code :: u64
  pmc_instance_id :: u64
  pmc_name :: string
  pmc_symbol :: string
  pmc_description :: string
  pmc_long_description :: string
  pmc_component :: string
  pmc_units :: string
  pmc_value_type :: string
  pmc_block :: string
  pmc_expression :: string
  pmc_is_constant :: u32
  pmc_is_derived :: u32
  pmc_extdata :: string

definition pmc_equal :: "pmc_info \<Rightarrow> pmc_info \<Rightarrow> bool" where
  "pmc_equal a b \<longleftrightarrow> pmc_type a = pmc_type b \<and> pmc_agent_type_index a = pmc_agent_type_index b \<and>
     pmc_name a = pmc_name b"

record meta_thread =
  th_parent_process_id :: u32
  th_process_id :: u32
  th_thread_id :: u64
  th_start :: u32
  th_end :: u32
  th_extdata :: string

definition thread_less :: "meta_thread \<Rightarrow> meta_thread \<Rightarrow> bool" where
  "thread_less a b \<longleftrightarrow> th_thread_id a < th_thread_id b"

record track_info =
  tr_name :: string
  tr_thread_id :: "u64 option"
  tr_extdata :: string

definition track_less :: "track_info \<Rightarrow> track_info \<Rightarrow> bool" where
  "track_less a b \<longleftrightarrow> tr_name a < tr_name b"

record code_object =
  co_id :: u64
  co_uri :: string
  co_load_base :: u64
  co_load_size :: u64
  co_load_delta :: u64
  co_storage_type :: u32
  co_agent :: u64

definition code_object_less :: "code_object \<Rightarrow> code_object \<Rightarrow> bool" where
  "code_object_less a b \<longleftrightarrow> co_id a < co_id b"

record kernel_symbol =
  ks_kernel_id :: u64
  ks_code_object_id :: u64
  ks_kernel_name :: string
  ks_kernel_object :: u64
  ks_kernarg_segment_size :: u32
  ks_kernarg_segment_alignment :: u32
  ks_group_segment_size :: u32
  ks_private_segment_size :: u32
  ks_sgpr_count :: u32
  ks_arch_vgpr_count :: u32
  ks_accum_vgpr_count :: u32

definition kernel_symbol_less :: "kernel_symbol \<Rightarrow> kernel_symbol \<Rightarrow> bool" where
  "kernel_symbol_less a b \<longleftrightarrow> ks_kernel_id a < ks_kernel_id b"

record agent =
  ag_type :: agent_type
  ag_handle :: u64
  ag_device_id :: u64
  ag_node_id :: u32
  ag_logical_node_id :: u32
  ag_logical_node_type_id :: u32
  ag_name :: string
  ag_model_name :: string
  ag_vendor_name :: string
  ag_product_name :: string
  ag_device_type_index :: u64
  ag_base_id :: u64
  ag_info :: string

record metadata_registry =
  m_process :: process_info
  m_pmc_infos :: "pmc_info list"
  m_threads :: "meta_thread list"
  m_tracks :: "track_info list"
  m_queues :: "u64 list"
  m_streams :: "u64 list"
  m_strings :: "string list"
  m_code_objects :: "code_object list"
  m_kernel_symbols :: "kernel_symbol list"

definition new_registry :: "process_info \<Rightarrow> metadata_registry" where
  "new_registry p = \<lparr>m_process = p, m_pmc_infos = [], m_threads = [], m_tracks = [], m_queues = [],
     m_streams = [], m_strings = [], m_code_objects = [], m_kernel_symbols = []\<rparr>"

section \<open>The operations of the registry\<close>

text \<open>An unordered set keeps the first of equal elements.\<close>

definition hash_emplace :: "('a \<Rightarrow> 'a \<Rightarrow> bool) \<Rightarrow> 'a \<Rightarrow> 'a list \<Rightarrow> 'a list" where
  "hash_emplace eq x xs = (if list_ex (eq x) xs then xs else xs @ [x])"

definition set_process :: "process_info \<Rightarrow> metadata_registry \<Rightarrow> metadata_registry" where
  "set_process p r = r\<lparr>m_process := p\<rparr>"

definition add_pmc_info :: "pmc_info \<Rightarrow> metadata_registry \<Rightarrow> metadata_registry" where
  "add_pmc_info p r = r\<lparr>m_pmc_infos := hash_emplace pmc_equal p (m_pmc_infos r)\<rparr>"

definition add_thread_info :: "meta_thread \<Rightarrow> metadata_registry \<Rightarrow> metadata_registry" where
  "add_thread_info t r = r\<lparr>m_threads := set_emplace thread_less t (m_threads r)\<rparr>"

definition add_track :: "track_info \<Rightarrow> metadata_registry \<Rightarrow> metadata_registry" where
  "add_track t r = r\<lparr>m_tracks := set_emplace track_less t (m_tracks r)\<rparr>"

definition add_queue :: "u64 \<Rightarrow> metadata_registry \<Rightarrow> metadata_registry" where
  "add_queue q r = r\<lparr>m_queues := set_emplace (<) q (m_queues r)\<rparr>"

definition add_stream :: "u64 \<Rightarrow> metadata_registry \<Rightarrow> metadata_registry" where
  "add_stream s r = r\<lparr>m_streams := set_emplace (<) s (m_streams r)\<rparr>"

definition add_string :: "string \<Rightarrow> metadata_registry \<Rightarrow> metadata_registry" where
  "add_string s r = r\<lparr>m_strings := hash_emplace (=) s (m_strings r)\<rparr>"

definition add_code_object :: "code_object \<Rightarrow> metadata_registry \<Rightarrow> metadata_registry" where
  "add_code_object c r = r\<lparr>m_code_objects := set_emplace code_object_less c (m_code_objects r)\<rparr>"

definition add_kernel_symbol :: "kernel_symbol \<Rightarrow> metadata_registry \<Rightarrow> metadata_registry" where
  "add_kernel_symbol k r = r\<lparr>m_kernel_symbols := set_emplace kernel_symbol_less k (m_kernel_symbols r)\<rparr>"

definition get_type_info :: "'a list \<Rightarrow> ('a \<Rightarrow> bool) \<Rightarrow> 'a option" where
  "get_type_info xs p = List.find p xs"

definition get_pmc_info :: "string \<Rightarrow> metadata_registry \<Rightarrow> pmc_info option" where
  "get_pmc_info name r = get_type_info (m_pmc_infos r) (\<lambda>p. pmc_name p = name)"

definition get_thread_info :: "u32 \<Rightarrow> metadata_registry \<Rightarrow> meta_thread option" where
  "get_thread_info i r = get_type_info (m_threads r) (\<lambda>t. th_thread_id t = ucast i)"

definition get_track_info :: "string \<Rightarrow> metadata_registry \<Rightarrow> track_info option" where
  "get_track_info name r = get_type_info (m_tracks r) (\<lambda>t. tr_name t = name)"

definition get_code_object :: "u64 \<Rightarrow> metadata_registry \<Rightarrow> code_object option" where
  "get_code_object i r = get_type_info (m_code_objects r) (\<lambda>c. co_id c = i)"

definition get_kernel_symbol :: "u64 \<Rightarrow> metadata_registry \<Rightarrow> kernel_symbol option" where
  "get_kernel_symbol i r = get_type_info (m_kernel_symbols r) (\<lambda>k. ks_kernel_id k = i)"

section \<open>Writing\<close>

definition process_json :: "process_info \<Rightarrow> json" where
  "process_json p = J_object [(''pid'', J_signed (proc_pid p)), (''ppid'', J_signed (proc_ppid p)),
     (''command'', J_string (proc_command p)), (''start'', J_unsigned (proc_start p)),
     (''end'', J_unsigned (proc_end p))]"

definition pmc_json :: "pmc_info \<Rightarrow> json" where
  "pmc_json p = J_object [
     (''type'', J_int (agent_type_value (pmc_type p))),
     (''agent_type_index'', J_signed (narrow (pmc_agent_type_index p))),
     (''target_arch'', J_string (pmc_target_arch p)),
     (''event_code'', J_signed (narrow (pmc_event_code p))),
     (''instance_id'', J_signed (narrow (pmc_instance_id p))),
     (''name'', J_string (pmc_name p)), (''symbol'', J_string (pmc_symbol p)),
     (''description'', J_string (pmc_description p)),
     (''long_description'', J_string (pmc_long_description p)),
     (''component'', J_string (pmc_component p)), (''units'', J_string (pmc_units p)),
     (''value_type'', J_string (pmc_value_type p)), (''block'', J_string (pmc_block p)),
     (''expression'', J_string (pmc_expression p)),
     (''is_constant'', J_unsigned (pmc_is_constant p)), (''is_derived'', J_unsigned (pmc_is_derived p)),
     (''extdata'', J_string (pmc_extdata p))]"

definition thread_json :: "meta_thread \<Rightarrow> json" where
  "thread_json t = J_object [
     (''parent_process_id'', J_signed (th_parent_process_id t)),
     (''process_id'', J_signed (th_process_id t)),
     (''thread_id'', J_signed (narrow (th_thread_id t))),
     (''start'', J_unsigned (th_start t)), (''end'', J_unsigned (th_end t)),
     (''extdata'', J_string (th_extdata t))]"

definition track_json :: "track_info \<Rightarrow> json" where
  "track_json t = J_object [
     (''track_name'', J_string (tr_name t)),
     (''thread_id'', case tr_thread_id t of Some i \<Rightarrow> J_signed (narrow i) | None \<Rightarrow> J_null),
     (''extdata'', J_string (tr_extdata t))]"

definition code_object_json :: "code_object \<Rightarrow> json" where
  "code_object_json c = J_object [
     (''code_object_id'', J_signed (co_id c)), (''uri'', J_string (co_uri c)),
     (''load_base'', J_signed (co_load_base c)), (''load_size'', J_signed (co_load_size c)),
     (''load_delta'', J_signed (co_load_delta c)), (''storage_type'', J_signed (co_storage_type c)),
     (''agent_id_handle'', J_signed (co_agent c))]"

definition kernel_symbol_json :: "kernel_symbol \<Rightarrow> json" where
  "kernel_symbol_json k = J_object [
     (''kernel_id'', J_signed (ks_kernel_id k)), (''code_object_id'', J_signed (ks_code_object_id k)),
     (''kernel_name'', J_string (ks_kernel_name k)), (''kernel_object'', J_signed (ks_kernel_object k)),
     (''kernarg_segment_size'', J_signed (ks_kernarg_segment_size k)),
     (''kernarg_segment_alignment'', J_signed (ks_kernarg_segment_alignment k)),
     (''group_segment_size'', J_signed (ks_group_segment_size k)),
     (''private_segment_size'', J_signed (ks_private_segment_size k)),
     (''sgpr_count'', J_signed (ks_sgpr_count k)), (''arch_vgpr_count'', J_signed (ks_arch_vgpr_count k)),
     (''accum_vgpr_count'', J_signed (ks_accum_vgpr_count k))]"

definition agent_json :: "agent \<Rightarrow> json" where
  "agent_json a = J_object [
     (''type'', J_int (agent_type_value (ag_type a))), (''handle'', J_unsigned (ag_handle a)),
     (''device_id'', J_unsigned (ag_device_id a)), (''node_id'', J_unsigned (ag_node_id a)),
     (''logical_node_id'', J_signed (ag_logical_node_id a)),
     (''logical_node_type_id'', J_signed (ag_logical_node_type_id a)),
     (''name'', J_string (ag_name a)), (''model_name'', J_string (ag_model_name a)),
     (''vendor_name'', J_string (ag_vendor_name a)), (''product_name'', J_string (ag_product_name a)),
     (''device_type_index'', J_unsigned (ag_device_type_index a))]"

text \<open>A list that is pushed element by element is not there when it is empty; null agents are left out.\<close>

definition pushed :: "string \<Rightarrow> json list \<Rightarrow> (string \<times> json) list" where
  "pushed k xs = (if xs = [] then [] else [(k, J_array xs)])"

definition registry_json :: "metadata_registry \<Rightarrow> agent option list \<Rightarrow> json" where
  "registry_json r ags = J_object (
     [(''process'', process_json (m_process r)),
      (''pmc_infos'', J_array (map pmc_json (m_pmc_infos r))),
      (''threads'', J_array (map thread_json (m_threads r))),
      (''tracks'', J_array (map track_json (m_tracks r)))] @
     pushed ''queues'' (map J_signed (m_queues r)) @
     pushed ''streams'' (map J_signed (m_streams r)) @
     pushed ''strings'' (map J_string (m_strings r)) @
     [(''code_objects'', J_array (map code_object_json (m_code_objects r))),
      (''kernel_symbols'', J_array (map kernel_symbol_json (m_kernel_symbols r)))] @
     pushed ''agents'' (map agent_json (List.map_filter id ags)))"

text \<open>\<open>dump\<close> fails on invalid UTF-8, \<open>writable\<close> says whether the file can be opened.\<close>

definition save_to_file ::
  "(json \<Rightarrow> 'text option) \<Rightarrow> bool \<Rightarrow> metadata_registry \<Rightarrow> agent option list \<Rightarrow> 'text option \<times> bool" where
  "save_to_file dump writable r ags = (case dump (registry_json r ags) of
     None \<Rightarrow> (None, False)
   | Some text \<Rightarrow> if writable then (Some text, True) else (None, False))"

section \<open>Reading\<close>

definition read_process :: "json \<Rightarrow> process_info option" where
  "read_process j = do {
     pid \<leftarrow> get_i32 ''pid'' j;
     ppid \<leftarrow> get_i32 ''ppid'' j;
     command \<leftarrow> get_text ''command'' j;
     start \<leftarrow> get_i32 ''start'' j;
     stop \<leftarrow> get_i32 ''end'' j;
     Some \<lparr>proc_pid = pid, proc_ppid = ppid, proc_command = command, proc_start = start, proc_end = stop\<rparr>
   }"

definition get_agent_type :: "json \<Rightarrow> agent_type option" where
  "get_agent_type j = Option.bind (Option.bind (json_field ''type'' j) json_int) agent_type_of"

definition read_pmc :: "json \<Rightarrow> pmc_info option" where
  "read_pmc j = do {
     ty \<leftarrow> get_agent_type j;
     index \<leftarrow> get_i32 ''agent_type_index'' j;
     arch \<leftarrow> get_text ''target_arch'' j;
     code \<leftarrow> get_i32 ''event_code'' j;
     inst \<leftarrow> get_i32 ''instance_id'' j;
     name \<leftarrow> get_text ''name'' j;
     sym \<leftarrow> get_text ''symbol'' j;
     descr \<leftarrow> get_text ''description'' j;
     long \<leftarrow> get_text ''long_description'' j;
     comp \<leftarrow> get_text ''component'' j;
     units \<leftarrow> get_text ''units'' j;
     vtype \<leftarrow> get_text ''value_type'' j;
     block \<leftarrow> get_text ''block'' j;
     expr \<leftarrow> get_text ''expression'' j;
     constant \<leftarrow> get_i32 ''is_constant'' j;
     derived \<leftarrow> get_i32 ''is_derived'' j;
     ext \<leftarrow> get_text ''extdata'' j;
     Some \<lparr>pmc_type = ty, pmc_agent_type_index = widen index, pmc_target_arch = arch,
       pmc_event_code = widen code, pmc_instance_id = widen inst, pmc_name = name, pmc_symbol = sym,
       pmc_description = descr, pmc_long_description = long, pmc_component = comp, pmc_units = units,
       pmc_value_type = vtype, pmc_block = block, pmc_expression = expr, pmc_is_constant = constant,
       pmc_is_derived = derived, pmc_extdata = ext\<rparr>
   }"

definition read_thread :: "json \<Rightarrow> meta_thread option" where
  "read_thread j = do {
     parent \<leftarrow> get_i32 ''parent_process_id'' j;
     proc \<leftarrow> get_i32 ''process_id'' j;
     tid \<leftarrow> get_i32 ''thread_id'' j;
     start \<leftarrow> get_i32 ''start'' j;
     stop \<leftarrow> get_i32 ''end'' j;
     ext \<leftarrow> get_text ''extdata'' j;
     Some \<lparr>th_parent_process_id = parent, th_process_id = proc, th_thread_id = widen tid,
       th_start = start, th_end = stop, th_extdata = ext\<rparr>
   }"

definition read_track :: "json \<Rightarrow> track_info option" where
  "read_track j = do {
     name \<leftarrow> get_text ''track_name'' j;
     field \<leftarrow> json_field ''thread_id'' j;
     tid \<leftarrow> (if field = J_null then Some None else map_option (Some \<circ> widen) (get_i32 ''thread_id'' j));
     ext \<leftarrow> get_text ''extdata'' j;
     Some \<lparr>tr_name = name, tr_thread_id = tid, tr_extdata = ext\<rparr>
   }"

definition read_code_object :: "json \<Rightarrow> code_object option" where
  "read_code_object j = do {
     i \<leftarrow> get_i64 ''code_object_id'' j;
     uri \<leftarrow> get_text ''uri'' j;
     base \<leftarrow> get_i64 ''load_base'' j;
     size \<leftarrow> get_i64 ''load_size'' j;
     delta \<leftarrow> get_i64 ''load_delta'' j;
     storage \<leftarrow> get_i32 ''storage_type'' j;
     agent \<leftarrow> get_i64 ''agent_id_handle'' j;
     Some \<lparr>co_id = i, co_uri = uri, co_load_base = base, co_load_size = size, co_load_delta = delta,
       co_storage_type = storage, co_agent = agent\<rparr>
   }"

definition read_kernel_symbol :: "json \<Rightarrow> kernel_symbol option" where
  "read_kernel_symbol j = do {
     i \<leftarrow> get_i64 ''kernel_id'' j;
     co \<leftarrow> get_i64 ''code_object_id'' j;
     name \<leftarrow> get_text ''kernel_name'' j;
     obj \<leftarrow> get_i64 ''kernel_object'' j;
     seg \<leftarrow> get_i32 ''kernarg_segment_size'' j;
     align \<leftarrow> get_i32 ''kernarg_segment_alignment'' j;
     grp \<leftarrow> get_i32 ''group_segment_size'' j;
     priv \<leftarrow> get_i32 ''private_segment_size'' j;
     sgpr \<leftarrow> get_i32 ''sgpr_count'' j;
     arch \<leftarrow> get_i32 ''arch_vgpr_count'' j;
     accum \<leftarrow> get_i32 ''accum_vgpr_count'' j;
     Some \<lparr>ks_kernel_id = i, ks_code_object_id = co, ks_kernel_name = name, ks_kernel_object = obj,
       ks_kernarg_segment_size = seg, ks_kernarg_segment_alignment = align, ks_group_segment_size = grp,
       ks_private_segment_size = priv, ks_sgpr_count = sgpr, ks_arch_vgpr_count = arch,
       ks_accum_vgpr_count = accum\<rparr>
   }"

definition read_agent :: "json \<Rightarrow> agent option" where
  "read_agent j = do {
     ty \<leftarrow> get_agent_type j;
     h \<leftarrow> get_i64 ''handle'' j;
     dev \<leftarrow> get_i32 ''device_id'' j;
     node \<leftarrow> get_i32 ''node_id'' j;
     log \<leftarrow> get_i32 ''logical_node_id'' j;
     logty \<leftarrow> get_i32 ''logical_node_type_id'' j;
     name \<leftarrow> get_text ''name'' j;
     model \<leftarrow> get_text ''model_name'' j;
     vendor \<leftarrow> get_text ''vendor_name'' j;
     product \<leftarrow> get_text ''product_name'' j;
     index \<leftarrow> get_i32 ''device_type_index'' j;
     Some \<lparr>ag_type = ty, ag_handle = h, ag_device_id = widen dev, ag_node_id = node,
       ag_logical_node_id = log, ag_logical_node_type_id = logty, ag_name = name, ag_model_name = model,
       ag_vendor_name = vendor, ag_product_name = product, ag_device_type_index = widen index,
       ag_base_id = 0, ag_info = []\<rparr>
   }"

text \<open>
  The loops over the lists of the file. An exception ends them, with what was added so far; the
  second component is whether there was none.
\<close>

fun fill_items :: "(json \<Rightarrow> 'b option) \<Rightarrow> ('b \<Rightarrow> 'a \<Rightarrow> 'a) \<Rightarrow> json list \<Rightarrow> 'a \<Rightarrow> 'a \<times> bool" where
  "fill_items read add [] r = (r, True)"
| "fill_items read add (j # js) r = (case read j of
     None \<Rightarrow> (r, False)
   | Some x \<Rightarrow> fill_items read add js (add x r))"

definition fill_from_json ::
  "json \<Rightarrow> string \<Rightarrow> (json \<Rightarrow> 'b option) \<Rightarrow> ('b \<Rightarrow> 'a \<Rightarrow> 'a) \<Rightarrow> 'a \<times> bool \<Rightarrow> 'a \<times> bool" where
  "fill_from_json j field read add p = (case p of
     (r, False) \<Rightarrow> (r, False)
   | (r, True) \<Rightarrow> (case json_field field j of
       None \<Rightarrow> (r, True)
     | Some items \<Rightarrow> fill_items read add (json_items items) r))"

definition registry_from_json :: "json \<Rightarrow> metadata_registry \<Rightarrow> metadata_registry \<times> bool" where
  "registry_from_json j r = (case Option.bind (json_field ''process'' j) read_process of
     None \<Rightarrow> (r, False)
   | Some p \<Rightarrow>
      fill_from_json j ''kernel_symbols'' read_kernel_symbol add_kernel_symbol
        (fill_from_json j ''code_objects'' read_code_object add_code_object
          (fill_from_json j ''strings'' json_string add_string
            (fill_from_json j ''streams'' (map_option word_of_int \<circ> json_int) add_stream
              (fill_from_json j ''queues'' (map_option word_of_int \<circ> json_int) add_queue
                (fill_from_json j ''tracks'' read_track add_track
                  (fill_from_json j ''threads'' read_thread add_thread_info
                    (fill_from_json j ''pmc_infos'' read_pmc add_pmc_info
                      (set_process p r, True)))))))))"

definition agents_from_json :: "json \<Rightarrow> agent list \<times> bool" where
  "agents_from_json j = fill_from_json j ''agents'' read_agent (\<lambda>a as. as @ [a]) ([], True)"

text \<open>The agents given are left alone when the registry cannot be read to its end.\<close>

definition load_from_file ::
  "('text \<Rightarrow> json option) \<Rightarrow> 'text option \<Rightarrow> metadata_registry \<Rightarrow> agent list \<Rightarrow>
    (metadata_registry \<times> agent list) \<times> bool" where
  "load_from_file parse file r ags = (case Option.bind file parse of
     None \<Rightarrow> ((r, ags), False)
   | Some j \<Rightarrow> (case registry_from_json j r of
       (r, False) \<Rightarrow> ((r, ags), False)
     | (r, True) \<Rightarrow> (case agents_from_json j of (as, ok) \<Rightarrow> ((r, as), ok))))"

section \<open>The agents of a process\<close>

record agent_manager =
  am_agents :: "agent list"
  am_gpu_count :: nat
  am_cpu_count :: nat

definition agent_manager_of :: "agent list \<Rightarrow> agent_manager" where
  "agent_manager_of as = \<lparr>am_agents = as, am_gpu_count = 0, am_cpu_count = 0\<rparr>"

definition insert_agent :: "agent \<Rightarrow> agent_manager \<Rightarrow> agent_manager" where
  "insert_agent a m = (case ag_type a of
     GPU_agent \<Rightarrow> m\<lparr>am_gpu_count := am_gpu_count m + 1,
       am_agents := am_agents m @ [a\<lparr>ag_device_type_index := of_nat (am_gpu_count m)\<rparr>]\<rparr>
   | CPU_agent \<Rightarrow> m\<lparr>am_cpu_count := am_cpu_count m + 1,
       am_agents := am_agents m @ [a\<lparr>ag_device_type_index := of_nat (am_cpu_count m)\<rparr>]\<rparr>)"

definition get_agent_by_type_index :: "u64 \<Rightarrow> agent_type \<Rightarrow> agent_manager \<Rightarrow> agent option" where
  "get_agent_by_type_index i ty m =
     List.find (\<lambda>a. ag_type a = ty \<and> ag_device_type_index a = i) (am_agents m)"

definition get_agent_by_id :: "u64 \<Rightarrow> agent_type \<Rightarrow> agent_manager \<Rightarrow> agent option" where
  "get_agent_by_id i ty m = List.find (\<lambda>a. ag_type a = ty \<and> ag_device_id a = i) (am_agents m)"

definition get_agent_by_handle_type :: "u64 \<Rightarrow> agent_type \<Rightarrow> agent_manager \<Rightarrow> agent option" where
  "get_agent_by_handle_type h ty m = List.find (\<lambda>a. ag_type a = ty \<and> ag_handle a = h) (am_agents m)"

definition get_agent_by_handle :: "u64 \<Rightarrow> agent_manager \<Rightarrow> agent option" where
  "get_agent_by_handle h m = List.find (\<lambda>a. ag_handle a = h) (am_agents m)"

definition get_agents_by_type :: "agent_type \<Rightarrow> agent_manager \<Rightarrow> agent list" where
  "get_agents_by_type ty m = filter (\<lambda>a. ag_type a = ty) (am_agents m)"

section \<open>What comes back\<close>

lemma get_text_simps [simp]: "get_text k (J_object kv) = (case map_of kv k of None \<Rightarrow> None | Some j \<Rightarrow> json_string j)"
  by (simp add: get_text_def split: option.split)

lemma get_i32_simps [simp]: "get_i32 k (J_object kv) =
    (case map_of kv k of None \<Rightarrow> None | Some j \<Rightarrow> map_option word_of_int (json_int j))"
  by (simp add: get_i32_def split: option.split)

lemma get_i64_simps [simp]: "get_i64 k (J_object kv) =
    (case map_of kv k of None \<Rightarrow> None | Some j \<Rightarrow> map_option word_of_int (json_int j))"
  by (simp add: get_i64_def split: option.split)

lemma json_int_simps [simp]:
  "json_int (J_signed w) = Some (sint w)" "json_int (J_unsigned w) = Some (uint w)"
  "J_signed w \<noteq> J_null"
  by (simp_all add: J_signed_def J_unsigned_def)

lemma agent_type_of_value [simp]: "agent_type_of (agent_type_value ty) = Some ty"
  by (cases ty) (simp_all add: agent_type_of_def)

text \<open>A number that passes through 32 bits comes back when it fits.\<close>

abbreviation fits32 :: "u64 \<Rightarrow> bool" where
  "fits32 w \<equiv> widen (narrow w) = w"

lemma read_process_json: "read_process (process_json p) = Some p"
  by (simp add: read_process_def process_json_def)

lemma read_pmc_json: "read_pmc (pmc_json p) = Some (p\<lparr>
    pmc_agent_type_index := widen (narrow (pmc_agent_type_index p)),
    pmc_event_code := widen (narrow (pmc_event_code p)),
    pmc_instance_id := widen (narrow (pmc_instance_id p))\<rparr>)"
  by (simp add: read_pmc_def pmc_json_def get_agent_type_def)

lemma read_thread_json:
  "read_thread (thread_json t) = Some (t\<lparr>th_thread_id := widen (narrow (th_thread_id t))\<rparr>)"
  by (simp add: read_thread_def thread_json_def)

lemma read_track_json:
  "read_track (track_json t) = Some (t\<lparr>tr_thread_id := map_option (widen \<circ> narrow) (tr_thread_id t)\<rparr>)"
  by (cases "tr_thread_id t") (simp_all add: read_track_def track_json_def)

lemma read_code_object_json: "read_code_object (code_object_json c) = Some c"
  by (simp add: read_code_object_def code_object_json_def)

lemma read_kernel_symbol_json: "read_kernel_symbol (kernel_symbol_json k) = Some k"
  by (simp add: read_kernel_symbol_def kernel_symbol_json_def)

lemma read_agent_json: "read_agent (agent_json a) = Some (a\<lparr>
    ag_device_id := widen (narrow (ag_device_id a)),
    ag_device_type_index := widen (narrow (ag_device_type_index a)), ag_base_id := 0, ag_info := []\<rparr>)"
  by (simp add: read_agent_def agent_json_def get_agent_type_def narrow_def)

section \<open>The registry through the file\<close>

interpretation thread_order: weak_order thread_less
  unfolding thread_less_def by (rule weak_order_key)

interpretation track_order: weak_order track_less
  unfolding track_less_def by (rule weak_order_key)

interpretation code_object_order: weak_order code_object_less
  unfolding code_object_less_def by (rule weak_order_key)

interpretation kernel_symbol_order: weak_order kernel_symbol_less
  unfolding kernel_symbol_less_def by (rule weak_order_key)

interpretation handle_order: weak_order "(<) :: u64 \<Rightarrow> u64 \<Rightarrow> bool"
  by unfold_locales auto

text \<open>The sets of the registry hold every key once, the ordered ones in order.\<close>

definition registry_ok :: "metadata_registry \<Rightarrow> bool" where
  "registry_ok r \<longleftrightarrow> sorted_wrt (\<lambda>a b. \<not> pmc_equal b a) (m_pmc_infos r) \<and>
     sorted_wrt thread_less (m_threads r) \<and> sorted_wrt track_less (m_tracks r) \<and>
     sorted_wrt (<) (m_queues r) \<and> sorted_wrt (<) (m_streams r) \<and>
     sorted_wrt (\<lambda>a b. b \<noteq> a) (m_strings r) \<and> sorted_wrt code_object_less (m_code_objects r) \<and>
     sorted_wrt kernel_symbol_less (m_kernel_symbols r)"

lemma hash_emplace_sorted:
  "sorted_wrt (\<lambda>a b. \<not> eq b a) xs \<Longrightarrow> sorted_wrt (\<lambda>a b. \<not> eq b a) (hash_emplace eq x xs)"
  by (auto simp: hash_emplace_def sorted_wrt_append list_ex_iff)

lemma fold_hash_emplace:
  "sorted_wrt (\<lambda>a b. \<not> eq b a) (ys @ xs) \<Longrightarrow> fold (hash_emplace eq) xs ys = ys @ xs"
proof (induction xs arbitrary: ys)
  case (Cons x xs)
  then have "\<not> list_ex (eq x) ys"
    by (auto simp: sorted_wrt_append list_ex_iff)
  then show ?case
    using Cons by (simp add: hash_emplace_def)
qed simp

text \<open>The operations keep the sets in order.\<close>

lemma registry_ok_operations:
  assumes "registry_ok r"
  shows "registry_ok (set_process p r)" "registry_ok (add_pmc_info pm r)" "registry_ok (add_thread_info t r)"
    "registry_ok (add_track tr r)" "registry_ok (add_queue q r)" "registry_ok (add_stream q r)"
    "registry_ok (add_string s r)" "registry_ok (add_code_object c r)" "registry_ok (add_kernel_symbol k r)"
  using assms hash_emplace_sorted [of pmc_equal "m_pmc_infos r" pm] hash_emplace_sorted [of "(=)" "m_strings r" s]
  by (simp_all add: registry_ok_def set_process_def add_pmc_info_def add_thread_info_def add_track_def
      add_queue_def add_stream_def add_string_def add_code_object_def add_kernel_symbol_def
      thread_order.set_emplace_sorted track_order.set_emplace_sorted handle_order.set_emplace_sorted
      code_object_order.set_emplace_sorted kernel_symbol_order.set_emplace_sorted)

lemma registry_ok_new: "registry_ok (new_registry p)"
  by (simp add: registry_ok_def new_registry_def)

text \<open>Adding lists to the parts of a registry.\<close>

lemma fold_adds:
  "fold add_pmc_info ps r = r\<lparr>m_pmc_infos := fold (hash_emplace pmc_equal) ps (m_pmc_infos r)\<rparr>"
  "fold add_thread_info ts r = r\<lparr>m_threads := fold (set_emplace thread_less) ts (m_threads r)\<rparr>"
  "fold add_track trs r = r\<lparr>m_tracks := fold (set_emplace track_less) trs (m_tracks r)\<rparr>"
  "fold add_queue qs r = r\<lparr>m_queues := fold (set_emplace (<)) qs (m_queues r)\<rparr>"
  "fold add_stream ss r = r\<lparr>m_streams := fold (set_emplace (<)) ss (m_streams r)\<rparr>"
  "fold add_string strs r = r\<lparr>m_strings := fold (hash_emplace (=)) strs (m_strings r)\<rparr>"
  "fold add_code_object cs r = r\<lparr>m_code_objects := fold (set_emplace code_object_less) cs (m_code_objects r)\<rparr>"
  "fold add_kernel_symbol ks r =
    r\<lparr>m_kernel_symbols := fold (set_emplace kernel_symbol_less) ks (m_kernel_symbols r)\<rparr>"
proof -
  show "fold add_pmc_info ps r = r\<lparr>m_pmc_infos := fold (hash_emplace pmc_equal) ps (m_pmc_infos r)\<rparr>"
    by (induction ps arbitrary: r) (simp_all add: add_pmc_info_def)
  show "fold add_thread_info ts r = r\<lparr>m_threads := fold (set_emplace thread_less) ts (m_threads r)\<rparr>"
    by (induction ts arbitrary: r) (simp_all add: add_thread_info_def)
  show "fold add_track trs r = r\<lparr>m_tracks := fold (set_emplace track_less) trs (m_tracks r)\<rparr>"
    by (induction trs arbitrary: r) (simp_all add: add_track_def)
  show "fold add_queue qs r = r\<lparr>m_queues := fold (set_emplace (<)) qs (m_queues r)\<rparr>"
    by (induction qs arbitrary: r) (simp_all add: add_queue_def)
  show "fold add_stream ss r = r\<lparr>m_streams := fold (set_emplace (<)) ss (m_streams r)\<rparr>"
    by (induction ss arbitrary: r) (simp_all add: add_stream_def)
  show "fold add_string strs r = r\<lparr>m_strings := fold (hash_emplace (=)) strs (m_strings r)\<rparr>"
    by (induction strs arbitrary: r) (simp_all add: add_string_def)
  show "fold add_code_object cs r = r\<lparr>m_code_objects := fold (set_emplace code_object_less) cs (m_code_objects r)\<rparr>"
    by (induction cs arbitrary: r) (simp_all add: add_code_object_def)
  show "fold add_kernel_symbol ks r =
      r\<lparr>m_kernel_symbols := fold (set_emplace kernel_symbol_less) ks (m_kernel_symbols r)\<rparr>"
    by (induction ks arbitrary: r) (simp_all add: add_kernel_symbol_def)
qed

lemma fill_items_map:
  "\<forall>x \<in> set xs. read (f x) = Some (g x) \<Longrightarrow>
    fill_items read add (map f xs) r = (fold add (map g xs) r, True)"
  by (induction xs arbitrary: r) auto

text \<open>The loop over a field that holds a list, or is left out when the list is empty.\<close>

lemma fill_from_json_list:
  assumes "json_field field j = Some (J_array (map f xs)) \<or> (json_field field j = None \<and> xs = [])"
    and "\<forall>x \<in> set xs. read (f x) = Some (g x)"
  shows "fill_from_json j field read add (r, True) = (fold add (map g xs) r, True)"
  using assms(1) fill_items_map [OF assms(2), of add r] by (auto simp: fill_from_json_def)

lemma map_of_pushed:
  "map_of (pushed k xs @ ys) l = (if l = k \<and> xs \<noteq> [] then Some (J_array xs) else map_of ys l)"
  "map_of (pushed k xs) l = (if l = k \<and> xs \<noteq> [] then Some (J_array xs) else None)"
  by (auto simp: pushed_def)

lemma registry_json_fields:
  "json_field ''process'' (registry_json r ags) = Some (process_json (m_process r))"
  "json_field ''pmc_infos'' (registry_json r ags) = Some (J_array (map pmc_json (m_pmc_infos r)))"
  "json_field ''threads'' (registry_json r ags) = Some (J_array (map thread_json (m_threads r)))"
  "json_field ''tracks'' (registry_json r ags) = Some (J_array (map track_json (m_tracks r)))"
  "json_field ''queues'' (registry_json r ags) =
    (if m_queues r = [] then None else Some (J_array (map J_signed (m_queues r))))"
  "json_field ''streams'' (registry_json r ags) =
    (if m_streams r = [] then None else Some (J_array (map J_signed (m_streams r))))"
  "json_field ''strings'' (registry_json r ags) =
    (if m_strings r = [] then None else Some (J_array (map J_string (m_strings r))))"
  "json_field ''code_objects'' (registry_json r ags) = Some (J_array (map code_object_json (m_code_objects r)))"
  "json_field ''kernel_symbols'' (registry_json r ags) =
    Some (J_array (map kernel_symbol_json (m_kernel_symbols r)))"
  "json_field ''agents'' (registry_json r ags) = (if List.map_filter id ags = [] then None
    else Some (J_array (map agent_json (List.map_filter id ags))))"
  by (simp_all add: registry_json_def map_of_pushed del: map_of_append)

definition registry_fits :: "metadata_registry \<Rightarrow> bool" where
  "registry_fits r \<longleftrightarrow>
     (\<forall>p \<in> set (m_pmc_infos r). fits32 (pmc_agent_type_index p) \<and> fits32 (pmc_event_code p) \<and> fits32 (pmc_instance_id p)) \<and>
     (\<forall>t \<in> set (m_threads r). fits32 (th_thread_id t)) \<and>
     (\<forall>t \<in> set (m_tracks r). case tr_thread_id t of None \<Rightarrow> True | Some i \<Rightarrow> fits32 i)"

lemma registry_from_json_registry:
  assumes "registry_ok r" and "registry_fits r"
  shows "registry_from_json (registry_json r ags) (new_registry p) = (r, True)"
proof -
  let ?j = "registry_json r ags"
  have reads: "\<forall>p \<in> set (m_pmc_infos r). read_pmc (pmc_json p) = Some (id p)"
      "\<forall>t \<in> set (m_threads r). read_thread (thread_json t) = Some (id t)"
  proof -
    show "\<forall>p \<in> set (m_pmc_infos r). read_pmc (pmc_json p) = Some (id p)"
    proof
      show "read_pmc (pmc_json p) = Some (id p)" if "p \<in> set (m_pmc_infos r)" for p
        using that assms(2) by (cases p) (auto simp: read_pmc_json registry_fits_def)
    qed
    show "\<forall>t \<in> set (m_threads r). read_thread (thread_json t) = Some (id t)"
      using assms(2) by (simp add: read_thread_json registry_fits_def)
  qed
  have track: "\<forall>t \<in> set (m_tracks r). read_track (track_json t) = Some (id t)"
  proof
    show "read_track (track_json t) = Some (id t)" if "t \<in> set (m_tracks r)" for t
      using that assms(2) by (cases "tr_thread_id t") (auto simp: read_track_json registry_fits_def)
  qed
  have pmc: "fill_from_json ?j ''pmc_infos'' read_pmc add_pmc_info (q, True) = (fold add_pmc_info (m_pmc_infos r) q, True)" for q
    by (rule fill_from_json_list [where f = pmc_json and g = id and xs = "m_pmc_infos r", simplified list.map_id])
      (simp_all add: registry_json_fields reads(1) [simplified])
  have thr: "fill_from_json ?j ''threads'' read_thread add_thread_info (q, True) = (fold add_thread_info (m_threads r) q, True)" for q
    by (rule fill_from_json_list [where f = thread_json and g = id and xs = "m_threads r", simplified list.map_id])
      (simp_all add: registry_json_fields reads(2) [simplified])
  have trk: "fill_from_json ?j ''tracks'' read_track add_track (q, True) = (fold add_track (m_tracks r) q, True)" for q
    by (rule fill_from_json_list [where f = track_json and g = id and xs = "m_tracks r", simplified list.map_id])
      (simp_all add: registry_json_fields track [simplified])
  have que: "fill_from_json ?j ''queues'' (map_option word_of_int \<circ> json_int) add_queue (q, True) = (fold add_queue (m_queues r) q, True)" for q
    by (rule fill_from_json_list [where f = J_signed and g = id and xs = "m_queues r", simplified list.map_id])
      (simp_all add: registry_json_fields)
  have str: "fill_from_json ?j ''streams'' (map_option word_of_int \<circ> json_int) add_stream (q, True) = (fold add_stream (m_streams r) q, True)" for q
    by (rule fill_from_json_list [where f = J_signed and g = id and xs = "m_streams r", simplified list.map_id])
      (simp_all add: registry_json_fields)
  have sts: "fill_from_json ?j ''strings'' json_string add_string (q, True) = (fold add_string (m_strings r) q, True)" for q
    by (rule fill_from_json_list [where f = J_string and g = id and xs = "m_strings r", simplified list.map_id])
      (simp_all add: registry_json_fields)
  have cos: "fill_from_json ?j ''code_objects'' read_code_object add_code_object (q, True) = (fold add_code_object (m_code_objects r) q, True)" for q
    by (rule fill_from_json_list [where f = code_object_json and g = id and xs = "m_code_objects r", simplified list.map_id])
      (simp_all add: registry_json_fields read_code_object_json read_kernel_symbol_json)
  have kss: "fill_from_json ?j ''kernel_symbols'' read_kernel_symbol add_kernel_symbol (q, True) = (fold add_kernel_symbol (m_kernel_symbols r) q, True)" for q
    by (rule fill_from_json_list [where f = kernel_symbol_json and g = id and xs = "m_kernel_symbols r", simplified list.map_id])
      (simp_all add: registry_json_fields read_code_object_json read_kernel_symbol_json)
  have sorted: "fold (hash_emplace pmc_equal) (m_pmc_infos r) [] = m_pmc_infos r"
      "fold (hash_emplace (=)) (m_strings r) [] = m_strings r"
      "fold (set_emplace thread_less) (m_threads r) [] = m_threads r"
      "fold (set_emplace track_less) (m_tracks r) [] = m_tracks r"
      "fold (set_emplace (<)) (m_queues r) [] = m_queues r" "fold (set_emplace (<)) (m_streams r) [] = m_streams r"
      "fold (set_emplace code_object_less) (m_code_objects r) [] = m_code_objects r"
      "fold (set_emplace kernel_symbol_less) (m_kernel_symbols r) [] = m_kernel_symbols r"
    using assms(1) fold_hash_emplace [of pmc_equal "[]"] fold_hash_emplace [of "(=)" "[]" "m_strings r"]
      thread_order.fold_set_emplace [of "[]"] track_order.fold_set_emplace [of "[]"]
      handle_order.fold_set_emplace [of "[]"] code_object_order.fold_set_emplace [of "[]"]
      kernel_symbol_order.fold_set_emplace [of "[]"]
    by (simp_all add: registry_ok_def)
  show ?thesis
    by (simp add: registry_from_json_def registry_json_fields(1) read_process_json pmc thr trk que str sts cos kss
        fold_adds set_process_def new_registry_def sorted)
qed

text \<open>What an agent is after the file: its device number and index through 32 bits, the rest lost.\<close>

definition agent_restored :: "agent \<Rightarrow> agent" where
  "agent_restored a = a\<lparr>ag_device_id := widen (narrow (ag_device_id a)),
     ag_device_type_index := widen (narrow (ag_device_type_index a)), ag_base_id := 0, ag_info := []\<rparr>"

lemma agents_from_json_registry:
  "agents_from_json (registry_json r ags) = (map agent_restored (List.map_filter id ags), True)"
proof -
  have append: "fold (\<lambda>a as. as @ [a]) xs ys = ys @ xs" for xs ys :: "agent list"
    by (induction xs arbitrary: ys) auto
  have "fill_from_json (registry_json r ags) ''agents'' read_agent (\<lambda>a as. as @ [a]) ([], True) =
      (fold (\<lambda>a as. as @ [a]) (map agent_restored (List.map_filter id ags)) [], True)"
    by (rule fill_from_json_list [where f = agent_json])
      (simp_all add: registry_json_fields(10) read_agent_json agent_restored_def)
  then show ?thesis
    by (simp add: agents_from_json_def append)
qed

text \<open>
  C34. A child process hands its registry over: when the text of the JSON library is read back as what was
  written, and the numbers the code casts to \<open>int\<close> fit, loading gives the same registry and the same
  agents, but for what the file does not hold of them.
\<close>

theorem metadata_roundtrip:
  assumes "registry_ok r" and "registry_fits r"
    and "dump (registry_json r ags) = Some txt" and "parse txt = Some (registry_json r ags)"
  shows "save_to_file dump True r ags = (Some txt, True) \<and>
    load_from_file parse (Some txt) (new_registry p) old =
      ((r, map agent_restored (List.map_filter id ags)), True)"
  using assms(3,4) registry_from_json_registry [OF assms(1,2), of ags p] agents_from_json_registry [of r ags]
  by (simp add: save_to_file_def load_from_file_def)

definition sample_registry :: metadata_registry where
  "sample_registry = add_thread_info \<lparr>th_parent_process_id = 1, th_process_id = 2, th_thread_id = 7, th_start = 3,
       th_end = 9, th_extdata = ''{}''\<rparr>
     (add_queue 5 (add_queue 4 (add_string ''main''
       (new_registry \<lparr>proc_pid = 2, proc_ppid = 1, proc_command = ''app'', proc_start = 3, proc_end = 9\<rparr>))))"

definition sample_agent :: agent where
  "sample_agent = \<lparr>ag_type = GPU_agent, ag_handle = 2 ^ 40, ag_device_id = 3, ag_node_id = 1,
     ag_logical_node_id = 1, ag_logical_node_type_id = 0, ag_name = ''gfx'', ag_model_name = ''m'',
     ag_vendor_name = ''v'', ag_product_name = ''p'', ag_device_type_index = 0, ag_base_id = 8,
     ag_info = ''{}''\<rparr>"

theorem metadata_roundtrip_witness:
  "load_from_file Some (fst (save_to_file Some True sample_registry [None, Some sample_agent]))
     (new_registry \<lparr>proc_pid = 0, proc_ppid = 0, proc_command = [], proc_start = 0, proc_end = 0\<rparr>) [] =
   ((sample_registry, [agent_restored sample_agent]), True)"
proof -
  have ok: "registry_ok sample_registry"
    unfolding sample_registry_def by (intro registry_ok_operations registry_ok_new)
  have fits: "registry_fits sample_registry"
    by (simp add: registry_fits_def sample_registry_def add_thread_info_def add_queue_def add_string_def
        new_registry_def widen_def narrow_def)
  show ?thesis
    using metadata_roundtrip [OF ok fits, of Some "[None, Some sample_agent]" "registry_json sample_registry [None, Some sample_agent]" Some]
    by simp
qed

text \<open>
  The agents of a registry read from a file are found, but not counted: the counters of the manager made
  of them are zero, and the next agent inserted gets the index 0, which the first of its type has.
\<close>

theorem restored_agents_not_counted:
  assumes "a \<in> set as" and "ag_type a = ty" and "ag_device_type_index a = 0" and "ag_type b = ty"
  shows "am_gpu_count (agent_manager_of as) = 0 \<and> am_cpu_count (agent_manager_of as) = 0 \<and>
    (\<exists>c \<in> set as. get_agent_by_type_index 0 ty (insert_agent b (agent_manager_of as)) = Some c) \<and>
    (\<exists>b' \<in> set (am_agents (insert_agent b (agent_manager_of as))). ag_device_type_index b' = 0 \<and>
      b' = b\<lparr>ag_device_type_index := 0\<rparr>)"
proof -
  have agents: "am_agents (insert_agent b (agent_manager_of as)) = as @ [b\<lparr>ag_device_type_index := 0\<rparr>]"
    by (cases "ag_type b") (simp_all add: insert_agent_def agent_manager_of_def)
  have "List.find (\<lambda>x. ag_type x = ty \<and> ag_device_type_index x = 0) as \<noteq> None"
    using assms(1-3) by (auto simp: find_None_iff)
  then obtain c where c: "List.find (\<lambda>x. ag_type x = ty \<and> ag_device_type_index x = 0) as = Some c"
    by blast
  then have "c \<in> set as"
    by (auto simp: find_Some_iff)
  moreover have "List.find (\<lambda>x. ag_type x = ty \<and> ag_device_type_index x = 0) (as @ [b\<lparr>ag_device_type_index := 0\<rparr>]) = Some c"
    using c by (induction as) (auto split: if_splits)
  ultimately show ?thesis
    by (simp add: get_agent_by_type_index_def agents) (simp add: agent_manager_of_def)
qed

theorem restored_agents_not_counted_witness:
  "am_gpu_count (agent_manager_of [sample_agent]) = 0"
  using restored_agents_not_counted [of sample_agent "[sample_agent]" GPU_agent sample_agent]
  by (simp add: sample_agent_def)

end
