(* ===== verification/Decimal.thy ===== *)
theory Decimal
  imports Prelude
begin

text \<open>
  Decimal numbers in texts: \<open>std::to_string\<close>, the value of a run of digits, and \<open>std::stoi\<close> (spaces,
  a sign, digits, then anything; \<open>None\<close> is an exception).
\<close>

fun dec_string :: "nat \<Rightarrow> string" where
  "dec_string n = (if n < 10 then [char_of (48 + n)] else dec_string (n div 10) @ [char_of (48 + n mod 10)])"

declare dec_string.simps [simp del]

definition dec_char :: "char \<Rightarrow> bool" where
  "dec_char c \<longleftrightarrow> 48 \<le> (of_char c :: nat) \<and> (of_char c :: nat) \<le> 57"

definition dec_value :: "string \<Rightarrow> nat" where
  "dec_value s = foldl (\<lambda>n c. 10 * n + (of_char c - 48)) 0 s"

definition text_of :: "bytes \<Rightarrow> string" where
  "text_of bs = map (\<lambda>b. char_of (unat b)) bs"

text \<open>What a function sees that takes the text as \<open>const char*\<close>.\<close>

definition c_str :: "string \<Rightarrow> string" where
  "c_str s = takeWhile (\<lambda>c. c \<noteq> CHR 0x00) s"

definition c_space :: "char \<Rightarrow> bool" where
  "c_space c \<longleftrightarrow> (of_char c :: nat) \<in> {9, 10, 11, 12, 13, 32}"

definition std_stoi :: "string \<Rightarrow> int option" where
  "std_stoi s = (let s = dropWhile c_space s;
       neg = (take 1 s = ''-'');
       ds = takeWhile dec_char (if take 1 s = ''-'' \<or> take 1 s = ''+'' then drop 1 s else s);
       v = (if neg then - int (dec_value ds) else int (dec_value ds))
     in if ds = [] \<or> v < - (2 ^ 31) \<or> 2 ^ 31 \<le> v then None else Some v)"

lemma of_char_dec: "n < (10 :: nat) \<Longrightarrow> of_char (char_of (48 + n)) = (48 + n :: nat)"
  by (simp add: of_char_of)

lemma dec_char_dec: "n < (10 :: nat) \<Longrightarrow> dec_char (char_of (48 + n))"
  unfolding dec_char_def by (simp only: of_char_dec) simp

lemma dec_string_chars: "list_all dec_char (dec_string n)"
proof (induction n rule: dec_string.induct)
  case (1 n)
  show ?case
  proof (cases "n < 10")
    case False
    then show ?thesis
      using 1 by (subst dec_string.simps) (simp add: dec_char_dec)
  qed (subst dec_string.simps, simp add: dec_char_dec)
qed

lemma dec_string_nonempty [simp]: "dec_string n \<noteq> []"
  by (subst dec_string.simps) simp

lemma dec_value_append: "dec_value (s @ [c]) = 10 * dec_value s + (of_char c - 48)"
  by (simp add: dec_value_def)

lemma dec_value_string: "dec_value (dec_string n) = n"
proof (induction n rule: dec_string.induct)
  case (1 n)
  show ?case
  proof (cases "n < 10")
    case True
    then show ?thesis
      by (subst dec_string.simps) (simp add: dec_value_def of_char_dec del: of_char_of)
  next
    case False
    then show ?thesis
      using 1 by (subst dec_string.simps) (simp add: dec_value_append of_char_dec del: of_char_of)
  qed
qed

lemma dec_string_stop: "\<not> dec_char c \<Longrightarrow> takeWhile dec_char (dec_string n @ c # s) = dec_string n"
    "\<not> dec_char c \<Longrightarrow> dropWhile dec_char (dec_string n @ c # s) = c # s"
  using dec_string_chars [of n]
  by (simp_all add: list_all_iff takeWhile_append2 dropWhile_append2)

lemma not_dec_char: "\<not> dec_char (CHR ''_'')" "\<not> dec_char (CHR ''.'')"
  by (simp_all add: dec_char_def)

lemma dec_char_facts: "dec_char c \<Longrightarrow> \<not> c_space c \<and> c \<noteq> CHR ''-'' \<and> c \<noteq> CHR ''+'' \<and> c \<noteq> CHR '';'' \<and> c \<noteq> CHR 0x22"
  by (auto simp: dec_char_def c_space_def)

lemma takeWhile_dec_string [simp]: "takeWhile dec_char (dec_string n) = dec_string n"
  using dec_string_chars [of n] by (simp add: list_all_iff)

lemma std_stoi_dec_string:
  assumes "n < 2 ^ 31"
  shows "std_stoi (dec_string n) = Some (int n)"
proof -
  obtain c s where cs: "dec_string n = c # s"
    using dec_string_nonempty [of n] by (cases "dec_string n") auto
  then have c: "\<not> c_space c" "c \<noteq> CHR ''-''" "c \<noteq> CHR ''+''"
    using dec_string_chars [of n] dec_char_facts [of c] by auto
  have tw: "takeWhile dec_char (c # s) = c # s" and v: "dec_value (c # s) = n"
    using takeWhile_dec_string [of n] dec_value_string [of n] unfolding cs by blast+
  show ?thesis
    using c assms unfolding cs std_stoi_def by (simp add: Let_def tw v del: takeWhile.simps)
qed

end
