(* ===== verification/Cache_Manager.thy ===== *)
theory Cache_Manager
  imports Trace_Cache Metadata_Registry Ordered_Map Decimal
begin

text \<open>
  The end of a traced run, \<open>core/trace_cache/cache_manager.cpp\<close>: the root process finds the cache files of
  all its processes, reads their registries, and hands every file to a processor of each enabled format.

  The directory, the files and what makes a processor are arguments; the processors are those of
  \<open>Sample_Processor\<close>. Process numbers are natural numbers. An exception that leaves the function is
  the left of a sum; a read outside a sample is undefined: \<open>None\<close>.
\<close>

section \<open>File names\<close>

definition tmp_directory :: string where
  "tmp_directory = ''/tmp/''"

definition cache_name :: "string \<Rightarrow> string \<Rightarrow> nat \<Rightarrow> nat \<Rightarrow> string" where
  "cache_name prefix suffix ppid pid = prefix @ dec_string ppid @ ''_'' @ dec_string pid @ suffix"

definition get_buffered_storage_filename :: "nat \<Rightarrow> nat \<Rightarrow> string" where
  "get_buffered_storage_filename ppid pid = tmp_directory @ cache_name ''buffered_storage_'' ''.bin'' ppid pid"

definition get_metadata_filepath :: "nat \<Rightarrow> nat \<Rightarrow> string" where
  "get_metadata_filepath ppid pid = tmp_directory @ cache_name ''metadata_'' ''.json'' ppid pid"

text \<open>The regular expressions \<open>prefix(\d+)_(\d+)suffix\<close> on the whole name, with their two groups.\<close>

definition cache_match :: "string \<Rightarrow> string \<Rightarrow> string \<Rightarrow> (string \<times> string) option" where
  "cache_match prefix suffix name =
     (if take (length prefix) name \<noteq> prefix then None
      else (let s = drop (length prefix) name; a = takeWhile dec_char s; rest = dropWhile dec_char s
            in if a = [] \<or> take 1 rest \<noteq> ''_'' then None
               else (let b = takeWhile dec_char (drop 1 rest); rest' = dropWhile dec_char (drop 1 rest)
                     in if b = [] \<or> rest' \<noteq> suffix then None else Some (a, b))))"

datatype manager_error = No_directory | Stoi_out_of_range

definition stoi :: "string \<Rightarrow> manager_error + nat" where
  "stoi s = (if dec_value s > 2147483647 then Inl Stoi_out_of_range else Inr (dec_value s))"

record cache_files =
  buff_storage :: string
  metadata_file :: string

definition no_files :: cache_files where
  "no_files = \<lparr>buff_storage = [], metadata_file = []\<rparr>"

definition files_empty :: "cache_files \<Rightarrow> bool" where
  "files_empty f \<longleftrightarrow> buff_storage f = [] \<or> metadata_file f = []"

text \<open>One name: \<open>put\<close> puts its path into the entry of its process when the parent is the root.\<close>

definition fill_entry ::
  "nat \<Rightarrow> string \<times> string \<Rightarrow> (cache_files \<Rightarrow> cache_files) \<Rightarrow> (nat \<times> cache_files) list \<Rightarrow>
    manager_error + (nat \<times> cache_files) list" where
  "fill_entry root m put cache = (case stoi (fst m) of
     Inl e \<Rightarrow> Inl e
   | Inr parent \<Rightarrow> (case stoi (snd m) of
       Inl e \<Rightarrow> Inl e
     | Inr pid \<Rightarrow> Inr (if parent = root then map_update pid no_files put cache else cache)))"

definition fill_cache ::
  "nat \<Rightarrow> string \<Rightarrow> (nat \<times> cache_files) list \<Rightarrow> manager_error + (nat \<times> cache_files) list" where
  "fill_cache root name cache =
     (if name = [] then Inr cache
      else case cache_match ''buffered_storage_'' ''.bin'' name of
        Some m \<Rightarrow> fill_entry root m (\<lambda>f. f\<lparr>buff_storage := tmp_directory @ name\<rparr>) cache
      | None \<Rightarrow> (case cache_match ''metadata_'' ''.json'' name of
          Some m \<Rightarrow> fill_entry root m (\<lambda>f. f\<lparr>metadata_file := tmp_directory @ name\<rparr>) cache
        | None \<Rightarrow> Inr cache))"

fun fill_caches ::
  "nat \<Rightarrow> string list \<Rightarrow> (nat \<times> cache_files) list \<Rightarrow> manager_error + (nat \<times> cache_files) list" where
  "fill_caches root [] cache = Inr cache"
| "fill_caches root (name # names) cache = (case fill_cache root name cache of
     Inl e \<Rightarrow> Inl e
   | Inr cache \<Rightarrow> fill_caches root names cache)"

definition get_cache_files :: "nat \<Rightarrow> string list \<Rightarrow> manager_error + (nat \<times> cache_files) list" where
  "get_cache_files root names = fill_caches root names []"

definition list_dir_files :: "string list option \<Rightarrow> manager_error + string list" where
  "list_dir_files dir = (case dir of
     None \<Rightarrow> Inl No_directory
   | Some entries \<Rightarrow> Inr (filter (\<lambda>e. e \<noteq> ''.'' \<and> e \<noteq> ''..'') entries))"

text \<open>What is removed at the end, when it can be opened.\<close>

definition clear_cache_files :: "(nat \<times> cache_files) list \<Rightarrow> string list" where
  "clear_cache_files cache =
     filter (\<lambda>f. f \<noteq> []) (concat (map (\<lambda>(_, f). [buff_storage f, metadata_file f]) cache))"

section \<open>Formats\<close>

record format_t =
  process_parallel :: bool
  format_enabled :: bool
  format_name :: string

type_synonym enabled_formats = "format_t list"

definition all_formats :: "bool \<Rightarrow> bool \<Rightarrow> enabled_formats" where
  "all_formats use_rocpd caching_perfetto =
     [\<lparr>process_parallel = True, format_enabled = use_rocpd, format_name = ''rocpd''\<rparr>,
      \<lparr>process_parallel = False, format_enabled = caching_perfetto, format_name = ''perfetto''\<rparr>]"

definition has_parallel_formats :: "enabled_formats \<Rightarrow> bool" where
  "has_parallel_formats fs \<longleftrightarrow> list_ex (\<lambda>f. format_enabled f \<and> process_parallel f) fs"

definition has_sequential_formats :: "enabled_formats \<Rightarrow> bool" where
  "has_sequential_formats fs \<longleftrightarrow> list_ex (\<lambda>f. format_enabled f \<and> \<not> process_parallel f) fs"

definition get_parallel_formats :: "enabled_formats \<Rightarrow> enabled_formats" where
  "get_parallel_formats fs = map (\<lambda>f. \<lparr>process_parallel = True,
     format_enabled = format_enabled f \<and> process_parallel f, format_name = format_name f\<rparr>) fs"

definition get_sequential_formats :: "enabled_formats \<Rightarrow> enabled_formats" where
  "get_sequential_formats fs = map (\<lambda>f. \<lparr>process_parallel = False,
     format_enabled = format_enabled f \<and> \<not> process_parallel f, format_name = format_name f\<rparr>) fs"

definition is_format_enabled :: "string \<Rightarrow> enabled_formats \<Rightarrow> bool" where
  "is_format_enabled name fs = (case List.find (\<lambda>f. format_name f = name) fs of
     None \<Rightarrow> False | Some f \<Rightarrow> format_enabled f)"

section \<open>Processing\<close>

record processor_config =
  pc_pid :: nat
  pc_ppid :: nat
  pc_registry :: metadata_registry
  pc_agents :: agent_manager

text \<open>
  What is outside: the files, the JSON parser, what a registry has before it is loaded, and the processor
  each format makes of a configuration.
\<close>

record ('text, 'st) manager_env =
  storage_files :: "string \<Rightarrow> bytes option"
  metadata_files :: "string \<Rightarrow> 'text option"
  parse_json :: "'text \<Rightarrow> json option"
  initial_process :: process_info
  make_processor :: "string \<Rightarrow> processor_config \<Rightarrow> 'st processor_t \<times> 'st"

definition configure_processors ::
  "('text, 'st) manager_env \<Rightarrow> processor_config \<Rightarrow> enabled_formats \<Rightarrow> ('st processor_t \<times> 'st) list" where
  "configure_processors env c fs =
     (if is_format_enabled ''rocpd'' fs then [make_processor env ''rocpd'' c] else []) @
     (if is_format_enabled ''perfetto'' fs then [make_processor env ''perfetto'' c] else [])"

text \<open>The exceptions of the parser are caught; all it throws are runtime errors.\<close>

definition process_buffered_storage ::
  "('text, 'st) manager_env \<Rightarrow> processor_config \<Rightarrow> string \<Rightarrow> enabled_formats \<Rightarrow> 'st sample_processor_t option" where
  "process_buffered_storage env c file fs =
     (let p = prepare_all (processor_of (configure_processors env c fs))
      in case load storage_parser_registry (execute_sample_processing True) (storage_files env file) (Some p) of
        (Some Memory_error, _) \<Rightarrow> None
      | (_, None) \<Rightarrow> Some (finalize_all p)
      | (_, Some p) \<Rightarrow> Some (finalize_all p))"

definition create_processor_configs ::
  "('text, 'st) manager_env \<Rightarrow> (nat \<times> cache_files) list \<Rightarrow> nat \<Rightarrow> processor_config list" where
  "create_processor_configs env cache root =
     map (\<lambda>(pid, f). case fst (load_from_file (parse_json env) (metadata_files env (metadata_file f))
            (new_registry (initial_process env)) []) of (reg, as) \<Rightarrow>
          \<lparr>pc_pid = pid, pc_ppid = root, pc_registry = reg, pc_agents = agent_manager_of as\<rparr>)
       (filter (\<lambda>(pid, f). \<not> files_empty f) cache)"

text \<open>One pass over the configurations: the processors of each, by process. The threads of a parallel pass share none.\<close>

fun process_configs ::
  "('text, 'st) manager_env \<Rightarrow> processor_config list \<Rightarrow> enabled_formats \<Rightarrow>
    (nat \<times> 'st sample_processor_t) list option" where
  "process_configs env [] fs = Some []"
| "process_configs env (c # cs) fs = do {
     p \<leftarrow> process_buffered_storage env c (get_buffered_storage_filename (pc_ppid c) (pc_pid c)) fs;
     ps \<leftarrow> process_configs env cs fs;
     Some ((pc_pid c, p) # ps)
   }"

definition dispatch_processing ::
  "('text, 'st) manager_env \<Rightarrow> processor_config list \<Rightarrow> enabled_formats \<Rightarrow>
    (nat \<times> 'st sample_processor_t) list option" where
  "dispatch_processing env cs fs = do {
     sequential \<leftarrow> (if has_sequential_formats fs then process_configs env cs (get_sequential_formats fs) else Some []);
     parallel \<leftarrow> (if has_parallel_formats fs then process_configs env cs (get_parallel_formats fs) else Some []);
     Some (sequential @ parallel)
   }"

text \<open>The traces that are put together: the bytes of those that can be opened, one after the other.\<close>

definition perfetto_files :: "(string \<Rightarrow> bool) \<Rightarrow> (nat \<Rightarrow> string) \<Rightarrow> string \<Rightarrow> nat \<Rightarrow> processor_config list \<Rightarrow> string list" where
  "perfetto_files file_exists with_suffix base own cs =
     concat (map (\<lambda>c. if pc_pid c = own \<and> file_exists base then [base]
       else if file_exists (with_suffix (pc_pid c)) then [with_suffix (pc_pid c)] else []) cs)"

definition merge_perfetto_files :: "(string \<Rightarrow> bytes option) \<Rightarrow> string list \<Rightarrow> bytes option" where
  "merge_perfetto_files files names =
     (let trace = concat (map (\<lambda>n. case files n of None \<Rightarrow> [] | Some bs \<Rightarrow> bs) names)
      in if names = [] \<or> trace = [] then None else Some trace)"

record 'st bulk_result =
  shut_down :: bool
  processed :: "(nat \<times> 'st sample_processor_t) list"
  removed :: "string list"

definition post_process_bulk ::
  "('text, 'st) manager_env \<Rightarrow> bool \<Rightarrow> bool \<Rightarrow> nat \<Rightarrow> nat \<Rightarrow> string list option \<Rightarrow> bool \<Rightarrow> bool \<Rightarrow>
    metadata_registry \<Rightarrow> agent list \<Rightarrow> (manager_error + 'st bulk_result) option" where
  "post_process_bulk env is_root running root own dir use_rocpd caching_perfetto reg as =
     (if \<not> is_root then Some (Inr \<lparr>shut_down = False, processed = [], removed = []\<rparr>)
      else case list_dir_files dir of
        Inl e \<Rightarrow> Some (Inl e)
      | Inr names \<Rightarrow> (case get_cache_files root names of
          Inl e \<Rightarrow> Some (Inl e)
        | Inr cache \<Rightarrow>
           (let cs = create_processor_configs env cache root @
                  [\<lparr>pc_pid = own, pc_ppid = root, pc_registry = reg, pc_agents = agent_manager_of as\<rparr>]
            in map_option (\<lambda>ps. Inr \<lparr>shut_down = running, processed = ps, removed = clear_cache_files cache\<rparr>)
                 (dispatch_processing env cs (all_formats use_rocpd caching_perfetto)))))"

section \<open>Names and their numbers\<close>

text \<open>The expressions find the numbers a name was made of, and only their own names.\<close>

lemma cache_match_name:
  assumes "suffix = CHR ''.'' # s"
  shows "cache_match prefix suffix (cache_name prefix suffix ppid pid) = Some (dec_string ppid, dec_string pid)"
  using assms dec_string_stop [OF not_dec_char(1), of ppid "dec_string pid @ suffix"]
    dec_string_stop [OF not_dec_char(2), of pid s]
  by (simp add: cache_match_def cache_name_def Let_def)

lemma cache_match_other:
  "cache_match ''buffered_storage_'' ''.bin'' (cache_name ''metadata_'' ''.json'' ppid pid) = None"
  by (simp add: cache_match_def cache_name_def)

lemma cache_name_simps [simp]:
  "cache_name ''buffered_storage_'' ''.bin'' a b \<noteq> []" "cache_name ''metadata_'' ''.json'' a b \<noteq> []"
  by (simp_all add: cache_name_def)

section \<open>Finding the files\<close>

text \<open>What is in the directory.\<close>

datatype dir_entry = Storage_of nat nat | Metadata_of nat nat | Other_file string

fun entry_name :: "dir_entry \<Rightarrow> string" where
  "entry_name (Storage_of ppid pid) = cache_name ''buffered_storage_'' ''.bin'' ppid pid"
| "entry_name (Metadata_of ppid pid) = cache_name ''metadata_'' ''.json'' ppid pid"
| "entry_name (Other_file name) = name"

fun dir_entry_ok :: "dir_entry \<Rightarrow> bool" where
  "dir_entry_ok (Storage_of ppid pid) \<longleftrightarrow> ppid \<le> 2147483647 \<and> pid \<le> 2147483647"
| "dir_entry_ok (Metadata_of ppid pid) \<longleftrightarrow> ppid \<le> 2147483647 \<and> pid \<le> 2147483647"
| "dir_entry_ok (Other_file name) \<longleftrightarrow> cache_match ''buffered_storage_'' ''.bin'' name = None \<and>
     cache_match ''metadata_'' ''.json'' name = None"

fun put_file :: "nat \<Rightarrow> dir_entry \<Rightarrow> (nat \<times> cache_files) list \<Rightarrow> (nat \<times> cache_files) list" where
  "put_file root (Storage_of ppid pid) cache = (if ppid = root
     then map_update pid no_files (\<lambda>f. f\<lparr>buff_storage := get_buffered_storage_filename ppid pid\<rparr>) cache else cache)"
| "put_file root (Metadata_of ppid pid) cache = (if ppid = root
     then map_update pid no_files (\<lambda>f. f\<lparr>metadata_file := get_metadata_filepath ppid pid\<rparr>) cache else cache)"
| "put_file root (Other_file name) cache = cache"

lemma fill_cache_entry: "dir_entry_ok e \<Longrightarrow> fill_cache root (entry_name e) cache = Inr (put_file root e cache)"
  by (cases e) (simp_all add: fill_cache_def fill_entry_def stoi_def dec_value_string cache_match_name
      cache_match_other get_buffered_storage_filename_def get_metadata_filepath_def)

lemma fill_caches_entries:
  "list_all dir_entry_ok es \<Longrightarrow>
    fill_caches root (map entry_name es) cache = Inr (fold (put_file root) es cache)"
  by (induction es arbitrary: cache) (simp_all add: fill_cache_entry)

lemma ascending_put_file: "ascending cache \<Longrightarrow> ascending (put_file root e cache)"
  by (cases e) (simp_all add: ascending_map_update)

lemma fold_put_file:
  assumes "ascending cache"
  shows "ascending (fold (put_file root) es cache)"
    and "value_at no_files (fold (put_file root) es cache) p =
      \<lparr>buff_storage = if Storage_of root p \<in> set es then get_buffered_storage_filename root p
         else buff_storage (value_at no_files cache p),
       metadata_file = if Metadata_of root p \<in> set es then get_metadata_filepath root p
         else metadata_file (value_at no_files cache p)\<rparr>"
    and "fst ` set (fold (put_file root) es cache) =
      fst ` set cache \<union> {p. Storage_of root p \<in> set es \<or> Metadata_of root p \<in> set es}"
proof -
  show "ascending (fold (put_file root) es cache)"
    using assms by (induction es arbitrary: cache) (simp_all add: ascending_put_file)
  show "value_at no_files (fold (put_file root) es cache) p =
      \<lparr>buff_storage = if Storage_of root p \<in> set es then get_buffered_storage_filename root p
         else buff_storage (value_at no_files cache p),
       metadata_file = if Metadata_of root p \<in> set es then get_metadata_filepath root p
         else metadata_file (value_at no_files cache p)\<rparr>"
    using assms
  proof (induction es arbitrary: cache)
    case (Cons e es)
    then show ?case
      using Cons.IH [OF ascending_put_file [OF Cons.prems, of root e]]
      by (cases e) (auto simp: value_at_map_update)
  qed simp
  show "fst ` set (fold (put_file root) es cache) =
      fst ` set cache \<union> {p. Storage_of root p \<in> set es \<or> Metadata_of root p \<in> set es}"
  proof (induction es arbitrary: cache)
    case (Cons e es)
    then show ?case
      by (cases e) (auto simp: keys_map_update)
  qed simp
qed

text \<open>
  In a directory of cache files of any processes, among files of other names, the root finds
  exactly its processes, and for each the files that are there, whatever their order.
\<close>

theorem cache_files_found:
  assumes "list_all dir_entry_ok es"
  shows "\<exists>cache. get_cache_files root (map entry_name es) = Inr cache \<and> ascending cache \<and>
    fst ` set cache = {p. Storage_of root p \<in> set es \<or> Metadata_of root p \<in> set es} \<and>
    (\<forall>p. value_at no_files cache p =
      \<lparr>buff_storage = if Storage_of root p \<in> set es then get_buffered_storage_filename root p else [],
       metadata_file = if Metadata_of root p \<in> set es then get_metadata_filepath root p else []\<rparr>)"
  using fold_put_file [of "[]" root es]
  by (simp add: get_cache_files_def fill_caches_entries [OF assms] no_files_def)

theorem cache_files_found_witness:
  "\<exists>cache. get_cache_files 10 (map entry_name [Metadata_of 10 12, Other_file ''x'', Storage_of 10 12, Storage_of 9 13]) =
      Inr cache \<and> fst ` set cache = {12}"
  using cache_files_found [of "[Metadata_of 10 12, Other_file ''x'', Storage_of 10 12, Storage_of 9 13]" 10]
  by (force simp: cache_match_def)

section \<open>Feeding the processors\<close>

text \<open>What a format's processor has seen at the end.\<close>

definition fed :: "('text, 'st) manager_env \<Rightarrow> string \<Rightarrow> processor_config \<Rightarrow> sample list \<Rightarrow> 'st sample_processor_t" where
  "fed env name c ss = (case make_processor env name c of (T, t) \<Rightarrow>
     processor_of [(T, finalize_processing T (fold (handle T) ss (prepare_for_processing T t)))])"

lemma process_buffered_storage_entries:
  assumes "storage_files env file = Some (entries_bytes es)" and "list_all entry_ok es"
  shows "process_buffered_storage env c file fs =
    Some (processor_of (map (\<lambda>(T, t). (T, finalize_processing T (fold (handle T) (records es) (prepare_for_processing T t))))
      (configure_processors env c fs)))"
  using assms
  by (simp add: process_buffered_storage_def prepare_all_processor_of load_entries process_all_handlers
      finalize_all_processor_of comp_def split_def)

lemma process_configs_fed:
  assumes "\<forall>c \<in> set cs. storage_files env (get_buffered_storage_filename (pc_ppid c) (pc_pid c)) =
      Some (entries_bytes (es c)) \<and> list_all entry_ok (es c)"
    and "\<forall>c. configure_processors env c fs = [make_processor env name c]"
  shows "process_configs env cs fs = Some (map (\<lambda>c. (pc_pid c, fed env name c (records (es c)))) cs)"
  using assms(1)
  by (induction cs) (simp_all add: process_buffered_storage_entries assms(2) fed_def split_def)

lemma dispatch_fed:
  assumes "\<forall>c \<in> set cs. storage_files env (get_buffered_storage_filename (pc_ppid c) (pc_pid c)) =
      Some (entries_bytes (es c)) \<and> list_all entry_ok (es c)"
  shows "dispatch_processing env cs (all_formats use_rocpd caching_perfetto) = Some (
    (if caching_perfetto then map (\<lambda>c. (pc_pid c, fed env ''perfetto'' c (records (es c)))) cs else []) @
    (if use_rocpd then map (\<lambda>c. (pc_pid c, fed env ''rocpd'' c (records (es c)))) cs else []))"
proof -
  let ?fs = "all_formats use_rocpd caching_perfetto"
  have "process_configs env cs (get_sequential_formats ?fs) =
      Some (map (\<lambda>c. (pc_pid c, fed env ''perfetto'' c (records (es c)))) cs)" if caching_perfetto
    using that by (intro process_configs_fed [OF assms])
      (simp add: configure_processors_def is_format_enabled_def get_sequential_formats_def all_formats_def)
  moreover have "process_configs env cs (get_parallel_formats ?fs) =
      Some (map (\<lambda>c. (pc_pid c, fed env ''rocpd'' c (records (es c)))) cs)" if use_rocpd
    using that by (intro process_configs_fed [OF assms])
      (simp add: configure_processors_def is_format_enabled_def get_parallel_formats_def all_formats_def)
  moreover have "has_sequential_formats ?fs = caching_perfetto" "has_parallel_formats ?fs = use_rocpd"
    by (auto simp: has_sequential_formats_def has_parallel_formats_def all_formats_def)
  ultimately show ?thesis
    by (cases use_rocpd; cases caching_perfetto) (simp_all add: dispatch_processing_def)
qed

section \<open>From the directory to the processors\<close>

text \<open>The processes whose two files are there, and what is made of the files of one.\<close>

definition children :: "nat \<Rightarrow> dir_entry list \<Rightarrow> nat set" where
  "children root des = {p. Storage_of root p \<in> set des \<and> Metadata_of root p \<in> set des}"

definition child_config :: "('text, 'st) manager_env \<Rightarrow> nat \<Rightarrow> nat \<Rightarrow> processor_config" where
  "child_config env root p =
     (case fst (load_from_file (parse_json env) (metadata_files env (get_metadata_filepath root p))
        (new_registry (initial_process env)) []) of (reg, as) \<Rightarrow>
      \<lparr>pc_pid = p, pc_ppid = root, pc_registry = reg, pc_agents = agent_manager_of as\<rparr>)"

lemma child_config_simps [simp]:
  "pc_pid (child_config env root p) = p" "pc_ppid (child_config env root p) = root"
  by (simp_all add: child_config_def split: prod.split)

lemma filename_nonempty [simp]:
  "get_buffered_storage_filename a b \<noteq> []" "get_metadata_filepath a b \<noteq> []"
  by (simp_all add: get_buffered_storage_filename_def get_metadata_filepath_def)

lemma value_at_entry: "ascending m \<Longrightarrow> (k, v) \<in> set m \<Longrightarrow> value_at z m k = v"
  by (simp add: value_at_def distinct_map strict_sorted_iff)

lemma ascending_filter:
  assumes "ascending m"
  shows "map fst (filter P m) = sorted_list_of_set (fst ` set (filter P m))"
proof -
  have "ascending (filter P m)"
    using assms by (induction m) auto
  then show ?thesis
    using sorted_list_of_set.idem_if_sorted_distinct [of "map fst (filter P m)"] by (simp add: strict_sorted_iff)
qed

lemma list_dir_entries:
  "list_dir_files (Some (map entry_name des)) =
    Inr (map entry_name (filter (\<lambda>e. entry_name e \<noteq> ''.'' \<and> entry_name e \<noteq> ''..'') des))"
  by (simp add: list_dir_files_def filter_map comp_def)

lemma entry_name_not_dot [simp]:
  "entry_name (Storage_of a b) \<noteq> ''.''" "entry_name (Storage_of a b) \<noteq> ''..''"
  "entry_name (Metadata_of a b) \<noteq> ''.''" "entry_name (Metadata_of a b) \<noteq> ''..''"
  by (simp_all add: cache_name_def)

text \<open>The configurations and the files to remove, of any directory.\<close>

lemma configs_of_directory:
  assumes "list_all dir_entry_ok des"
  shows "\<exists>cache. fill_caches root (map entry_name des) [] = Inr cache \<and>
    create_processor_configs env cache root = map (child_config env root) (sorted_list_of_set (children root des)) \<and>
    set (clear_cache_files cache) =
      {get_buffered_storage_filename root p |p. Storage_of root p \<in> set des} \<union>
      {get_metadata_filepath root p |p. Metadata_of root p \<in> set des}"
proof -
  define cache where "cache = fold (put_file root) des []"
  have asc: "ascending cache" and keys: "fst ` set cache = {p. Storage_of root p \<in> set des \<or> Metadata_of root p \<in> set des}"
    using fold_put_file [of "[]" root des] by (simp_all add: cache_def)
  have entry: "f = \<lparr>buff_storage = if Storage_of root p \<in> set des then get_buffered_storage_filename root p else [],
       metadata_file = if Metadata_of root p \<in> set des then get_metadata_filepath root p else []\<rparr>" if "(p, f) \<in> set cache" for p f
    using value_at_entry [OF asc that, of no_files] fold_put_file(2) [of "[]" root des p]
    by (simp add: cache_def no_files_def)
  have whole: "fst ` set (filter (\<lambda>(p, f). \<not> files_empty f) cache) = children root des"
  proof -
    have "\<not> files_empty f \<longleftrightarrow> p \<in> children root des" if "(p, f) \<in> set cache" for p f
      using entry [OF that] by (simp add: files_empty_def children_def)
    moreover have "\<exists>f. (p, f) \<in> set cache" if "p \<in> children root des" for p
      using keys that by (force simp: children_def)
    ultimately show ?thesis
      by force
  qed
  have "create_processor_configs env cache root =
      map (child_config env root) (map fst (filter (\<lambda>(p, f). \<not> files_empty f) cache))"
    by (auto simp: create_processor_configs_def child_config_def files_empty_def dest!: entry split: if_splits)
  then have "create_processor_configs env cache root = map (child_config env root) (sorted_list_of_set (children root des))"
    using ascending_filter [OF asc, of "\<lambda>(p, f). \<not> files_empty f"] whole by simp
  moreover have "set (clear_cache_files cache) =
      {get_buffered_storage_filename root p |p. Storage_of root p \<in> set des} \<union>
      {get_metadata_filepath root p |p. Metadata_of root p \<in> set des}"
  proof -
    define v where "v p = \<lparr>buff_storage = if Storage_of root p \<in> set des then get_buffered_storage_filename root p else [],
       metadata_file = if Metadata_of root p \<in> set des then get_metadata_filepath root p else []\<rparr>" for p
    have there: "(p, v p) \<in> set cache \<longleftrightarrow> Storage_of root p \<in> set des \<or> Metadata_of root p \<in> set des" for p
    proof
      assume "(p, v p) \<in> set cache"
      then have "p \<in> fst ` set cache"
        by force
      then show "Storage_of root p \<in> set des \<or> Metadata_of root p \<in> set des"
        by (simp add: keys)
    next
      assume "Storage_of root p \<in> set des \<or> Metadata_of root p \<in> set des"
      then have "p \<in> fst ` set cache"
        by (simp add: keys)
      then obtain f where f: "(p, f) \<in> set cache"
        by auto
      then show "(p, v p) \<in> set cache"
        using entry [OF f] by (simp add: v_def)
    qed
    have "set (clear_cache_files cache) =
        {x. x \<noteq> [] \<and> (\<exists>p f. (p, f) \<in> set cache \<and> (x = buff_storage f \<or> x = metadata_file f))}"
      by (auto simp: clear_cache_files_def)
    also have "\<dots> = {x. x \<noteq> [] \<and> (\<exists>p. (p, v p) \<in> set cache \<and> (x = buff_storage (v p) \<or> x = metadata_file (v p)))}"
      using entry unfolding v_def [symmetric] by blast
    also have "\<dots> = {get_buffered_storage_filename root p |p. Storage_of root p \<in> set des} \<union>
        {get_metadata_filepath root p |p. Metadata_of root p \<in> set des}"
      unfolding there by (auto simp: v_def split: if_splits)
    finally show ?thesis .
  qed
  ultimately show ?thesis
    using fill_caches_entries [OF assms, of root "[]"] by (auto simp: cache_def)
qed

text \<open>
  C35. Let the directory hold cache files of any processes among files of other names, and let the file of the
  root's own process and of each child with both files be what a run of stores and flushes from the empty
  ring leaves after the forced flush at its end, each store within the free space. Then post-processing
  gives every enabled format the samples each of these processes stored, once and in order, between the
  calls that prepare and finalize its processor: Perfetto first, process after process, then the
  database; the children come by their numbers, the own process last. The files of the root's processes,
  and no others, are then removed.
\<close>

theorem bulk_feeds_every_format:
  assumes "list_all dir_entry_ok des" and "cfg_ok cfg"
    and "\<forall>p \<in> insert own (children root des). cursors_fit cfg (ops p) 0 0 \<and>
      storage_files env (get_buffered_storage_filename root p) =
        map_option (\<lambda>s. ofs (flush cfg True s)) (run cfg (ops p) (init_buffer_storage cfg))"
  shows "let own_config = \<lparr>pc_pid = own, pc_ppid = root, pc_registry = reg, pc_agents = agent_manager_of as\<rparr>;
      cs = map (child_config env root) (sorted_list_of_set (children root des)) @ [own_config];
      pass = (\<lambda>name. map (\<lambda>c. (pc_pid c, fed env name c (stored (ops (pc_pid c))))) cs)
    in \<exists>gone. set gone = {get_buffered_storage_filename root p |p. Storage_of root p \<in> set des} \<union>
        {get_metadata_filepath root p |p. Metadata_of root p \<in> set des} \<and>
      post_process_bulk env True running root own (Some (map entry_name des)) use_rocpd caching_perfetto reg as =
        Some (Inr \<lparr>shut_down = running,
          processed = (if caching_perfetto then pass ''perfetto'' else []) @ (if use_rocpd then pass ''rocpd'' else []),
          removed = gone\<rparr>)"
proof -
  let ?des = "filter (\<lambda>e. entry_name e \<noteq> ''.'' \<and> entry_name e \<noteq> ''..'') des"
  let ?cs = "map (child_config env root) (sorted_list_of_set (children root des)) @
    [\<lparr>pc_pid = own, pc_ppid = root, pc_registry = reg, pc_agents = agent_manager_of as\<rparr>]"
  have same: "Storage_of root p \<in> set ?des \<longleftrightarrow> Storage_of root p \<in> set des"
    "Metadata_of root p \<in> set ?des \<longleftrightarrow> Metadata_of root p \<in> set des" "children root ?des = children root des" for p
    by (simp_all add: children_def del: entry_name.simps)
  have "finite (children root des)"
    by (rule finite_surj [of "set des" _ "\<lambda>e. case e of Storage_of a b \<Rightarrow> b | _ \<Rightarrow> 0"]) (force simp: children_def)+
  then have cs: "\<forall>c \<in> set ?cs. pc_ppid c = root \<and> pc_pid c \<in> insert own (children root des)"
    by auto
  have "\<exists>es. storage_files env (get_buffered_storage_filename root p) = Some (entries_bytes es) \<and>
      list_all entry_ok es \<and> records es = stored (ops p)" if "p \<in> insert own (children root des)" for p
    using run_from_init [OF assms(2), of "ops p"] assms(3) that by fastforce
  then obtain es where es: "\<forall>p \<in> insert own (children root des). storage_files env (get_buffered_storage_filename root p) =
      Some (entries_bytes (es p)) \<and> list_all entry_ok (es p) \<and> records (es p) = stored (ops p)"
    by metis
  have "\<forall>c \<in> set ?cs. storage_files env (get_buffered_storage_filename (pc_ppid c) (pc_pid c)) =
      Some (entries_bytes (es (pc_pid c))) \<and> list_all entry_ok (es (pc_pid c))"
    using cs es by metis
  note disp = dispatch_fed [OF this, of use_rocpd caching_perfetto]
  have pass: "map (\<lambda>c. (pc_pid c, fed env name c (records (es (pc_pid c))))) ?cs =
      map (\<lambda>c. (pc_pid c, fed env name c (stored (ops (pc_pid c))))) ?cs" for name
    using cs es by (intro map_cong) auto
  have "list_all dir_entry_ok ?des"
    using assms(1) by (auto simp: list_all_iff)
  from configs_of_directory [OF this, of root env] obtain cache where
    "fill_caches root (map entry_name ?des) [] = Inr cache" "create_processor_configs env cache root @
      [\<lparr>pc_pid = own, pc_ppid = root, pc_registry = reg, pc_agents = agent_manager_of as\<rparr>] = ?cs"
    "set (clear_cache_files cache) = {get_buffered_storage_filename root p |p. Storage_of root p \<in> set des} \<union>
      {get_metadata_filepath root p |p. Metadata_of root p \<in> set des}"
    unfolding same by auto
  then show ?thesis
    unfolding Let_def post_process_bulk_def list_dir_entries get_cache_files_def
    using disp unfolding pass by (intro exI [of _ "clear_cache_files cache"]) simp
qed

definition collecting_env :: "(json, sample list) manager_env" where
  "collecting_env = \<lparr>
     storage_files = (\<lambda>f. if f = get_buffered_storage_filename 10 12 then Some (entries_bytes [Record (small_sample 1)])
       else None),
     metadata_files = (\<lambda>f. None), parse_json = Some,
     initial_process = \<lparr>proc_pid = 0, proc_ppid = 0, proc_command = [], proc_start = 0, proc_end = 0\<rparr>,
     make_processor = (\<lambda>name c. (collecting_processor, []))\<rparr>"

definition collecting_config :: processor_config where
  "collecting_config = \<lparr>pc_pid = 12, pc_ppid = 10, pc_registry = sample_registry, pc_agents = agent_manager_of []\<rparr>"

text \<open>A child and the root's own process, whose files are those of a run that wraps around its ring.\<close>

definition run_env :: "(json, sample list) manager_env" where
  "run_env = collecting_env\<lparr>storage_files := \<lambda>f.
     map_option (\<lambda>s. ofs (flush small_cfg True s)) (run small_cfg small_ops (init_buffer_storage small_cfg))\<rparr>"

theorem bulk_feeds_every_format_witness:
  "\<exists>gone. post_process_bulk run_env True True 10 10
      (Some (map entry_name [Storage_of 10 10, Metadata_of 10 12, Storage_of 9 13, Storage_of 10 12])) True False sample_registry [] =
    Some (Inr \<lparr>shut_down = True, processed =
      [(12, processor_of [(collecting_processor, [small_sample 1, small_sample 2, small_sample 3])]),
       (10, processor_of [(collecting_processor, [small_sample 1, small_sample 2, small_sample 3])])], removed = gone\<rparr>)"
proof -
  let ?des = "[Storage_of 10 10, Metadata_of 10 12, Storage_of 9 13, Storage_of 10 12]"
  have "cfg_ok small_cfg"
    by (simp add: cfg_ok_def small_cfg_def header_size_eq)
  moreover have "list_all dir_entry_ok ?des" and "children 10 ?des = {12}"
    by (auto simp: children_def)
  ultimately show ?thesis
    using bulk_feeds_every_format [of ?des small_cfg 10 10 "\<lambda>p. small_ops" run_env sample_registry "[]" True True False]
      small_cursors_fit
    by (auto simp: run_env_def collecting_env_def fed_def collecting_processor_def Let_def small_ops_def)
qed

section \<open>Names from outside\<close>

lemma fill_cache_errors: "fill_cache root name cache = Inl e \<Longrightarrow> e = Stoi_out_of_range"
  by (auto simp: fill_cache_def fill_entry_def stoi_def split: option.splits if_splits)

lemma fill_caches_too_large:
  assumes "name \<in> set names" and "\<And>cache. fill_cache root name cache = Inl Stoi_out_of_range"
  shows "fill_caches root names cache = Inl Stoi_out_of_range"
  using assms(1)
proof (induction names arbitrary: cache)
  case (Cons n ns)
  then show ?case
    using assms(2) [of cache] by (cases "fill_cache root n cache") (auto dest: fill_cache_errors)
qed simp

text \<open>
  C36. A file in the directory with the name of a cache file and a number that is no \<open>int\<close>, which anyone may put
  into \<open>/tmp\<close>, ends the processing with an exception before any process is looked at, whatever else is
  there: nothing is handed to a processor, and nothing is removed.
\<close>

theorem foreign_file_stops_processing:
  assumes "cache_name ''buffered_storage_'' ''.bin'' n p \<in> set names" and "2147483647 < n \<or> 2147483647 < p"
  shows "post_process_bulk env True running root own (Some names) use_rocpd caching_perfetto reg as =
    Some (Inl Stoi_out_of_range)"
proof -
  let ?name = "cache_name ''buffered_storage_'' ''.bin'' n p"
  have "fill_cache root ?name cache = Inl Stoi_out_of_range" for cache
    using assms(2) by (auto simp: fill_cache_def fill_entry_def stoi_def cache_match_name dec_value_string)
  moreover have "?name \<noteq> ''.''" "?name \<noteq> ''..''"
    by (simp_all add: cache_name_def)
  ultimately show ?thesis
    using fill_caches_too_large [of ?name "filter (\<lambda>e. e \<noteq> ''.'' \<and> e \<noteq> ''..'') names"] assms(1)
    by (simp add: post_process_bulk_def list_dir_files_def get_cache_files_def)
qed

theorem foreign_file_stops_processing_witness:
  "post_process_bulk collecting_env True False 10 10 (Some [cache_name ''buffered_storage_'' ''.bin'' 9999999999 1])
     True True sample_registry [] = Some (Inl Stoi_out_of_range)"
  by (rule foreign_file_stops_processing [of 9999999999 1]) simp_all

end
