(* ===== verification/Rocpd_Database.thy ===== *)
theory Rocpd_Database
  imports Decimal
begin

text \<open>
  The database a run is written to: the tables (\<open>rocpd_tables.sql\<close>), the statements that are put
  together as texts (\<open>insert_query_builders.hpp\<close>, \<open>table_insert_query.hpp\<close>), the prepared ones
  (\<open>database.hpp\<close>) and the functions that insert (\<open>core/rocpd/data_processor.cpp\<close>).

  Of SQLite the model has what the schema asks of it: rows get an id, and a row that breaks a foreign key, a
  \<open>UNIQUE\<close>, a \<open>CHECK\<close> or a \<open>NOT NULL\<close> is refused. What it makes of a text that is not the statement
  it was meant to be is an argument. A refused statement is an exception: \<open>None\<close>.
\<close>

section \<open>Values and tables\<close>

datatype sql_value = Sql_null | Sql_int int | Sql_real u64 | Sql_text string

datatype table =
    T_metadata | T_string | T_node | T_process | T_thread | T_agent | T_queue | T_stream | T_pmc
  | T_code_object | T_kernel_symbol | T_track | T_event | T_arg | T_pmc_event | T_region | T_sample
  | T_kernel_dispatch | T_memory_copy | T_memory_allocate

type_synonym row = "(string \<times> sql_value) list"

fun foreign_keys :: "table \<Rightarrow> (string \<times> table) list" where
  "foreign_keys T_process = [(''nid'', T_node)]"
| "foreign_keys T_thread = [(''nid'', T_node), (''pid'', T_process)]"
| "foreign_keys T_agent = [(''nid'', T_node), (''pid'', T_process)]"
| "foreign_keys T_queue = [(''nid'', T_node), (''pid'', T_process)]"
| "foreign_keys T_stream = [(''nid'', T_node), (''pid'', T_process)]"
| "foreign_keys T_pmc = [(''nid'', T_node), (''pid'', T_process), (''agent_id'', T_agent)]"
| "foreign_keys T_code_object = [(''nid'', T_node), (''pid'', T_process), (''agent_id'', T_agent)]"
| "foreign_keys T_kernel_symbol = [(''nid'', T_node), (''pid'', T_process), (''code_object_id'', T_code_object)]"
| "foreign_keys T_track = [(''nid'', T_node), (''pid'', T_process), (''tid'', T_thread), (''name_id'', T_string)]"
| "foreign_keys T_event = [(''category_id'', T_string)]"
| "foreign_keys T_arg = [(''event_id'', T_event)]"
| "foreign_keys T_pmc_event = [(''pmc_id'', T_pmc), (''event_id'', T_event)]"
| "foreign_keys T_region = [(''nid'', T_node), (''pid'', T_process), (''tid'', T_thread), (''name_id'', T_string),
     (''event_id'', T_event)]"
| "foreign_keys T_sample = [(''track_id'', T_track), (''event_id'', T_event)]"
| "foreign_keys T_kernel_dispatch = [(''nid'', T_node), (''pid'', T_process), (''tid'', T_thread),
     (''agent_id'', T_agent), (''kernel_id'', T_kernel_symbol), (''queue_id'', T_queue), (''stream_id'', T_stream),
     (''region_name_id'', T_string), (''event_id'', T_event)]"
| "foreign_keys T_memory_copy = [(''nid'', T_node), (''pid'', T_process), (''tid'', T_thread), (''name_id'', T_string),
     (''dst_agent_id'', T_agent), (''src_agent_id'', T_agent), (''stream_id'', T_stream), (''queue_id'', T_queue),
     (''region_name_id'', T_string), (''event_id'', T_event)]"
| "foreign_keys T_memory_allocate = [(''nid'', T_node), (''pid'', T_process), (''tid'', T_thread),
     (''agent_id'', T_agent), (''stream_id'', T_stream), (''queue_id'', T_queue), (''event_id'', T_event)]"
| "foreign_keys _ = []"

text \<open>The columns that only take some texts; \<open>NULL\<close> passes.\<close>

fun column_checks :: "table \<Rightarrow> (string \<times> string list) list" where
  "column_checks T_agent = [(''type'', [''CPU'', ''GPU''])]"
| "column_checks T_pmc = [(''target_arch'', [''CPU'', ''GPU'']), (''value_type'', [''ABS'', ''ACCUM'', ''RELATIVE''])]"
| "column_checks T_code_object = [(''storage_type'', [''FILE'', ''MEMORY''])]"
| "column_checks T_memory_allocate = [(''type'', [''ALLOC'', ''FREE'', ''REALLOC'', ''RECLAIM'']),
     (''level'', [''REAL'', ''VIRTUAL'', ''SCRATCH''])]"
| "column_checks _ = []"

fun unique_columns :: "table \<Rightarrow> string list" where
  "unique_columns T_string = [''string'']"
| "unique_columns T_node = [''hash'', ''machine_id'']"
| "unique_columns _ = []"

text \<open>The columns that take no \<open>NULL\<close> and have no default.\<close>

fun required_columns :: "table \<Rightarrow> string list" where
  "required_columns T_metadata = [''tag'', ''value'']"
| "required_columns T_string = [''string'']"
| "required_columns T_node = [''hash'', ''machine_id'']"
| "required_columns T_process = [''nid'', ''pid'']"
| "required_columns T_thread = [''nid'', ''pid'', ''tid'']"
| "required_columns T_agent = [''nid'', ''pid'']"
| "required_columns T_queue = [''nid'', ''pid'']"
| "required_columns T_stream = [''nid'', ''pid'']"
| "required_columns T_pmc = [''nid'', ''pid'', ''name'', ''symbol'']"
| "required_columns T_code_object = [''nid'', ''pid'']"
| "required_columns T_kernel_symbol = [''nid'', ''pid'', ''code_object_id'']"
| "required_columns T_track = [''nid'']"
| "required_columns T_event = []"
| "required_columns T_arg = [''event_id'', ''position'', ''type'', ''name'']"
| "required_columns T_pmc_event = [''pmc_id'']"
| "required_columns T_region = [''nid'', ''pid'', ''tid'', ''start'', ''end'', ''name_id'']"
| "required_columns T_sample = [''track_id'', ''timestamp'']"
| "required_columns T_kernel_dispatch = [''nid'', ''pid'', ''agent_id'', ''kernel_id'', ''dispatch_id'', ''queue_id'',
     ''stream_id'', ''start'', ''end'', ''workgroup_size_x'', ''workgroup_size_y'', ''workgroup_size_z'',
     ''grid_size_x'', ''grid_size_y'', ''grid_size_z'']"
| "required_columns T_memory_copy = [''nid'', ''pid'', ''start'', ''end'', ''name_id'', ''size'']"
| "required_columns T_memory_allocate = [''nid'', ''pid'', ''start'', ''end'', ''size'']"

section \<open>Rows\<close>

record database =
  db_tables :: "table \<Rightarrow> (int \<times> row) list"
  db_last_id :: int

definition empty_database :: database where
  "empty_database = \<lparr>db_tables = (\<lambda>_. []), db_last_id = 0\<rparr>"

definition column :: "string \<Rightarrow> row \<Rightarrow> sql_value" where
  "column c r = (case map_of r c of None \<Rightarrow> Sql_null | Some v \<Rightarrow> v)"

definition has_id :: "database \<Rightarrow> table \<Rightarrow> int \<Rightarrow> bool" where
  "has_id db t i \<longleftrightarrow> i \<in> fst ` set (db_tables db t)"

definition key_ok :: "database \<Rightarrow> row \<Rightarrow> string \<times> table \<Rightarrow> bool" where
  "key_ok db r k = (case column (fst k) r of Sql_null \<Rightarrow> True | Sql_int i \<Rightarrow> has_id db (snd k) i | _ \<Rightarrow> False)"

definition check_ok :: "row \<Rightarrow> string \<times> string list \<Rightarrow> bool" where
  "check_ok r c = (case column (fst c) r of Sql_null \<Rightarrow> True | Sql_text s \<Rightarrow> s \<in> set (snd c) | _ \<Rightarrow> False)"

definition unique_ok :: "database \<Rightarrow> table \<Rightarrow> row \<Rightarrow> string \<Rightarrow> bool" where
  "unique_ok db t r c \<longleftrightarrow> column c r = Sql_null \<or> list_all (\<lambda>(_, r'). column c r' \<noteq> column c r) (db_tables db t)"

definition row_ok :: "database \<Rightarrow> table \<Rightarrow> row \<Rightarrow> bool" where
  "row_ok db t r \<longleftrightarrow> list_all (key_ok db r) (foreign_keys t) \<and> list_all (check_ok r) (column_checks t) \<and>
     list_all (unique_ok db t r) (unique_columns t) \<and> list_all (\<lambda>c. column c r \<noteq> Sql_null) (required_columns t)"

text \<open>The id of a row: the one given, or one more than any so far.\<close>

definition next_id :: "database \<Rightarrow> table \<Rightarrow> int" where
  "next_id db t = 1 + foldl max 0 (map fst (db_tables db t))"

definition row_id :: "database \<Rightarrow> table \<Rightarrow> row \<Rightarrow> int option" where
  "row_id db t r = (case column ''id'' r of
     Sql_null \<Rightarrow> Some (next_id db t)
   | Sql_int i \<Rightarrow> if has_id db t i then None else Some i
   | _ \<Rightarrow> None)"

definition insert_row :: "table \<Rightarrow> row \<Rightarrow> database \<Rightarrow> database option" where
  "insert_row t r db = (case row_id db t r of
     None \<Rightarrow> None
   | Some i \<Rightarrow> if row_ok db t r
       then Some \<lparr>db_tables = (db_tables db)(t := db_tables db t @ [(i, r)]), db_last_id = i\<rparr>
       else None)"

section \<open>Statements as texts\<close>

datatype query_value = Q_text string | Q_num nat | Q_null

definition quote :: string where
  "quote = [CHR 0x22]"

fun process_value :: "query_value \<Rightarrow> string" where
  "process_value (Q_text s) = quote @ s @ quote"
| "process_value (Q_num n) = dec_string n"
| "process_value Q_null = ''NULL''"

fun comma_list :: "string list \<Rightarrow> string" where
  "comma_list [] = []"
| "comma_list [s] = s @ '' ''"
| "comma_list (s # ss) = s @ '', '' @ comma_list ss"

definition set_table_name :: "string \<Rightarrow> string" where
  "set_table_name name = ''INSERT INTO '' @ name @ '' ''"

definition set_columns :: "string list \<Rightarrow> string" where
  "set_columns cs = ''( '' @ comma_list cs @ '') VALUES ''"

definition set_values :: "query_value list \<Rightarrow> string" where
  "set_values vs = ''( '' @ comma_list (map process_value vs) @ '')''"

definition get_query_string :: "string \<Rightarrow> string list \<Rightarrow> query_value list \<Rightarrow> string" where
  "get_query_string name cs vs = set_table_name name @ set_columns cs @ set_values vs"

text \<open>How SQLite reads a text between quotes: a pair of quotes stands for one, a single one would end it.\<close>

fun unquote :: "string \<Rightarrow> string option" where
  "unquote [] = Some []"
| "unquote (c # s) = (if c \<noteq> CHR 0x22 then map_option ((#) c) (unquote s)
     else case s of [] \<Rightarrow> None | d # s' \<Rightarrow> if d = CHR 0x22 then map_option ((#) d) (unquote s') else None)"

text \<open>What \<open>agent_info.hpp\<close> does with its JSON.\<close>

definition normalize_json_string :: "string \<Rightarrow> string" where
  "normalize_json_string s = concat (map (\<lambda>c. if c = CHR 0x22 then quote @ quote else [c]) s)"

text \<open>The value a text is read as; numbers beyond 63 bits are not integers any more.\<close>

fun value_meaning :: "query_value \<Rightarrow> sql_value option" where
  "value_meaning (Q_text s) = map_option Sql_text (unquote s)"
| "value_meaning (Q_num n) = (if n < 2 ^ 63 then Some (Sql_int (int n)) else None)"
| "value_meaning Q_null = Some Sql_null"

record sql_env =
  upid :: string
  table_name :: "table \<Rightarrow> string"
  other_query :: "string \<Rightarrow> database \<Rightarrow> database option"

definition execute_query ::
  "sql_env \<Rightarrow> table \<Rightarrow> (string \<times> query_value) list \<Rightarrow> database \<Rightarrow> database option" where
  "execute_query env t vals db = (case those (map (value_meaning \<circ> snd) vals) of
     Some vs \<Rightarrow> insert_row t (zip (map fst vals) vs) db
   | None \<Rightarrow> other_query env (get_query_string (table_name env t) (map fst vals) (map snd vals)) db)"

text \<open>A prepared statement binds its values: numbers of 64 bits are signed there.\<close>

definition bound :: "u64 \<Rightarrow> sql_value" where
  "bound w = Sql_int (sint w)"

definition c_text :: "string \<Rightarrow> sql_value" where
  "c_text s = Sql_text (c_str s)"

section \<open>Inserting\<close>

record data_processor =
  dp_db :: database
  dp_tracks :: "string \<Rightarrow> (int \<times> int) option"
  dp_pmcs :: "int \<times> string \<Rightarrow> int option"
  dp_threads :: "u64 \<Rightarrow> int option"
  dp_strings :: "string \<Rightarrow> int option"

definition run_query :: "sql_env \<Rightarrow> table \<Rightarrow> (string \<times> query_value) list \<Rightarrow> data_processor \<Rightarrow> data_processor option" where
  "run_query env t vals d = map_option (\<lambda>db. d\<lparr>dp_db := db\<rparr>) (execute_query env t vals (dp_db d))"

definition run_statement :: "table \<Rightarrow> row \<Rightarrow> data_processor \<Rightarrow> data_processor option" where
  "run_statement t r d = map_option (\<lambda>db. d\<lparr>dp_db := db\<rparr>) (insert_row t r (dp_db d))"

definition get_last_insert_id :: "data_processor \<Rightarrow> int" where
  "get_last_insert_id d = db_last_id (dp_db d)"

definition initialize_metadata :: "sql_env \<Rightarrow> data_processor \<Rightarrow> data_processor option" where
  "initialize_metadata env = run_query env T_metadata [(''tag'', Q_text ''upid''), (''value'', Q_text (upid env))]"

text \<open>The schema itself fills in three rows.\<close>

definition initialize_schema :: "sql_env \<Rightarrow> database" where
  "initialize_schema env = \<lparr>db_tables = (\<lambda>t. if t = T_metadata then
     [(1, [(''tag'', Sql_text ''schema_version''), (''value'', Sql_text ''3'')]),
      (2, [(''tag'', Sql_text ''uuid''), (''value'', Sql_text (CHR ''_'' # upid env))]),
      (3, [(''tag'', Sql_text ''guid''), (''value'', Sql_text (upid env))])] else []), db_last_id = 3\<rparr>"

definition new_data_processor :: "sql_env \<Rightarrow> data_processor option" where
  "new_data_processor env = initialize_metadata env
     \<lparr>dp_db = initialize_schema env, dp_tracks = Map.empty, dp_pmcs = Map.empty, dp_threads = Map.empty,
      dp_strings = Map.empty\<rparr>"

definition insert_string :: "sql_env \<Rightarrow> string \<Rightarrow> data_processor \<Rightarrow> (int \<times> data_processor) option" where
  "insert_string env str d = (case dp_strings d (c_str str) of
     Some i \<Rightarrow> Some (i, d)
   | None \<Rightarrow> do {
       d \<leftarrow> run_query env T_string [(''guid'', Q_text (upid env)), (''string'', Q_text (c_str str))] d;
       let i = get_last_insert_id d;
       Some (i, d\<lparr>dp_strings := (dp_strings d)(c_str str \<mapsto> i)\<rparr>)
     })"

record node_info =
  node_id :: u64
  node_hash :: u64
  machine_id :: string
  system_name :: string
  node_name :: string
  node_release :: string
  node_version :: string
  node_machine :: string
  domain_name :: string

definition insert_node_info :: "sql_env \<Rightarrow> node_info \<Rightarrow> data_processor \<Rightarrow> data_processor option" where
  "insert_node_info env n = run_query env T_node [
     (''id'', Q_num (unat (node_id n))), (''guid'', Q_text (upid env)), (''hash'', Q_num (unat (node_hash n))),
     (''machine_id'', Q_text (c_str (machine_id n))), (''system_name'', Q_text (c_str (system_name n))),
     (''hostname'', Q_text (c_str (node_name n))), (''release'', Q_text (c_str (node_release n))),
     (''version'', Q_text (c_str (node_version n))), (''hardware_name'', Q_text (c_str (node_machine n))),
     (''domain_name'', Q_text (c_str (domain_name n)))]"

definition insert_process_info ::
  "sql_env \<Rightarrow> u64 \<Rightarrow> u64 \<Rightarrow> u64 \<Rightarrow> u64 \<Rightarrow> u64 \<Rightarrow> u64 \<Rightarrow> u64 \<Rightarrow> string \<Rightarrow> data_processor \<Rightarrow> data_processor option" where
  "insert_process_info env nid ppid pid init fini start stop command = run_query env T_process [
     (''id'', Q_num (unat pid)), (''guid'', Q_text (upid env)), (''nid'', Q_num (unat nid)),
     (''ppid'', Q_num (unat ppid)), (''pid'', Q_num (unat pid)), (''init'', Q_num (unat init)),
     (''fini'', Q_num (unat fini)), (''start'', Q_num (unat start)), (''end'', Q_num (unat stop)),
     (''command'', Q_text (c_str command)), (''environment'', Q_text ''{}''), (''extdata'', Q_text ''{}'')]"

definition insert_agent_row ::
  "sql_env \<Rightarrow> u64 \<Rightarrow> u64 \<Rightarrow> string \<Rightarrow> u64 \<Rightarrow> u64 \<Rightarrow> u64 \<Rightarrow> u64 \<Rightarrow> string \<Rightarrow> string \<Rightarrow> string \<Rightarrow> string \<Rightarrow> string \<Rightarrow> string \<Rightarrow>
    data_processor \<Rightarrow> (int \<times> data_processor) option" where
  "insert_agent_row env nid pid ty absolute_index logical_index type_index uuid name model vendor product user extdata d =
     map_option (\<lambda>d. (get_last_insert_id d, d)) (run_query env T_agent [
       (''guid'', Q_text (upid env)), (''nid'', Q_num (unat nid)), (''pid'', Q_num (unat pid)), (''type'', Q_text (c_str ty)),
       (''absolute_index'', Q_num (unat absolute_index)), (''logical_index'', Q_num (unat logical_index)),
       (''type_index'', Q_num (unat type_index)), (''uuid'', Q_num (unat uuid)), (''name'', Q_text (c_str name)),
       (''model_name'', Q_text (c_str model)), (''vendor_name'', Q_text (c_str vendor)),
       (''product_name'', Q_text (c_str product)), (''user_name'', Q_text (c_str user)),
       (''extdata'', Q_text (c_str extdata))] d)"

text \<open>Ids that came from the database are not negative.\<close>

definition Q_id :: "int \<Rightarrow> query_value" where
  "Q_id i = Q_num (nat i)"

definition insert_track ::
  "sql_env \<Rightarrow> string \<Rightarrow> u64 \<Rightarrow> u64 \<Rightarrow> int option \<Rightarrow> data_processor \<Rightarrow> data_processor option" where
  "insert_track env name nid pid tid d = (case dp_tracks d (c_str name) of
     Some _ \<Rightarrow> Some d
   | None \<Rightarrow> do {
       (name_id, d) \<leftarrow> insert_string env name d;
       d \<leftarrow> run_query env T_track [(''guid'', Q_text (upid env)), (''nid'', Q_num (unat nid)),
         (''pid'', Q_num (unat pid)), (''tid'', case tid of None \<Rightarrow> Q_null | Some i \<Rightarrow> Q_id i),
         (''name_id'', Q_id name_id), (''extdata'', Q_text ''{}'')] d;
       Some (d\<lparr>dp_tracks := (dp_tracks d)(c_str name \<mapsto> (get_last_insert_id d, name_id))\<rparr>)
     })"

record pmc_row =
  pr_target_arch :: string
  pr_event_code :: u64
  pr_instance_id :: u64
  pr_name :: string
  pr_symbol :: string
  pr_description :: string
  pr_long_description :: string
  pr_component :: string
  pr_units :: string
  pr_value_type :: string
  pr_block :: string
  pr_expression :: string
  pr_is_constant :: u32
  pr_is_derived :: u32

definition insert_pmc_description ::
  "sql_env \<Rightarrow> u64 \<Rightarrow> u64 \<Rightarrow> int \<Rightarrow> pmc_row \<Rightarrow> data_processor \<Rightarrow> data_processor option" where
  "insert_pmc_description env nid pid agent_id p d = (case dp_pmcs d (agent_id, c_str (pr_name p)) of
     Some _ \<Rightarrow> Some d
   | None \<Rightarrow> do {
       d \<leftarrow> run_query env T_pmc [(''guid'', Q_text (upid env)), (''nid'', Q_num (unat nid)),
         (''pid'', Q_num (unat pid)), (''agent_id'', Q_id agent_id), (''target_arch'', Q_text (c_str (pr_target_arch p))),
         (''event_code'', Q_num (unat (pr_event_code p))), (''instance_id'', Q_num (unat (pr_instance_id p))),
         (''name'', Q_text (c_str (pr_name p))), (''symbol'', Q_text (c_str (pr_symbol p))),
         (''description'', Q_text (c_str (pr_description p))),
         (''long_description'', Q_text (c_str (pr_long_description p))),
         (''component'', Q_text (c_str (pr_component p))), (''units'', Q_text (c_str (pr_units p))),
         (''value_type'', Q_text (c_str (pr_value_type p))), (''block'', Q_text (c_str (pr_block p))),
         (''expression'', Q_text (c_str (pr_expression p))), (''is_constant'', Q_num (unat (pr_is_constant p))),
         (''is_derived'', Q_num (unat (pr_is_derived p))), (''extdata'', Q_text ''{}'')] d;
       Some (d\<lparr>dp_pmcs := (dp_pmcs d)((agent_id, c_str (pr_name p)) \<mapsto> get_last_insert_id d)\<rparr>)
     })"

definition insert_event ::
  "sql_env \<Rightarrow> int \<Rightarrow> u64 \<Rightarrow> u64 \<Rightarrow> u64 \<Rightarrow> string \<Rightarrow> string \<Rightarrow> string \<Rightarrow> data_processor \<Rightarrow> (int \<times> data_processor) option" where
  "insert_event env category stack parent correlation call_stack line_info extdata d =
     map_option (\<lambda>d. (get_last_insert_id d, d)) (run_statement T_event [
       (''guid'', Sql_text (upid env)), (''category_id'', Sql_int category), (''stack_id'', bound stack),
       (''parent_stack_id'', bound parent), (''correlation_id'', bound correlation),
       (''call_stack'', c_text call_stack), (''line_info'', c_text line_info), (''extdata'', c_text extdata)] d)"

text \<open>A counter without a description, and a sample of no track, are dropped with a warning.\<close>

definition insert_pmc_event ::
  "sql_env \<Rightarrow> int \<Rightarrow> int \<Rightarrow> string \<Rightarrow> u64 \<Rightarrow> data_processor \<Rightarrow> data_processor option" where
  "insert_pmc_event env event agent_id name val d = (case dp_pmcs d (agent_id, c_str name) of
     None \<Rightarrow> Some d
   | Some i \<Rightarrow> run_statement T_pmc_event [(''guid'', Sql_text (upid env)), (''event_id'', Sql_int event),
       (''pmc_id'', Sql_int i), (''value'', Sql_real val), (''extdata'', Sql_text ''{}'')] d)"

definition insert_sample ::
  "sql_env \<Rightarrow> string \<Rightarrow> u64 \<Rightarrow> int \<Rightarrow> data_processor \<Rightarrow> data_processor option" where
  "insert_sample env track timestamp event d = (case dp_tracks d (c_str track) of
     None \<Rightarrow> Some d
   | Some (i, _) \<Rightarrow> run_statement T_sample [(''guid'', Sql_text (upid env)), (''track_id'', Sql_int i),
       (''timestamp'', bound timestamp), (''event_id'', Sql_int event), (''extdata'', Sql_text ''{}'')] d)"

definition insert_args ::
  "sql_env \<Rightarrow> int \<Rightarrow> u64 \<Rightarrow> string \<Rightarrow> string \<Rightarrow> string \<Rightarrow> data_processor \<Rightarrow> data_processor option" where
  "insert_args env event pos ty name val = run_statement T_arg [(''guid'', Sql_text (upid env)),
     (''event_id'', Sql_int event), (''position'', bound pos), (''type'', c_text ty), (''name'', c_text name),
     (''value'', c_text val), (''extdata'', Sql_text ''{}'')]"

definition insert_stream_info :: "sql_env \<Rightarrow> u64 \<Rightarrow> u64 \<Rightarrow> u64 \<Rightarrow> string \<Rightarrow> data_processor \<Rightarrow> data_processor option" where
  "insert_stream_info env stream nid pid name = run_query env T_stream [(''id'', Q_num (unat stream)),
     (''guid'', Q_text (upid env)), (''nid'', Q_num (unat nid)), (''pid'', Q_num (unat pid)),
     (''name'', Q_text (c_str name)), (''extdata'', Q_text ''{}'')]"

definition insert_queue_info :: "sql_env \<Rightarrow> u64 \<Rightarrow> u64 \<Rightarrow> u64 \<Rightarrow> string \<Rightarrow> data_processor \<Rightarrow> data_processor option" where
  "insert_queue_info env queue nid pid name = run_query env T_queue [(''id'', Q_num (unat queue)),
     (''guid'', Q_text (upid env)), (''nid'', Q_num (unat nid)), (''pid'', Q_num (unat pid)),
     (''name'', Q_text (c_str name)), (''extdata'', Q_text ''{}'')]"

definition insert_code_object ::
  "sql_env \<Rightarrow> u64 \<Rightarrow> u64 \<Rightarrow> u64 \<Rightarrow> int \<Rightarrow> string \<Rightarrow> u64 \<Rightarrow> u64 \<Rightarrow> u64 \<Rightarrow> string \<Rightarrow> data_processor \<Rightarrow> data_processor option" where
  "insert_code_object env i nid pid agent_id uri base ld_size delta storage = run_statement T_code_object [
     (''id'', bound i), (''guid'', Sql_text (upid env)), (''nid'', bound nid), (''pid'', bound pid),
     (''agent_id'', Sql_int agent_id), (''uri'', c_text uri), (''load_base'', bound base), (''load_size'', bound ld_size),
     (''load_delta'', bound delta), (''storage_type'', c_text storage), (''extdata'', Sql_text ''{}'')]"

text \<open>Numbers of 32 bits are bound as signed, too; the address of the kernel object is one of them here.\<close>

definition bound32 :: "u32 \<Rightarrow> sql_value" where
  "bound32 w = Sql_int (sint w)"

definition insert_kernel_symbol ::
  "sql_env \<Rightarrow> u64 \<Rightarrow> u64 \<Rightarrow> u64 \<Rightarrow> u64 \<Rightarrow> string \<Rightarrow> string \<Rightarrow> u32 \<Rightarrow> u32 \<Rightarrow> u32 \<Rightarrow> u32 \<Rightarrow> u32 \<Rightarrow> u32 \<Rightarrow> u32 \<Rightarrow> u32 \<Rightarrow>
    data_processor \<Rightarrow> data_processor option" where
  "insert_kernel_symbol env i nid pid code_object name display obj seg align grp priv sgpr arch accum =
     run_statement T_kernel_symbol [(''id'', bound i), (''guid'', Sql_text (upid env)), (''nid'', bound nid),
       (''pid'', bound pid), (''code_object_id'', bound code_object), (''kernel_name'', c_text name),
       (''display_name'', c_text display), (''kernel_object'', bound (ucast obj)), (''kernarg_segment_size'', bound32 seg),
       (''kernarg_segment_alignment'', bound32 align), (''group_segment_size'', bound32 grp),
       (''private_segment_size'', bound32 priv), (''sgpr_count'', bound32 sgpr), (''arch_vgpr_count'', bound32 arch),
       (''accum_vgpr_count'', bound32 accum), (''extdata'', Sql_text ''{}'')]"

definition insert_region ::
  "sql_env \<Rightarrow> u64 \<Rightarrow> u64 \<Rightarrow> int \<Rightarrow> u64 \<Rightarrow> u64 \<Rightarrow> int \<Rightarrow> int \<Rightarrow> data_processor \<Rightarrow> data_processor option" where
  "insert_region env nid pid tid start stop name event = run_statement T_region [
     (''guid'', Sql_text (upid env)), (''nid'', bound nid), (''pid'', bound pid), (''tid'', Sql_int tid),
     (''start'', bound start), (''end'', bound stop), (''name_id'', Sql_int name), (''event_id'', Sql_int event),
     (''extdata'', Sql_text ''{}'')]"

text \<open>The extents of a dispatch: private and group segment, workgroup and grid.\<close>

record extents =
  ex_private :: u64
  ex_group :: u64
  ex_workgroup_x :: u64
  ex_workgroup_y :: u64
  ex_workgroup_z :: u64
  ex_grid_x :: u64
  ex_grid_y :: u64
  ex_grid_z :: u64

definition insert_kernel_dispatch ::
  "sql_env \<Rightarrow> u64 \<Rightarrow> u64 \<Rightarrow> int \<Rightarrow> int \<Rightarrow> u64 \<Rightarrow> u64 \<Rightarrow> u64 \<Rightarrow> u64 \<Rightarrow> u64 \<Rightarrow> u64 \<Rightarrow> extents \<Rightarrow> int \<Rightarrow> int \<Rightarrow>
    data_processor \<Rightarrow> data_processor option" where
  "insert_kernel_dispatch env nid pid tid agent_id kernel_id dispatch queue stream start stop x region_name event =
     run_statement T_kernel_dispatch [
       (''guid'', Sql_text (upid env)), (''nid'', bound nid), (''pid'', bound pid), (''tid'', Sql_int tid),
       (''agent_id'', Sql_int agent_id), (''kernel_id'', bound kernel_id), (''dispatch_id'', bound dispatch),
       (''queue_id'', bound queue), (''stream_id'', bound stream), (''start'', bound start), (''end'', bound stop),
       (''private_segment_size'', bound (ex_private x)), (''group_segment_size'', bound (ex_group x)),
       (''workgroup_size_x'', bound (ex_workgroup_x x)), (''workgroup_size_y'', bound (ex_workgroup_y x)),
       (''workgroup_size_z'', bound (ex_workgroup_z x)), (''grid_size_x'', bound (ex_grid_x x)),
       (''grid_size_y'', bound (ex_grid_y x)), (''grid_size_z'', bound (ex_grid_z x)),
       (''region_name_id'', Sql_int region_name), (''event_id'', Sql_int event), (''extdata'', Sql_text ''{}'')]"

definition insert_memory_copy ::
  "sql_env \<Rightarrow> u64 \<Rightarrow> u64 \<Rightarrow> int \<Rightarrow> u64 \<Rightarrow> u64 \<Rightarrow> int \<Rightarrow> int \<Rightarrow> u64 \<Rightarrow> int \<Rightarrow> u64 \<Rightarrow> u64 \<Rightarrow> u64 \<Rightarrow> u64 \<Rightarrow> int \<Rightarrow> int \<Rightarrow>
    data_processor \<Rightarrow> data_processor option" where
  "insert_memory_copy env nid pid tid start stop name dst_agent dst_addr src_agent src_addr copied queue stream
      region_name event = run_statement T_memory_copy [
       (''guid'', Sql_text (upid env)), (''nid'', bound nid), (''pid'', bound pid), (''tid'', Sql_int tid),
       (''start'', bound start), (''end'', bound stop), (''name_id'', Sql_int name), (''dst_agent_id'', Sql_int dst_agent),
       (''dst_address'', bound dst_addr), (''src_agent_id'', Sql_int src_agent), (''src_address'', bound src_addr),
       (''size'', bound copied), (''queue_id'', bound queue), (''stream_id'', bound stream),
       (''region_name_id'', Sql_int region_name), (''event_id'', Sql_int event), (''extdata'', Sql_text ''{}'')]"

definition insert_memory_alloc ::
  "sql_env \<Rightarrow> u64 \<Rightarrow> u64 \<Rightarrow> int \<Rightarrow> int option \<Rightarrow> string \<Rightarrow> string \<Rightarrow> u64 \<Rightarrow> u64 \<Rightarrow> u64 \<Rightarrow> u64 \<Rightarrow> u64 \<Rightarrow> u64 \<Rightarrow> int \<Rightarrow> string \<Rightarrow>
    data_processor \<Rightarrow> data_processor option" where
  "insert_memory_alloc env nid pid tid agent_id ty level start stop address allocated queue stream event extdata =
     run_statement T_memory_allocate (
       [(''guid'', Sql_text (upid env)), (''nid'', bound nid), (''pid'', bound pid), (''tid'', Sql_int tid)] @
       (case agent_id of Some a \<Rightarrow> [(''agent_id'', Sql_int a)] | None \<Rightarrow> []) @
       [(''type'', c_text ty), (''level'', c_text level), (''start'', bound start), (''end'', bound stop),
        (''address'', bound address), (''size'', bound allocated), (''queue_id'', bound queue),
        (''stream_id'', bound stream), (''event_id'', Sql_int event), (''extdata'', c_text extdata)])"

definition insert_thread_info ::
  "sql_env \<Rightarrow> u64 \<Rightarrow> u64 \<Rightarrow> u64 \<Rightarrow> u64 \<Rightarrow> string \<Rightarrow> u64 \<Rightarrow> u64 \<Rightarrow> data_processor \<Rightarrow> (int \<times> data_processor) option" where
  "insert_thread_info env nid ppid pid tid name start stop d = (case dp_threads d tid of
     Some i \<Rightarrow> Some (i, d)
   | None \<Rightarrow> do {
       d \<leftarrow> run_query env T_thread [(''guid'', Q_text (upid env)), (''nid'', Q_num (unat nid)),
         (''ppid'', Q_num (unat ppid)), (''pid'', Q_num (unat pid)), (''tid'', Q_num (unat tid)),
         (''name'', Q_text (c_str name)), (''start'', Q_num (unat start)), (''end'', Q_num (unat stop)),
         (''extdata'', Q_text ''{}'')] d;
       let i = get_last_insert_id d;
       Some (i, d\<lparr>dp_threads := (dp_threads d)(tid \<mapsto> i)\<rparr>)
     })"

definition map_thread_id_to_primary_key :: "u64 \<Rightarrow> data_processor \<Rightarrow> int option" where
  "map_thread_id_to_primary_key tid d = dp_threads d tid"

section \<open>Quoted texts\<close>

lemma unquote_normalize: "unquote (normalize_json_string s) = Some s"
  by (induction s) (auto simp: normalize_json_string_def quote_def)

lemma normalize_Cons: "normalize_json_string (c # s) = (if c = CHR 0x22 then [c, c] else [c]) @ normalize_json_string s"
  by (simp add: normalize_json_string_def quote_def)

lemma unquote_SomeD: "unquote s = Some t \<Longrightarrow> s = normalize_json_string t"
proof (induction s arbitrary: t rule: unquote.induct)
  case (2 c s)
  show ?case
  proof (cases "c = CHR 0x22")
    case True
    then obtain s' t' where s: "s = CHR 0x22 # s'" and "unquote s' = Some t'" "t = CHR 0x22 # t'"
      using "2.prems" by (cases s) (auto split: if_splits)
    moreover have "s' = normalize_json_string t'"
      using "2.IH"(2) [of "CHR 0x22" s' t'] True calculation by simp
    ultimately show ?thesis
      using True by (simp add: normalize_Cons)
  next
    case False
    then obtain t' where "unquote s = Some t'" "t = c # t'"
      using "2.prems" by auto
    then show ?thesis
      using False "2.IH"(1) [of t'] by (simp add: normalize_Cons)
  qed
qed (simp add: normalize_json_string_def)

lemma unquote_inj: "unquote s = Some t \<Longrightarrow> unquote s' = Some t \<Longrightarrow> s = s'"
  by (metis unquote_SomeD)

lemma unquote_plain: "CHR 0x22 \<notin> set s \<Longrightarrow> unquote s = Some s"
  by (induction s) auto

text \<open>
  A text with a quote can make one statement look like another: the values of the second are read out
  of the text of the first.
\<close>

lemma quotes_confuse_statements:
  "get_query_string name cs [Q_text ([CHR ''a''] @ quote @ '', '' @ quote @ [CHR ''b''])] =
   get_query_string name cs [Q_text ''a'', Q_text ''b'']"
  by (simp add: get_query_string_def set_values_def quote_def)

section \<open>What an insertion leaves alone\<close>

definition extends :: "database \<Rightarrow> database \<Rightarrow> bool" where
  "extends db db' \<longleftrightarrow> (\<forall>t. \<exists>xs. db_tables db' t = db_tables db t @ xs)"

lemma extends_refl [simp]: "extends db db"
  by (simp add: extends_def)

lemma extends_trans: "extends a b \<Longrightarrow> extends b c \<Longrightarrow> extends a c"
  by (metis append.assoc extends_def)

lemma has_id_extends: "extends db db' \<Longrightarrow> has_id db t i \<Longrightarrow> has_id db' t i"
  by (metis (no_types, opaque_lifting) UnI1 extends_def has_id_def image_Un set_append)

lemma has_id_map_of: "has_id db t i \<longleftrightarrow> map_of (db_tables db t) i \<noteq> None"
  by (simp add: has_id_def map_of_eq_None_iff)

lemma map_of_extends:
  assumes "extends db db'" and "has_id db t i"
  shows "map_of (db_tables db' t) i = map_of (db_tables db t) i"
proof -
  obtain xs where "db_tables db' t = db_tables db t @ xs"
    using assms(1) by (auto simp: extends_def)
  then show ?thesis
    using assms(2) by (auto simp: has_id_map_of map_add_def split: option.splits)
qed

lemma key_ok_extends: "extends db db' \<Longrightarrow> key_ok db r k \<Longrightarrow> key_ok db' r k"
  by (auto simp: key_ok_def has_id_extends split: sql_value.splits)

lemma foldl_max_ge: "(m :: int) \<le> foldl max m xs \<and> (\<forall>x \<in> set xs. x \<le> foldl max m xs)"
proof (induction xs arbitrary: m)
  case (Cons x xs)
  show ?case
    using Cons.IH [of "max m x"] by (simp add: max_def split: if_splits)
qed simp

lemma next_id_fresh: "\<not> has_id db t (next_id db t)"
  using foldl_max_ge [of 0 "map fst (db_tables db t)"] by (fastforce simp: has_id_def next_id_def)

lemma next_id_pos: "0 < next_id db t"
  using foldl_max_ge [of 0 "map fst (db_tables db t)"] by (simp add: next_id_def)

lemma row_id_fresh: "row_id db t r = Some i \<Longrightarrow> \<not> has_id db t i"
  by (auto simp: row_id_def next_id_fresh split: sql_value.splits if_splits)

lemma insert_row_cases:
  assumes "insert_row t r db = Some db'"
  obtains i where "row_id db t r = Some i" and "row_ok db t r" and "\<not> has_id db t i"
    and "db_tables db' t = db_tables db t @ [(i, r)]" and "\<forall>t'. t' \<noteq> t \<longrightarrow> db_tables db' t' = db_tables db t'"
    and "db_last_id db' = i" and "extends db db'"
  using assms by (auto simp: insert_row_def extends_def row_id_fresh split: option.splits if_splits)

section \<open>What holds of the tables and their caches\<close>

definition keys_ok :: "database \<Rightarrow> bool" where
  "keys_ok db \<longleftrightarrow> (\<forall>t. \<forall>(i, r) \<in> set (db_tables db t). list_all (key_ok db r) (foreign_keys t))"

lemma keys_ok_insert: 
  assumes "keys_ok db" and "insert_row t r db = Some db'"
  shows "keys_ok db'"
proof -
  obtain i where "row_id db t r = Some i" and ok: "row_ok db t r" and "\<not> has_id db t i"
    and new: "db_tables db' t = db_tables db t @ [(i, r)]"
    and rest: "\<forall>t'. t' \<noteq> t \<longrightarrow> db_tables db' t' = db_tables db t'" and "db_last_id db' = i" and ext: "extends db db'"
    using assms(2) by (rule insert_row_cases)
  have mono: "list_all (key_ok db r') ks \<Longrightarrow> list_all (key_ok db' r') ks" for r' ks
    using key_ok_extends [OF ext] by (auto simp: list_all_iff)
  have "list_all (key_ok db' r') (foreign_keys t')" if "(j, r') \<in> set (db_tables db' t')" for t' j r'
  proof (cases "(j, r') \<in> set (db_tables db t')")
    case True
    then show ?thesis
      using assms(1) mono by (fastforce simp: keys_ok_def)
  next
    case False
    then have "t' = t" "r' = r"
      using that new rest by (cases "t' = t"; auto)+
    then show ?thesis
      using ok mono by (simp add: row_ok_def)
  qed
  then show ?thesis
    by (auto simp: keys_ok_def)
qed

text \<open>The string table and the map of strings know the same texts.\<close>

definition strings_ok :: "data_processor \<Rightarrow> bool" where
  "strings_ok d \<longleftrightarrow>
     (\<forall>s i. dp_strings d s = Some i \<longrightarrow> (\<exists>r t. map_of (db_tables (dp_db d) T_string) i = Some r \<and> unquote s = Some t \<and>
        column ''string'' r = Sql_text t)) \<and>
     (\<forall>(i, r) \<in> set (db_tables (dp_db d) T_string). \<exists>s t. dp_strings d s \<noteq> None \<and> unquote s = Some t \<and>
        column ''string'' r = Sql_text t)"

lemma strings_okD: "strings_ok d \<Longrightarrow> dp_strings d s = Some i \<Longrightarrow>
    \<exists>r t. map_of (db_tables (dp_db d) T_string) i = Some r \<and> unquote s = Some t \<and> column ''string'' r = Sql_text t"
  unfolding strings_ok_def by blast

lemma strings_okD2: "strings_ok d \<Longrightarrow> (i, r) \<in> set (db_tables (dp_db d) T_string) \<Longrightarrow>
    \<exists>s t. dp_strings d s \<noteq> None \<and> unquote s = Some t \<and> column ''string'' r = Sql_text t"
  by (auto simp: strings_ok_def dest!: bspec [of _ _ "(i, r)"])

text \<open>So do the tables of threads, tracks and counters and their maps; a thread is in the row of its number.\<close>

definition thread_at :: "database \<Rightarrow> int \<Rightarrow> u64 \<Rightarrow> bool" where
  "thread_at db i tid \<longleftrightarrow> (\<exists>r. map_of (db_tables db T_thread) i = Some r \<and> column ''tid'' r = Sql_int (uint tid))"

lemma thread_at_extends: "extends db db' \<Longrightarrow> thread_at db i tid \<Longrightarrow> thread_at db' i tid"
  using map_of_extends [of db db' T_thread i] by (auto simp: thread_at_def has_id_map_of)

lemma thread_at_has_id: "thread_at db i tid \<Longrightarrow> has_id db T_thread i"
  by (auto simp: thread_at_def has_id_map_of)

definition caches_ok :: "data_processor \<Rightarrow> bool" where
  "caches_ok d \<longleftrightarrow>
     (\<forall>tid i. dp_threads d tid = Some i \<longrightarrow> thread_at (dp_db d) i tid) \<and>
     (\<forall>s i n. dp_tracks d s = Some (i, n) \<longrightarrow> has_id (dp_db d) T_track i) \<and>
     (\<forall>k i. dp_pmcs d k = Some i \<longrightarrow> has_id (dp_db d) T_pmc i)"

definition dp_core :: "data_processor \<Rightarrow> bool" where
  "dp_core d \<longleftrightarrow> keys_ok (dp_db d) \<and> strings_ok d \<and> caches_ok d"

text \<open>With the rows of the node and of the process that everything refers to.\<close>

definition dp_ok :: "sql_env \<Rightarrow> u64 \<Rightarrow> u64 \<Rightarrow> data_processor \<Rightarrow> bool" where
  "dp_ok env nid pid d \<longleftrightarrow> unquote (upid env) \<noteq> None \<and> dp_core d \<and>
     has_id (dp_db d) T_node (sint nid) \<and> has_id (dp_db d) T_process (sint pid)"

text \<open>One more row in a table that is not the one of the strings keeps all of it.\<close>

lemma dp_core_insert:
  assumes "dp_core d" and "insert_row t r (dp_db d) = Some db'" and "t \<noteq> T_string"
  shows "dp_core (d\<lparr>dp_db := db'\<rparr>)" and "extends (dp_db d) db'"
proof -
  show ext: "extends (dp_db d) db'"
    using assms(2) by (auto elim: insert_row_cases)
  have same: "db_tables db' T_string = db_tables (dp_db d) T_string"
    using assms(2,3) by (auto elim: insert_row_cases)
  have "strings_ok (d\<lparr>dp_db := db'\<rparr>)"
    using assms(1) same by (simp add: dp_core_def strings_ok_def)
  moreover have "caches_ok (d\<lparr>dp_db := db'\<rparr>)"
    using assms(1) has_id_extends [OF ext] thread_at_extends [OF ext] by (auto simp: dp_core_def caches_ok_def)
  ultimately show "dp_core (d\<lparr>dp_db := db'\<rparr>)"
    using assms(1) keys_ok_insert [OF _ assms(2)] by (simp add: dp_core_def)
qed

lemma dp_ok_insert:
  assumes "dp_ok env nid pid d" and "insert_row t r (dp_db d) = Some db'" and "t \<noteq> T_string"
  shows "dp_ok env nid pid (d\<lparr>dp_db := db'\<rparr>)"
  using assms dp_core_insert [OF _ assms(2,3)] has_id_extends by (auto simp: dp_ok_def)

text \<open>A step of the processor that keeps the caches other than that of the strings.\<close>

definition dp_frame :: "data_processor \<Rightarrow> data_processor \<Rightarrow> bool" where
  "dp_frame d d' \<longleftrightarrow> extends (dp_db d) (dp_db d') \<and> dp_threads d' = dp_threads d \<and> dp_tracks d' = dp_tracks d \<and>
     dp_pmcs d' = dp_pmcs d"

lemma dp_frame_refl [simp]: "dp_frame d d"
  by (simp add: dp_frame_def)

lemma dp_frame_trans: "dp_frame a b \<Longrightarrow> dp_frame b c \<Longrightarrow> dp_frame a c"
  by (auto simp: dp_frame_def intro: extends_trans)

lemma statement_step:
  assumes ok: "dp_ok env nid pid d" and row: "row_ok (dp_db d) t r" and t: "t \<noteq> T_string"
    and id: "row_id (dp_db d) t r = Some i"
  obtains d' where "run_statement t r d = Some d'" and "dp_ok env nid pid d'" and "dp_frame d d'"
    and "db_tables (dp_db d') t = db_tables (dp_db d) t @ [(i, r)]"
    and "\<forall>t'. t' \<noteq> t \<longrightarrow> db_tables (dp_db d') t' = db_tables (dp_db d) t'"
    and "get_last_insert_id d' = i" and "\<not> has_id (dp_db d) t i"
proof -
  obtain db' where ins: "insert_row t r (dp_db d) = Some db'"
    using row id by (simp add: insert_row_def)
  have "row_id (dp_db d) t r = Some j \<Longrightarrow> j = i" for j
    using id by simp
  with ins have "db_tables db' t = db_tables (dp_db d) t @ [(i, r)]" "\<forall>t'. t' \<noteq> t \<longrightarrow> db_tables db' t' = db_tables (dp_db d) t'"
      "db_last_id db' = i" "extends (dp_db d) db'" "\<not> has_id (dp_db d) t i"
    by (auto elim!: insert_row_cases)
  then show ?thesis
    using ins dp_ok_insert [OF ok ins t]
    by (intro that [of "d\<lparr>dp_db := db'\<rparr>"]) (auto simp: run_statement_def dp_frame_def get_last_insert_id_def)
qed

lemma string_row_ok:
  assumes "strings_ok d" and "dp_strings d s = None" and "unquote s = Some t"
  shows "row_ok (dp_db d) T_string [(''guid'', g), (''string'', Sql_text t)]"
proof -
  have "column ''string'' r \<noteq> Sql_text t" if "(i, r) \<in> set (db_tables (dp_db d) T_string)" for i r
  proof
    assume "column ''string'' r = Sql_text t"
    moreover have "\<exists>s' t'. dp_strings d s' \<noteq> None \<and> unquote s' = Some t' \<and> column ''string'' r = Sql_text t'"
      by (rule strings_okD2 [OF assms(1) that])
    then obtain s' t' where s': "dp_strings d s' \<noteq> None" "unquote s' = Some t'" "column ''string'' r = Sql_text t'"
      by blast
    ultimately have "s' = s"
      using assms(3) unquote_inj by simp
    with s'(1) assms(2) show False by simp
  qed
  then have "list_all (\<lambda>(_, r'). column ''string'' r' \<noteq> Sql_text t) (db_tables (dp_db d) T_string)"
    by (auto simp: list_all_iff)
  then show ?thesis
    by (simp add: row_ok_def unique_ok_def column_def [of _ "_ # _"])
qed

text \<open>A new text gets a row and an entry of the map.\<close>

lemma string_insert:
  assumes core: "dp_core d" and new: "dp_strings d s = None" and t: "unquote s = Some t"
    and ins: "insert_row T_string [(''guid'', g), (''string'', Sql_text t)] (dp_db d) = Some db'"
    and d': "d' = d\<lparr>dp_db := db', dp_strings := (dp_strings d)(s \<mapsto> db_last_id db')\<rparr>"
  shows "dp_core d'" and "extends (dp_db d) (dp_db d')"
    and "\<exists>r. map_of (db_tables (dp_db d') T_string) (db_last_id db') = Some r \<and> column ''string'' r = Sql_text t"
    and "\<forall>t'. t' \<noteq> T_string \<longrightarrow> db_tables (dp_db d') t' = db_tables (dp_db d) t'"
proof -
  let ?r = "[(''guid'', g), (''string'', Sql_text t)]" and ?db = "dp_db d"
  obtain i where "row_id ?db T_string ?r = Some i" and "row_ok ?db T_string ?r" and fresh: "\<not> has_id ?db T_string i"
    and rows: "db_tables db' T_string = db_tables ?db T_string @ [(i, ?r)]"
    and rest: "\<forall>t'. t' \<noteq> T_string \<longrightarrow> db_tables db' t' = db_tables ?db t'" and last: "db_last_id db' = i"
    and ext: "extends ?db db'"
    using ins by (rule insert_row_cases)
  have so: "strings_ok d"
    using core by (simp add: dp_core_def)
  have found: "map_of (db_tables db' T_string) i = Some ?r"
    using fresh by (simp add: rows has_id_map_of map_add_def)
  have "strings_ok d'"
    unfolding strings_ok_def
  proof (intro conjI allI impI ballI)
    fix s' j assume s': "dp_strings d' s' = Some j"
    show "\<exists>r t. map_of (db_tables (dp_db d') T_string) j = Some r \<and> unquote s' = Some t \<and> column ''string'' r = Sql_text t"
    proof (cases "s' = s")
      case True
      then show ?thesis
        using s' t found last by (auto simp: d' column_def)
    next
      case False
      then obtain r u where "map_of (db_tables ?db T_string) j = Some r" "unquote s' = Some u" "column ''string'' r = Sql_text u"
        using strings_okD [OF so, of s' j] s' by (auto simp: d')
      then show ?thesis
        using map_of_extends [OF ext, of T_string j] by (auto simp: d' has_id_map_of)
    qed
  next
    fix p assume p: "p \<in> set (db_tables (dp_db d') T_string)"
    obtain j r where jr: "p = (j, r)" by (cases p)
    have "\<exists>s' u. dp_strings d' s' \<noteq> None \<and> unquote s' = Some u \<and> column ''string'' r = Sql_text u"
    proof (cases "(j, r) \<in> set (db_tables ?db T_string)")
      case True
      then obtain s' u where "dp_strings d s' \<noteq> None" "unquote s' = Some u" "column ''string'' r = Sql_text u"
        using strings_okD2 [OF so] by blast
      then have "dp_strings d' s' \<noteq> None \<and> unquote s' = Some u \<and> column ''string'' r = Sql_text u"
        by (simp add: d')
      then show ?thesis by blast
    next
      case False
      then have "r = ?r"
        using p by (auto simp: d' rows jr)
      then have "dp_strings d' s \<noteq> None \<and> unquote s = Some t \<and> column ''string'' r = Sql_text t"
        by (simp add: d' t column_def)
      then show ?thesis by blast
    qed
    then show "case p of (j, r) \<Rightarrow> \<exists>s' t. dp_strings d' s' \<noteq> None \<and> unquote s' = Some t \<and> column ''string'' r = Sql_text t"
      by (simp add: jr)
  qed
  moreover have "caches_ok d'"
    using core has_id_extends [OF ext] thread_at_extends [OF ext] by (auto simp: dp_core_def caches_ok_def d')
  ultimately show "dp_core d'"
    using core keys_ok_insert [OF _ ins] by (simp add: dp_core_def d')
  show "extends (dp_db d) (dp_db d')"
    using ext by (simp add: d')
  show "\<exists>r. map_of (db_tables (dp_db d') T_string) (db_last_id db') = Some r \<and> column ''string'' r = Sql_text t"
    using found by (simp add: d' last column_def)
  show "\<forall>t'. t' \<noteq> T_string \<longrightarrow> db_tables (dp_db d') t' = db_tables (dp_db d) t'"
    using rest by (simp add: d')
qed

lemma string_step:
  assumes ok: "dp_ok env nid pid d" and t: "unquote (c_str s) = Some t"
  obtains i d' where "insert_string env s d = Some (i, d')" and "dp_ok env nid pid d'" and "dp_frame d d'"
    and "\<exists>r. map_of (db_tables (dp_db d') T_string) i = Some r \<and> column ''string'' r = Sql_text t"
    and "\<forall>t'. t' \<noteq> T_string \<longrightarrow> db_tables (dp_db d') t' = db_tables (dp_db d) t'"
proof (cases "dp_strings d (c_str s)")
  case (Some i)
  have "\<exists>r. map_of (db_tables (dp_db d) T_string) i = Some r \<and> column ''string'' r = Sql_text t"
    using strings_okD [OF _ Some] ok t by (auto simp: dp_ok_def dp_core_def)
  then show ?thesis
    using Some ok by (intro that [of i d]) (simp_all add: insert_string_def)
next
  case None
  obtain g where g: "unquote (upid env) = Some g"
    using ok by (auto simp: dp_ok_def)
  have core: "dp_core d" and so: "strings_ok d"
    using ok by (simp_all add: dp_ok_def dp_core_def)
  obtain db' where ins: "insert_row T_string [(''guid'', Sql_text g), (''string'', Sql_text t)] (dp_db d) = Some db'"
    using string_row_ok [OF so None t, of "Sql_text g"] by (simp add: insert_row_def row_id_def column_def)
  define d' where d': "d' = d\<lparr>dp_db := db', dp_strings := (dp_strings d)(c_str s \<mapsto> db_last_id db')\<rparr>"
  note facts = string_insert [OF core None t ins d']
  have run: "insert_string env s d = Some (db_last_id db', d')"
    using None ins by (simp add: insert_string_def run_query_def execute_query_def g t get_last_insert_id_def d' Let_def)
  have "dp_ok env nid pid d'"
    using ok facts(1) has_id_extends [OF facts(2)] by (simp add: dp_ok_def)
  moreover have "dp_frame d d'"
    using facts(2) by (simp add: dp_frame_def d')
  ultimately show ?thesis
    using facts(3,4) by (rule that [OF run])
qed

section \<open>Any insertion\<close>

text \<open>
  Every insertion that succeeds keeps the tables and the maps together, when SQLite takes no
  statement that is not the one it was meant to be.
\<close>

definition refuses :: "sql_env \<Rightarrow> bool" where
  "refuses env \<longleftrightarrow> (\<forall>q db. other_query env q db = None)"

definition dp_step :: "data_processor \<Rightarrow> data_processor \<Rightarrow> bool" where
  "dp_step d d' \<longleftrightarrow> dp_core d' \<and> extends (dp_db d) (dp_db d') \<and> dp_threads d \<subseteq>\<^sub>m dp_threads d'"

lemma dp_step_refl: "dp_core d \<Longrightarrow> dp_step d d"
  by (simp add: dp_step_def)

lemma dp_step_trans: "dp_step a b \<Longrightarrow> dp_step b c \<Longrightarrow> dp_step a c"
  unfolding dp_step_def using extends_trans map_le_trans by blast

lemma dp_step_core: "dp_step d d' \<Longrightarrow> dp_core d'"
  by (simp add: dp_step_def)

lemma run_queryD:
  assumes "refuses env" and "run_query env t vals d = Some d'"
  obtains vs db' where "those (map (value_meaning \<circ> snd) vals) = Some vs"
    and "insert_row t (zip (map fst vals) vs) (dp_db d) = Some db'" and "d' = d\<lparr>dp_db := db'\<rparr>"
  using assms by (auto simp: run_query_def execute_query_def refuses_def split: option.splits)

lemma run_query_step:
  "refuses env \<Longrightarrow> run_query env t vals d = Some d' \<Longrightarrow> t \<noteq> T_string \<Longrightarrow> dp_core d \<Longrightarrow> dp_step d d'"
  using dp_core_insert by (auto simp: dp_step_def elim!: run_queryD)

lemma run_statement_step:
  "run_statement t r d = Some d' \<Longrightarrow> t \<noteq> T_string \<Longrightarrow> dp_core d \<Longrightarrow> dp_step d d'"
  using dp_core_insert by (auto simp: run_statement_def dp_step_def)

lemma insert_string_step:
  assumes r: "refuses env" and run: "insert_string env s d = Some (i, d')" and core: "dp_core d"
  shows "dp_step d d'"
proof (cases "dp_strings d (c_str s)")
  case (Some j)
  then show ?thesis
    using run core by (simp add: insert_string_def dp_step_refl)
next
  case None
  then obtain d1 where q: "run_query env T_string [(''guid'', Q_text (upid env)), (''string'', Q_text (c_str s))] d = Some d1"
    and d': "d' = d1\<lparr>dp_strings := (dp_strings d1)(c_str s \<mapsto> get_last_insert_id d1)\<rparr>"
    using run by (auto simp: insert_string_def bind_eq_Some_conv Let_def)
  obtain vs db' where vs: "those (map (value_meaning \<circ> snd) [(''guid'', Q_text (upid env)), (''string'', Q_text (c_str s))]) = Some vs"
    and ins: "insert_row T_string (zip (map fst [(''guid'', Q_text (upid env)), (''string'', Q_text (c_str s))]) vs) (dp_db d) = Some db'"
    and d1: "d1 = d\<lparr>dp_db := db'\<rparr>"
    using r q by (rule run_queryD)
  obtain g t where gt: "unquote (upid env) = Some g" "unquote (c_str s) = Some t" "vs = [Sql_text g, Sql_text t]"
    using vs by (auto split: option.splits)
  have ins: "insert_row T_string [(''guid'', Sql_text g), (''string'', Sql_text t)] (dp_db d) = Some db'"
    using ins by (simp add: gt(3))
  have "d' = d\<lparr>dp_db := db', dp_strings := (dp_strings d)(c_str s \<mapsto> db_last_id db')\<rparr>"
    by (simp add: d' d1 get_last_insert_id_def)
  then show ?thesis
    using string_insert [OF core None gt(2) ins] by (simp add: dp_step_def)
qed

text \<open>What an operation may return: a processor in order, that has all that was there.\<close>

definition steps_to :: "data_processor \<Rightarrow> data_processor option \<Rightarrow> bool" where
  "steps_to d m \<longleftrightarrow> (\<forall>d'. m = Some d' \<longrightarrow> dp_step d d')"

definition steps_to_with :: "data_processor \<Rightarrow> ('a \<times> data_processor) option \<Rightarrow> bool" where
  "steps_to_with d m \<longleftrightarrow> (\<forall>x d'. m = Some (x, d') \<longrightarrow> dp_step d d')"

named_theorems dp_steps \<open>operations that keep the tables and their maps\<close>

lemma steps_bind [dp_steps]:
  "steps_to d m \<Longrightarrow> (\<And>d'. m = Some d' \<Longrightarrow> dp_core d' \<Longrightarrow> steps_to d' (k d')) \<Longrightarrow> steps_to d (Option.bind m k)"
  unfolding steps_to_def by (cases m) (auto dest: dp_step_core intro: dp_step_trans)

lemma steps_bind_with [dp_steps]:
  "steps_to_with d m \<Longrightarrow> (\<And>x d'. m = Some (x, d') \<Longrightarrow> dp_core d' \<Longrightarrow> steps_to d' (k x d')) \<Longrightarrow>
    steps_to d (Option.bind m (\<lambda>(x, d'). k x d'))"
  unfolding steps_to_def steps_to_with_def by (cases m) (auto, blast dest: dp_step_core intro: dp_step_trans)

lemma steps_bind_value:
  "(\<And>x. steps_to d (k x)) \<Longrightarrow> steps_to d (Option.bind (m :: 'a option) k)"
  unfolding steps_to_def by (cases m) auto

lemma steps_Some [dp_steps]: "dp_core d \<Longrightarrow> steps_to d (Some d)"
  by (simp add: steps_to_def dp_step_refl)

lemma steps_snd [dp_steps]: "steps_to_with d m \<Longrightarrow> steps_to d (map_option snd m)"
  by (auto simp: steps_to_def steps_to_with_def)

lemma steps_query [dp_steps]: "refuses env \<Longrightarrow> t \<noteq> T_string \<Longrightarrow> dp_core d \<Longrightarrow> steps_to d (run_query env t vals d)"
  using run_query_step by (auto simp: steps_to_def)

lemma steps_statement [dp_steps]: "t \<noteq> T_string \<Longrightarrow> dp_core d \<Longrightarrow> steps_to d (run_statement t r d)"
  using run_statement_step by (auto simp: steps_to_def)

lemma steps_string [dp_steps]: "refuses env \<Longrightarrow> dp_core d \<Longrightarrow> steps_to_with d (insert_string env s d)"
  using insert_string_step by (auto simp: steps_to_with_def)

lemma steps_last_id: "steps_to d m \<Longrightarrow> steps_to_with d (map_option (\<lambda>d. (get_last_insert_id d, d)) m)"
  by (auto simp: steps_to_def steps_to_with_def)

lemma steps_agent [dp_steps]:
  "refuses env \<Longrightarrow> dp_core d \<Longrightarrow> steps_to_with d (insert_agent_row env nid pid ty ai li ti u n m v p us ex d)"
  unfolding insert_agent_row_def by (intro steps_last_id dp_steps) auto

lemma steps_event [dp_steps]: "dp_core d \<Longrightarrow> steps_to_with d (insert_event env c s p cr cs li ex d)"
  unfolding insert_event_def by (intro steps_last_id dp_steps) auto

lemma steps_pmc_event [dp_steps]: "dp_core d \<Longrightarrow> steps_to d (insert_pmc_event env e a n v d)"
  by (auto simp: insert_pmc_event_def intro!: dp_steps split: option.split)

lemma steps_sample [dp_steps]: "dp_core d \<Longrightarrow> steps_to d (insert_sample env tr ts e d)"
  by (auto simp: insert_sample_def intro!: dp_steps split: option.split)

lemmas insertion_defs = insert_node_info_def insert_process_info_def insert_stream_info_def insert_queue_info_def
  insert_code_object_def insert_kernel_symbol_def insert_region_def insert_kernel_dispatch_def insert_memory_copy_def
  insert_memory_alloc_def insert_args_def

lemma steps_insertions [dp_steps]:
  assumes "refuses env" and "dp_core d"
  shows "steps_to d (insert_node_info env n d)" "steps_to d (insert_process_info env nid ppid pid i f s e c d)"
    "steps_to d (insert_stream_info env st nid pid nm d)" "steps_to d (insert_queue_info env q nid pid nm d)"
  using assms by (auto simp: insertion_defs intro!: dp_steps)

lemma steps_statements [dp_steps]:
  assumes "dp_core d"
  shows "steps_to d (insert_code_object env i nid pid a u b sz dl st d)"
    "steps_to d (insert_kernel_symbol env i nid pid co nm ds o1 o2 o3 o4 o5 o6 o7 o8 d)"
    "steps_to d (insert_region env nid pid tid s e rn ev d)"
    "steps_to d (insert_kernel_dispatch env nid pid tid a k di q sm s e x rn ev d)"
    "steps_to d (insert_memory_copy env nid pid tid s e rn da dd sa sd c q sm rn ev d)"
    "steps_to d (insert_memory_alloc env nid pid tid ag ty lv s e ad al q sm ev ex d)"
    "steps_to d (insert_args env ev ps ty nm v d)"
  using assms by (auto simp: insertion_defs intro!: dp_steps)

text \<open>The maps of tracks, counters and threads get the id of the row just made.\<close>

lemma last_insert_id:
  assumes "insert_row t r db = Some db'"
  shows "map_of (db_tables db' t) (db_last_id db') = Some r"
  using assms by (auto simp: has_id_map_of map_add_def elim!: insert_row_cases)

lemma steps_track [dp_steps]:
  assumes r: "refuses env" and core: "dp_core d"
  shows "steps_to d (insert_track env name nid pid tid d)"
proof (cases "dp_tracks d (c_str name)")
  case None
  have update: "steps_to d1 (Some (d2\<lparr>dp_tracks := (dp_tracks d2)(c_str name \<mapsto> (get_last_insert_id d2, nm))\<rparr>))"
    if q: "run_query env T_track vals d1 = Some d2" and c: "dp_core d1" for d1 d2 vals nm
  proof -
    obtain r db' where "insert_row T_track r (dp_db d1) = Some db'" and d2: "d2 = d1\<lparr>dp_db := db'\<rparr>"
      using r q by (rule run_queryD)
    then have "has_id (dp_db d2) T_track (get_last_insert_id d2)"
      by (simp add: has_id_map_of get_last_insert_id_def last_insert_id)
    moreover have "dp_step d1 d2"
      using run_query_step [OF r q _ c] by simp
    ultimately show ?thesis
      by (auto simp: steps_to_def dp_step_def dp_core_def caches_ok_def strings_ok_def)
  qed
  have "steps_to d1 (Option.bind (run_query env T_track vals d1)
      (\<lambda>d2. Some (d2\<lparr>dp_tracks := (dp_tracks d2)(c_str name \<mapsto> (get_last_insert_id d2, nm))\<rparr>)))"
    if c: "dp_core d1" for d1 vals nm
    using update [OF _ c] by (cases "run_query env T_track vals d1") (auto simp: steps_to_def)
  then show ?thesis
    using None r core by (auto simp: insert_track_def intro!: steps_bind_with steps_string)
qed (use core in \<open>simp add: insert_track_def steps_Some\<close>)

lemma steps_pmc_description [dp_steps]:
  assumes r: "refuses env" and core: "dp_core d"
  shows "steps_to d (insert_pmc_description env nid pid a p d)"
proof (cases "dp_pmcs d (a, c_str (pr_name p))")
  case None
  have "steps_to d (Option.bind (run_query env T_pmc vals d)
      (\<lambda>d2. Some (d2\<lparr>dp_pmcs := (dp_pmcs d2)((a, c_str (pr_name p)) \<mapsto> get_last_insert_id d2)\<rparr>)))" for vals
  proof (cases "run_query env T_pmc vals d")
    case (Some d2)
    obtain r db' where "insert_row T_pmc r (dp_db d) = Some db'" and d2: "d2 = d\<lparr>dp_db := db'\<rparr>"
      using r Some by (rule run_queryD)
    then have "has_id (dp_db d2) T_pmc (get_last_insert_id d2)"
      by (simp add: has_id_map_of get_last_insert_id_def last_insert_id)
    moreover have "dp_step d d2"
      using run_query_step [OF r Some _ core] by simp
    ultimately show ?thesis
      using Some by (auto simp: steps_to_def dp_step_def dp_core_def caches_ok_def strings_ok_def)
  qed (simp add: steps_to_def)
  then show ?thesis
    using None by (simp add: insert_pmc_description_def)
qed (use core in \<open>simp add: insert_pmc_description_def steps_Some\<close>)

lemma thread_step:
  assumes r: "refuses env" and core: "dp_core d" and run: "insert_thread_info env nid ppid pid tid nm s e d = Some (i, d')"
  shows "dp_step d d'" and "dp_threads d' tid = Some i"
proof -
  have "dp_step d d' \<and> dp_threads d' tid = Some i"
  proof (cases "dp_threads d tid")
    case None
    then obtain vals d1 where q: "run_query env T_thread vals d = Some d1" and vals: "vals = [(''guid'', Q_text (upid env)),
          (''nid'', Q_num (unat nid)), (''ppid'', Q_num (unat ppid)), (''pid'', Q_num (unat pid)), (''tid'', Q_num (unat tid)),
          (''name'', Q_text (c_str nm)), (''start'', Q_num (unat s)), (''end'', Q_num (unat e)), (''extdata'', Q_text ''{}'')]"
      and d': "d' = d1\<lparr>dp_threads := (dp_threads d1)(tid \<mapsto> get_last_insert_id d1)\<rparr>" and i: "i = get_last_insert_id d1"
      using run by (auto simp: insert_thread_info_def bind_eq_Some_conv Let_def)
    obtain vs db' where vs: "those (map (value_meaning \<circ> snd) vals) = Some vs"
      and ins: "insert_row T_thread (zip (map fst vals) vs) (dp_db d) = Some db'" and d1: "d1 = d\<lparr>dp_db := db'\<rparr>"
      using r q by (rule run_queryD)
    have "column ''tid'' (zip (map fst vals) vs) = Sql_int (uint tid)"
      using vs by (auto simp: vals column_def split: option.splits if_splits)
    then have "thread_at db' (db_last_id db') tid"
      using last_insert_id [OF ins] by (simp add: thread_at_def)
    moreover have "dp_step d d1"
      using run_query_step [OF r q _ core] by simp
    ultimately show ?thesis
      using None by (auto simp: d' i d1 get_last_insert_id_def dp_step_def dp_core_def caches_ok_def strings_ok_def map_le_def)
  qed (use run core in \<open>simp add: insert_thread_info_def dp_step_refl\<close>)
  then show "dp_step d d'" and "dp_threads d' tid = Some i"
    by blast+
qed

lemma steps_thread [dp_steps]:
  "refuses env \<Longrightarrow> dp_core d \<Longrightarrow> steps_to_with d (insert_thread_info env nid ppid pid tid nm s e d)"
  using thread_step by (auto simp: steps_to_with_def)

end
