(* ===== verification/Sample_Fields.thy ===== *)
theory Sample_Fields
  imports Decimal
begin

text \<open>
  Three fields of the samples hold packed data of their own: the metrics of a GPU
  (\<open>core/gpu_metrics.cpp\<close>), the frequencies of the cores (\<open>cpu_freq.cpp\<close>, \<open>rocpd_processor.cpp\<close>) and the
  arguments of a call (\<open>core/common_types.hpp\<close>). Each is packed by one part of the program and
  unpacked by another.

  An exception, and an index outside of a vector, are \<open>None\<close>.
\<close>

section \<open>GPU metrics\<close>

record gpu_metrics =
  vcn_activity :: "u16 list"
  vcn_busy :: "u16 list list"
  jpeg_activity :: "u16 list"
  jpeg_busy :: "u16 list list"
  xgmi_link_width :: u16
  xgmi_link_speed :: u16
  xgmi_read_data_acc :: "u64 list"
  xgmi_write_data_acc :: "u64 list"
  pcie_link_width :: u16
  pcie_link_speed :: u16
  pcie_bandwidth_acc :: u64
  pcie_bandwidth_inst :: u64

definition no_metrics :: gpu_metrics where
  "no_metrics = \<lparr>vcn_activity = [], vcn_busy = [], jpeg_activity = [], jpeg_busy = [],
     xgmi_link_width = 0, xgmi_link_speed = 0, xgmi_read_data_acc = [], xgmi_write_data_acc = [],
     pcie_link_width = 0, pcie_link_speed = 0, pcie_bandwidth_acc = 0, pcie_bandwidth_inst = 0\<rparr>"

record gpu_settings =
  set_vcn :: bool
  set_jpeg :: bool
  set_xgmi :: bool
  set_pcie :: bool

text \<open>The two flags are bits of the byte that is stored.\<close>

definition vcn_is_device_level_only :: "u8 \<Rightarrow> bool" where
  "vcn_is_device_level_only value = bit value 0"

definition jpeg_is_device_level_only :: "u8 \<Rightarrow> bool" where
  "jpeg_is_device_level_only value = bit value 1"

subsection \<open>Writing\<close>

definition serialize_uint8 :: "u8 \<Rightarrow> bytes" where
  "serialize_uint8 val = [val]"

definition serialize_uint16 :: "u16 \<Rightarrow> bytes" where
  "serialize_uint16 val = [ucast (val AND 0xFF), ucast (drop_bit 8 val AND 0xFF)]"

definition serialize_uint64 :: "u64 \<Rightarrow> bytes" where
  "serialize_uint64 val = map (\<lambda>i. ucast (drop_bit (i * 8) val AND 0xFF)) [0..<8]"

definition serialize_uint16_vector :: "u16 list \<Rightarrow> u8 \<Rightarrow> bytes option" where
  "serialize_uint16_vector vec n = (if length vec < unat n then None
     else Some (concat (map serialize_uint16 (take (unat n) vec))))"

definition serialize_uint64_vector :: "u64 list \<Rightarrow> u8 \<Rightarrow> bytes option" where
  "serialize_uint64_vector vec n = (if length vec < unat n then None
     else Some (concat (map serialize_uint64 (take (unat n) vec))))"

definition size8 :: "'a list \<Rightarrow> u8" where
  "size8 xs = of_nat (length xs)"

definition flat_data :: "bool \<Rightarrow> u16 list \<Rightarrow> u16 list list \<Rightarrow> u16 list" where
  "flat_data device_level activity busy = (if device_level then activity else concat busy)"

definition xcp_sizes :: "bool \<Rightarrow> u16 list list \<Rightarrow> u8 list" where
  "xcp_sizes device_level busy = (if device_level then [] else map size8 busy)"

definition serialize_gpu_metrics :: "gpu_metrics \<Rightarrow> u8 \<Rightarrow> gpu_settings \<Rightarrow> bytes option" where
  "serialize_gpu_metrics m caps s = do {
     let vcn_flat = flat_data (vcn_is_device_level_only caps) (vcn_activity m) (vcn_busy m);
     let jpeg_flat = flat_data (jpeg_is_device_level_only caps) (jpeg_activity m) (jpeg_busy m);
     let vcn_sizes = xcp_sizes (vcn_is_device_level_only caps) (vcn_busy m);
     let jpeg_sizes = xcp_sizes (jpeg_is_device_level_only caps) (jpeg_busy m);
     let vcn_count = size8 vcn_flat;
     let jpeg_count = size8 jpeg_flat;
     let read_count = size8 (xgmi_read_data_acc m);
     let write_count = size8 (xgmi_write_data_acc m);
     vcn \<leftarrow> (if set_vcn s \<and> vcn_count > 0 then serialize_uint16_vector vcn_flat vcn_count else Some []);
     jpeg \<leftarrow> (if set_jpeg s \<and> jpeg_count > 0 then serialize_uint16_vector jpeg_flat jpeg_count else Some []);
     xgmi \<leftarrow> (if set_xgmi s then do {
         rd \<leftarrow> serialize_uint64_vector (xgmi_read_data_acc m) read_count;
         wr \<leftarrow> serialize_uint64_vector (xgmi_write_data_acc m) write_count;
         Some (serialize_uint16 (xgmi_link_width m) @ serialize_uint16 (xgmi_link_speed m) @ rd @ wr)
       } else Some []);
     let pcie = (if set_pcie s then serialize_uint16 (pcie_link_width m) @ serialize_uint16 (pcie_link_speed m) @
         serialize_uint64 (pcie_bandwidth_acc m) @ serialize_uint64 (pcie_bandwidth_inst m) else []);
     Some (serialize_uint8 caps @ serialize_uint8 vcn_count @ serialize_uint8 jpeg_count @
       serialize_uint8 (size8 vcn_sizes) @ serialize_uint8 (size8 jpeg_sizes) @
       serialize_uint8 read_count @ serialize_uint8 write_count @
       concat (map serialize_uint8 vcn_sizes) @ concat (map serialize_uint8 jpeg_sizes) @
       vcn @ jpeg @ xgmi @ pcie)
   }"

subsection \<open>Reading\<close>

definition deserialize_uint8 :: "bytes \<Rightarrow> nat \<Rightarrow> (u8 \<times> nat) option" where
  "deserialize_uint8 data offset = (if offset \<ge> length data then None else Some (data ! offset, offset + 1))"

definition deserialize_uint16 :: "bytes \<Rightarrow> nat \<Rightarrow> (u16 \<times> nat) option" where
  "deserialize_uint16 data offset = (if offset + 1 \<ge> length data then None
     else Some (ucast (data ! offset) OR push_bit 8 (ucast (data ! (offset + 1))), offset + 2))"

definition deserialize_uint64 :: "bytes \<Rightarrow> nat \<Rightarrow> (u64 \<times> nat) option" where
  "deserialize_uint64 data offset = (if offset + 7 \<ge> length data then None
     else Some (foldl (\<lambda>value i. value OR push_bit (i * 8) (ucast (data ! (offset + i)))) 0 [0..<8], offset + 8))"

fun deserialize_many :: "(bytes \<Rightarrow> nat \<Rightarrow> ('a \<times> nat) option) \<Rightarrow> bytes \<Rightarrow> nat \<Rightarrow> nat \<Rightarrow> ('a list \<times> nat) option" where
  "deserialize_many read data offset 0 = Some ([], offset)"
| "deserialize_many read data offset (Suc n) = do {
     (v, offset) \<leftarrow> read data offset;
     (vs, offset) \<leftarrow> deserialize_many read data offset n;
     Some (v # vs, offset)
   }"

fun split_xcp :: "u16 list \<Rightarrow> nat \<Rightarrow> u8 list \<Rightarrow> u16 list list option" where
  "split_xcp flat flat_offset [] = Some []"
| "split_xcp flat flat_offset (xcp_size # sizes) =
     (if length flat < flat_offset + unat xcp_size then None
      else map_option ((#) (slice flat_offset (flat_offset + unat xcp_size) flat))
             (split_xcp flat (flat_offset + unat xcp_size) sizes))"

text \<open>The data of one kind of engine: the activity of the device, or the lists of its partitions.\<close>

definition deserialize_engine ::
  "bytes \<Rightarrow> nat \<Rightarrow> bool \<Rightarrow> u8 \<Rightarrow> bool \<Rightarrow> u8 list \<Rightarrow> ((u16 list \<times> u16 list list) \<times> nat) option" where
  "deserialize_engine data offset enabled n device_level sizes =
     (if enabled \<and> n > 0 then do {
        (flat, offset) \<leftarrow> deserialize_many deserialize_uint16 data offset (unat n);
        busy \<leftarrow> (if device_level then Some [] else split_xcp flat 0 sizes);
        Some ((if device_level then flat else [], busy), offset)
      } else Some (([], []), offset))"

definition deserialize_xgmi ::
  "bytes \<Rightarrow> nat \<Rightarrow> bool \<Rightarrow> u8 \<Rightarrow> u8 \<Rightarrow> ((u16 \<times> u16 \<times> u64 list \<times> u64 list) \<times> nat) option" where
  "deserialize_xgmi data offset enabled read_count write_count = (if \<not> enabled then Some ((0, 0, [], []), offset)
     else do {
       (width, offset) \<leftarrow> deserialize_uint16 data offset;
       (speed, offset) \<leftarrow> deserialize_uint16 data offset;
       (rd, offset) \<leftarrow> deserialize_many deserialize_uint64 data offset (unat read_count);
       (wr, offset) \<leftarrow> deserialize_many deserialize_uint64 data offset (unat write_count);
       Some ((width, speed, rd, wr), offset)
     })"

definition deserialize_pcie :: "bytes \<Rightarrow> nat \<Rightarrow> bool \<Rightarrow> ((u16 \<times> u16 \<times> u64 \<times> u64) \<times> nat) option" where
  "deserialize_pcie data offset enabled = (if \<not> enabled then Some ((0, 0, 0, 0), offset)
     else do {
       (width, offset) \<leftarrow> deserialize_uint16 data offset;
       (speed, offset) \<leftarrow> deserialize_uint16 data offset;
       (acc, offset) \<leftarrow> deserialize_uint64 data offset;
       (inst, offset) \<leftarrow> deserialize_uint64 data offset;
       Some ((width, speed, acc, inst), offset)
     })"

definition deserialize_gpu_metrics :: "bytes \<Rightarrow> gpu_settings \<Rightarrow> (gpu_metrics \<times> u8) option" where
  "deserialize_gpu_metrics data s = (if data = [] then None else do {
     (caps, offset) \<leftarrow> deserialize_uint8 data 0;
     (vcn_count, offset) \<leftarrow> deserialize_uint8 data offset;
     (jpeg_count, offset) \<leftarrow> deserialize_uint8 data offset;
     (vcn_xcp_count, offset) \<leftarrow> deserialize_uint8 data offset;
     (jpeg_xcp_count, offset) \<leftarrow> deserialize_uint8 data offset;
     (read_count, offset) \<leftarrow> deserialize_uint8 data offset;
     (write_count, offset) \<leftarrow> deserialize_uint8 data offset;
     (vcn_sizes, offset) \<leftarrow> deserialize_many deserialize_uint8 data offset (unat vcn_xcp_count);
     (jpeg_sizes, offset) \<leftarrow> deserialize_many deserialize_uint8 data offset (unat jpeg_xcp_count);
     ((va, vb), offset) \<leftarrow> deserialize_engine data offset (set_vcn s) vcn_count (vcn_is_device_level_only caps) vcn_sizes;
     ((ja, jb), offset) \<leftarrow> deserialize_engine data offset (set_jpeg s) jpeg_count (jpeg_is_device_level_only caps) jpeg_sizes;
     ((xw, xs, rd, wr), offset) \<leftarrow> deserialize_xgmi data offset (set_xgmi s) read_count write_count;
     ((pw, ps, acc, inst), offset) \<leftarrow> deserialize_pcie data offset (set_pcie s);
     Some (\<lparr>vcn_activity = va, vcn_busy = vb, jpeg_activity = ja, jpeg_busy = jb,
       xgmi_link_width = xw, xgmi_link_speed = xs, xgmi_read_data_acc = rd, xgmi_write_data_acc = wr,
       pcie_link_width = pw, pcie_link_speed = ps, pcie_bandwidth_acc = acc, pcie_bandwidth_inst = inst\<rparr>, caps)
   })"

subsection \<open>What is read is what was written\<close>

text \<open>A reader of one value takes its bytes off and leaves the offset behind them.\<close>

locale field_codec =
  fixes enc :: "'a \<Rightarrow> bytes"
    and dec :: "bytes \<Rightarrow> nat \<Rightarrow> ('a \<times> nat) option"
  assumes dec_enc: "drop offset data = enc v @ rest \<Longrightarrow> dec data offset = Some (v, offset + length (enc v))"
begin

lemma step:
  assumes "drop offset data = enc v @ rest"
  obtains offset' where "dec data offset = Some (v, offset')" and "drop offset' data = rest"
  using dec_enc [OF assms] assms by (metis append_eq_conv_conj drop_drop add.commute)

lemma many:
  assumes "drop offset data = concat (map enc vs) @ rest"
  obtains offset' where "deserialize_many dec data offset (length vs) = Some (vs, offset')" and "drop offset' data = rest"
  using assms
proof (induction vs arbitrary: offset thesis)
  case (Cons v vs)
  obtain o1 where 1: "dec data offset = Some (v, o1)" and d: "drop o1 data = concat (map enc vs) @ rest"
    using step [of offset data v "concat (map enc vs) @ rest"] Cons.prems(2) by auto
  obtain o2 where 2: "deserialize_many dec data o1 (length vs) = Some (vs, o2)" and e: "drop o2 data = rest"
    using Cons.IH d by blast
  show ?case
    by (rule Cons.prems(1) [of o2]) (simp_all add: 1 2 e)
qed simp

end

lemma drop_nth:
  assumes "drop offset data = b # rest"
  shows "offset < length data" and "data ! offset = b" and "drop (Suc offset) data = rest"
proof -
  show *: "offset < length data"
    using assms by (metis drop_all leI list.distinct(1))
  show "data ! offset = b" and "drop (Suc offset) data = rest"
    using assms Cons_nth_drop_Suc [OF *] by simp_all
qed

interpretation c8: field_codec serialize_uint8 deserialize_uint8
  by unfold_locales (auto simp: serialize_uint8_def deserialize_uint8_def dest: drop_nth)

lemma low_byte: "w AND 0xFF = take_bit 8 (w :: 'a :: len word)"
  by (simp add: take_bit_eq_mask mask_eq_exp_minus_1)

interpretation c16: field_codec serialize_uint16 deserialize_uint16
proof
  fix offset data v rest
  assume d: "drop offset data = serialize_uint16 v @ rest"
  then have d: "drop offset data = ucast (take_bit 8 v) # ucast (take_bit 8 (drop_bit 8 v)) # rest"
    by (simp add: serialize_uint16_def low_byte)
  note 1 = drop_nth [OF d] note 2 = drop_nth [OF 1(3)]
  have "(ucast (ucast (take_bit 8 v) :: u8) :: u16) OR push_bit 8 (ucast (ucast (take_bit 8 (drop_bit 8 v)) :: u8)) = v"
    by (rule bit_eqI) (auto simp: bit_simps)
  then show "deserialize_uint16 data offset = Some (v, offset + length (serialize_uint16 v))"
    using 1 2 by (simp add: deserialize_uint16_def serialize_uint16_def)
qed

text \<open>Or-ing the bytes at their places gives the bits below the last one.\<close>

lemma bit_or_bytes:
  "bit (foldl (\<lambda>value i. value OR push_bit (i * 8) (ucast (ucast (drop_bit (i * 8) v AND 0xFF) :: u8))) 0 [0..<k] :: u64) n
    \<longleftrightarrow> n < k * 8 \<and> bit (v :: u64) n"
proof (induction k)
  case (Suc k)
  have "bit (push_bit (k * 8) (ucast (ucast (drop_bit (k * 8) v AND 0xFF) :: u8)) :: u64) n
      \<longleftrightarrow> k * 8 \<le> n \<and> n < Suc k * 8 \<and> bit v n"
    by (auto simp: low_byte bit_simps dest: bit_imp_le_length)
  then show ?case
    using Suc.IH by (auto simp: bit_simps)
qed simp

interpretation c64: field_codec serialize_uint64 deserialize_uint64
proof
  fix offset data v rest
  assume d: "drop offset data = serialize_uint64 v @ rest"
  have len: "offset + 7 < length data"
    using arg_cong [OF d, of length] by (simp add: serialize_uint64_def)
  have "data ! (offset + i) = ucast (drop_bit (i * 8) v AND 0xFF)" if "i < 8" for i
    using that len nth_drop [of offset data i] unfolding d by (simp add: serialize_uint64_def nth_append)
  then have "foldl (\<lambda>value i. value OR push_bit (i * 8) (ucast (data ! (offset + i)))) 0 [0..<8] =
      (foldl (\<lambda>value i. value OR push_bit (i * 8) (ucast (ucast (drop_bit (i * 8) v AND 0xFF) :: u8))) 0 [0..<8] :: u64)"
    by (intro foldl_cong) auto
  also have "\<dots> = v"
    by (rule bit_eqI) (simp only: bit_or_bytes, simp)
  finally show "deserialize_uint64 data offset = Some (v, offset + length (serialize_uint64 v))"
    using len by (simp add: deserialize_uint64_def serialize_uint64_def)
qed

subsection \<open>The whole record\<close>

text \<open>Every count is a byte.\<close>

definition counts_fit :: "gpu_metrics \<Rightarrow> u8 \<Rightarrow> bool" where
  "counts_fit m caps \<longleftrightarrow>
     length (flat_data (vcn_is_device_level_only caps) (vcn_activity m) (vcn_busy m)) < 256 \<and>
     length (flat_data (jpeg_is_device_level_only caps) (jpeg_activity m) (jpeg_busy m)) < 256 \<and>
     length (vcn_busy m) < 256 \<and> length (jpeg_busy m) < 256 \<and>
     length (xgmi_read_data_acc m) < 256 \<and> length (xgmi_write_data_acc m) < 256"

text \<open>What is kept: what the settings select, in the form the flags say, and no partitions that are all empty.\<close>

definition kept_activity :: "bool \<Rightarrow> bool \<Rightarrow> u16 list \<Rightarrow> u16 list" where
  "kept_activity enabled device_level activity = (if enabled \<and> device_level then activity else [])"

definition kept_busy :: "bool \<Rightarrow> bool \<Rightarrow> u16 list list \<Rightarrow> u16 list list" where
  "kept_busy enabled device_level busy = (if enabled \<and> \<not> device_level \<and> concat busy \<noteq> [] then busy else [])"

definition kept_metrics :: "gpu_settings \<Rightarrow> u8 \<Rightarrow> gpu_metrics \<Rightarrow> gpu_metrics" where
  "kept_metrics s caps m = \<lparr>
     vcn_activity = kept_activity (set_vcn s) (vcn_is_device_level_only caps) (vcn_activity m),
     vcn_busy = kept_busy (set_vcn s) (vcn_is_device_level_only caps) (vcn_busy m),
     jpeg_activity = kept_activity (set_jpeg s) (jpeg_is_device_level_only caps) (jpeg_activity m),
     jpeg_busy = kept_busy (set_jpeg s) (jpeg_is_device_level_only caps) (jpeg_busy m),
     xgmi_link_width = (if set_xgmi s then xgmi_link_width m else 0),
     xgmi_link_speed = (if set_xgmi s then xgmi_link_speed m else 0),
     xgmi_read_data_acc = (if set_xgmi s then xgmi_read_data_acc m else []),
     xgmi_write_data_acc = (if set_xgmi s then xgmi_write_data_acc m else []),
     pcie_link_width = (if set_pcie s then pcie_link_width m else 0),
     pcie_link_speed = (if set_pcie s then pcie_link_speed m else 0),
     pcie_bandwidth_acc = (if set_pcie s then pcie_bandwidth_acc m else 0),
     pcie_bandwidth_inst = (if set_pcie s then pcie_bandwidth_inst m else 0)\<rparr>"

lemma unat_size8: "length xs < 256 \<Longrightarrow> unat (size8 xs) = length xs"
  by (simp add: size8_def unat_of_nat)

lemma size8_pos: "length xs < 256 \<Longrightarrow> size8 xs > 0 \<longleftrightarrow> xs \<noteq> []"
  by (simp add: word_less_nat_alt unat_size8)

lemma vector16: "length xs < 256 \<Longrightarrow> serialize_uint16_vector xs (size8 xs) = Some (concat (map serialize_uint16 xs))"
  by (simp add: serialize_uint16_vector_def unat_size8)

lemma vector64: "length xs < 256 \<Longrightarrow> serialize_uint64_vector xs (size8 xs) = Some (concat (map serialize_uint64 xs))"
  by (simp add: serialize_uint64_vector_def unat_size8)

lemma split_xcp_sizes:
  assumes "drop flat_offset flat = concat xss" and "flat_offset \<le> length flat" and "length (concat xss) < 256"
  shows "split_xcp flat flat_offset (map size8 xss) = Some xss"
  using assms
proof (induction xss arbitrary: flat_offset)
  case (Cons xs xss)
  then have len: "unat (size8 xs) = length xs" and d: "drop (flat_offset + length xs) flat = concat xss"
    by (simp_all add: unat_size8) (metis append_eq_conv_conj drop_drop add.commute)
  have fit: "flat_offset + length xs \<le> length flat"
    using arg_cong [OF Cons.prems(1), of length] Cons.prems(2) by simp
  have "split_xcp flat (flat_offset + length xs) (map size8 xss) = Some xss"
    using Cons.prems(3) by (intro Cons.IH d fit) simp
  then show ?case
    using Cons.prems(1) fit by (simp add: len slice_def)
qed simp

definition engine_bytes :: "bool \<Rightarrow> u16 list \<Rightarrow> bytes" where
  "engine_bytes enabled flat = (if enabled then concat (map serialize_uint16 flat) else [])"

lemma engine_written:
  "length flat < 256 \<Longrightarrow>
    (if enabled \<and> size8 flat > 0 then serialize_uint16_vector flat (size8 flat) else Some []) = Some (engine_bytes enabled flat)"
  by (auto simp: engine_bytes_def vector16 size8_pos)

lemma engine_step:
  assumes d: "drop offset data = engine_bytes enabled (flat_data dev activity busy) @ rest"
    and fit: "length (flat_data dev activity busy) < 256"
  obtains offset' where
    "deserialize_engine data offset enabled (size8 (flat_data dev activity busy)) dev (xcp_sizes dev busy) =
       Some ((kept_activity enabled dev activity, kept_busy enabled dev busy), offset')"
    and "drop offset' data = rest"
proof (cases "enabled \<and> flat_data dev activity busy \<noteq> []")
  case True
  then obtain o1 where 1: "deserialize_many deserialize_uint16 data offset (length (flat_data dev activity busy)) =
      Some (flat_data dev activity busy, o1)" "drop o1 data = rest"
    using c16.many [of offset data "flat_data dev activity busy" rest] d by (auto simp: engine_bytes_def)
  have "split_xcp (concat busy) 0 (map size8 busy) = Some busy" if "\<not> dev"
    using that fit by (intro split_xcp_sizes) (simp_all add: flat_data_def)
  then show ?thesis
    using True 1 fit
    by (intro that [of o1])
      (auto simp: deserialize_engine_def unat_size8 size8_pos xcp_sizes_def kept_activity_def kept_busy_def flat_data_def)
next
  case False
  then show ?thesis
    using d fit
    by (intro that [of offset])
      (auto simp: deserialize_engine_def engine_bytes_def size8_pos kept_activity_def kept_busy_def flat_data_def
        split: if_splits)
qed

lemma xgmi_step:
  assumes d: "drop offset data = (if enabled then serialize_uint16 w @ serialize_uint16 v @
      concat (map serialize_uint64 rd) @ concat (map serialize_uint64 wr) else []) @ rest"
    and fit: "length rd < 256" "length wr < 256"
  obtains offset' where "deserialize_xgmi data offset enabled (size8 rd) (size8 wr) =
      Some ((if enabled then (w, v, rd, wr) else (0, 0, [], [])), offset')" and "drop offset' data = rest"
proof (cases enabled)
  case True
  obtain o1 where 1: "deserialize_uint16 data offset = Some (w, o1)"
      "drop o1 data = serialize_uint16 v @ concat (map serialize_uint64 rd) @ concat (map serialize_uint64 wr) @ rest"
    by (rule c16.step [of offset data w]) (use d True in auto)
  obtain o2 where 2: "deserialize_uint16 data o1 = Some (v, o2)"
      "drop o2 data = concat (map serialize_uint64 rd) @ concat (map serialize_uint64 wr) @ rest"
    using c16.step [OF 1(2)] by blast
  obtain o3 where 3: "deserialize_many deserialize_uint64 data o2 (length rd) = Some (rd, o3)"
      "drop o3 data = concat (map serialize_uint64 wr) @ rest"
    using c64.many [OF 2(2)] by blast
  obtain o4 where 4: "deserialize_many deserialize_uint64 data o3 (length wr) = Some (wr, o4)" "drop o4 data = rest"
    using c64.many [OF 3(2)] by blast
  show ?thesis
    by (rule that [of o4]) (simp_all add: True deserialize_xgmi_def unat_size8 fit 1(1) 2(1) 3(1) 4)
next
  case False
  show ?thesis
    by (rule that [of offset]) (use d False in \<open>simp_all add: deserialize_xgmi_def\<close>)
qed

lemma pcie_step:
  assumes d: "drop offset data = (if enabled then serialize_uint16 w @ serialize_uint16 v @
      serialize_uint64 acc @ serialize_uint64 inst else []) @ rest"
  obtains offset' where "deserialize_pcie data offset enabled =
      Some ((if enabled then (w, v, acc, inst) else (0, 0, 0, 0)), offset')" and "drop offset' data = rest"
proof (cases enabled)
  case True
  obtain o1 where 1: "deserialize_uint16 data offset = Some (w, o1)"
      "drop o1 data = serialize_uint16 v @ serialize_uint64 acc @ serialize_uint64 inst @ rest"
    by (rule c16.step [of offset data w]) (use d True in auto)
  obtain o2 where 2: "deserialize_uint16 data o1 = Some (v, o2)"
      "drop o2 data = serialize_uint64 acc @ serialize_uint64 inst @ rest"
    using c16.step [OF 1(2)] by blast
  obtain o3 where 3: "deserialize_uint64 data o2 = Some (acc, o3)" "drop o3 data = serialize_uint64 inst @ rest"
    using c64.step [OF 2(2)] by blast
  obtain o4 where 4: "deserialize_uint64 data o3 = Some (inst, o4)" "drop o4 data = rest"
    using c64.step [OF 3(2)] by blast
  show ?thesis
    by (rule that [of o4]) (simp_all add: True deserialize_pcie_def 1(1) 2(1) 3(1) 4)
next
  case False
  show ?thesis
    by (rule that [of offset]) (use d False in \<open>simp_all add: deserialize_pcie_def\<close>)
qed

definition metrics_bytes :: "gpu_metrics \<Rightarrow> u8 \<Rightarrow> gpu_settings \<Rightarrow> bytes" where
  "metrics_bytes m caps s =
     (let vflat = flat_data (vcn_is_device_level_only caps) (vcn_activity m) (vcn_busy m);
          jflat = flat_data (jpeg_is_device_level_only caps) (jpeg_activity m) (jpeg_busy m);
          vsizes = xcp_sizes (vcn_is_device_level_only caps) (vcn_busy m);
          jsizes = xcp_sizes (jpeg_is_device_level_only caps) (jpeg_busy m)
      in [caps, size8 vflat, size8 jflat, size8 vsizes, size8 jsizes, size8 (xgmi_read_data_acc m),
          size8 (xgmi_write_data_acc m)] @
        concat (map serialize_uint8 vsizes) @ concat (map serialize_uint8 jsizes) @
        engine_bytes (set_vcn s) vflat @ engine_bytes (set_jpeg s) jflat @
        (if set_xgmi s then serialize_uint16 (xgmi_link_width m) @ serialize_uint16 (xgmi_link_speed m) @
           concat (map serialize_uint64 (xgmi_read_data_acc m)) @ concat (map serialize_uint64 (xgmi_write_data_acc m)) else []) @
        (if set_pcie s then serialize_uint16 (pcie_link_width m) @ serialize_uint16 (pcie_link_speed m) @
           serialize_uint64 (pcie_bandwidth_acc m) @ serialize_uint64 (pcie_bandwidth_inst m) else []))"

lemma metrics_written:
  assumes "counts_fit m caps"
  shows "serialize_gpu_metrics m caps s = Some (metrics_bytes m caps s)"
  using assms
  by (simp add: serialize_gpu_metrics_def metrics_bytes_def counts_fit_def Let_def engine_written vector64
      serialize_uint8_def [of caps] serialize_uint8_def [of "size8 _"])

lemma metrics_read:
  assumes fit: "counts_fit m caps"
  shows "deserialize_gpu_metrics (metrics_bytes m caps s) s = Some (kept_metrics s caps m, caps)"
proof -
  define data where "data = metrics_bytes m caps s"
  define vd jd where "vd = vcn_is_device_level_only caps" and "jd = jpeg_is_device_level_only caps"
  define vsizes jsizes where "vsizes = xcp_sizes vd (vcn_busy m)" and "jsizes = xcp_sizes jd (jpeg_busy m)"
  have fits: "length (flat_data vd (vcn_activity m) (vcn_busy m)) < 256"
      "length (flat_data jd (jpeg_activity m) (jpeg_busy m)) < 256" "length vsizes < 256" "length jsizes < 256"
      "length (xgmi_read_data_acc m) < 256" "length (xgmi_write_data_acc m) < 256"
    using fit by (simp_all add: counts_fit_def vd_def jd_def vsizes_def jsizes_def xcp_sizes_def)
  let ?S = "\<lambda>sizes. concat (map serialize_uint8 sizes)"
  let ?V = "engine_bytes (set_vcn s) (flat_data vd (vcn_activity m) (vcn_busy m))"
  let ?J = "engine_bytes (set_jpeg s) (flat_data jd (jpeg_activity m) (jpeg_busy m))"
  let ?X = "if set_xgmi s then serialize_uint16 (xgmi_link_width m) @ serialize_uint16 (xgmi_link_speed m) @
      concat (map serialize_uint64 (xgmi_read_data_acc m)) @ concat (map serialize_uint64 (xgmi_write_data_acc m)) else []"
  let ?P = "if set_pcie s then serialize_uint16 (pcie_link_width m) @ serialize_uint16 (pcie_link_speed m) @
      serialize_uint64 (pcie_bandwidth_acc m) @ serialize_uint64 (pcie_bandwidth_inst m) else []"
  have d: "drop 7 data = ?S vsizes @ ?S jsizes @ ?V @ ?J @ ?X @ ?P @ []"
    by (simp add: data_def metrics_bytes_def Let_def vd_def jd_def vsizes_def jsizes_def)
  obtain o1 where 1: "deserialize_many deserialize_uint8 data 7 (length vsizes) = Some (vsizes, o1)" and d1: "drop o1 data = ?S jsizes @ ?V @ ?J @ ?X @ ?P @ []"
    by (rule c8.many [OF d])
  obtain o2 where 2: "deserialize_many deserialize_uint8 data o1 (length jsizes) = Some (jsizes, o2)" and d2: "drop o2 data = ?V @ ?J @ ?X @ ?P @ []"
    by (rule c8.many [OF d1])
  obtain o3 where 3: "deserialize_engine data o2 (set_vcn s) (size8 (flat_data vd (vcn_activity m) (vcn_busy m))) vd vsizes =
      Some ((kept_activity (set_vcn s) vd (vcn_activity m), kept_busy (set_vcn s) vd (vcn_busy m)), o3)" and d3: "drop o3 data = ?J @ ?X @ ?P @ []"
    unfolding vsizes_def by (rule engine_step [OF d2 fits(1)])
  obtain o4 where 4: "deserialize_engine data o3 (set_jpeg s) (size8 (flat_data jd (jpeg_activity m) (jpeg_busy m))) jd jsizes =
      Some ((kept_activity (set_jpeg s) jd (jpeg_activity m), kept_busy (set_jpeg s) jd (jpeg_busy m)), o4)" and d4: "drop o4 data = ?X @ ?P @ []"
    unfolding jsizes_def by (rule engine_step [OF d3 fits(2)])
  obtain o5 where 5: "deserialize_xgmi data o4 (set_xgmi s) (size8 (xgmi_read_data_acc m)) (size8 (xgmi_write_data_acc m)) =
      Some ((if set_xgmi s then (xgmi_link_width m, xgmi_link_speed m, xgmi_read_data_acc m, xgmi_write_data_acc m)
        else (0, 0, [], [])), o5)" and d5: "drop o5 data = ?P @ []"
    by (rule xgmi_step [OF d4 fits(5,6)])
  obtain o6 where 6: "deserialize_pcie data o5 (set_pcie s) =
      Some ((if set_pcie s then (pcie_link_width m, pcie_link_speed m, pcie_bandwidth_acc m, pcie_bandwidth_inst m)
        else (0, 0, 0, 0)), o6)" and "drop o6 data = []"
    by (rule pcie_step [OF d5])
  have header: "deserialize_uint8 data 0 = Some (caps, 1)"
      "deserialize_uint8 data 1 = Some (size8 (flat_data vd (vcn_activity m) (vcn_busy m)), 2)"
      "deserialize_uint8 data 2 = Some (size8 (flat_data jd (jpeg_activity m) (jpeg_busy m)), 3)"
      "deserialize_uint8 data 3 = Some (size8 vsizes, 4)" "deserialize_uint8 data 4 = Some (size8 jsizes, 5)"
      "deserialize_uint8 data 5 = Some (size8 (xgmi_read_data_acc m), 6)"
      "deserialize_uint8 data 6 = Some (size8 (xgmi_write_data_acc m), 7)" and nonempty: "data \<noteq> []"
    by (simp_all add: deserialize_uint8_def data_def metrics_bytes_def Let_def vd_def jd_def vsizes_def jsizes_def)
  have "deserialize_gpu_metrics data s = Some (kept_metrics s caps m, caps)"
    using 1 2 3 4 5 6
    by (simp add: deserialize_gpu_metrics_def header nonempty unat_size8 fits vd_def [symmetric] jd_def [symmetric]
        kept_metrics_def del: One_nat_def)
  then show ?thesis
    by (simp add: data_def)
qed

text \<open>
  C37. The metrics of a GPU survive the cache: when no list has more than 255 elements, over all partitions
  together, what the sampler writes is read back as it was, less what the settings leave out and
  partitions that report nothing at all.
\<close>

theorem gpu_metrics_roundtrip:
  assumes "counts_fit m caps"
  shows "\<exists>data. serialize_gpu_metrics m caps s = Some data \<and>
    deserialize_gpu_metrics data s = Some (kept_metrics s caps m, caps)"
  using metrics_written [OF assms] metrics_read [OF assms] by blast

theorem gpu_metrics_roundtrip_witness:
  "\<exists>data. serialize_gpu_metrics (no_metrics\<lparr>vcn_busy := [[10, 20], [15]], jpeg_activity := [7], xgmi_read_data_acc := [5]\<rparr>) 2
      \<lparr>set_vcn = True, set_jpeg = True, set_xgmi = True, set_pcie = False\<rparr> = Some data \<and>
    deserialize_gpu_metrics data \<lparr>set_vcn = True, set_jpeg = True, set_xgmi = True, set_pcie = False\<rparr> =
      Some (no_metrics\<lparr>vcn_busy := [[10, 20], [15]], jpeg_activity := [7], xgmi_read_data_acc := [5]\<rparr>, 2)"
  using gpu_metrics_roundtrip [of "no_metrics\<lparr>vcn_busy := [[10, 20], [15]], jpeg_activity := [7], xgmi_read_data_acc := [5]\<rparr>" 2
      "\<lparr>set_vcn = True, set_jpeg = True, set_xgmi = True, set_pcie = False\<rparr>"]
  by (simp add: counts_fit_def no_metrics_def kept_metrics_def kept_activity_def kept_busy_def flat_data_def
      vcn_is_device_level_only_def jpeg_is_device_level_only_def)

text \<open>With 256 values over all partitions the count is zero: none of them is written, nor missed by the reader.\<close>

lemma gpu_metrics_count_wraps:
  assumes "length flat = 256"
  shows "(if enabled \<and> size8 flat > 0 then serialize_uint16_vector flat (size8 flat) else Some []) = Some []"
  using assms by (simp add: size8_def)

section \<open>Frequencies\<close>

definition serialize_freqs :: "(u64 \<times> u32) list \<Rightarrow> bytes" where
  "serialize_freqs freqs = concat (map (\<lambda>(idx, value). word_bytes idx @ word_bytes value) freqs)"

function deserialize_freqs_loop :: "bytes \<Rightarrow> nat \<Rightarrow> (u64 \<times> u32) list" where
  "deserialize_freqs_loop buffer offset =
     (if offset + 4 + 8 \<le> length buffer
      then (bytes_word (slice offset (offset + 8) buffer), bytes_word (slice (offset + 8) (offset + 12) buffer)) #
        deserialize_freqs_loop buffer (offset + 12)
      else [])"
  by pat_completeness auto

termination
  by (relation "measure (\<lambda>(buffer, offset). length buffer - offset)") auto

declare deserialize_freqs_loop.simps [simp del]

definition deserialize_freqs :: "bytes \<Rightarrow> (u64 \<times> u32) list" where
  "deserialize_freqs buffer = deserialize_freqs_loop buffer 0"

lemma freqs_loop:
  "drop offset buffer = serialize_freqs freqs \<Longrightarrow> offset \<le> length buffer \<Longrightarrow>
    deserialize_freqs_loop buffer offset = freqs"
proof (induction freqs arbitrary: offset)
  case Nil
  then show ?case
    by (subst deserialize_freqs_loop.simps) (simp add: serialize_freqs_def)
next
  case (Cons f freqs)
  obtain idx val where f: "f = (idx, val)"
    by (cases f)
  then have d: "drop offset buffer = word_bytes idx @ word_bytes val @ serialize_freqs freqs"
    using Cons.prems(1) by (simp add: serialize_freqs_def)
  have len: "offset + 12 \<le> length buffer"
    using arg_cong [OF d, of length] Cons.prems(2) by simp
  have "drop (offset + 8) buffer = drop 8 (drop offset buffer)" "drop (offset + 12) buffer = drop 12 (drop offset buffer)"
    by (simp_all add: add.commute)
  then have "drop (offset + 8) buffer = word_bytes val @ serialize_freqs freqs"
      "drop (offset + 12) buffer = serialize_freqs freqs"
    unfolding d by simp_all
  then show ?case
    using Cons.IH [of "offset + 12"] len
    by (subst deserialize_freqs_loop.simps) (simp add: f slice_def d)
qed

lemma freqs_roundtrip: "deserialize_freqs (serialize_freqs freqs) = freqs"
  by (simp add: deserialize_freqs_def freqs_loop)

section \<open>Arguments of calls\<close>

record argument_info =
  arg_number :: u32
  arg_type :: string
  arg_name :: string
  arg_value :: string

definition arg_delimiter :: string where
  "arg_delimiter = '';;''"

definition get_args_string :: "argument_info list \<Rightarrow> string" where
  "get_args_string args = concat (map (\<lambda>a. dec_string (unat (arg_number a)) @ arg_delimiter @ arg_type a @ arg_delimiter @
     arg_name a @ arg_delimiter @ arg_value a @ arg_delimiter) args)"

text \<open>The text before the first delimiter, and what is behind it.\<close>

fun cut_args :: "string \<Rightarrow> (string \<times> string) option" where
  "cut_args (c # d # s) = (if c = CHR '';'' \<and> d = CHR '';'' then Some ([], s)
     else map_option (apfst ((#) c)) (cut_args (d # s)))"
| "cut_args _ = None"

lemma cut_args_shorter: "cut_args s = Some (tok, rest) \<Longrightarrow> length rest < length s"
  by (induction s arbitrary: tok rule: cut_args.induct) (auto split: if_splits)

function split_args :: "string \<Rightarrow> string list" where
  "split_args s = (case cut_args s of None \<Rightarrow> [] | Some (tok, rest) \<Rightarrow> tok # split_args rest)"
  by pat_completeness auto

termination
  by (relation "measure length") (auto dest: cut_args_shorter)

declare split_args.simps [simp del]

fun args_of_tokens :: "string list \<Rightarrow> argument_info list option" where
  "args_of_tokens (n # ty # name # val # toks) = do {
     i \<leftarrow> std_stoi n;
     args \<leftarrow> args_of_tokens toks;
     Some (\<lparr>arg_number = word_of_int i, arg_type = ty, arg_name = name, arg_value = val\<rparr> # args)
   }"
| "args_of_tokens [] = Some []"
| "args_of_tokens _ = None"

definition process_arguments_string :: "string \<Rightarrow> argument_info list option" where
  "process_arguments_string s = (let tokens = split_args s
     in if length tokens mod 4 \<noteq> 0 then None else args_of_tokens tokens)"

definition arg_text_ok :: "string \<Rightarrow> bool" where
  "arg_text_ok s \<longleftrightarrow> CHR '';'' \<notin> set s"

definition arg_ok :: "argument_info \<Rightarrow> bool" where
  "arg_ok a \<longleftrightarrow> unat (arg_number a) < 2 ^ 31 \<and> arg_text_ok (arg_type a) \<and> arg_text_ok (arg_name a) \<and> arg_text_ok (arg_value a)"

lemma cut_args_delimiter: "arg_text_ok s \<Longrightarrow> cut_args (s @ CHR '';'' # CHR '';'' # rest) = Some (s, rest)"
proof (induction s)
  case (Cons c s)
  then show ?case
    by (cases s) (auto simp: arg_text_ok_def)
qed (simp add: arg_text_ok_def)

lemma split_args_delimiter: "arg_text_ok s \<Longrightarrow> split_args (s @ CHR '';'' # CHR '';'' # rest) = s # split_args rest"
  by (subst split_args.simps) (simp add: cut_args_delimiter)

lemma number_text_ok: "arg_text_ok (dec_string n)"
  using dec_string_chars [of n] dec_char_facts by (auto simp: arg_text_ok_def list_all_iff)

lemma split_args_string:
  "list_all arg_ok args \<Longrightarrow> split_args (get_args_string args) =
    concat (map (\<lambda>a. [dec_string (unat (arg_number a)), arg_type a, arg_name a, arg_value a]) args)"
proof (induction args)
  case (Cons a args)
  then show ?case
    by (simp add: get_args_string_def arg_delimiter_def arg_ok_def split_args_delimiter number_text_ok)
qed (subst split_args.simps, simp add: get_args_string_def)

lemma args_of_tokens_string:
  "list_all arg_ok args \<Longrightarrow> args_of_tokens
    (concat (map (\<lambda>a. [dec_string (unat (arg_number a)), arg_type a, arg_name a, arg_value a]) args)) = Some args"
  by (induction args) (auto simp: arg_ok_def std_stoi_dec_string)

lemma args_length:
  "length (concat (map (\<lambda>a. [f a, g a, h a, k a]) args)) = 4 * length args"
  by (induction args) auto

text \<open>
  The arguments of a call come back from their text when the numbers are positive ints and no text
  contains a semicolon.
\<close>

theorem args_roundtrip:
  assumes "list_all arg_ok args"
  shows "process_arguments_string (get_args_string args) = Some args"
  using assms by (simp add: process_arguments_string_def split_args_string args_of_tokens_string args_length Let_def)

text \<open>A value that contains the delimiter makes the whole text malformed.\<close>

lemma args_delimiter_in_value:
  "process_arguments_string (get_args_string [\<lparr>arg_number = 0, arg_type = ''char*'', arg_name = ''s'', arg_value = ''a;;b''\<rparr>]) = None"
  by (simp add: process_arguments_string_def get_args_string_def arg_delimiter_def dec_string.simps split_args.simps)

end
