(* ===== verification/Rocpd_Processor.thy ===== *)
theory Rocpd_Processor
  imports Rocpd_Database Sample_Fields Sample_Processor Metadata_Registry
begin

text \<open>
  The processor that fills the database (\<open>core/trace_cache/rocpd_processor.cpp\<close>): what is known beside the
  samples is written first, then each sample becomes an event and the rows that refer to it.

  The functions are called through a table of functions that may not throw
  (\<open>sample_processor.hpp\<close>), so an exception of any of them ends the program: \<open>None\<close>.
\<close>

record rocpd_env =
  re_sql :: sql_env
  re_node :: node_info
  re_use_rocpd :: bool
  re_demangle :: "string \<Rightarrow> string"
  re_operation_name :: "u32 \<Rightarrow> u32 \<Rightarrow> string option"
  re_operation_names :: "string list"
  re_thread_times :: "u64 \<Rightarrow> (u64 \<times> u64) option"
  re_context_none :: u64
  re_storage_file :: u32
  re_storage_memory :: u32
  re_double :: "int \<Rightarrow> u64"
  re_double_of_float :: "u32 \<Rightarrow> u64"

record rocpd_processor =
  rp_metadata :: metadata_registry
  rp_agents :: agent_manager
  rp_data :: data_processor
  rp_file :: "database option"

text \<open>The numbers of a process and of an agent, as the functions of the database take them.\<close>

definition size_pid :: "u32 \<Rightarrow> u64" where
  "size_pid p = scast p"

definition rp_pid :: "rocpd_processor \<Rightarrow> u64" where
  "rp_pid p = size_pid (proc_pid (m_process (rp_metadata p)))"

definition base_key :: "agent \<Rightarrow> int" where
  "base_key a = sint (ag_base_id a)"

definition signed_string :: "int \<Rightarrow> string" where
  "signed_string i = (if i < 0 then ''-'' @ dec_string (nat (- i)) else dec_string (nat i))"

section \<open>Names\<close>

definition parse_memory_operation_name :: "string \<Rightarrow> string \<times> string" where
  "parse_memory_operation_name name = (case map_of [
       (''MEMORY_ALLOCATION_NONE'', (''NONE'', ''REAL'')),
       (''MEMORY_ALLOCATION_ALLOCATE'', (''ALLOC'', ''REAL'')),
       (''MEMORY_ALLOCATION_VMEM_ALLOCATE'', (''ALLOC'', ''VIRTUAL'')),
       (''MEMORY_ALLOCATION_FREE'', (''FREE'', ''REAL'')),
       (''MEMORY_ALLOCATION_VMEM_FREE'', (''FREE'', ''VIRTUAL'')),
       (''SCRATCH_MEMORY_NONE'', (''NONE'', ''SCRATCH'')),
       (''SCRATCH_MEMORY_ALLOC'', (''ALLOC'', ''SCRATCH'')),
       (''SCRATCH_MEMORY_FREE'', (''FREE'', ''SCRATCH'')),
       (''SCRATCH_MEMORY_ASYNC_RECLAIM'', (''ASYNC_RECLAIM'', ''SCRATCH''))] name of
     None \<Rightarrow> (''UNKNOWN'', ''UNKNOWN'')
   | Some r \<Rightarrow> r)"

definition section_suffix :: "nat option \<Rightarrow> string" where
  "section_suffix i = (case i of None \<Rightarrow> [] | Some n \<Rightarrow> ''_'' @ dec_string n)"

definition annotate_category :: "string \<Rightarrow> nat option \<Rightarrow> nat option \<Rightarrow> string" where
  "annotate_category name i j = name @ section_suffix i @ section_suffix j"

definition annotate_with_device_id :: "string \<Rightarrow> u32 \<Rightarrow> nat option \<Rightarrow> nat option \<Rightarrow> string" where
  "annotate_with_device_id name device i j =
     name @ '' ['' @ dec_string (unat device) @ '']'' @ section_suffix i @ section_suffix j"

section \<open>Samples of calls and of memory\<close>

definition rocpd_kernel_dispatch ::
  "rocpd_env \<Rightarrow> kernel_dispatch_sample \<Rightarrow> rocpd_processor \<Rightarrow> data_processor option" where
  "rocpd_kernel_dispatch env s p = do {
     let sql = re_sql env;
     ag \<leftarrow> get_agent_by_handle (kd_agent_id_handle s) (rp_agents p);
     tid \<leftarrow> map_thread_id_to_primary_key (kd_thread_id s) (rp_data p);
     (category, d) \<leftarrow> insert_string sql ''rocm_kernel_dispatch'' (rp_data p);
     k \<leftarrow> get_kernel_symbol (kd_kernel_id s) (rp_metadata p);
     (name, d) \<leftarrow> insert_string sql (re_demangle env (c_str (ks_kernel_name k))) d;
     (event, d) \<leftarrow> insert_event sql category (kd_correlation_id_internal s) (kd_correlation_id_ancestor s) 0
       ''{}'' ''{}'' ''{}'' d;
     insert_kernel_dispatch sql (node_id (re_node env)) (rp_pid p) tid (base_key ag) (kd_kernel_id s)
       (kd_dispatch_id s) (kd_queue_id_handle s) (kd_stream_handle s) (kd_start_timestamp s) (kd_end_timestamp s)
       \<lparr>ex_private = ucast (kd_private_segment_size s), ex_group = ucast (kd_group_segment_size s),
        ex_workgroup_x = ucast (kd_workgroup_size_x s), ex_workgroup_y = ucast (kd_workgroup_size_y s),
        ex_workgroup_z = ucast (kd_workgroup_size_z s), ex_grid_x = ucast (kd_grid_size_x s),
        ex_grid_y = ucast (kd_grid_size_y s), ex_grid_z = ucast (kd_grid_size_z s)\<rparr> name event d
   }"

definition rocpd_scratch_memory ::
  "rocpd_env \<Rightarrow> scratch_memory_sample \<Rightarrow> rocpd_processor \<Rightarrow> data_processor option" where
  "rocpd_scratch_memory env s p = do {
     let sql = re_sql env;
     name \<leftarrow> re_operation_name env (sm_kind s) (sm_operation s);
     ag \<leftarrow> get_agent_by_handle (sm_agent_id_handle s) (rp_agents p);
     tid \<leftarrow> map_thread_id_to_primary_key (sm_thread_id s) (rp_data p);
     (category, d) \<leftarrow> insert_string sql ''rocm_scratch_memory'' (rp_data p);
     (event, d) \<leftarrow> insert_event sql category (sm_correlation_id_internal s) (sm_correlation_id_ancestor s) 0
       ''{}'' ''{}'' ''{}'' d;
     let (operation, level) = parse_memory_operation_name name;
     insert_memory_alloc sql (node_id (re_node env)) (rp_pid p) tid (Some (base_key ag)) operation level
       (sm_start_timestamp s) (sm_end_timestamp s) 0 (sm_allocation_size s) (sm_queue_id_handle s)
       (sm_stream_handle s) event (''{'' @ quote @ ''flags'' @ quote @ '': '' @ signed_string (sint (sm_flags s)) @ ''}'') d
   }"

definition rocpd_memory_copy ::
  "rocpd_env \<Rightarrow> memory_copy_sample \<Rightarrow> rocpd_processor \<Rightarrow> data_processor option" where
  "rocpd_memory_copy env s p = do {
     let sql = re_sql env;
     op \<leftarrow> re_operation_name env (mc_kind s) (mc_operation s);
     (name, d) \<leftarrow> insert_string sql op (rp_data p);
     (category, d) \<leftarrow> insert_string sql ''rocm_memory_copy'' d;
     tid \<leftarrow> map_thread_id_to_primary_key (mc_thread_id s) d;
     dst \<leftarrow> get_agent_by_handle (mc_dst_agent_id_handle s) (rp_agents p);
     src \<leftarrow> get_agent_by_handle (mc_src_agent_id_handle s) (rp_agents p);
     (event, d) \<leftarrow> insert_event sql category (mc_correlation_id_internal s) (mc_correlation_id_ancestor s) 0
       ''{}'' ''{}'' ''{}'' d;
     insert_memory_copy sql (node_id (re_node env)) (rp_pid p) tid (mc_start_timestamp s) (mc_end_timestamp s) name
       (base_key dst) (mc_dst_address_value s) (base_key src) (mc_src_address_value s) (mc_bytes s) 0
       (mc_stream_handle s) name event d
   }"

text \<open>An allocation on no agent is looked up and then left out.\<close>

definition rocpd_memory_allocate ::
  "rocpd_env \<Rightarrow> memory_allocate_sample \<Rightarrow> rocpd_processor \<Rightarrow> data_processor option" where
  "rocpd_memory_allocate env s p = do {
     let sql = re_sql env;
     tid \<leftarrow> map_thread_id_to_primary_key (ma_thread_id s) (rp_data p);
     if ma_agent_id_handle s = re_context_none env then Some (rp_data p) else do {
       ag \<leftarrow> get_agent_by_handle (ma_agent_id_handle s) (rp_agents p);
       name \<leftarrow> re_operation_name env (ma_kind s) (ma_operation s);
       let (operation, level) = parse_memory_operation_name name;
       (category, d) \<leftarrow> insert_string sql ''rocm_memory_allocate'' (rp_data p);
       (event, d) \<leftarrow> insert_event sql category (ma_correlation_id_internal s) (ma_correlation_id_ancestor s) 0
         ''{}'' ''{}'' ''{}'' d;
       insert_memory_alloc sql (node_id (re_node env)) (rp_pid p) tid (Some (base_key ag)) operation level
         (ma_start_timestamp s) (ma_end_timestamp s) (ma_address_value s) (ma_allocation_size s) 0
         (ma_stream_handle s) event ''{}'' d
     }
   }"

fun insert_all :: "('a \<Rightarrow> 's \<Rightarrow> 's option) \<Rightarrow> 'a list \<Rightarrow> 's \<Rightarrow> 's option" where
  "insert_all f [] d = Some d"
| "insert_all f (x # xs) d = Option.bind (f x d) (insert_all f xs)"

definition rocpd_region :: "rocpd_env \<Rightarrow> region_sample \<Rightarrow> rocpd_processor \<Rightarrow> data_processor option" where
  "rocpd_region env s p = do {
     let sql = re_sql env;
     tid \<leftarrow> map_thread_id_to_primary_key (rs_thread_id s) (rp_data p);
     (name, d) \<leftarrow> insert_string sql (text_of (rs_name s)) (rp_data p);
     (category, d) \<leftarrow> insert_string sql (text_of (rs_category s)) d;
     (event, d) \<leftarrow> insert_event sql category (rs_correlation_id_internal s) (rs_correlation_id_ancestor s) 0
       (text_of (rs_call_stack s)) ''{}'' ''{}'' d;
     args \<leftarrow> process_arguments_string (text_of (rs_args_str s));
     d \<leftarrow> insert_all (\<lambda>a. insert_args sql event (ucast (arg_number a)) (arg_type a) (arg_name a) (arg_value a)) args d;
     insert_region sql (node_id (re_node env)) (rp_pid p) tid (rs_start_timestamp s) (rs_end_timestamp s) name event d
   }"

definition rocpd_backtrace_region ::
  "rocpd_env \<Rightarrow> backtrace_region_sample \<Rightarrow> rocpd_processor \<Rightarrow> data_processor option" where
  "rocpd_backtrace_region env s p = do {
     let sql = re_sql env;
     tid \<leftarrow> map_thread_id_to_primary_key (brs_thread_id s) (rp_data p);
     (name, d) \<leftarrow> insert_string sql (text_of (brs_name s)) (rp_data p);
     (category, d) \<leftarrow> insert_string sql (text_of (brs_category s)) d;
     (event, d) \<leftarrow> insert_event sql category 0 0 0 (text_of (brs_call_stack s)) (text_of (brs_line_info s))
       (text_of (brs_extdata s)) d;
     d \<leftarrow> insert_region sql (node_id (re_node env)) (rp_pid p) tid (brs_start_timestamp s) (brs_end_timestamp s) name event d;
     insert_sample sql (text_of (brs_track_name s)) (brs_start_timestamp s) event d
   }"

section \<open>Samples of counters\<close>

definition rocpd_in_time_sample ::
  "rocpd_env \<Rightarrow> in_time_sample \<Rightarrow> rocpd_processor \<Rightarrow> data_processor option" where
  "rocpd_in_time_sample env s p = do {
     let sql = re_sql env;
     (track, d) \<leftarrow> insert_string sql (text_of (its_track_name s)) (rp_data p);
     (event, d) \<leftarrow> insert_event sql track (its_stack_id s) (its_parent_stack_id s) (its_correlation_id s)
       (text_of (its_call_stack s)) (text_of (its_line_info s)) (text_of (its_event_metadata s)) d;
     insert_sample sql (text_of (its_track_name s)) (its_timestamp_ns s) event d
   }"

definition rocpd_pmc_event ::
  "rocpd_env \<Rightarrow> pmc_event_with_sample \<Rightarrow> rocpd_processor \<Rightarrow> data_processor option" where
  "rocpd_pmc_event env s p = do {
     let sql = re_sql env;
     (track, d) \<leftarrow> insert_string sql (text_of (its_track_name s)) (rp_data p);
     ty \<leftarrow> agent_type_of (uint (pmc_device_type s));
     ag \<leftarrow> get_agent_by_id (ucast (pmc_device_id s)) ty (rp_agents p);
     (event, d) \<leftarrow> insert_event sql track (its_stack_id s) (its_parent_stack_id s) (its_correlation_id s)
       (text_of (its_call_stack s)) (text_of (its_line_info s)) (text_of (its_event_metadata s)) d;
     d \<leftarrow> insert_sample sql (text_of (its_track_name s)) (its_timestamp_ns s) event d;
     insert_pmc_event sql event (base_key ag) (text_of (pmc_pmc_info_name s)) (pmc_value s) d
   }"

text \<open>One value of a device or of a core: a counter value and a sample of its track, both of one event.\<close>

record metric =
  mt_enabled :: bool
  mt_pmc :: string
  mt_track :: string
  mt_value :: u64

definition insert_event_and_sample ::
  "sql_env \<Rightarrow> int \<Rightarrow> int \<Rightarrow> u64 \<Rightarrow> metric \<Rightarrow> data_processor \<Rightarrow> data_processor option" where
  "insert_event_and_sample sql event base timestamp m d = (if \<not> mt_enabled m then Some d else do {
     d \<leftarrow> insert_pmc_event sql event base (mt_pmc m) (mt_value m) d;
     insert_sample sql (mt_track m) timestamp event d
   })"

definition scalar_metric :: "rocpd_env \<Rightarrow> u32 \<Rightarrow> bool \<Rightarrow> string \<Rightarrow> int \<Rightarrow> metric" where
  "scalar_metric env device enabled name val = \<lparr>mt_enabled = enabled, mt_pmc = name,
     mt_track = annotate_with_device_id name device None None, mt_value = re_double env val\<rparr>"

text \<open>The elements of a vector, less those that are all ones.\<close>

definition vector_metrics ::
  "rocpd_env \<Rightarrow> u32 \<Rightarrow> bool \<Rightarrow> string \<Rightarrow> nat option \<Rightarrow> 'a :: len word list \<Rightarrow> metric list" where
  "vector_metrics env device enabled name idx data = (if \<not> enabled then [] else
     map (\<lambda>(i, v). \<lparr>mt_enabled = True, mt_pmc = annotate_category name idx (Some i),
         mt_track = annotate_with_device_id name device idx (Some i), mt_value = re_double env (uint v)\<rparr>)
       (filter (\<lambda>(_, v). v \<noteq> - 1) (zip [0..<length data] data)))"

definition engine_metrics ::
  "rocpd_env \<Rightarrow> u32 \<Rightarrow> bool \<Rightarrow> string \<Rightarrow> bool \<Rightarrow> u16 list \<Rightarrow> u16 list list \<Rightarrow> metric list" where
  "engine_metrics env device enabled name device_level activity busy =
     (if device_level then vector_metrics env device enabled name None activity
      else concat (map (\<lambda>(xcp, data). vector_metrics env device enabled name (Some xcp) data)
             (zip [0..<length busy] busy)))"

definition basic_metrics :: "rocpd_env \<Rightarrow> amd_smi_sample \<Rightarrow> metric list" where
  "basic_metrics env s = [
     scalar_metric env (smi_device_id s) (bit (smi_settings s) 0) ''device_busy_gfx'' (uint (smi_gfx_activity s)),
     scalar_metric env (smi_device_id s) (bit (smi_settings s) 0) ''device_busy_umc'' (uint (smi_umc_activity s)),
     scalar_metric env (smi_device_id s) (bit (smi_settings s) 0) ''device_busy_mm'' (uint (smi_mm_activity s)),
     scalar_metric env (smi_device_id s) (bit (smi_settings s) 1) ''device_temp'' (sint (smi_temperature s)),
     scalar_metric env (smi_device_id s) (bit (smi_settings s) 2) ''device_power'' (uint (smi_power s)),
     scalar_metric env (smi_device_id s) (bit (smi_settings s) 3) ''device_memory_usage'' (uint (smi_mem_usage s))]"

definition detail_metrics :: "rocpd_env \<Rightarrow> amd_smi_sample \<Rightarrow> gpu_metrics \<Rightarrow> u8 \<Rightarrow> metric list" where
  "detail_metrics env s m caps =
     (let device = smi_device_id s; vcn = bit (smi_settings s) 4; jpeg = bit (smi_settings s) 5;
          xgmi = bit (smi_settings s) 6; pcie = bit (smi_settings s) 7
      in engine_metrics env device vcn ''device_vcn_activity'' (vcn_is_device_level_only caps) (vcn_activity m) (vcn_busy m) @
         engine_metrics env device jpeg ''device_jpeg_activity'' (jpeg_is_device_level_only caps) (jpeg_activity m) (jpeg_busy m) @
         [scalar_metric env device xgmi ''device_xgmi_link_width'' (uint (xgmi_link_width m)),
          scalar_metric env device xgmi ''device_xgmi_link_speed'' (uint (xgmi_link_speed m))] @
         vector_metrics env device xgmi ''device_xgmi_read_data'' None (xgmi_read_data_acc m) @
         vector_metrics env device xgmi ''device_xgmi_write_data'' None (xgmi_write_data_acc m) @
         [scalar_metric env device pcie ''device_pcie_link_width'' (uint (pcie_link_width m)),
          scalar_metric env device pcie ''device_pcie_link_speed'' (uint (pcie_link_speed m)),
          scalar_metric env device pcie ''device_pcie_bandwidth_acc'' (uint (pcie_bandwidth_acc m)),
          scalar_metric env device pcie ''device_pcie_bandwidth_inst'' (uint (pcie_bandwidth_inst m))])"

definition smi_gpu_settings :: "amd_smi_sample \<Rightarrow> gpu_settings" where
  "smi_gpu_settings s = \<lparr>set_vcn = bit (smi_settings s) 4, set_jpeg = bit (smi_settings s) 5,
     set_xgmi = bit (smi_settings s) 6, set_pcie = bit (smi_settings s) 7\<rparr>"

definition rocpd_amd_smi_sample ::
  "rocpd_env \<Rightarrow> amd_smi_sample \<Rightarrow> rocpd_processor \<Rightarrow> data_processor option" where
  "rocpd_amd_smi_sample env s p = do {
     let sql = re_sql env;
     (name, d) \<leftarrow> insert_string sql ''amd_smi'' (rp_data p);
     (event, d) \<leftarrow> insert_event sql name 0 0 0 ''{}'' ''{}'' ''{}'' d;
     ag \<leftarrow> get_agent_by_type_index (ucast (smi_device_id s)) GPU_agent (rp_agents p);
     d \<leftarrow> insert_all (insert_event_and_sample sql event (base_key ag) (smi_timestamp s)) (basic_metrics env s) d;
     let g = smi_gpu_settings s;
     if \<not> set_vcn g \<and> \<not> set_jpeg g \<and> \<not> set_xgmi g \<and> \<not> set_pcie g then Some d else do {
       (m, caps) \<leftarrow> deserialize_gpu_metrics (smi_gpu_activity s) g;
       insert_all (insert_event_and_sample sql event (base_key ag) (smi_timestamp s)) (detail_metrics env s m caps) d
     }
   }"

definition plain_metric :: "string \<Rightarrow> u64 \<Rightarrow> metric" where
  "plain_metric name val = \<lparr>mt_enabled = True, mt_pmc = name, mt_track = name, mt_value = val\<rparr>"

definition cpu_metrics :: "rocpd_env \<Rightarrow> cpu_freq_sample \<Rightarrow> metric list" where
  "cpu_metrics env s = [
     plain_metric ''process_physical_memory'' (re_double env (sint (cf_page_rss s))),
     plain_metric ''process_virtual_memory'' (re_double env (sint (cf_virt_mem_usage s))),
     plain_metric ''process_memory_hwm'' (re_double env (sint (cf_peak_rss s))),
     plain_metric ''process_context_switch'' (re_double env (sint (cf_context_switch_count s))),
     plain_metric ''process_page_fault'' (re_double env (sint (cf_page_faults s))),
     plain_metric ''process_user_cpu_time'' (re_double env (sint (cf_user_mode_time s))),
     plain_metric ''process_kernel_cpu_time'' (re_double env (sint (cf_kernel_mode_time s)))] @
     map (\<lambda>(core, freq). plain_metric (''cpu_frequency ['' @ dec_string (unat core) @ '']'') (re_double_of_float env freq))
       (deserialize_freqs (cf_freqs s))"

definition rocpd_cpu_freq_sample ::
  "rocpd_env \<Rightarrow> cpu_freq_sample \<Rightarrow> rocpd_processor \<Rightarrow> data_processor option" where
  "rocpd_cpu_freq_sample env s p = do {
     let sql = re_sql env;
     (name, d) \<leftarrow> insert_string sql ''cpu_frequency'' (rp_data p);
     (event, d) \<leftarrow> insert_event sql name 0 0 0 ''{}'' ''{}'' ''{}'' d;
     ag \<leftarrow> get_agent_by_type_index 0 CPU_agent (rp_agents p);
     insert_all (insert_event_and_sample sql event (base_key ag) (cf_timestamp s)) (cpu_metrics env s) d
   }"

fun rocpd_handle :: "rocpd_env \<Rightarrow> sample \<Rightarrow> rocpd_processor \<Rightarrow> data_processor option" where
  "rocpd_handle env (KernelDispatch s) p = rocpd_kernel_dispatch env s p"
| "rocpd_handle env (ScratchMemory s) p = rocpd_scratch_memory env s p"
| "rocpd_handle env (MemoryCopy s) p = rocpd_memory_copy env s p"
| "rocpd_handle env (MemoryAllocate s) p = rocpd_memory_allocate env s p"
| "rocpd_handle env (Region s) p = rocpd_region env s p"
| "rocpd_handle env (InTime s) p = rocpd_in_time_sample env s p"
| "rocpd_handle env (PmcEvent s) p = rocpd_pmc_event env s p"
| "rocpd_handle env (AmdSmi s) p = rocpd_amd_smi_sample env s p"
| "rocpd_handle env (CpuFreq s) p = rocpd_cpu_freq_sample env s p"
| "rocpd_handle env (BacktraceRegion s) p = rocpd_backtrace_region env s p"

section \<open>What is known beside the samples\<close>

text \<open>Agents get their number in the table, in the order they are kept.\<close>

fun insert_agents ::
  "rocpd_env \<Rightarrow> u64 \<Rightarrow> nat \<Rightarrow> agent list \<Rightarrow> data_processor \<Rightarrow> (agent list \<times> data_processor) option" where
  "insert_agents env pid counter [] d = Some ([], d)"
| "insert_agents env pid counter (a # as) d = do {
     (i, d) \<leftarrow> insert_agent_row (re_sql env) (node_id (re_node env)) pid
       (case ag_type a of GPU_agent \<Rightarrow> ''GPU'' | CPU_agent \<Rightarrow> ''CPU'') (of_nat counter) (scast (ag_logical_node_id a))
       (scast (ag_logical_node_type_id a)) (ag_device_id a) (ag_name a) (ag_model_name a) (ag_vendor_name a)
       (ag_product_name a) (ag_product_name a) (ag_info a) d;
     (as, d) \<leftarrow> insert_agents env pid (Suc counter) as d;
     Some (a\<lparr>ag_base_id := of_int i\<rparr> # as, d)
   }"

text \<open>A thread that this process knows itself has the times it knows.\<close>

definition insert_thread_id ::
  "rocpd_env \<Rightarrow> process_info \<Rightarrow> meta_thread \<Rightarrow> data_processor \<Rightarrow> data_processor option" where
  "insert_thread_id env proc t d =
     (let (start, stop) = (case re_thread_times env (th_thread_id t) of
            Some (b, e) \<Rightarrow> (ucast b :: u32, ucast e :: u32) | None \<Rightarrow> (th_start t, th_end t))
      in map_option snd (insert_thread_info (re_sql env) (node_id (re_node env)) (size_pid (proc_ppid proc))
           (size_pid (proc_pid proc)) (th_thread_id t) (''Thread '' @ dec_string (unat (th_thread_id t)))
           (ucast start) (ucast stop) d))"

definition insert_track_info ::
  "rocpd_env \<Rightarrow> u64 \<Rightarrow> track_info \<Rightarrow> data_processor \<Rightarrow> data_processor option" where
  "insert_track_info env pid t d = (case tr_thread_id t of
     None \<Rightarrow> insert_track (re_sql env) (tr_name t) (node_id (re_node env)) pid None d
   | Some tid \<Rightarrow> (case map_thread_id_to_primary_key tid d of
       None \<Rightarrow> None
     | Some i \<Rightarrow> insert_track (re_sql env) (tr_name t) (node_id (re_node env)) pid (Some i) d))"

definition storage_name :: "rocpd_env \<Rightarrow> u32 \<Rightarrow> string" where
  "storage_name env ty = (if ty = re_storage_file env then ''FILE''
     else if ty = re_storage_memory env then ''MEMORY'' else ''UNKNOWN'')"

definition insert_code_object_info ::
  "rocpd_env \<Rightarrow> u64 \<Rightarrow> agent_manager \<Rightarrow> code_object \<Rightarrow> data_processor \<Rightarrow> data_processor option" where
  "insert_code_object_info env pid am c d = do {
     ag \<leftarrow> get_agent_by_handle (co_agent c) am;
     insert_code_object (re_sql env) (co_id c) (node_id (re_node env)) pid (base_key ag) (co_uri c) (co_load_base c)
       (co_load_size c) (co_load_delta c) (storage_name env (co_storage_type c)) d
   }"

definition insert_kernel_symbol_info ::
  "rocpd_env \<Rightarrow> u64 \<Rightarrow> kernel_symbol \<Rightarrow> data_processor \<Rightarrow> data_processor option" where
  "insert_kernel_symbol_info env pid k d = do {
     let name = re_demangle env (c_str (ks_kernel_name k));
     d \<leftarrow> insert_kernel_symbol (re_sql env) (ks_kernel_id k) (node_id (re_node env)) pid (ks_code_object_id k)
       (ks_kernel_name k) name (ucast (ks_kernel_object k)) (ks_kernarg_segment_size k)
       (ks_kernarg_segment_alignment k) (ks_group_segment_size k) (ks_private_segment_size k) (ks_sgpr_count k)
       (ks_arch_vgpr_count k) (ks_accum_vgpr_count k) d;
     map_option snd (insert_string (re_sql env) name d)
   }"

definition insert_pmc_info ::
  "rocpd_env \<Rightarrow> u64 \<Rightarrow> agent_manager \<Rightarrow> pmc_info \<Rightarrow> data_processor \<Rightarrow> data_processor option" where
  "insert_pmc_info env pid am p d = do {
     ag \<leftarrow> get_agent_by_type_index (pmc_agent_type_index p) (pmc_type p) am;
     insert_pmc_description (re_sql env) (node_id (re_node env)) pid (base_key ag)
       \<lparr>pr_target_arch = pmc_target_arch p, pr_event_code = pmc_event_code p, pr_instance_id = pmc_instance_id p,
        pr_name = pmc_name p, pr_symbol = pmc_symbol p, pr_description = pmc_description p,
        pr_long_description = pmc_long_description p, pr_component = pmc_component p, pr_units = pmc_units p,
        pr_value_type = pmc_value_type p, pr_block = pmc_block p, pr_expression = pmc_expression p,
        pr_is_constant = pmc_is_constant p, pr_is_derived = pmc_is_derived p\<rparr> d
   }"

definition insert_text :: "rocpd_env \<Rightarrow> string \<Rightarrow> data_processor \<Rightarrow> data_processor option" where
  "insert_text env s d = map_option snd (insert_string (re_sql env) s d)"

definition insert_lists ::
  "rocpd_env \<Rightarrow> metadata_registry \<Rightarrow> u64 \<Rightarrow> agent_manager \<Rightarrow> data_processor \<Rightarrow> data_processor option" where
  "insert_lists env md pid am d = do {
     let sql = re_sql env;
     let nid = node_id (re_node env);
     d \<leftarrow> insert_all (insert_track_info env pid) (m_tracks md) d;
     d \<leftarrow> insert_all (insert_code_object_info env pid am) (m_code_objects md) d;
     d \<leftarrow> insert_all (insert_kernel_symbol_info env pid) (m_kernel_symbols md) d;
     d \<leftarrow> insert_all (\<lambda>q. insert_queue_info sql q nid pid (''Queue '' @ dec_string (unat q))) (m_queues md) d;
     d \<leftarrow> insert_all (\<lambda>s. insert_stream_info sql s nid pid (''Stream '' @ dec_string (unat s))) (m_streams md) d;
     d \<leftarrow> insert_all (insert_text env) (re_operation_names env) d;
     insert_all (insert_pmc_info env pid am) (m_pmc_infos md) d
   }"

definition post_process_metadata :: "rocpd_env \<Rightarrow> rocpd_processor \<Rightarrow> rocpd_processor option" where
  "post_process_metadata env p = (if \<not> re_use_rocpd env then Some p else do {
     let sql = re_sql env;
     let nid = node_id (re_node env);
     let md = rp_metadata p;
     let proc = m_process md;
     let pid = size_pid (proc_pid proc);
     d \<leftarrow> insert_node_info sql (re_node env) (rp_data p);
     d \<leftarrow> insert_process_info sql nid (size_pid (proc_ppid proc)) pid 0 0 (ucast (proc_start proc)) (ucast (proc_end proc))
       (proc_command proc) d;
     (as, d) \<leftarrow> insert_agents env pid 0 (am_agents (rp_agents p)) d;
     let am = (rp_agents p)\<lparr>am_agents := as\<rparr>;
     d \<leftarrow> insert_all (insert_text env) (m_strings md) d;
     d \<leftarrow> insert_all (insert_thread_id env proc) (m_threads md) d;
     d \<leftarrow> insert_lists env md pid am d;
     Some (p\<lparr>rp_agents := am, rp_data := d\<rparr>)
   })"

text \<open>The end copies the database, which is in memory, to the file.\<close>

definition rocpd_processor_t :: "rocpd_env \<Rightarrow> rocpd_processor option processor_t" where
  "rocpd_processor_t env = \<lparr>
     handle = (\<lambda>s st. Option.bind st (\<lambda>p. map_option (\<lambda>d. p\<lparr>rp_data := d\<rparr>) (rocpd_handle env s p))),
     prepare_for_processing = (\<lambda>st. Option.bind st (post_process_metadata env)),
     finalize_processing = map_option (\<lambda>p. p\<lparr>rp_file := Some (dp_db (rp_data p))\<rparr>)\<rparr>"

definition new_rocpd_processor :: "rocpd_env \<Rightarrow> metadata_registry \<Rightarrow> agent_manager \<Rightarrow> rocpd_processor option" where
  "new_rocpd_processor env md am = map_option
     (\<lambda>d. \<lparr>rp_metadata = md, rp_agents = am, rp_data = d, rp_file = None\<rparr>) (new_data_processor (re_sql env))"

section \<open>Reading the database\<close>

text \<open>
  What a reader of the database sees of a region: the row with the rows it refers to. This is what the view
  \<open>regions\<close> of the schema joins, with the arguments of the event.
\<close>

record region_view =
  rv_name :: sql_value
  rv_category :: sql_value
  rv_tid :: sql_value
  rv_start :: sql_value
  rv_end :: sql_value
  rv_stack :: sql_value
  rv_parent :: sql_value
  rv_call_stack :: sql_value
  rv_args :: "(sql_value \<times> sql_value \<times> sql_value \<times> sql_value) list"

definition look :: "database \<Rightarrow> table \<Rightarrow> string \<Rightarrow> sql_value \<Rightarrow> sql_value" where
  "look db t c v = (case v of Sql_int i \<Rightarrow> (case map_of (db_tables db t) i of None \<Rightarrow> Sql_null | Some r \<Rightarrow> column c r)
     | _ \<Rightarrow> Sql_null)"

definition args_of_event :: "database \<Rightarrow> sql_value \<Rightarrow> (sql_value \<times> sql_value \<times> sql_value \<times> sql_value) list" where
  "args_of_event db e = map (\<lambda>r. (column ''position'' r, column ''type'' r, column ''name'' r, column ''value'' r))
     (filter (\<lambda>r. column ''event_id'' r = e) (map snd (db_tables db T_arg)))"

definition region_view_of :: "database \<Rightarrow> row \<Rightarrow> region_view" where
  "region_view_of db r = (let e = column ''event_id'' r in
     \<lparr>rv_name = look db T_string ''string'' (column ''name_id'' r),
      rv_category = look db T_string ''string'' (look db T_event ''category_id'' e),
      rv_tid = look db T_thread ''tid'' (column ''tid'' r),
      rv_start = column ''start'' r, rv_end = column ''end'' r,
      rv_stack = look db T_event ''stack_id'' e, rv_parent = look db T_event ''parent_stack_id'' e,
      rv_call_stack = look db T_event ''call_stack'' e, rv_args = args_of_event db e\<rparr>)"

definition regions :: "database \<Rightarrow> region_view list" where
  "regions db = map (\<lambda>(_, r). region_view_of db r) (db_tables db T_region)"

text \<open>What a reader should see of a sample.\<close>

definition view_of_sample :: "region_sample \<Rightarrow> region_view" where
  "view_of_sample s = \<lparr>rv_name = Sql_text (the (unquote (c_str (text_of (rs_name s))))),
     rv_category = Sql_text (the (unquote (c_str (text_of (rs_category s))))),
     rv_tid = Sql_int (uint (rs_thread_id s)), rv_start = bound (rs_start_timestamp s), rv_end = bound (rs_end_timestamp s),
     rv_stack = bound (rs_correlation_id_internal s), rv_parent = bound (rs_correlation_id_ancestor s),
     rv_call_stack = c_text (text_of (rs_call_stack s)),
     rv_args = map (\<lambda>a. (bound (ucast (arg_number a)), c_text (arg_type a), c_text (arg_name a), c_text (arg_value a)))
       (the (process_arguments_string (text_of (rs_args_str s))))\<rparr>"

lemma look_extends:
  "extends db db' \<Longrightarrow> (\<And>i. v = Sql_int i \<Longrightarrow> has_id db t i) \<Longrightarrow> look db' t c v = look db t c v"
  by (auto simp: look_def map_of_extends split: sql_value.split)

lemma look_Sql_intD: "look db t c v = Sql_int j \<Longrightarrow>
    \<exists>e r. v = Sql_int e \<and> map_of (db_tables db t) e = Some r \<and> column c r = Sql_int j"
  by (cases v) (auto simp: look_def split: option.splits)

lemma key_has_id: "key_ok db r (c, t) \<Longrightarrow> column c r = Sql_int i \<Longrightarrow> has_id db t i"
  by (simp add: key_ok_def)

text \<open>Arguments of new events are no arguments of old ones.\<close>

definition new_args :: "database \<Rightarrow> database \<Rightarrow> bool" where
  "new_args db db' \<longleftrightarrow> (\<exists>xs. map snd (db_tables db' T_arg) = map snd (db_tables db T_arg) @ xs \<and>
     (\<forall>r \<in> set xs. \<exists>e. column ''event_id'' r = Sql_int e \<and> \<not> has_id db T_event e))"

lemma args_of_old_event:
  assumes "new_args db db'" and "\<And>e. v = Sql_int e \<Longrightarrow> has_id db T_event e"
  shows "args_of_event db' v = args_of_event db v"
proof -
  obtain xs where "map snd (db_tables db' T_arg) = map snd (db_tables db T_arg) @ xs"
      and "\<forall>r \<in> set xs. \<exists>e. column ''event_id'' r = Sql_int e \<and> \<not> has_id db T_event e"
    using assms(1) by (auto simp: new_args_def)
  moreover from this(2) have "filter (\<lambda>r. column ''event_id'' r = v) xs = []"
    using assms(2) by (fastforce simp: filter_empty_conv)
  ultimately show ?thesis
    by (simp add: args_of_event_def)
qed

lemma region_view_extends:
  assumes ext: "extends db db'" and args: "new_args db db'" and ok: "keys_ok db"
    and r: "(i, r) \<in> set (db_tables db T_region)"
  shows "region_view_of db' r = region_view_of db r"
proof -
  have "list_all (key_ok db r) (foreign_keys T_region)"
    using ok r unfolding keys_ok_def by fastforce
  then have keys: "key_ok db r (''name_id'', T_string)" "key_ok db r (''tid'', T_thread)" "key_ok db r (''event_id'', T_event)"
    by simp_all
  let ?e = "column ''event_id'' r"
  have "has_id db T_string j" if h: "look db T_event ''category_id'' ?e = Sql_int j" for j
  proof -
    obtain e r' where "?e = Sql_int e" "map_of (db_tables db T_event) e = Some r'" "column ''category_id'' r' = Sql_int j"
      using look_Sql_intD [OF h] by blast
    moreover from this(2) have "key_ok db r' (''category_id'', T_string)"
      using ok map_of_SomeD unfolding keys_ok_def by fastforce
    ultimately show ?thesis
      by (auto intro: key_has_id)
  qed
  then show ?thesis
    using keys unfolding region_view_of_def Let_def
    by (simp add: look_extends [OF ext] key_has_id args_of_old_event [OF args])
qed

section \<open>Rows of an event\<close>

definition event_row :: "sql_env \<Rightarrow> int \<Rightarrow> u64 \<Rightarrow> u64 \<Rightarrow> u64 \<Rightarrow> string \<Rightarrow> string \<Rightarrow> string \<Rightarrow> row" where
  "event_row env category stack parent correlation call_stack line_info extdata =
     [(''guid'', Sql_text (upid env)), (''category_id'', Sql_int category), (''stack_id'', bound stack),
      (''parent_stack_id'', bound parent), (''correlation_id'', bound correlation),
      (''call_stack'', c_text call_stack), (''line_info'', c_text line_info), (''extdata'', c_text extdata)]"

lemma event_step:
  assumes ok: "dp_ok env nid pid d" and c: "has_id (dp_db d) T_string category"
  obtains e d' where "insert_event env category stack parent correlation cs li ex d = Some (e, d')"
    and "dp_ok env nid pid d'" and "dp_frame d d'" and "\<not> has_id (dp_db d) T_event e"
    and "db_tables (dp_db d') T_event = db_tables (dp_db d) T_event @ [(e, event_row env category stack parent correlation cs li ex)]"
    and "\<forall>t. t \<noteq> T_event \<longrightarrow> db_tables (dp_db d') t = db_tables (dp_db d) t"
proof -
  let ?r = "event_row env category stack parent correlation cs li ex"
  have row: "row_ok (dp_db d) T_event ?r"
    using c by (simp add: row_ok_def event_row_def key_ok_def column_def)
  have "row_id (dp_db d) T_event ?r = Some (next_id (dp_db d) T_event)"
    by (simp add: row_id_def event_row_def column_def)
  from statement_step [OF ok row _ this] obtain d' where "run_statement T_event ?r d = Some d'" "dp_ok env nid pid d'" "dp_frame d d'"
      "db_tables (dp_db d') T_event = db_tables (dp_db d) T_event @ [(next_id (dp_db d) T_event, ?r)]"
      "\<forall>t. t \<noteq> T_event \<longrightarrow> db_tables (dp_db d') t = db_tables (dp_db d) t"
      "get_last_insert_id d' = next_id (dp_db d) T_event" "\<not> has_id (dp_db d) T_event (next_id (dp_db d) T_event)"
    by auto
  then show ?thesis
    by (intro that [of "next_id (dp_db d) T_event" d']) (simp_all add: insert_event_def event_row_def [symmetric])
qed

definition arg_row :: "sql_env \<Rightarrow> int \<Rightarrow> argument_info \<Rightarrow> row" where
  "arg_row env event a = [(''guid'', Sql_text (upid env)), (''event_id'', Sql_int event),
     (''position'', bound (ucast (arg_number a))), (''type'', c_text (arg_type a)), (''name'', c_text (arg_name a)),
     (''value'', c_text (arg_value a)), (''extdata'', Sql_text ''{}'')]"

lemma args_step:
  assumes "dp_ok env nid pid d" and "has_id (dp_db d) T_event event"
  obtains d' where
    "insert_all (\<lambda>a. insert_args env event (ucast (arg_number a)) (arg_type a) (arg_name a) (arg_value a)) args d = Some d'"
    and "dp_ok env nid pid d'" and "dp_frame d d'"
    and "map snd (db_tables (dp_db d') T_arg) = map snd (db_tables (dp_db d) T_arg) @ map (arg_row env event) args"
    and "\<forall>t. t \<noteq> T_arg \<longrightarrow> db_tables (dp_db d') t = db_tables (dp_db d) t"
  using assms
proof (induction args arbitrary: d thesis)
  case (Cons a args)
  let ?r = "arg_row env event a"
  have row: "row_ok (dp_db d) T_arg ?r"
    using Cons.prems(3) by (simp add: row_ok_def arg_row_def key_ok_def column_def bound_def c_text_def)
  have "row_id (dp_db d) T_arg ?r = Some (next_id (dp_db d) T_arg)"
    by (simp add: row_id_def arg_row_def column_def)
  from statement_step [OF Cons.prems(2) row _ this] obtain d1 where 1: "run_statement T_arg ?r d = Some d1"
      "dp_ok env nid pid d1" "dp_frame d d1"
      "db_tables (dp_db d1) T_arg = db_tables (dp_db d) T_arg @ [(next_id (dp_db d) T_arg, ?r)]"
      "\<forall>t. t \<noteq> T_arg \<longrightarrow> db_tables (dp_db d1) t = db_tables (dp_db d) t"
    by auto
  have "has_id (dp_db d1) T_event event"
    using Cons.prems(3) 1(5) by (simp add: has_id_def)
  from Cons.IH [OF _ 1(2) this] obtain d2 where 2:
      "insert_all (\<lambda>a. insert_args env event (ucast (arg_number a)) (arg_type a) (arg_name a) (arg_value a)) args d1 = Some d2"
      "dp_ok env nid pid d2" "dp_frame d1 d2"
      "map snd (db_tables (dp_db d2) T_arg) = map snd (db_tables (dp_db d1) T_arg) @ map (arg_row env event) args"
      "\<forall>t. t \<noteq> T_arg \<longrightarrow> db_tables (dp_db d2) t = db_tables (dp_db d1) t"
    by blast
  have run: "insert_args env event (ucast (arg_number a)) (arg_type a) (arg_name a) (arg_value a) d = Some d1"
    using 1(1) by (simp add: insert_args_def arg_row_def)
  show ?case
    by (rule Cons.prems(1) [of d2]) (use 1 2 run dp_frame_trans in \<open>auto\<close>)
qed simp

definition region_row :: "sql_env \<Rightarrow> u64 \<Rightarrow> u64 \<Rightarrow> int \<Rightarrow> u64 \<Rightarrow> u64 \<Rightarrow> int \<Rightarrow> int \<Rightarrow> row" where
  "region_row env nid pid tid start stop name event = [
     (''guid'', Sql_text (upid env)), (''nid'', bound nid), (''pid'', bound pid), (''tid'', Sql_int tid),
     (''start'', bound start), (''end'', bound stop), (''name_id'', Sql_int name), (''event_id'', Sql_int event),
     (''extdata'', Sql_text ''{}'')]"

lemma region_row_step:
  assumes ok: "dp_ok env nid pid d" and ids: "has_id (dp_db d) T_thread tid" "has_id (dp_db d) T_string name"
    "has_id (dp_db d) T_event event"
  obtains i d' where "insert_region env nid pid tid start stop name event d = Some d'" and "dp_ok env nid pid d'"
    and "dp_frame d d'"
    and "db_tables (dp_db d') T_region = db_tables (dp_db d) T_region @ [(i, region_row env nid pid tid start stop name event)]"
    and "\<forall>t. t \<noteq> T_region \<longrightarrow> db_tables (dp_db d') t = db_tables (dp_db d) t"
proof -
  let ?r = "region_row env nid pid tid start stop name event"
  have "has_id (dp_db d) T_node (sint nid)" "has_id (dp_db d) T_process (sint pid)"
    using ok by (simp_all add: dp_ok_def)
  then have row: "row_ok (dp_db d) T_region ?r"
    using ids by (simp add: row_ok_def region_row_def key_ok_def column_def bound_def)
  have "row_id (dp_db d) T_region ?r = Some (next_id (dp_db d) T_region)"
    by (simp add: row_id_def region_row_def column_def)
  from statement_step [OF ok row _ this] obtain d' where "run_statement T_region ?r d = Some d'" "dp_ok env nid pid d'" "dp_frame d d'"
      "db_tables (dp_db d') T_region = db_tables (dp_db d) T_region @ [(next_id (dp_db d) T_region, ?r)]"
      "\<forall>t. t \<noteq> T_region \<longrightarrow> db_tables (dp_db d') t = db_tables (dp_db d) t"
    by auto
  then show ?thesis
    by (intro that [of d' "next_id (dp_db d) T_region"]) (simp_all add: insert_region_def region_row_def)
qed

section \<open>A region and its rows\<close>

text \<open>What the handler needs of a sample: a registered thread, arguments that can be read, and texts that SQLite takes.\<close>

definition region_ok :: "data_processor \<Rightarrow> region_sample \<Rightarrow> bool" where
  "region_ok d s \<longleftrightarrow> dp_threads d (rs_thread_id s) \<noteq> None \<and>
     process_arguments_string (text_of (rs_args_str s)) \<noteq> None \<and>
     unquote (c_str (text_of (rs_name s))) \<noteq> None \<and> unquote (c_str (text_of (rs_category s))) \<noteq> None"

lemma view_of_new_region:
  assumes name: "\<exists>r. map_of (db_tables db T_string) n = Some r \<and> column ''string'' r = Sql_text name"
    and cat: "\<exists>r. map_of (db_tables db T_string) c = Some r \<and> column ''string'' r = Sql_text category"
    and tid: "look db T_thread ''tid'' (Sql_int k) = tv"
    and event: "map_of (db_tables db T_event) e = Some (event_row env c stack parent correlation cs li ex)"
    and args: "map snd (db_tables db T_arg) = rs @ map (arg_row env e) args" and old: "\<forall>r \<in> set rs. column ''event_id'' r \<noteq> Sql_int e"
  shows "region_view_of db (region_row env nid pid k start stop n e) =
    \<lparr>rv_name = Sql_text name, rv_category = Sql_text category, rv_tid = tv, rv_start = bound start, rv_end = bound stop,
     rv_stack = bound stack, rv_parent = bound parent, rv_call_stack = c_text cs,
     rv_args = map (\<lambda>a. (bound (ucast (arg_number a)), c_text (arg_type a), c_text (arg_name a), c_text (arg_value a))) args\<rparr>"
proof -
  have "filter (\<lambda>r. column ''event_id'' r = Sql_int e) rs = []"
    using old by (simp add: filter_empty_conv)
  then have "args_of_event db (Sql_int e) =
      map (\<lambda>a. (bound (ucast (arg_number a)), c_text (arg_type a), c_text (arg_name a), c_text (arg_value a))) args"
    by (simp add: args_of_event_def args filter_map o_def arg_row_def column_def)
  moreover have "look db T_event ''category_id'' (Sql_int e) = Sql_int c" "look db T_event ''stack_id'' (Sql_int e) = bound stack"
      "look db T_event ''parent_stack_id'' (Sql_int e) = bound parent" "look db T_event ''call_stack'' (Sql_int e) = c_text cs"
    by (simp_all add: look_def event event_row_def column_def)
  moreover have "look db T_string ''string'' (Sql_int n) = Sql_text name" "look db T_string ''string'' (Sql_int c) = Sql_text category"
    using name cat by (auto simp: look_def)
  ultimately show ?thesis
    using tid by (simp add: region_view_of_def region_row_def column_def Let_def)
qed

lemma args_of_known_events:
  assumes "keys_ok db" and "r \<in> set (map snd (db_tables db T_arg))" and "column ''event_id'' r = Sql_int e"
  shows "has_id db T_event e"
proof -
  obtain i where "(i, r) \<in> set (db_tables db T_arg)"
    using assms(2) by auto
  then have "list_all (key_ok db r) (foreign_keys T_arg)"
    using assms(1) unfolding keys_ok_def by fastforce
  then show ?thesis
    using assms(3) by (simp add: key_ok_def)
qed

text \<open>The name, the category and the event of a region.\<close>

definition string_at :: "database \<Rightarrow> int \<Rightarrow> string \<Rightarrow> bool" where
  "string_at db i s \<longleftrightarrow> (\<exists>r. map_of (db_tables db T_string) i = Some r \<and> column ''string'' r = Sql_text s)"

lemma string_at_has_id: "string_at db i s \<Longrightarrow> has_id db T_string i"
  by (auto simp: string_at_def has_id_map_of)

lemma string_at_extends: "extends db db' \<Longrightarrow> string_at db i s \<Longrightarrow> string_at db' i s"
  using map_of_extends [of db db' T_string i] string_at_has_id by (auto simp: string_at_def)

lemma named_event_step:
  assumes ok: "dp_ok env nid pid d" and nm: "unquote (c_str name) = Some nm" and ct: "unquote (c_str category) = Some ct"
  obtains n c e d1 d2 d3 where "insert_string env name d = Some (n, d1)" and "insert_string env category d1 = Some (c, d2)"
    and "insert_event env c stack parent correlation cs li ex d2 = Some (e, d3)"
    and "dp_ok env nid pid d3" and "dp_frame d d3" and "string_at (dp_db d3) n nm" and "string_at (dp_db d3) c ct"
    and "map_of (db_tables (dp_db d3) T_event) e = Some (event_row env c stack parent correlation cs li ex)"
    and "\<not> has_id (dp_db d) T_event e"
    and "\<forall>t. t \<noteq> T_string \<and> t \<noteq> T_event \<longrightarrow> db_tables (dp_db d3) t = db_tables (dp_db d) t"
proof -
  obtain n d1 where 1: "insert_string env name d = Some (n, d1)" "dp_ok env nid pid d1" "dp_frame d d1"
      "string_at (dp_db d1) n nm" "\<forall>t. t \<noteq> T_string \<longrightarrow> db_tables (dp_db d1) t = db_tables (dp_db d) t"
    using string_step [OF ok nm] unfolding string_at_def by blast
  obtain c d2 where 2: "insert_string env category d1 = Some (c, d2)" "dp_ok env nid pid d2" "dp_frame d1 d2"
      "string_at (dp_db d2) c ct" "\<forall>t. t \<noteq> T_string \<longrightarrow> db_tables (dp_db d2) t = db_tables (dp_db d1) t"
    using string_step [OF 1(2) ct] unfolding string_at_def by blast
  let ?r = "event_row env c stack parent correlation cs li ex"
  obtain e d3 where 3: "insert_event env c stack parent correlation cs li ex d2 = Some (e, d3)" "dp_ok env nid pid d3" "dp_frame d2 d3"
      "\<not> has_id (dp_db d2) T_event e" "db_tables (dp_db d3) T_event = db_tables (dp_db d2) T_event @ [(e, ?r)]"
      "\<forall>t. t \<noteq> T_event \<longrightarrow> db_tables (dp_db d3) t = db_tables (dp_db d2) t"
    using event_step [OF 2(2) string_at_has_id [OF 2(4)]] by blast
  have same: "db_tables (dp_db d2) T_event = db_tables (dp_db d) T_event"
    using 1(5) 2(5) by simp
  show ?thesis
  proof (rule that [OF 1(1) 2(1) 3(1,2)])
    show "dp_frame d d3"
      using 1(3) 2(3) 3(3) dp_frame_trans by blast
    show "string_at (dp_db d3) n nm" "string_at (dp_db d3) c ct"
      using 1(4) 2(3,4) 3(3) string_at_extends unfolding dp_frame_def by blast+
    show "map_of (db_tables (dp_db d3) T_event) e = Some ?r"
      using 3(4) by (simp add: 3(5) has_id_map_of map_add_def)
    show "\<not> has_id (dp_db d) T_event e"
      using 3(4) same by (simp add: has_id_def)
    show "\<forall>t. t \<noteq> T_string \<and> t \<noteq> T_event \<longrightarrow> db_tables (dp_db d3) t = db_tables (dp_db d) t"
      using 1(5) 2(5) 3(6) by simp
  qed
qed

lemma region_stored:
  assumes ok: "dp_ok (re_sql env) (node_id (re_node env)) (rp_pid p) (rp_data p)" and s: "region_ok (rp_data p) s"
  shows "\<exists>d'. rocpd_region env s p = Some d' \<and> dp_ok (re_sql env) (node_id (re_node env)) (rp_pid p) d' \<and>
    dp_frame (rp_data p) d' \<and> regions (dp_db d') = regions (dp_db (rp_data p)) @ [view_of_sample s]"
proof -
  let ?sql = "re_sql env" and ?nid = "node_id (re_node env)" and ?pid = "rp_pid p" and ?d = "rp_data p"
  let ?stack = "rs_correlation_id_internal s" and ?parent = "rs_correlation_id_ancestor s" and ?cs = "text_of (rs_call_stack s)"
  obtain k args nm ct where k: "dp_threads ?d (rs_thread_id s) = Some k"
    and args: "process_arguments_string (text_of (rs_args_str s)) = Some args"
    and nm: "unquote (c_str (text_of (rs_name s))) = Some nm" and ct: "unquote (c_str (text_of (rs_category s))) = Some ct"
    using s by (auto simp: region_ok_def)
  have row: "thread_at (dp_db ?d) k (rs_thread_id s)"
    using ok k by (simp add: dp_ok_def dp_core_def caches_ok_def)
  obtain n c e d1 d2 d3 where 1: "insert_string ?sql (text_of (rs_name s)) ?d = Some (n, d1)"
      "insert_string ?sql (text_of (rs_category s)) d1 = Some (c, d2)"
      "insert_event ?sql c ?stack ?parent 0 ?cs ''{}'' ''{}'' d2 = Some (e, d3)" "dp_ok ?sql ?nid ?pid d3" "dp_frame ?d d3"
      "string_at (dp_db d3) n nm" "string_at (dp_db d3) c ct"
      "map_of (db_tables (dp_db d3) T_event) e = Some (event_row ?sql c ?stack ?parent 0 ?cs ''{}'' ''{}'')"
      "\<not> has_id (dp_db ?d) T_event e"
      "\<forall>t. t \<noteq> T_string \<and> t \<noteq> T_event \<longrightarrow> db_tables (dp_db d3) t = db_tables (dp_db ?d) t"
    by (rule named_event_step [OF ok nm ct])
  have e3: "has_id (dp_db d3) T_event e"
    by (simp add: has_id_map_of 1(8))
  obtain d4 where 4: "insert_all (\<lambda>a. insert_args ?sql e (ucast (arg_number a)) (arg_type a) (arg_name a) (arg_value a)) args d3 = Some d4"
      "dp_ok ?sql ?nid ?pid d4" "dp_frame d3 d4"
      "map snd (db_tables (dp_db d4) T_arg) = map snd (db_tables (dp_db d3) T_arg) @ map (arg_row ?sql e) args"
      "\<forall>t. t \<noteq> T_arg \<longrightarrow> db_tables (dp_db d4) t = db_tables (dp_db d3) t"
    using args_step [OF 1(4) e3] by blast
  have ids: "has_id (dp_db d4) T_thread k" "has_id (dp_db d4) T_string n" "has_id (dp_db d4) T_event e"
    using thread_at_has_id [OF row] 1(10) string_at_has_id [OF 1(6)] e3 4(5) by (simp_all add: has_id_def)
  obtain i d5 where 5: "insert_region ?sql ?nid ?pid k (rs_start_timestamp s) (rs_end_timestamp s) n e d4 = Some d5"
      "dp_ok ?sql ?nid ?pid d5" "dp_frame d4 d5"
      "db_tables (dp_db d5) T_region = db_tables (dp_db d4) T_region @
        [(i, region_row ?sql ?nid ?pid k (rs_start_timestamp s) (rs_end_timestamp s) n e)]"
      "\<forall>t. t \<noteq> T_region \<longrightarrow> db_tables (dp_db d5) t = db_tables (dp_db d4) t"
    using region_row_step [OF 4(2) ids] by blast
  have frame: "dp_frame ?d d5"
    using 1(5) 4(3) 5(3) dp_frame_trans by blast
  then have ext: "extends (dp_db ?d) (dp_db d5)"
    by (simp add: dp_frame_def)
  have argrows: "map snd (db_tables (dp_db d5) T_arg) = map snd (db_tables (dp_db ?d) T_arg) @ map (arg_row ?sql e) args"
    using 1(10) 4(4) 5(5) by simp
  have kok: "keys_ok (dp_db ?d)"
    using ok by (simp add: dp_ok_def dp_core_def)
  have "region_view_of (dp_db d5) (region_row ?sql ?nid ?pid k (rs_start_timestamp s) (rs_end_timestamp s) n e) = view_of_sample s"
  proof (subst view_of_new_region)
    show "\<exists>r. map_of (db_tables (dp_db d5) T_string) n = Some r \<and> column ''string'' r = Sql_text nm"
        "\<exists>r. map_of (db_tables (dp_db d5) T_string) c = Some r \<and> column ''string'' r = Sql_text ct"
      using 1(6,7) 4(5) 5(5) by (simp_all add: string_at_def)
    show "look (dp_db d5) T_thread ''tid'' (Sql_int k) = Sql_int (uint (rs_thread_id s))"
      using row 1(10) 4(5) 5(5) by (auto simp: look_def thread_at_def)
    show "map_of (db_tables (dp_db d5) T_event) e = Some (event_row ?sql c ?stack ?parent 0 ?cs ''{}'' ''{}'')"
      using 1(8) 4(5) 5(5) by simp
    show "\<forall>r\<in>set (map snd (db_tables (dp_db ?d) T_arg)). column ''event_id'' r \<noteq> Sql_int e"
      using args_of_known_events [OF kok] 1(9) by blast
    show "map snd (db_tables (dp_db d5) T_arg) = map snd (db_tables (dp_db ?d) T_arg) @ map (arg_row ?sql e) args"
      by (rule argrows)
  qed (simp add: view_of_sample_def args nm ct)
  moreover have "new_args (dp_db ?d) (dp_db d5)"
    using argrows 1(9) by (auto simp: new_args_def arg_row_def column_def)
  ultimately have "regions (dp_db d5) = regions (dp_db ?d) @ [view_of_sample s]"
    using region_view_extends [OF ext _ kok] 1(10) 4(5) 5(4) by (auto simp: regions_def)
  then show ?thesis
    using 1(1-3) 4(1) 5(1,2) k args frame by (auto simp: rocpd_region_def map_thread_id_to_primary_key_def)
qed

text \<open>A list of regions.\<close>

definition rocpd_step :: "rocpd_env \<Rightarrow> sample \<Rightarrow> rocpd_processor option \<Rightarrow> rocpd_processor option" where
  "rocpd_step env s st = Option.bind st (\<lambda>p. map_option (\<lambda>d. p\<lparr>rp_data := d\<rparr>) (rocpd_handle env s p))"

lemma region_ok_frame: "dp_frame d d' \<Longrightarrow> region_ok d s \<Longrightarrow> region_ok d' s"
  by (simp add: region_ok_def dp_frame_def)

lemma regions_stored:
  assumes "dp_ok (re_sql env) (node_id (re_node env)) (rp_pid p) (rp_data p)" and "list_all (region_ok (rp_data p)) ss"
  shows "\<exists>d'. fold (\<lambda>s. rocpd_step env (Region s)) ss (Some p) = Some (p\<lparr>rp_data := d'\<rparr>) \<and>
    dp_ok (re_sql env) (node_id (re_node env)) (rp_pid p) d' \<and>
    regions (dp_db d') = regions (dp_db (rp_data p)) @ map view_of_sample ss"
  using assms
proof (induction ss arbitrary: p)
  case Nil
  then show ?case
    by (intro exI [of _ "rp_data p"]) simp
next
  case (Cons s ss)
  obtain d1 where 1: "rocpd_region env s p = Some d1" "dp_ok (re_sql env) (node_id (re_node env)) (rp_pid p) d1"
      "dp_frame (rp_data p) d1" "regions (dp_db d1) = regions (dp_db (rp_data p)) @ [view_of_sample s]"
    using region_stored [OF Cons.prems(1), of s] Cons.prems(2) by auto
  let ?p = "p\<lparr>rp_data := d1\<rparr>"
  have "dp_ok (re_sql env) (node_id (re_node env)) (rp_pid ?p) (rp_data ?p)" "list_all (region_ok (rp_data ?p)) ss"
    using 1(2) Cons.prems(2) region_ok_frame [OF 1(3)] by (auto simp: rp_pid_def list_all_iff)
  from Cons.IH [OF this] show ?case
    using 1 by (auto simp: rocpd_step_def rp_pid_def)
qed

section \<open>Every handler keeps the tables and their maps\<close>

lemma steps_all [dp_steps]:
  "(\<And>x d. dp_core d \<Longrightarrow> steps_to d (f x d)) \<Longrightarrow> dp_core d \<Longrightarrow> steps_to d (insert_all f xs d)"
  by (induction xs arbitrary: d) (auto intro!: steps_Some steps_bind)

lemmas steps_values [dp_steps] = steps_bind_value [where 'a = int] steps_bind_value [where 'a = string]
  steps_bind_value [where 'a = agent] steps_bind_value [where 'a = kernel_symbol] steps_bind_value [where 'a = agent_type]
  steps_bind_value [where 'a = "argument_info list"] steps_bind_value [where 'a = "gpu_metrics \<times> u8"]

lemma steps_metric [dp_steps]:
  "dp_core d \<Longrightarrow> steps_to d (insert_event_and_sample sql e b ts m d)"
  by (auto simp: insert_event_and_sample_def intro!: dp_steps)



section \<open>After the metadata\<close>

lemma query_id:
  assumes "refuses env" and "run_query env t ((''id'', Q_num n) # vals) d = Some d'"
  shows "n < 2 ^ 63" and "has_id (dp_db d') t (int n)"
proof -
  obtain vs db' where vs: "those (map (value_meaning \<circ> snd) ((''id'', Q_num n) # vals)) = Some vs"
    and ins: "insert_row t (zip (map fst ((''id'', Q_num n) # vals)) vs) (dp_db d) = Some db'" and d': "d' = d\<lparr>dp_db := db'\<rparr>"
    using assms by (rule run_queryD)
  show "n < 2 ^ 63"
    using vs by (simp split: option.splits if_splits)
  have "column ''id'' (zip (map fst ((''id'', Q_num n) # vals)) vs) = Sql_int (int n)"
    using vs by (auto simp: column_def split: option.splits if_splits)
  then have "db_last_id db' = int n"
    using ins by (auto simp: row_id_def elim!: insert_row_cases split: if_splits)
  then show "has_id (dp_db d') t (int n)"
    using last_insert_id [OF ins] by (simp add: d' has_id_map_of)
qed

lemma sint_small:
  assumes "unat (w :: u64) < 2 ^ 63"
  shows "sint w = int (unat w)"
proof -
  have "uint w < 2 ^ 63"
    using assms by (simp add: nat_less_iff flip: nat_uint_eq)
  then have "signed_take_bit 63 (uint w) = uint w"
    by (intro signed_take_bit_int_eq_self) (auto intro: order_trans [OF _ uint_ge_0])
  then show ?thesis
    by (simp add: sint_uint)
qed

lemma steps_agents: "refuses (re_sql env) \<Longrightarrow> dp_core d \<Longrightarrow> steps_to_with d (insert_agents env pid n as d)"
proof (induction as arbitrary: n d)
  case Nil
  then show ?case
    by (simp add: steps_to_with_def dp_step_refl)
next
  case (Cons a as)
  show ?case
    unfolding steps_to_with_def
  proof (intro allI impI)
    fix x d' assume "insert_agents env pid n (a # as) d = Some (x, d')"
    then obtain i d1 as' where "insert_agent_row (re_sql env) (node_id (re_node env)) pid
       (case ag_type a of GPU_agent \<Rightarrow> ''GPU'' | CPU_agent \<Rightarrow> ''CPU'') (of_nat n) (scast (ag_logical_node_id a))
       (scast (ag_logical_node_type_id a)) (ag_device_id a) (ag_name a) (ag_model_name a) (ag_vendor_name a)
       (ag_product_name a) (ag_product_name a) (ag_info a) d = Some (i, d1)" and 2: "insert_agents env pid (Suc n) as d1 = Some (as', d')"
      by (auto simp: bind_eq_Some_conv)
    then have "dp_step d d1"
      using steps_agent [OF Cons.prems] by (auto simp: steps_to_with_def)
    moreover from this have "dp_step d1 d'"
      using Cons.IH [OF Cons.prems(1) dp_step_core] 2 by (auto simp: steps_to_with_def)
    ultimately show "dp_step d d'"
      by (rule dp_step_trans)
  qed
qed

lemma steps_None [dp_steps]: "steps_to d None"
  by (simp add: steps_to_def)

lemma steps_metadata [dp_steps]:
  assumes "refuses (re_sql env)" and "dp_core d"
  shows "steps_to d (insert_text env s d)" "steps_to d (insert_thread_id env proc th d)"
    "steps_to d (insert_track_info env pid tr d)" "steps_to d (insert_code_object_info env pid am c d)"
    "steps_to d (insert_kernel_symbol_info env pid k d)" "steps_to d (insert_pmc_info env pid am pm d)"
  using assms
  by (auto simp: insert_text_def insert_thread_id_def insert_track_info_def insert_code_object_info_def
      insert_kernel_symbol_info_def insert_pmc_info_def Let_def intro!: dp_steps split: option.split prod.split)

lemma threads_registered:
  assumes r: "refuses (re_sql env)" and "dp_core d" and "insert_all (insert_thread_id env proc) ts d = Some d'" and "t \<in> set ts"
  shows "dp_threads d' (th_thread_id t) \<noteq> None"
  using assms(2-)
proof (induction ts arbitrary: d)
  case (Cons t' ts)
  obtain d1 where 1: "insert_thread_id env proc t' d = Some d1" and 2: "insert_all (insert_thread_id env proc) ts d1 = Some d'"
    using Cons.prems(2) by (auto simp: bind_eq_Some_conv)
  have s1: "dp_step d d1"
    using steps_metadata(2) [OF r Cons.prems(1)] 1 by (simp add: steps_to_def)
  have s2: "dp_step d1 d'"
    using steps_all [OF steps_metadata(2) [OF r] dp_step_core [OF s1], where xs = ts] 2 r by (auto simp: steps_to_def)
  show ?case
  proof (cases "t = t'")
    case True
    have "dp_threads d1 (th_thread_id t') \<noteq> None"
      using 1 thread_step(2) [OF r Cons.prems(1)] by (auto simp: insert_thread_id_def Let_def split: prod.splits)
    then show ?thesis
      using True s2 by (auto simp: dp_step_def map_le_def dom_def)
  next
    case False
    then show ?thesis
      using Cons.IH [OF dp_step_core [OF s1] 2] Cons.prems(3) by simp
  qed
qed simp

text \<open>None of it is a region.\<close>

definition leaves :: "data_processor \<Rightarrow> data_processor option \<Rightarrow> bool" where
  "leaves d m \<longleftrightarrow> (\<forall>d'. m = Some d' \<longrightarrow> db_tables (dp_db d') T_region = db_tables (dp_db d) T_region)"

definition leaves_with :: "data_processor \<Rightarrow> ('a \<times> data_processor) option \<Rightarrow> bool" where
  "leaves_with d m \<longleftrightarrow> leaves d (map_option snd m)"

named_theorems no_regions \<open>operations that leave the table of regions alone\<close>

lemma leaves_bind [no_regions]:
  "leaves d m \<Longrightarrow> (\<And>d'. leaves d' (k d')) \<Longrightarrow> leaves d (Option.bind m k)"
  unfolding leaves_def by (cases m) auto

lemma leaves_bind_with [no_regions]:
  "leaves_with d m \<Longrightarrow> (\<And>x d'. leaves d' (k x d')) \<Longrightarrow> leaves d (Option.bind m (\<lambda>(x, d'). k x d'))"
  unfolding leaves_def leaves_with_def by (cases m) auto

lemma leaves_bind_value: "(\<And>x. leaves d (k x)) \<Longrightarrow> leaves d (Option.bind (m :: 'a option) k)"
  unfolding leaves_def by (cases m) auto

lemmas leaves_values [no_regions] = leaves_bind_value [where 'a = agent]

lemma leaves_base [no_regions]: "leaves d None" "leaves d (Some d)" "leaves_with d m' \<Longrightarrow> leaves d (map_option snd m')"
  by (auto simp: leaves_def leaves_with_def)

lemma leaves_query [no_regions]: "refuses env \<Longrightarrow> t \<noteq> T_region \<Longrightarrow> leaves d (run_query env t vals d)"
  by (auto simp: leaves_def elim!: run_queryD insert_row_cases)

lemma leaves_statement [no_regions]: "t \<noteq> T_region \<Longrightarrow> leaves d (run_statement t r d)"
  by (auto simp: leaves_def run_statement_def elim!: insert_row_cases)

lemma leaves_string [no_regions]: "refuses env \<Longrightarrow> leaves_with d (insert_string env s d)"
  by (auto simp: leaves_with_def leaves_def insert_string_def bind_eq_Some_conv Let_def elim!: run_queryD insert_row_cases
      split: option.splits)

lemma leaves_thread [no_regions]: "refuses env \<Longrightarrow> leaves_with d (insert_thread_info env nid ppid pid tid nm s e d)"
  by (auto simp: leaves_with_def leaves_def insert_thread_info_def bind_eq_Some_conv Let_def elim!: run_queryD insert_row_cases
      split: option.splits)

lemma leaves_all [no_regions]: "(\<And>x d. leaves d (f x d)) \<Longrightarrow> leaves d (insert_all f xs d)"
  by (induction xs arbitrary: d) (auto intro!: leaves_bind leaves_base)

lemma leaves_update [no_regions]: "leaves d (Some (d\<lparr>dp_tracks := f\<rparr>))" "leaves d (Some (d\<lparr>dp_pmcs := g\<rparr>))"
  by (simp_all add: leaves_def)

lemma leaves_track [no_regions]: "refuses env \<Longrightarrow> leaves d (insert_track env name nid pid tid d)"
  by (auto simp: insert_track_def intro!: no_regions split: option.split)

lemma leaves_pmc [no_regions]: "refuses env \<Longrightarrow> leaves d (insert_pmc_description env nid pid a p d)"
  by (auto simp: insert_pmc_description_def intro!: no_regions split: option.split)

lemma leaves_agents: "refuses (re_sql env) \<Longrightarrow> leaves_with d (insert_agents env pid n as d)"
proof (induction as arbitrary: n d)
  case (Cons a as)
  have "leaves d (map_option snd (insert_agent_row sql nid pid ty ai li ti u nm m v pu us ex d))" if "refuses sql"
    for sql nid ty ai li ti u nm m v pu us ex
    using leaves_query [OF that] by (auto simp: insert_agent_row_def leaves_def)
  then show ?case
    using Cons.IH Cons.prems by (fastforce simp: leaves_with_def leaves_def bind_eq_Some_conv)
qed (simp add: leaves_with_def leaves_def)

lemma leaves_metadata [no_regions]:
  assumes "refuses (re_sql env)"
  shows "leaves d (insert_text env s d)" "leaves d (insert_thread_id env proc th d)"
    "leaves d (insert_track_info env pid tr d)" "leaves d (insert_code_object_info env pid am c d)"
    "leaves d (insert_kernel_symbol_info env pid k d)" "leaves d (insert_pmc_info env pid am pm d)"
    "leaves d (insert_queue_info (re_sql env) q nid pid nm d)" "leaves d (insert_stream_info (re_sql env) q nid pid nm d)"
  using assms
  by (auto simp: insert_text_def insert_thread_id_def insert_track_info_def insert_code_object_info_def insertion_defs
      insert_kernel_symbol_info_def insert_pmc_info_def Let_def intro!: no_regions split: option.split prod.split)

lemma lists_step: "refuses (re_sql env) \<Longrightarrow> dp_core d \<Longrightarrow> steps_to d (insert_lists env md pid am d)"
  by (auto simp: insert_lists_def Let_def intro!: dp_steps)

lemma lists_leave: "refuses (re_sql env) \<Longrightarrow> leaves d (insert_lists env md pid am d)"
  by (auto simp: insert_lists_def Let_def intro!: no_regions)

lemma leavesD: "leaves d m \<Longrightarrow> m = Some d' \<Longrightarrow> db_tables (dp_db d') T_region = db_tables (dp_db d) T_region"
  by (simp add: leaves_def)

text \<open>
  When the metadata are written the tables and the maps are in order, the rows of the node and the process
  are there, and every thread of the registry has a row.
\<close>

lemma metadata_written:
  assumes r: "refuses (re_sql env)" and g: "unquote (upid (re_sql env)) \<noteq> None" and u: "re_use_rocpd env"
    and core: "dp_core (rp_data p)" and run: "post_process_metadata env p = Some p'"
  shows "dp_ok (re_sql env) (node_id (re_node env)) (rp_pid p') (rp_data p')" and "rp_metadata p' = rp_metadata p"
    and "db_tables (dp_db (rp_data p')) T_region = db_tables (dp_db (rp_data p)) T_region"
    and "\<forall>t \<in> set (m_threads (rp_metadata p)). dp_threads (rp_data p') (th_thread_id t) \<noteq> None"
proof -
  let ?sql = "re_sql env" and ?nid = "node_id (re_node env)" and ?md = "rp_metadata p"
  let ?proc = "m_process ?md" let ?pid = "size_pid (proc_pid ?proc)"
  obtain d1 d2 as d3 d4 d5 d6 where 1: "insert_node_info ?sql (re_node env) (rp_data p) = Some d1"
    and 2: "insert_process_info ?sql ?nid (size_pid (proc_ppid ?proc)) ?pid 0 0 (ucast (proc_start ?proc)) (ucast (proc_end ?proc))
       (proc_command ?proc) d1 = Some d2"
    and 3: "insert_agents env ?pid 0 (am_agents (rp_agents p)) d2 = Some (as, d3)"
    and 4: "insert_all (insert_text env) (m_strings ?md) d3 = Some d4"
    and 5: "insert_all (insert_thread_id env ?proc) (m_threads ?md) d4 = Some d5"
    and 6: "insert_lists env ?md ?pid ((rp_agents p)\<lparr>am_agents := as\<rparr>) d5 = Some d6"
    and p': "p' = p\<lparr>rp_agents := (rp_agents p)\<lparr>am_agents := as\<rparr>, rp_data := d6\<rparr>"
    using run u by (auto simp: post_process_metadata_def bind_eq_Some_conv Let_def)
  have s1: "dp_step (rp_data p) d1"
    using steps_insertions(1) [OF r core] 1 by (simp add: steps_to_def)
  have s2: "dp_step d1 d2"
    using steps_insertions(2) [OF r dp_step_core [OF s1]] 2 by (simp add: steps_to_def)
  have s3: "dp_step d2 d3"
    using steps_agents [OF r dp_step_core [OF s2]] 3 by (simp add: steps_to_with_def)
  have s4: "dp_step d3 d4"
    using steps_all [OF steps_metadata(1) [OF r] dp_step_core [OF s3], where xs = "m_strings ?md"] 4 r by (simp add: steps_to_def)
  have s5: "dp_step d4 d5"
    using steps_all [OF steps_metadata(2) [OF r] dp_step_core [OF s4], where xs = "m_threads ?md"] 5 r by (simp add: steps_to_def)
  have s6: "dp_step d5 d6"
    using lists_step [OF r dp_step_core [OF s5]] 6 by (simp add: steps_to_def)
  have s26: "dp_step d2 d6" and s16: "dp_step d1 d6"
    using s2 s3 s4 s5 s6 dp_step_trans by blast+
  have "has_id (dp_db d1) T_node (sint ?nid)"
    using query_id [OF r 1 [unfolded insert_node_info_def]] by (simp add: sint_small)
  moreover have "has_id (dp_db d2) T_process (sint ?pid)"
    using query_id [OF r 2 [unfolded insert_process_info_def]] by (simp add: sint_small)
  ultimately show "dp_ok ?sql ?nid (rp_pid p') (rp_data p')"
    using g s26 s16 has_id_extends by (auto simp: dp_ok_def p' rp_pid_def dp_step_def)
  show "rp_metadata p' = rp_metadata p"
    by (simp add: p')
  show "db_tables (dp_db (rp_data p')) T_region = db_tables (dp_db (rp_data p)) T_region"
  proof -
    have "leaves (rp_data p) (insert_node_info ?sql (re_node env) (rp_data p))"
      using r by (simp add: insert_node_info_def no_regions)
    moreover have "leaves d1 (insert_process_info ?sql ?nid (size_pid (proc_ppid ?proc)) ?pid 0 0 (ucast (proc_start ?proc))
        (ucast (proc_end ?proc)) (proc_command ?proc) d1)"
      using r by (simp add: insert_process_info_def no_regions)
    moreover have "leaves d2 (map_option snd (insert_agents env ?pid 0 (am_agents (rp_agents p)) d2))"
      using leaves_agents [OF r] by (simp add: leaves_with_def)
    moreover have "leaves d3 (insert_all (insert_text env) (m_strings ?md) d3)"
        "leaves d4 (insert_all (insert_thread_id env ?proc) (m_threads ?md) d4)"
      by (intro no_regions r)+
    ultimately show ?thesis
      using 1 2 3 4 5 leavesD [OF lists_leave [OF r] 6] by (simp add: leaves_def p')
  qed
  show "\<forall>t \<in> set (m_threads (rp_metadata p)). dp_threads (rp_data p') (th_thread_id t) \<noteq> None"
    using threads_registered [OF r dp_step_core [OF s4] 5] s6 by (fastforce simp: dp_step_def map_le_def dom_def p')
qed

section \<open>What holds of the processor\<close>

lemma new_processor_core:
  assumes "refuses (re_sql env)" and "new_rocpd_processor env md am = Some p"
  shows "dp_core (rp_data p)" and "db_tables (dp_db (rp_data p)) T_region = []" and "rp_metadata p = md"
proof -
  let ?d = "\<lparr>dp_db = initialize_schema (re_sql env), dp_tracks = Map.empty, dp_pmcs = Map.empty, dp_threads = Map.empty,
      dp_strings = Map.empty\<rparr>"
  have core: "dp_core ?d"
    by (auto simp: dp_core_def keys_ok_def strings_ok_def caches_ok_def initialize_schema_def)
  have run: "initialize_metadata (re_sql env) ?d = Some (rp_data p)" and "rp_metadata p = md"
    using assms(2) by (auto simp: new_rocpd_processor_def new_data_processor_def)
  then show "rp_metadata p = md"
    by simp
  have "steps_to ?d (initialize_metadata (re_sql env) ?d)" "leaves ?d (initialize_metadata (re_sql env) ?d)"
    using assms(1) core by (auto simp: initialize_metadata_def intro!: steps_query leaves_query)
  then show "dp_core (rp_data p)" "db_tables (dp_db (rp_data p)) T_region = []"
    using run by (auto simp: steps_to_def dp_step_def leaves_def initialize_schema_def)
qed

text \<open>A concrete environment: texts that are no statement are refused.\<close>

definition quiet_sql :: sql_env where
  "quiet_sql = \<lparr>upid = ''u'', table_name = (\<lambda>_. ''t''), other_query = (\<lambda>_ _. None)\<rparr>"

definition quiet_env :: "string \<Rightarrow> rocpd_env" where
  "quiet_env operation = \<lparr>re_sql = quiet_sql,
     re_node = \<lparr>node_id = 1, node_hash = 2, machine_id = ''m'', system_name = ''s'', node_name = ''n'', node_release = ''r'',
       node_version = ''v'', node_machine = ''x'', domain_name = ''d''\<rparr>,
     re_use_rocpd = True, re_demangle = (\<lambda>s. s), re_operation_name = (\<lambda>_ _. Some operation), re_operation_names = [],
     re_thread_times = (\<lambda>_. None), re_context_none = 0, re_storage_file = 1, re_storage_memory = 2,
     re_double = of_int, re_double_of_float = ucast\<rparr>"







lemma c_str_plain: "CHR 0x00 \<notin> set s \<Longrightarrow> c_str s = s"
  by (auto simp: c_str_def takeWhile_eq_all_conv)

lemma operation_texts: "c_str (fst (parse_memory_operation_name name)) = fst (parse_memory_operation_name name)"
  by (rule c_str_plain) (simp add: parse_memory_operation_name_def)

lemma alloc_refused:
  assumes "c_str ty \<notin> {''ALLOC'', ''FREE'', ''REALLOC'', ''RECLAIM''}"
  shows "insert_memory_alloc env nid pid tid a ty lv s e ad al q st ev ex d = None"
  using assms
  by (auto simp: insert_memory_alloc_def run_statement_def insert_row_def row_ok_def check_ok_def column_def c_text_def
      split: option.split)

text \<open>
  C40. A scratch memory sample or an allocation whose operation is not one the schema lists, such as the
  asynchronous reclaim of scratch memory, ends the program: the check of the column refuses the row, and
  the exception meets a function that may not throw.
\<close>

theorem unlisted_operation_terminates:
  assumes "re_operation_name env (sm_kind s) (sm_operation s) = Some name"
    and "fst (parse_memory_operation_name name) \<notin> {''ALLOC'', ''FREE'', ''REALLOC'', ''RECLAIM''}"
  shows "rocpd_handle env (ScratchMemory s) p = None"
proof -
  have "insert_memory_alloc (re_sql env) nid pid tid a (fst (parse_memory_operation_name name)) lv b e ad al q st ev ex d = None"
    for nid pid tid a lv b e ad al q st ev ex d
    by (rule alloc_refused) (use assms(2) operation_texts [of name] in simp)
  then show ?thesis
    using assms(1) by (auto simp: rocpd_scratch_memory_def Let_def split_def split: option.split bind_splits)
qed

theorem unlisted_operation_terminates_witness:
  "\<forall>s p. rocpd_handle (quiet_env ''SCRATCH_MEMORY_ASYNC_RECLAIM'') (ScratchMemory s) p = None"
  by (intro allI, rule unlisted_operation_terminates [of _ _ "''SCRATCH_MEMORY_ASYNC_RECLAIM''"])
    (simp_all add: quiet_env_def parse_memory_operation_name_def)

end
