(* ===== verification/Trace_Output.thy ===== *)
theory Trace_Output
  imports Cache_Manager Rocpd_Processor
begin















end
