(* ===== verification/Spec2Isabelle.thy ===== *)
theory Spec2Isabelle
  imports Flush_Worker Md5 Binary_Info Numeric_Range Environment Instrument_Properties File_Resolve
    Category_Region Causal_Sample Perf_Event Code_Coverage Thread_Info Trace_Output
begin

text \<open>
  Verification library for rocprofiler-systems (the tree under \<open>src/source\<close>).

  \<^bold>\<open>The program.\<close> A profiler of programs on CPUs and GPUs. \<open>rocprof-sys-instrument\<close> rewrites a binary so
  that it calls the runtime library at the entries and exits of selected functions; launchers set up
  the environment of the profiled program; the runtime library keeps the state of the process and of its threads, turns the
  calls into regions, samples, and stores what it measures in a trace cache, a ring buffer that a
  worker thread flushes to a file; after the run the file is parsed and handed to output processors.
  The causal profiler slows all threads but the one that runs a selected line, and reads line tables
  of the loaded binaries to choose it.

  \<^bold>\<open>Common conventions.\<close> Unsigned integers are words of their width (\<open>u8\<close> to \<open>u64\<close>, theory
  \<open>Prelude\<close>), and sizes and counters that cannot overflow are natural numbers or integers. Undefined behaviour and exceptions are
  values: \<open>None\<close>, or the left of a sum with the error. What is not under \<open>src/\<close> is a parameter:
  Dyninst, timemory, libbfd and libdw, the file system, the clock and the allocator appear as fields
  of records (\<open>externals\<close>, \<open>instr_externals\<close>, \<open>region_env\<close> and others) or as arguments. The ordered
  containers of the C++ library are sorted lists (\<open>Ordered_Set\<close>; its locale \<open>weak_order\<close> holds
  what they need of a comparison and is interpreted for every comparison of the program that is one;
  \<open>Ordered_Map\<close> for maps),
  and \<open>std::regex\<close> is \<open>Regular_Expression\<close>.

  \<^bold>\<open>Trace cache\<close> (\<open>lib/core/trace_cache\<close>).
  \<^item> \<open>Cacheable\<close>: the codec of \<open>cacheable.hpp\<close>, one size, writer and reader per kind of value.
  \<^item> \<open>Sample_Types\<close>: the ten samples of \<open>sample_type.hpp\<close>; the locale \<open>cacheable_type\<close> is the contract of a
    sample (what is serialized is read back, in the size announced) with one interpretation per type.
  \<^item> \<open>Type_Registry\<close>, \<open>Sample_Processor\<close>, \<open>Storage_Parser\<close>: reading the file back and calling the
    handlers (\<open>type_registry.hpp\<close>, \<open>sample_processor.hpp\<close>, \<open>storage_parser.hpp\<close>).
  \<^item> \<open>Buffer_Storage\<close>: the ring buffer, its reservation with a fragment record at the end, and its
    flush (\<open>buffer_storage.hpp\<close>). \<open>Flush_Worker\<close>: the worker and the stop as a step relation
    over program counters, with all interleavings (\<open>buffer_storage.cpp\<close>).
  \<^item> \<open>Trace_Cache\<close> composes them: what is stored is what the handlers get, in order; and the ways in
    which the buffer loses data.
  \<^item> \<open>Metadata_Registry\<close>: processes, threads, counters and agents (\<open>metadata_registry.cpp\<close>,
    \<open>agent_manager.cpp\<close>) and their JSON file, with the text of the JSON library as a parameter.
    \<open>Cache_Manager\<close>: the files of all processes are found and handed to the processors of each
    format (\<open>cache_manager.cpp\<close>), down to the stores that made them.
  \<^item> \<open>Sample_Fields\<close>: the bytes inside samples, GPU metrics, frequencies and arguments, written and read
    (\<open>gpu_metrics.cpp\<close>, \<open>common_types.hpp\<close>), with the locale \<open>field_codec\<close> for the integers.
  \<^item> \<open>Rocpd_Database\<close>, \<open>Rocpd_Processor\<close>: the database of a run, with the keys and checks of its schema, the functions that
    insert and the handlers that call them (\<open>core/rocpd\<close>, \<open>rocpd_processor.cpp\<close>). Of SQLite the model has
    what the schema asks; a text that is not the statement it was meant to be is a parameter. An
    exception there is \<open>None\<close>: the handlers are called through functions that are \<open>noexcept\<close>.
  \<^item> \<open>Trace_Output\<close>: a region on its whole way, from the buffered storage to the rows of the database.

  \<^bold>\<open>Digest\<close> (\<open>lib/common/md5sum.hpp\<close>). \<open>Md5\<close>: the unrolled transform against the loop of RFC 1321,
  streaming against the digest of the whole message, and the counter and the text at their limits.

  \<^bold>\<open>Binaries\<close> (\<open>lib/core/binary\<close>, \<open>lib/binary\<close>). \<open>Address_Range\<close>: ranges and sets of ranges.
  \<open>Binary_Symbol\<close>: symbols, line tables, scope filters. \<open>Binary_Info\<close>: reading a binary, the link map.

  \<^bold>\<open>Settings and environment\<close> (\<open>lib/common\<close>, \<open>lib/core\<close>). \<open>Text_Paths\<close>: \<open>join\<close>, \<open>delimit\<close> and search paths.
  \<open>Numeric_Range\<close>: ranges of numbers in settings, as a partial function since the loop
  may not end. \<open>Environment\<close>: the environment of the launched program.

  \<^bold>\<open>Instrumenter\<close> (\<open>bin/rocprof-sys-instrument\<close>).
  \<^item> \<open>Instrument_Types\<close>: what Dyninst answers, the settings (\<open>fwd.hpp\<close>).
  \<^item> \<open>Function_Signature\<close>, \<open>Source_Lines\<close>, \<open>Symtab_Data\<close>, \<open>Insert_Points\<close>: labels, line information, symbol
    tables and insertion points (\<open>function_signature.cpp\<close>, \<open>details.cpp\<close>, \<open>rocprof-sys-instrument.hpp\<close>). The
    locale \<open>point_access\<close> is the agreement between counting and inserting.
  \<^item> \<open>Module_Function\<close>: the checks of \<open>module_function.cpp\<close> and the two decisions, as chains of checks
    that may stop; the locales \<open>const_check\<close>, \<open>speaking\<close> and \<open>silent\<close> say whether a check
    explains itself, and every check is an interpretation of one.
  \<^item> \<open>Instrument_Function\<close>, \<open>Instrument_Driver\<close>: instrumentation of functions and loops, the heuristics, the
    sets and the batches of \<open>main\<close>. \<open>Instrument_Properties\<close>: the theorems across them.
  \<^item> \<open>File_Resolve\<close>: how names become paths.

  \<^bold>\<open>Runtime library\<close> (\<open>lib/core\<close>, \<open>lib/rocprof-sys\<close>).
  \<^item> \<open>Runtime_State\<close>: the states of \<open>state.cpp\<close>; threads are shown to be isolated stack machines, which
    later theories use for one thread.
  \<^item> \<open>Containers\<close>: the vectors of \<open>core/containers\<close>, with the list a vector of chunks refines.
    \<open>Thread_Data\<close>: the data per thread, constructed once and grown in step (\<open>thread_data.hpp\<close>); the locale
    \<open>slots\<close> is what they need of a container and is interpreted on the vector of chunks.
    \<open>Thread_Info\<close>: the identifiers and lifetimes of threads (\<open>thread_info.cpp\<close>).
  \<^item> \<open>Progress_Points\<close>: the points of the causal profiler and the cache of open bundles.
  \<^item> \<open>Causal_Delay\<close>: the delays of the causal profiler and its wrappers of blocking and waking functions
    (\<open>causal/delay.cpp\<close>, \<open>blocking_gotcha.cpp\<close>, \<open>unblocking_gotcha.cpp\<close>), in whole operations and in
    atomic steps.
  \<^item> \<open>Causal_Selection\<close>: which line the causal profiler tries next (\<open>causal/data.cpp\<close>), from the filters and
    the line information of the binaries to the ring of sampled addresses and the choice among them.
  \<^item> \<open>Causal_Experiment\<close>: start, wait and stop of an experiment and the records (\<open>causal/experiment.cpp\<close>,
    \<open>sample_data.cpp\<close>), over the delays, the progress points and the selection.
  \<^item> \<open>Causal_Sample\<close>: the signal handlers (\<open>causal/components/backtrace.cpp\<close>), which join all of these: samples
    in the selected line become delays of the other threads.
  \<^item> \<open>Perf_Event\<close>: the ring buffer of the kernel and the fields of its samples (\<open>library/perf.cpp\<close>), which is
    shown to give back the records and values the kernel documents to write, and the events of
    \<open>core/perf.cpp\<close>.
  \<^item> \<open>Code_Coverage\<close>: the lines registered and reached, and their totals (\<open>coverage.cpp\<close>,
    \<open>coverage/impl.hpp\<close>); the comparison that is no order.
  \<^item> \<open>Category_Region\<close>: start and stop of regions (\<open>category_region.hpp\<close>, \<open>tracing.hpp\<close>, \<open>regions.cpp\<close>).

  \<^bold>\<open>Bounds and fuel.\<close> Loops over lists are structural. The batches of the instrumenter and the numeric
  ranges, and the wait for an eligible sample, the loop over the records of the kernel and the resizing of a vector, are partial functions of type \<open>option\<close> whose termination or divergence is a theorem. The
  parser of the cache consumes its input. No fuel is used elsewhere.

  \<^bold>\<open>Not modelled.\<close> Everything whose behaviour is that of other software: the GPU callbacks
  (\<open>rocprofiler-sdk\<close>, \<open>amd_smi\<close>), signal handlers and unwinding (\<open>sampling\<close>), symbol
  interposition (gotchas, \<open>rocprof-sys-dl\<close>), output in the format of Perfetto, what SQLite does beyond the constraints of the schema,
  the command line parsers and the listing tools, and the headers of MPI, UCX and VA-API that are copied into
  the tree. \<open>PROJECT.json\<close> lists every part with its reason.
\<close>

end
